(* ===== verification/Prelude.thy ===== *)
theory Prelude
  imports Main "HOL-Library.Char_ord" "HOL-Library.List_Lexorder"
begin

text \<open>
  Shared vocabulary of the development.

  \<^item> Failing code returns \<open>'e + 'a\<close>; \<open>sum_bind\<close> is the sequencing of two
    statements of which the first may throw.
  \<^item> A table is the list of its rows. \<open>sql_find\<close>, \<open>sql_update\<close> and
    \<open>sql_insert\<close> are the statements the services send: a first-match select, an
    \<open>UPDATE .. WHERE .. RETURNING\<close>, and an insert under a uniqueness constraint. The
    locale \<open>keyed_table\<close> is the interface of one table inside a larger state; it
    carries the compare-and-set lemmas the guarded writes rest on.
  \<^item> Decimal printing and reading of numbers, left padding, and rounding division.
\<close>

named_theorems table_simps \<open>reading a table back after a statement\<close>
named_theorems decimal_simps \<open>printing and reading decimal numbers\<close>

section \<open>Definitions\<close>

subsection \<open>Statements that may throw\<close>

definition sum_bind :: "'e + 'a \<Rightarrow> ('a \<Rightarrow> 'e + 'b) \<Rightarrow> 'e + 'b" where
  "sum_bind m f = (case m of Inl e \<Rightarrow> Inl e | Inr x \<Rightarrow> f x)"

definition throw_if :: "bool \<Rightarrow> 'e \<Rightarrow> 'e + unit" where
  "throw_if b e = (if b then Inl e else Inr ())"

fun sum_map_list :: "('a \<Rightarrow> 'e + 'b) \<Rightarrow> 'a list \<Rightarrow> 'e + 'b list" where
  "sum_map_list f [] = Inr []"
| "sum_map_list f (x # xs) =
     sum_bind (f x) (\<lambda>y. sum_bind (sum_map_list f xs) (\<lambda>ys. Inr (y # ys)))"

text \<open>\<open>x ?? null\<close> on a field that may be absent (\<open>None\<close>) or \<open>null\<close>.\<close>

definition or_null :: "'a option option \<Rightarrow> 'a option" where
  "or_null x = (case x of None \<Rightarrow> None | Some y \<Rightarrow> y)"

subsection \<open>Tables\<close>

definition sql_find :: "('r \<Rightarrow> bool) \<Rightarrow> 'r list \<Rightarrow> 'r option" where
  "sql_find p rows = find p rows"

text \<open>\<open>sql_update\<close> returns the rows of the \<open>RETURNING\<close> clause and the new table.\<close>

definition sql_update :: "('r \<Rightarrow> bool) \<Rightarrow> ('r \<Rightarrow> 'r) \<Rightarrow> 'r list \<Rightarrow> 'r list \<times> 'r list" where
  "sql_update p f rows = (map f (filter p rows), map (\<lambda>r. if p r then f r else r) rows)"

text \<open>\<open>None\<close> is a unique violation: some row already conflicts with the new one.\<close>

definition sql_insert :: "('r \<Rightarrow> 'r \<Rightarrow> bool) \<Rightarrow> 'r \<Rightarrow> 'r list \<Rightarrow> 'r list option" where
  "sql_insert conflicts r rows =
     (if list_ex (\<lambda>x. conflicts x r) rows then None else Some (rows @ [r]))"

definition row_by :: "('r \<Rightarrow> 'k) \<Rightarrow> 'k \<Rightarrow> 'r list \<Rightarrow> 'r option" where
  "row_by key k rows = sql_find (\<lambda>r. key r = k) rows"

subsection \<open>Decimal numbers\<close>

definition digit_char :: "nat \<Rightarrow> char" where
  "digit_char n = ''0123456789'' ! n"

definition digit_value :: "char \<Rightarrow> nat option" where
  "digit_value c = (let n = (of_char c :: nat) in if 48 \<le> n \<and> n < 58 then Some (n - 48) else None)"

fun string_of_nat :: "nat \<Rightarrow> string" where
  "string_of_nat n =
     (if n < 10 then [digit_char n] else string_of_nat (n div 10) @ [digit_char (n mod 10)])"

declare string_of_nat.simps [simp del]

definition string_of_int :: "int \<Rightarrow> string" where
  "string_of_int i = (if i < 0 then CHR ''-'' # string_of_nat (nat (- i)) else string_of_nat (nat i))"

fun digits_value :: "nat \<Rightarrow> string \<Rightarrow> nat option" where
  "digits_value acc [] = Some acc"
| "digits_value acc (c # cs) =
     (case digit_value c of None \<Rightarrow> None | Some d \<Rightarrow> digits_value (10 * acc + d) cs)"

definition padStart :: "nat \<Rightarrow> char \<Rightarrow> string \<Rightarrow> string" where
  "padStart n c s = replicate (n - length s) c @ s"

definition js_whitespace :: "char \<Rightarrow> bool" where
  "js_whitespace c \<longleftrightarrow> c \<in> set (map char_of [9, 10, 11, 12, 13, 32, 160 :: nat])"

definition js_trim :: "string \<Rightarrow> string" where
  "js_trim s = rev (dropWhile js_whitespace (rev (dropWhile js_whitespace s)))"

text \<open>
  \<open>Math.round (a / b)\<close> for integers with \<open>b > 0\<close>: the nearest integer, halves towards
  plus infinity.
\<close>

definition round_div :: "int \<Rightarrow> int \<Rightarrow> int" where
  "round_div a b = (2 * a + b) div (2 * b)"

section \<open>Lemmas\<close>

subsection \<open>Sums\<close>

lemma sum_bind_simps [simp]:
  "sum_bind (Inl e) f = Inl e"
  "sum_bind (Inr x) f = f x"
  by (simp_all add: sum_bind_def)

lemma sum_bind_cong [fundef_cong]:
  "m = m' \<Longrightarrow> (\<And>x. m' = Inr x \<Longrightarrow> f x = g x) \<Longrightarrow> sum_bind m f = sum_bind m' g"
  by (cases m') (auto simp: sum_bind_def)

lemma sum_bind_eq_Inr:
  "sum_bind m f = Inr y \<longleftrightarrow> (\<exists>x. m = Inr x \<and> f x = Inr y)"
  by (cases m) auto

lemma sum_bind_eq_Inl:
  "sum_bind m f = Inl e \<longleftrightarrow> m = Inl e \<or> (\<exists>x. m = Inr x \<and> f x = Inl e)"
  by (cases m) auto

lemma throw_if_simps [simp]:
  "throw_if b e = Inr u \<longleftrightarrow> \<not> b"
  "throw_if b e = Inl e' \<longleftrightarrow> b \<and> e = e'"
  "throw_if True e = Inl e"
  "throw_if False e = Inr ()"
  by (auto simp: throw_if_def)

lemma throw_if_cases:
  "sum_bind (throw_if b e) f = (if b then Inl e else f ())"
  by (simp add: throw_if_def)

lemmas sum_bind_iffs = sum_bind_eq_Inr sum_bind_eq_Inl

lemma sum_map_list_Inr:
  "sum_map_list f xs = Inr ys \<longleftrightarrow> list_all2 (\<lambda>x y. f x = Inr y) xs ys"
proof (induction xs arbitrary: ys)
  case Nil
  then show ?case by auto
next
  case (Cons x xs)
  then show ?case by (cases ys) (auto simp: sum_bind_iffs)
qed

subsection \<open>Tables\<close>

lemma sql_find_SomeD:
  assumes "sql_find p rows = Some r"
  shows "p r" and "r \<in> set rows"
  using assms by (auto simp: sql_find_def find_Some_iff)

lemma sql_find_None [table_simps]: "sql_find p rows = None \<longleftrightarrow> (\<forall>r \<in> set rows. \<not> p r)"
  by (auto simp: sql_find_def find_None_iff)

lemma row_by_SomeD:
  assumes "row_by key k rows = Some r"
  shows "key r = k" and "r \<in> set rows"
  using sql_find_SomeD [OF assms [unfolded row_by_def]] by simp_all

lemma row_by_None: "row_by key k rows = None \<longleftrightarrow> k \<notin> key ` set rows"
  by (auto simp: row_by_def table_simps)

lemma row_by_mem:
  assumes "distinct (map key rows)" and "r \<in> set rows"
  shows "row_by key (key r) rows = Some r"
  using assms by (induction rows) (auto simp: row_by_def sql_find_def image_iff)

lemma row_by_iff:
  assumes "distinct (map key rows)"
  shows "row_by key k rows = Some r \<longleftrightarrow> r \<in> set rows \<and> key r = k"
  using row_by_mem [OF assms] row_by_SomeD by metis

lemma row_by_append_new:
  "key r \<notin> key ` set rows \<Longrightarrow>
     row_by key k (rows @ [r]) = (if k = key r then Some r else row_by key k rows)"
  by (induction rows) (auto simp: row_by_def sql_find_def)

lemma sql_update_table: "snd (sql_update p f rows) = map (\<lambda>r. if p r then f r else r) rows"
  by (simp add: sql_update_def)

lemma sql_update_returning: "fst (sql_update p f rows) = map f (filter p rows)"
  by (simp add: sql_update_def)

lemma sql_update_keys:
  "(\<And>r. key (f r) = key r) \<Longrightarrow> map key (snd (sql_update p f rows)) = map key rows"
  by (simp add: sql_update_table)

lemma row_by_sql_update:
  assumes "\<And>r. key (f r) = key r"
  shows "row_by key k' (snd (sql_update (\<lambda>r. key r = k \<and> g r) f rows)) =
    map_option (\<lambda>r. if k' = k \<and> g r then f r else r) (row_by key k' rows)"
  using assms by (induction rows) (auto simp: row_by_def sql_find_def sql_update_def)

lemma sql_update_returning_key:
  assumes "distinct (map key rows)"
  shows "fst (sql_update (\<lambda>r. key r = k \<and> g r) f rows) =
    (case row_by key k rows of None \<Rightarrow> [] | Some r \<Rightarrow> if g r then [f r] else [])"
  using assms
proof (induction rows)
  case Nil
  then show ?case by (simp add: row_by_def sql_find_def sql_update_def)
next
  case (Cons a rows)
  show ?case
  proof (cases "key a = k")
    case True
    with Cons.prems have "filter (\<lambda>r. key r = k \<and> g r) rows = []"
      by (auto simp: filter_empty_conv) (metis image_eqI)
    with True show ?thesis by (simp add: row_by_def sql_find_def sql_update_def)
  next
    case False
    with Cons show ?thesis by (simp add: row_by_def sql_find_def sql_update_def)
  qed
qed

lemma sql_insert_Some:
  "sql_insert c r rows = Some rows' \<longleftrightarrow> (\<forall>x \<in> set rows. \<not> c x r) \<and> rows' = rows @ [r]"
  by (auto simp: sql_insert_def list_ex_iff)

lemma sql_insert_None: "sql_insert c r rows = None \<longleftrightarrow> (\<exists>x \<in> set rows. c x r)"
  by (auto simp: sql_insert_def list_ex_iff)

text \<open>
  One table of a larger state, addressed by its primary key. A guarded write is
  \<open>UPDATE .. WHERE key = k AND guard\<close>; the lemmas say what the winner of a race leaves
  behind and that a write whose effect falsifies its own guard happens at most once.
\<close>

locale keyed_table =
  fixes rows_of :: "'d \<Rightarrow> 'r list"
    and with_rows :: "'r list \<Rightarrow> 'd \<Rightarrow> 'd"
    and key_of :: "'r \<Rightarrow> 'k"
  assumes rows_with_rows: "rows_of (with_rows rs d) = rs"
    and with_rows_same: "with_rows (rows_of d) d = d"
begin

lemma guarded_keys:
  assumes "\<And>r. key_of (f r) = key_of r"
  shows "map key_of (rows_of (with_rows (snd (sql_update p f (rows_of d))) d)) =
    map key_of (rows_of d)"
  using sql_update_keys [of key_of f p "rows_of d"] assms by (simp add: rows_with_rows)

lemma guarded_reads:
  assumes "\<And>r. key_of (f r) = key_of r"
  shows "row_by key_of k'
      (rows_of (with_rows (snd (sql_update (\<lambda>r. key_of r = k \<and> g r) f (rows_of d))) d)) =
    map_option (\<lambda>r. if k' = k \<and> g r then f r else r) (row_by key_of k' (rows_of d))"
  using row_by_sql_update [of key_of f k' k g "rows_of d"] assms by (simp add: rows_with_rows)

lemma guarded_once:
  assumes "\<And>r. key_of (f r) = key_of r" and "\<And>r. \<not> g (f r)"
    and "d' = with_rows (snd (sql_update (\<lambda>r. key_of r = k \<and> g r) f (rows_of d))) d"
  shows "fst (sql_update (\<lambda>r. key_of r = k \<and> g r) f' (rows_of d')) = []"
  using assms by (auto simp: rows_with_rows sql_update_def filter_empty_conv)

lemma guarded_lost:
  assumes "fst (sql_update (\<lambda>r. key_of r = k \<and> g r) f (rows_of d)) = []"
  shows "with_rows (snd (sql_update (\<lambda>r. key_of r = k \<and> g r) f (rows_of d))) d = d"
proof -
  have "snd (sql_update (\<lambda>r. key_of r = k \<and> g r) f (rows_of d)) = rows_of d"
    using assms unfolding sql_update_def by (auto simp: filter_empty_conv intro!: map_idI)
  then show ?thesis by (simp add: with_rows_same)
qed

end

subsection \<open>Decimal numbers\<close>

lemma lt10_cases:
  "(n::nat) < 10 \<Longrightarrow> n = 0 \<or> n = 1 \<or> n = 2 \<or> n = 3 \<or> n = 4 \<or> n = 5 \<or> n = 6 \<or> n = 7 \<or> n = 8 \<or> n = 9"
  by arith

lemma digit_value_char [decimal_simps]: "n < 10 \<Longrightarrow> digit_value (digit_char n) = Some n"
  using lt10_cases [of n] by (auto simp: digit_char_def digit_value_def)

lemma digit_value_lt: "digit_value c = Some d \<Longrightarrow> d < 10"
  by (auto simp: digit_value_def Let_def split: if_splits)

lemma digit_value_zero [simp]: "digit_value (CHR ''0'') = Some 0"
  by (simp add: digit_value_def)

lemma digit_char_inject: "m < 10 \<Longrightarrow> n < 10 \<Longrightarrow> digit_char m = digit_char n \<longleftrightarrow> m = n"
  using digit_value_char by (metis option.inject)

lemma digit_char_less: "m < 10 \<Longrightarrow> n < 10 \<Longrightarrow> digit_char m < digit_char n \<longleftrightarrow> m < n"
  by (drule lt10_cases, drule lt10_cases, elim disjE)
    (simp_all add: digit_char_def less_char_def)

lemma digits_value_append:
  "digits_value acc (xs @ ys) = Option.bind (digits_value acc xs) (\<lambda>a. digits_value a ys)"
  by (induction xs arbitrary: acc) (auto split: option.splits)

lemma digits_value_string_of_nat [decimal_simps]: "digits_value 0 (string_of_nat n) = Some n"
proof (induction n rule: string_of_nat.induct)
  case (1 n)
  show ?case
  proof (cases "n < 10")
    case True
    then show ?thesis
      by (subst string_of_nat.simps) (simp add: decimal_simps)
  next
    case False
    with 1 show ?thesis
      by (subst string_of_nat.simps)
        (simp add: digits_value_append decimal_simps)
  qed
qed

lemma string_of_nat_inject: "string_of_nat m = string_of_nat n \<longleftrightarrow> m = n"
  using digits_value_string_of_nat by (metis option.inject)

lemma string_of_nat_ne: "string_of_nat n \<noteq> []"
  by (subst string_of_nat.simps) simp

lemma digits_value_zeros: "digits_value 0 (replicate k (CHR ''0'') @ s) = digits_value 0 s"
  by (induction k) (simp_all)

lemma digits_value_padStart [decimal_simps]:
  "digits_value 0 (padStart k (CHR ''0'') s) = digits_value 0 s"
  by (simp add: padStart_def digits_value_zeros)

lemma digit_char_digit: "n < 10 \<Longrightarrow> digit_char n \<in> set ''0123456789''"
  by (drule lt10_cases, elim disjE) (simp_all add: digit_char_def)

lemma string_of_nat_digits: "set (string_of_nat n) \<subseteq> set ''0123456789''"
proof (induction n rule: string_of_nat.induct)
  case (1 n)
  show ?case
  proof (cases "n < 10")
    case True
    then have "digit_char n \<in> set ''0123456789''" by (rule digit_char_digit)
    with True show ?thesis by (subst string_of_nat.simps) auto
  next
    case False
    have "digit_char (n mod 10) \<in> set ''0123456789''" by (rule digit_char_digit) simp
    with False 1 show ?thesis by (subst string_of_nat.simps) auto
  qed
qed

subsection \<open>Rounding\<close>

lemma round_div_bounds:
  assumes "0 < b"
  shows "2 * b * round_div a b \<le> 2 * a + b" and "2 * a + b < 2 * b * round_div a b + 2 * b"
proof -
  have "2 * a + b = 2 * b * round_div a b + (2 * a + b) mod (2 * b)"
    unfolding round_div_def by simp
  moreover have "0 \<le> (2 * a + b) mod (2 * b)" and "(2 * a + b) mod (2 * b) < 2 * b"
    using assms by simp_all
  ultimately show "2 * b * round_div a b \<le> 2 * a + b" and
    "2 * a + b < 2 * b * round_div a b + 2 * b" by linarith+
qed

lemma round_div_nonneg: "0 < b \<Longrightarrow> 0 \<le> a \<Longrightarrow> 0 \<le> round_div a b"
  by (simp add: round_div_def div_int_pos_iff)

end
