(* ===== verification/AppErrors.thy ===== *)
theory AppErrors
  imports Prelude
begin

text \<open>
  The enumerations of \<open>database/schema/enums.ts\<close>, the principals of
  \<open>identity/principal.ts\<close>, and the exceptions the services raise, as one
  datatype. A constructor is an exception class and carries what the class puts into
  \<open>meta\<close>; \<open>http_status\<close> is the status the problem
  envelope carries. Errors the driver raises (a unique, check or foreign-key violation, a number
  that does not fit its column) and any other thrown \<open>Error\<close> are constructors too, since the
  services branch on them.
\<close>

section \<open>Enumerations\<close>

datatype user_role = ADMIN | MANAGER | CASHIER | BARISTA

datatype device_status = DEV_PENDING | DEV_ACTIVE | DEV_PAUSED | DEV_REVOKED

datatype order_channel = KIOSK | COUNTER

datatype order_status =
    DRAFT | PENDING_PAYMENT | PAID | IN_PREPARATION | READY | COMPLETED
  | CANCELLED | EXPIRED | REFUNDED

datatype actor_type = USER | DEVICE | SYSTEM

datatype payment_provider = STRIPE | CASH_DRAWER

datatype payment_method = CARD | PROMPTPAY | CASH

datatype payment_status =
    PAY_PENDING | PAY_PROCESSING | PAY_SUCCEEDED | PAY_FAILED | PAY_CANCELLED | PAY_EXPIRED

datatype refund_status = REF_PENDING | REF_SUCCEEDED | REF_FAILED

datatype principal =
    StaffPrincipal (staff_userId: string) (staff_role: user_role)
  | DevicePrincipal (principal_deviceId: string)

datatype principal_role = StaffRole user_role | KIOSK_ROLE

section \<open>Exceptions\<close>

datatype selection_rule = UNKNOWN_OPTION | DUPLICATE_OPTION | MIN_SELECT | MAX_SELECT

record selection_violation =
  v_itemIndex :: nat
  v_rule :: selection_rule
  v_optionGroupId :: "string option"
  v_optionGroupName :: "string option"
  v_optionIds :: "string list option"
  v_selected :: "nat option"
  v_allowed :: "(int \<times> int) option"

datatype app_error =
    OrderInvalidTransitionError (currentStatus: order_status) (requested: order_status)
  | OrderChannelMismatchError order_channel order_channel
  | OrderDraftNotAllowedError
  | OrderItemUnavailableError (itemIds: "string list") (optionIds: "string list")
  | OptionSelectionInvalidError "selection_violation list"
  | IdempotencyConflictError
  | PriceMismatchError int int
  | IdempotencyKeyInvalidError
  | CursorInvalidError
  | ResourceNotFoundError string string
  | DependencyUnavailableError
  | DevicePausedError
  | PaymentAlreadyActiveError string
  | OrderNotPayableError order_status
  | OrderExpiredError
  | WebhookSignatureInvalidError
  | OrderAlreadyPaidError
  | CashTenderInsufficientError int int
  | RefundExceedsRemainingError int int
  | PaymentNotRefundableError
  | CashPaymentNotAllowedError
  | BusinessDayNotClosedError (rolledDay: string) (openDay: string)
  | UnprocessableRangeError
  | InvalidCredentialsError
  | TokenExpiredError
  | TokenInvalidError
  | RefreshTokenReusedError
  | ForbiddenRoleError "principal_role list"
  | PairingCodeInvalidError
  | PairingCodeExpiredError
  | DeviceRevokedError
  | DeviceNotPairedError
  | UserEmailExistsError string
  | LastAdminError
  | RateLimitedError int
  | CategoryNameExistsError string
  | CategoryUnknownError string
  | OptionGroupMinMaxInvalidError
  | OptionGroupUnknownError "string list"
  | ImageFileMissingError
  | ImageTypeUnsupportedError "string list"
  | ImageUnprocessableError
  | KeyAlreadyReserved
  | UniqueViolation
  | CheckViolation
  | ForeignKeyViolation
  | NumericOutOfRange
  | OtherError string

type_synonym 'a result = "app_error + 'a"

text \<open>The status line of the response; a driver error or a bare \<open>Error\<close> is a 500.\<close>

fun http_status :: "app_error \<Rightarrow> nat" where
  "http_status (OrderInvalidTransitionError _ _) = 409"
| "http_status (OrderChannelMismatchError _ _) = 422"
| "http_status OrderDraftNotAllowedError = 422"
| "http_status (OrderItemUnavailableError _ _) = 409"
| "http_status (OptionSelectionInvalidError _) = 422"
| "http_status IdempotencyConflictError = 409"
| "http_status (PriceMismatchError _ _) = 409"
| "http_status IdempotencyKeyInvalidError = 422"
| "http_status CursorInvalidError = 422"
| "http_status (ResourceNotFoundError _ _) = 404"
| "http_status DependencyUnavailableError = 503"
| "http_status DevicePausedError = 409"
| "http_status (PaymentAlreadyActiveError _) = 409"
| "http_status (OrderNotPayableError _) = 409"
| "http_status OrderExpiredError = 409"
| "http_status WebhookSignatureInvalidError = 400"
| "http_status OrderAlreadyPaidError = 409"
| "http_status (CashTenderInsufficientError _ _) = 422"
| "http_status (RefundExceedsRemainingError _ _) = 422"
| "http_status PaymentNotRefundableError = 409"
| "http_status CashPaymentNotAllowedError = 403"
| "http_status UnprocessableRangeError = 422"
| "http_status InvalidCredentialsError = 401"
| "http_status TokenExpiredError = 401"
| "http_status TokenInvalidError = 401"
| "http_status RefreshTokenReusedError = 401"
| "http_status (ForbiddenRoleError _) = 403"
| "http_status PairingCodeInvalidError = 401"
| "http_status PairingCodeExpiredError = 410"
| "http_status DeviceRevokedError = 401"
| "http_status DeviceNotPairedError = 409"
| "http_status (UserEmailExistsError _) = 409"
| "http_status LastAdminError = 422"
| "http_status (RateLimitedError _) = 429"
| "http_status (CategoryNameExistsError _) = 409"
| "http_status (CategoryUnknownError _) = 422"
| "http_status OptionGroupMinMaxInvalidError = 422"
| "http_status (OptionGroupUnknownError _) = 422"
| "http_status ImageFileMissingError = 422"
| "http_status (ImageTypeUnsupportedError _) = 415"
| "http_status ImageUnprocessableError = 422"
| "http_status _ = 500"

text \<open>\<open>isLostRace\<close>: the order is no longer where the caller saw it, or it is gone.\<close>

fun isLostRace :: "app_error \<Rightarrow> bool" where
  "isLostRace (OrderInvalidTransitionError _ _) = True"
| "isLostRace (ResourceNotFoundError _ _) = True"
| "isLostRace _ = False"

fun isUniqueViolation :: "app_error \<Rightarrow> bool" where
  "isUniqueViolation UniqueViolation = True"
| "isUniqueViolation _ = False"

fun isKeyAlreadyReserved :: "app_error \<Rightarrow> bool" where
  "isKeyAlreadyReserved KeyAlreadyReserved = True"
| "isKeyAlreadyReserved _ = False"

section \<open>Lemmas\<close>

lemma isUniqueViolation_iff [simp]: "isUniqueViolation e \<longleftrightarrow> e = UniqueViolation"
  by (cases e) auto

lemma isKeyAlreadyReserved_iff [simp]: "isKeyAlreadyReserved e \<longleftrightarrow> e = KeyAlreadyReserved"
  by (cases e) auto

end
