(* ===== verification/Schema.thy ===== *)
theory Schema
  imports AppErrors
begin

text \<open>
  The tables of \<open>database/schema/\<close> that the order, payment and reporting paths read and
  write, one record per table, and the constraints the services rely on: primary keys, the unique
  index on \<open>(business_day, order_number)\<close>, the unique intent and idempotency-key columns, the
  partial unique index \<open>one_live_payment\<close>, the positive-amount and actor checks, and the
  range of an \<open>integer\<close> column. An insert that breaks one returns the driver's error.
  \<open>updated_at\<close> columns and indexes that only speed a query up are left out. Timestamps are
  epoch milliseconds, except the \<open>created_at\<close> of an order, which is compared inside the
  database and is kept at its resolution, in microseconds; a \<open>date\<close> column is its \<open>YYYY-MM-DD\<close> label.
\<close>

section \<open>Rows\<close>

record category_row =
  cat_id :: string
  cat_name :: string
  cat_sortOrder :: int
  cat_isActive :: bool

record menu_item_row =
  mi_id :: string
  mi_categoryId :: string
  mi_name :: string
  mi_description :: "string option"
  mi_basePriceMinor :: int
  mi_imageUrl :: "string option"
  mi_isAvailable :: bool
  mi_sortOrder :: int

record option_group_row =
  og_id :: string
  og_name :: string
  og_minSelect :: int
  og_maxSelect :: int

record option_row =
  opt_id :: string
  opt_groupId :: string
  opt_name :: string
  opt_priceDeltaMinor :: int
  opt_isDefault :: bool
  opt_isAvailable :: bool

record item_group_link_row =
  lnk_menuItemId :: string
  lnk_optionGroupId :: string
  lnk_sortOrder :: int

record kiosk_device_row =
  dev_id :: string
  dev_status :: device_status

record order_row =
  ord_id :: string
  ord_number :: "string option"
  ord_businessDay :: string
  ord_channel :: order_channel
  ord_status :: order_status
  ord_kioskDeviceId :: "string option"
  ord_createdByUserId :: "string option"
  ord_customerName :: "string option"
  ord_subtotalMinor :: int
  ord_vatMinor :: int
  ord_totalMinor :: int
  ord_currency :: string
  ord_expiresAt :: "int option"
  ord_createdAt :: int

record order_item_row =
  oi_id :: string
  oi_orderId :: string
  oi_menuItemId :: string
  oi_nameSnapshot :: string
  oi_unitPriceMinorSnapshot :: int
  oi_quantity :: int
  oi_lineTotalMinor :: int
  oi_notes :: "string option"

record order_item_option_row =
  oio_orderItemId :: string
  oio_optionId :: string
  oio_groupNameSnapshot :: string
  oio_optionNameSnapshot :: string
  oio_priceDeltaMinorSnapshot :: int

record status_history_row =
  osh_orderId :: string
  osh_fromStatus :: "order_status option"
  osh_toStatus :: order_status
  osh_actorType :: actor_type
  osh_actorId :: "string option"
  osh_reason :: "string option"
  osh_createdAt :: int

record payment_row =
  pay_id :: string
  pay_orderId :: string
  pay_provider :: payment_provider
  pay_providerIntentId :: "string option"
  pay_method :: "payment_method option"
  pay_status :: payment_status
  pay_amountMinor :: int
  pay_currency :: string
  pay_idempotencyKey :: "string option"
  pay_cashTenderedMinor :: "int option"
  pay_createdAt :: int

record refund_row =
  ref_id :: string
  ref_paymentId :: string
  ref_amountMinor :: int
  ref_reason :: string
  ref_status :: refund_status
  ref_initiatedByUserId :: string

text \<open>
  The stored payload of an inbox row is kept in the type \<open>'p\<close> the gateway adapter interprets;
  the stored response of an idempotency key in the type \<open>'b\<close>.
\<close>

record 'p payment_event_row =
  ev_id :: string
  ev_providerEventId :: string
  ev_eventType :: string
  ev_paymentId :: "string option"
  ev_payload :: 'p
  ev_receivedAt :: int
  ev_processedAt :: "int option"
  ev_payloadTrimmedAt :: "int option"

record 'b idempotency_key_row =
  idk_key :: string
  idk_requestHash :: string
  idk_responseStatus :: "nat option"
  idk_responseBody :: "'b option"
  idk_expiresAt :: int

record ('p, 'b) db =
  categories :: "category_row list"
  menuItems :: "menu_item_row list"
  optionGroups :: "option_group_row list"
  options :: "option_row list"
  menuItemOptionGroups :: "item_group_link_row list"
  kioskDevices :: "kiosk_device_row list"
  orders :: "order_row list"
  orderItems :: "order_item_row list"
  orderItemOptions :: "order_item_option_row list"
  orderStatusHistory :: "status_history_row list"
  orderNumberCounters :: "(string \<times> int) list"
  payments :: "payment_row list"
  refunds :: "refund_row list"
  paymentEvents :: "'p payment_event_row list"
  idempotencyKeys :: "'b idempotency_key_row list"

section \<open>Constraints\<close>

text \<open>The range of a Postgres \<open>integer\<close>.\<close>

definition int4_ok :: "int \<Rightarrow> bool" where
  "int4_ok i \<longleftrightarrow> - (2 ^ 31) \<le> i \<and> i < 2 ^ 31"

definition live_status :: "payment_status \<Rightarrow> bool" where
  "live_status s \<longleftrightarrow> s = PAY_PENDING \<or> s = PAY_PROCESSING"

definition order_conflicts :: "order_row \<Rightarrow> order_row \<Rightarrow> bool" where
  "order_conflicts x r \<longleftrightarrow> ord_id x = ord_id r \<or>
     (ord_number r \<noteq> None \<and> ord_number x = ord_number r \<and>
      ord_businessDay x = ord_businessDay r)"

definition payment_conflicts :: "payment_row \<Rightarrow> payment_row \<Rightarrow> bool" where
  "payment_conflicts x r \<longleftrightarrow> pay_id x = pay_id r \<or>
     (pay_providerIntentId r \<noteq> None \<and> pay_providerIntentId x = pay_providerIntentId r) \<or>
     (pay_idempotencyKey r \<noteq> None \<and> pay_idempotencyKey x = pay_idempotencyKey r) \<or>
     (live_status (pay_status r) \<and> live_status (pay_status x) \<and> pay_orderId x = pay_orderId r)"

section \<open>Inserts\<close>

definition insert_order :: "order_row \<Rightarrow> ('p, 'b) db \<Rightarrow> ('p, 'b) db result" where
  "insert_order r d =
     (if \<not> (int4_ok (ord_subtotalMinor r) \<and> int4_ok (ord_vatMinor r) \<and> int4_ok (ord_totalMinor r))
      then Inl NumericOutOfRange
      else if ord_kioskDeviceId r = None \<and> ord_createdByUserId r = None then Inl CheckViolation
      else case sql_insert order_conflicts r (orders d) of
             None \<Rightarrow> Inl UniqueViolation
           | Some rows \<Rightarrow> Inr (d\<lparr>orders := rows\<rparr>))"

definition order_item_ok :: "order_item_row \<Rightarrow> bool" where
  "order_item_ok r \<longleftrightarrow> int4_ok (oi_unitPriceMinorSnapshot r) \<and> int4_ok (oi_lineTotalMinor r) \<and>
     int4_ok (oi_quantity r)"

fun insert_order_items :: "order_item_row list \<Rightarrow> ('p, 'b) db \<Rightarrow> ('p, 'b) db result" where
  "insert_order_items [] d = Inr d"
| "insert_order_items (r # rs) d =
     (if \<not> order_item_ok r then Inl NumericOutOfRange
      else if oi_quantity r < 1 \<or> 50 < oi_quantity r then Inl CheckViolation
      else case sql_insert (\<lambda>x y. oi_id x = oi_id y) r (orderItems d) of
             None \<Rightarrow> Inl UniqueViolation
           | Some rows \<Rightarrow> insert_order_items rs (d\<lparr>orderItems := rows\<rparr>))"

definition insert_payment_row :: "payment_row \<Rightarrow> ('p, 'b) db \<Rightarrow> ('p, 'b) db result" where
  "insert_payment_row r d =
     (if \<not> int4_ok (pay_amountMinor r) \<or> (case pay_cashTenderedMinor r of None \<Rightarrow> False | Some t \<Rightarrow> \<not> int4_ok t)
      then Inl NumericOutOfRange
      else if pay_amountMinor r \<le> 0 then Inl CheckViolation
      else if row_by ord_id (pay_orderId r) (orders d) = None then Inl ForeignKeyViolation
      else case sql_insert payment_conflicts r (payments d) of
             None \<Rightarrow> Inl UniqueViolation
           | Some rows \<Rightarrow> Inr (d\<lparr>payments := rows\<rparr>))"

definition insert_refund_row :: "refund_row \<Rightarrow> ('p, 'b) db \<Rightarrow> ('p, 'b) db result" where
  "insert_refund_row r d =
     (if \<not> int4_ok (ref_amountMinor r) then Inl NumericOutOfRange
      else if ref_amountMinor r \<le> 0 then Inl CheckViolation
      else if row_by pay_id (ref_paymentId r) (payments d) = None then Inl ForeignKeyViolation
      else case sql_insert (\<lambda>x y. ref_id x = ref_id y) r (refunds d) of
             None \<Rightarrow> Inl UniqueViolation
           | Some rows \<Rightarrow> Inr (d\<lparr>refunds := rows\<rparr>))"

text \<open>An audit-trail row is only ever appended.\<close>

definition append_history :: "status_history_row \<Rightarrow> ('p, 'b) db \<Rightarrow> ('p, 'b) db" where
  "append_history h d = d\<lparr>orderStatusHistory := orderStatusHistory d @ [h]\<rparr>"

section \<open>The tables as keyed tables\<close>

interpretation ord: keyed_table orders "\<lambda>rs d. d\<lparr>orders := rs\<rparr>" ord_id
  by unfold_locales simp_all

interpretation pay: keyed_table payments "\<lambda>rs d. d\<lparr>payments := rs\<rparr>" pay_id
  by unfold_locales simp_all

interpretation evt: keyed_table paymentEvents "\<lambda>rs d. d\<lparr>paymentEvents := rs\<rparr>" ev_id
  by unfold_locales simp_all

interpretation idk: keyed_table idempotencyKeys "\<lambda>rs d. d\<lparr>idempotencyKeys := rs\<rparr>" idk_key
  by unfold_locales simp_all

section \<open>Lemmas\<close>

lemma live_status_simps [simp]:
  "live_status PAY_PENDING" "live_status PAY_PROCESSING"
  "\<not> live_status PAY_SUCCEEDED" "\<not> live_status PAY_FAILED"
  "\<not> live_status PAY_CANCELLED" "\<not> live_status PAY_EXPIRED"
  by (simp_all add: live_status_def)

lemma insert_order_Inr:
  "insert_order r d = Inr d' \<longleftrightarrow>
     int4_ok (ord_subtotalMinor r) \<and> int4_ok (ord_vatMinor r) \<and> int4_ok (ord_totalMinor r) \<and>
     (ord_kioskDeviceId r \<noteq> None \<or> ord_createdByUserId r \<noteq> None) \<and>
     (\<forall>x \<in> set (orders d). \<not> order_conflicts x r) \<and> d' = d\<lparr>orders := orders d @ [r]\<rparr>"
  by (auto simp: insert_order_def sql_insert_Some sql_insert_None split: option.splits)

lemma insert_payment_row_Inr:
  "insert_payment_row r d = Inr d' \<longleftrightarrow>
     int4_ok (pay_amountMinor r) \<and> (\<forall>t. pay_cashTenderedMinor r = Some t \<longrightarrow> int4_ok t) \<and>
     0 < pay_amountMinor r \<and> row_by ord_id (pay_orderId r) (orders d) \<noteq> None \<and>
     (\<forall>x \<in> set (payments d). \<not> payment_conflicts x r) \<and> d' = d\<lparr>payments := payments d @ [r]\<rparr>"
  by (auto simp: insert_payment_row_def sql_insert_Some sql_insert_None split: option.splits)

lemma insert_refund_row_Inr:
  "insert_refund_row r d = Inr d' \<longleftrightarrow>
     int4_ok (ref_amountMinor r) \<and> 0 < ref_amountMinor r \<and>
     row_by pay_id (ref_paymentId r) (payments d) \<noteq> None \<and>
     (\<forall>x \<in> set (refunds d). ref_id x \<noteq> ref_id r) \<and> d' = d\<lparr>refunds := refunds d @ [r]\<rparr>"
  by (auto simp: insert_refund_row_def sql_insert_Some sql_insert_None split: option.splits)

lemma insert_order_items_Inr:
  "insert_order_items rs d = Inr d' \<Longrightarrow> d' = d\<lparr>orderItems := orderItems d @ rs\<rparr>"
proof (induction rs arbitrary: d)
  case (Cons r rs)
  then have "insert_order_items rs (d\<lparr>orderItems := orderItems d @ [r]\<rparr>) = Inr d'"
    by (auto split: if_splits option.splits simp: sql_insert_Some)
  from Cons.IH [OF this] show ?case by simp
qed simp

end
