(* ===== verification/AfterCommit.thy ===== *)
theory AfterCommit
  imports Schema
begin

text \<open>
  \<open>realtime/events/after-commit.service.ts\<close>: a transaction that buffers domain events and
  hands them to the publisher once it has committed. The state around the database is the record
  \<open>world\<close>: the tables, the events delivered to the screens, and the counters
  incremented. A transaction body is a function from the tables to an error or a result with new
  tables; an error leaves the tables as they were, which is the rollback. The publisher is not
  under the model: its verdict on a batch is the argument \<open>publish\<close>.
\<close>

section \<open>Definitions\<close>

datatype domain_event =
    order_paid (event_orderId: string) (event_deviceId: "string option")
  | order_updated (event_orderId: string) (event_deviceId: "string option")
  | order_ready (event_orderId: string) (event_deviceId: "string option")
  | payment_succeeded (event_orderId: string) (event_deviceId: "string option") (event_paymentId: string)
  | payment_failed (event_orderId: string) (event_deviceId: "string option") (event_paymentId: string)

datatype metric =
    ordersCreated_inc order_channel
  | payments_inc payment_provider payment_status
  | webhookProcessingFailures_inc
  | reconciliation_recorded int
  | reconciliation_failed

record ('p, 'b) world =
  tables :: "('p, 'b) db"
  announced :: "domain_event list"
  metrics :: "metric list"

type_synonym ('p, 'b, 'a) tx = "('p, 'b) db \<Rightarrow> ('a \<times> ('p, 'b) db) result"
type_synonym ('p, 'b, 'a) emitting_tx =
  "('p, 'b) db \<Rightarrow> ('a \<times> ('p, 'b) db \<times> domain_event list) result"

definition db_transaction :: "('p, 'b, 'a) tx \<Rightarrow> ('p, 'b) world \<Rightarrow> 'a result \<times> ('p, 'b) world" where
  "db_transaction work w =
     (case work (tables w) of
        Inl e \<Rightarrow> (Inl e, w)
      | Inr (x, d) \<Rightarrow> (Inr x, w\<lparr>tables := d\<rparr>))"

definition flush :: "(domain_event list \<Rightarrow> bool) \<Rightarrow> domain_event list \<Rightarrow> ('p, 'b) world \<Rightarrow> ('p, 'b) world" where
  "flush publish evs w = (if publish evs then w\<lparr>announced := announced w @ evs\<rparr> else w)"

definition afterCommit_run ::
  "(domain_event list \<Rightarrow> bool) \<Rightarrow> ('p, 'b, 'a) emitting_tx \<Rightarrow> ('p, 'b) world \<Rightarrow>
   'a result \<times> ('p, 'b) world" where
  "afterCommit_run publish work w =
     (case work (tables w) of
        Inl e \<Rightarrow> (Inl e, w)
      | Inr (x, d, pending) \<Rightarrow>
          (Inr x, if pending = [] then w\<lparr>tables := d\<rparr> else flush publish pending (w\<lparr>tables := d\<rparr>)))"

definition count_metric :: "metric \<Rightarrow> ('p, 'b) world \<Rightarrow> ('p, 'b) world" where
  "count_metric m w = w\<lparr>metrics := metrics w @ [m]\<rparr>"

section \<open>Lemmas\<close>

lemma flush_frame [simp]:
  "tables (flush publish evs w) = tables w"
  "metrics (flush publish evs w) = metrics w"
  by (simp_all add: flush_def)

lemma count_metric_frame [simp]:
  "tables (count_metric m w) = tables w"
  "announced (count_metric m w) = announced w"
  "metrics (count_metric m w) = metrics w @ [m]"
  by (simp_all add: count_metric_def)

lemma db_transaction_cases:
  "db_transaction work w = (Inl e, w') \<longleftrightarrow> work (tables w) = Inl e \<and> w' = w"
  "db_transaction work w = (Inr x, w') \<longleftrightarrow> (\<exists>d. work (tables w) = Inr (x, d) \<and> w' = w\<lparr>tables := d\<rparr>)"
  by (auto simp: db_transaction_def split: sum.splits)

lemma afterCommit_run_Inl:
  "afterCommit_run publish work w = (Inl e, w') \<longleftrightarrow> work (tables w) = Inl e \<and> w' = w"
  by (auto simp: afterCommit_run_def split: sum.splits)

lemma afterCommit_run_InrD:
  assumes "afterCommit_run publish work w = (Inr x, w')"
  obtains d evs where "work (tables w) = Inr (x, d, evs)" and "tables w' = d"
    and "metrics w' = metrics w"
    and "announced w' = announced w @ (if evs \<noteq> [] \<and> publish evs then evs else [])"
  using assms by (auto simp: afterCommit_run_def flush_def split: sum.splits if_splits)

text \<open>
  What the screens hear is exactly what the committed body emitted: a body that throws announces
  nothing and leaves every table as it was, and a publisher that fails changes neither the result
  nor the tables.
\<close>

lemma afterCommit_tables:
  "tables (snd (afterCommit_run publish work w)) =
     (case work (tables w) of Inl _ \<Rightarrow> tables w | Inr (_, d, _) \<Rightarrow> d)"
  by (auto simp: afterCommit_run_def split: sum.splits)

lemma afterCommit_result:
  "fst (afterCommit_run publish work w) =
     (case work (tables w) of Inl e \<Rightarrow> Inl e | Inr (x, _) \<Rightarrow> Inr x)"
  by (auto simp: afterCommit_run_def split: sum.splits)

lemma afterCommit_announced:
  "announced (snd (afterCommit_run publish work w)) =
     announced w @ (case work (tables w) of
       Inl _ \<Rightarrow> [] | Inr (_, _, evs) \<Rightarrow> if publish evs then evs else [])"
  by (auto simp: afterCommit_run_def flush_def split: sum.splits)

end
