(* ===== verification/BusinessDay.thy ===== *)
theory BusinessDay
  imports AppErrors
begin

text \<open>
  \<open>orders/business-day.ts\<close> and \<open>orders/business-hours.ts\<close>.

  The platform's calendar (\<open>Date.UTC\<close> and the UTC getters) is the one of the language
  standard: \<open>dayFromYear\<close>, \<open>makeDay\<close> and their inverse \<open>civil_of_day\<close>, on day numbers
  counted from 1970-01-01. The zone database behind \<open>Intl.DateTimeFormat\<close> is the argument
  \<open>offset\<close>: the milliseconds a zone is ahead of UTC at an instant. Instants are epoch
  milliseconds.
\<close>

section \<open>Definitions\<close>

subsection \<open>The platform's calendar\<close>

definition MILLIS_PER_DAY :: int where
  "MILLIS_PER_DAY = 24 * 60 * 60 * 1000"

definition leap_year :: "int \<Rightarrow> bool" where
  "leap_year y \<longleftrightarrow> y mod 4 = 0 \<and> (y mod 100 \<noteq> 0 \<or> y mod 400 = 0)"

definition dayFromYear :: "int \<Rightarrow> int" where
  "dayFromYear y = 365 * (y - 1970) + (y - 1969) div 4 - (y - 1901) div 100 + (y - 1601) div 400"

text \<open>Days before the month (0-based) of a year.\<close>

definition month_start :: "bool \<Rightarrow> int \<Rightarrow> int" where
  "month_start leap m =
     (if m \<le> 0 then 0 else if m = 1 then 31
      else (if leap then 1 else 0) +
        (if m = 2 then 59 else if m = 3 then 90 else if m = 4 then 120 else if m = 5 then 151
         else if m = 6 then 181 else if m = 7 then 212 else if m = 8 then 243 else if m = 9 then 273
         else if m = 10 then 304 else if m = 11 then 334 else 365))"

definition makeDay :: "int \<Rightarrow> int \<Rightarrow> int \<Rightarrow> int" where
  "makeDay year month day =
     (let y = year + month div 12; m = month mod 12
      in dayFromYear y + month_start (leap_year y) m + day - 1)"

text \<open>\<open>Date.UTC\<close> of date parts; a year from 0 to 99 means the 1900s.\<close>

definition dateUTC :: "int \<Rightarrow> int \<Rightarrow> int \<Rightarrow> int" where
  "dateUTC year month day =
     makeDay (if 0 \<le> year \<and> year \<le> 99 then 1900 + year else year) month day * MILLIS_PER_DAY"

definition year_of_day :: "int \<Rightarrow> int" where
  "year_of_day n =
     (let g = (400 * (n + 719528)) div 146097
      in if n < dayFromYear g then g - 1 else if dayFromYear (g + 1) \<le> n then g + 1 else g)"

text \<open>The month (0-based) of the \<open>k\<close>-th day of a year.\<close>

definition month_within :: "bool \<Rightarrow> int \<Rightarrow> int" where
  "month_within leap k =
     (let s = month_start leap
      in if k < s 1 then 0 else if k < s 2 then 1 else if k < s 3 then 2 else if k < s 4 then 3
         else if k < s 5 then 4 else if k < s 6 then 5 else if k < s 7 then 6 else if k < s 8 then 7
         else if k < s 9 then 8 else if k < s 10 then 9 else if k < s 11 then 10 else 11)"

definition month_of_day :: "int \<Rightarrow> int" where
  "month_of_day n = month_within (leap_year (year_of_day n)) (n - dayFromYear (year_of_day n))"

definition date_of_day :: "int \<Rightarrow> int" where
  "date_of_day n =
     n - dayFromYear (year_of_day n) - month_start (leap_year (year_of_day n)) (month_of_day n) + 1"

definition civil_of_day :: "int \<Rightarrow> int \<times> int \<times> int" where
  "civil_of_day n = (year_of_day n, month_of_day n + 1, date_of_day n)"

definition days_in_month :: "int \<Rightarrow> int \<Rightarrow> int" where
  "days_in_month y m = month_start (leap_year y) m - month_start (leap_year y) (m - 1)"

definition valid_date :: "int \<Rightarrow> int \<Rightarrow> int \<Rightarrow> bool" where
  "valid_date y m d \<longleftrightarrow> 1 \<le> m \<and> m \<le> 12 \<and> 1 \<le> d \<and> d \<le> days_in_month y m"

subsection \<open>\<open>business-day.ts\<close>\<close>

record wall_clock =
  wc_year :: int
  wc_month :: int
  wc_day :: int
  wc_hour :: int
  wc_minute :: int

definition localWallClock :: "(string \<Rightarrow> int \<Rightarrow> int) \<Rightarrow> int \<Rightarrow> string \<Rightarrow> wall_clock" where
  "localWallClock offset instant timeZone =
     (let t = instant + offset timeZone instant;
          n = t div MILLIS_PER_DAY; ms = t mod MILLIS_PER_DAY
      in \<lparr>wc_year = year_of_day n, wc_month = month_of_day n + 1, wc_day = date_of_day n,
          wc_hour = ms div 3600000, wc_minute = ms mod 3600000 div 60000\<rparr>)"

definition pad2 :: "int \<Rightarrow> string" where
  "pad2 v = padStart 2 (CHR ''0'') (string_of_int v)"

definition formatDate :: "int \<Rightarrow> int \<Rightarrow> int \<Rightarrow> string" where
  "formatDate year month day =
     string_of_int year @ ''-'' @ pad2 month @ ''-'' @ pad2 day"

text \<open>\<open>formatDate\<close> of the UTC getters of an instant.\<close>

definition formatUTC :: "int \<Rightarrow> string" where
  "formatUTC t = (case civil_of_day (t div MILLIS_PER_DAY) of (y, m, d) \<Rightarrow> formatDate y m d)"

definition businessDayOf :: "(string \<Rightarrow> int \<Rightarrow> int) \<Rightarrow> int \<Rightarrow> string \<Rightarrow> int \<Rightarrow> string" where
  "businessDayOf offset instant timeZone startHour =
     (let wc = localWallClock offset instant timeZone
      in if startHour \<le> wc_hour wc then formatDate (wc_year wc) (wc_month wc) (wc_day wc)
         else formatUTC (dateUTC (wc_year wc) (wc_month wc - 1) (wc_day wc) - MILLIS_PER_DAY))"

fun split_on :: "char \<Rightarrow> string \<Rightarrow> string list" where
  "split_on c [] = [[]]"
| "split_on c (x # xs) =
     (if x = c then [] # split_on c xs
      else (case split_on c xs of [] \<Rightarrow> [[x]] | w # ws \<Rightarrow> (x # w) # ws))"

text \<open>
  \<open>Number\<close> of a decimal digit string (the empty string is 0); \<open>None\<close> is NaN. The labels
  come from a \<open>date\<close> column, so no other numeral syntax reaches it.
\<close>

definition js_number :: "string \<Rightarrow> int option" where
  "js_number s = map_option int (digits_value 0 s)"

text \<open>\<open>businessDay.split('-').map(Number)\<close>, and the instant of the label; \<open>None\<close> is NaN.\<close>

definition label_instant :: "string \<Rightarrow> int option" where
  "label_instant s =
     (case map js_number (split_on (CHR ''-'') s) of
        Some y # Some m # Some d # _ \<Rightarrow> Some (dateUTC y (m - 1) d)
      | _ \<Rightarrow> None)"

definition minusDays :: "string \<Rightarrow> int \<Rightarrow> string" where
  "minusDays businessDay days =
     (case label_instant businessDay of
        None \<Rightarrow> ''NaN-NaN-NaN''
      | Some t \<Rightarrow> formatUTC (t - days * MILLIS_PER_DAY))"

text \<open>The loop of \<open>eachBusinessDay\<close>: the cursor advances by a day until it passes the end.\<close>

function days_from :: "int \<Rightarrow> int \<Rightarrow> string list" where
  "days_from cursor end =
     (if cursor \<le> end then formatUTC cursor # days_from (cursor + MILLIS_PER_DAY) end else [])"
  by pat_completeness auto
termination
  by (relation "measure (\<lambda>(c, e). nat (e + 1 - c))") (auto simp: MILLIS_PER_DAY_def)

declare days_from.simps [simp del]

definition eachBusinessDay :: "string \<Rightarrow> string \<Rightarrow> string list" where
  "eachBusinessDay start finish =
     (case (label_instant start, label_instant finish) of
        (Some a, Some b) \<Rightarrow> days_from a b
      | _ \<Rightarrow> [])"

subsection \<open>\<open>business-hours.ts\<close>\<close>

record opening_hours =
  oh_timeZone :: string
  oh_open :: string
  oh_close :: string

text \<open>\<open>CLOCK_TIME\<close> and \<open>minutesOf\<close>: \<open>HH:MM\<close> with hours 00-23 and minutes 00-59.\<close>

fun minutesOf :: "string \<Rightarrow> int result" where
  "minutesOf [a, b, c, d, e] =
     (case (digit_value a, digit_value b, digit_value d, digit_value e) of
        (Some h1, Some h0, Some m1, Some m0) \<Rightarrow>
          if c = CHR '':'' \<and> (h1 \<le> 1 \<or> (h1 = 2 \<and> h0 \<le> 3)) \<and> m1 \<le> 5
          then Inr (int (10 * h1 + h0) * 60 + int (10 * m1 + m0))
          else Inl (OtherError ''not a 24-hour HH:MM time'')
      | _ \<Rightarrow> Inl (OtherError ''not a 24-hour HH:MM time''))"
| "minutesOf _ = Inl (OtherError ''not a 24-hour HH:MM time'')"

definition minuteOfDay :: "(string \<Rightarrow> int \<Rightarrow> int) \<Rightarrow> int \<Rightarrow> string \<Rightarrow> int" where
  "minuteOfDay offset instant timeZone =
     (let wc = localWallClock offset instant timeZone in wc_hour wc * 60 + wc_minute wc)"

definition isOpenAt :: "(string \<Rightarrow> int \<Rightarrow> int) \<Rightarrow> int \<Rightarrow> opening_hours \<Rightarrow> bool result" where
  "isOpenAt offset instant hours =
     (let now = minuteOfDay offset instant (oh_timeZone hours) in
      sum_bind (minutesOf (oh_open hours)) (\<lambda>open_at.
      sum_bind (minutesOf (oh_close hours)) (\<lambda>close_at.
        Inr (if open_at < close_at then open_at \<le> now \<and> now < close_at
             else open_at \<le> now \<or> now < close_at))))"

subsection \<open>The label of a day number\<close>

definition day_label :: "int \<Rightarrow> string" where
  "day_label n = (case civil_of_day n of (y, m, d) \<Rightarrow> formatDate y m d)"

text \<open>Days whose year is written with exactly four digits.\<close>

definition four_digit_day :: "int \<Rightarrow> bool" where
  "four_digit_day n \<longleftrightarrow> 1000 \<le> year_of_day n \<and> year_of_day n \<le> 9999"

section \<open>Lemmas\<close>

subsection \<open>The calendar\<close>

lemma int_div_bounds:
  fixes a k :: int
  assumes "0 < k"
  shows "k * (a div k) \<le> a" and "a < k * (a div k) + k"
proof -
  have "a = k * (a div k) + a mod k" by simp
  moreover have "0 \<le> a mod k" and "a mod k < k" using assms by simp_all
  ultimately show "k * (a div k) \<le> a" and "a < k * (a div k) + k" by linarith+
qed

lemma int_div_step:
  fixes a k :: int
  assumes "0 < k"
  shows "(a + 1) div k = a div k + (if (a + 1) mod k = 0 then 1 else 0)"
proof (cases "(a + 1) mod k = 0")
  case True
  have "a = k * ((a + 1) div k - 1) + (k - 1)"
    using True div_mult_mod_eq [of "a + 1" k] by (simp add: algebra_simps)
  then have "a div k = (a + 1) div k - 1"
    using assms by (intro int_div_pos_eq [of _ _ _ "k - 1"]) auto
  with True show ?thesis by simp
next
  case False
  have "0 \<le> (a + 1) mod k" "(a + 1) mod k < k" using assms by simp_all
  moreover have "a = k * ((a + 1) div k) + ((a + 1) mod k - 1)"
    using div_mult_mod_eq [of "a + 1" k] by (simp add: algebra_simps)
  ultimately have "a div k = (a + 1) div k"
    using False by (intro int_div_pos_eq [of _ _ _ "(a + 1) mod k - 1"]) auto
  with False show ?thesis by simp
qed

lemma mod_shift: "(c::int) mod k = 0 \<Longrightarrow> (y - c) mod k = y mod k"
  by (metis diff_zero mod_diff_right_eq)

lemma div4_step:
  "(y + 1 - 1969) div 4 = (y - 1969) div 4 + (if (y::int) mod 4 = 0 then 1 else 0)"
  using int_div_step [of 4 "y - 1969"] mod_shift [of 1968 4 y] by simp

lemma div100_step:
  "(y + 1 - 1901) div 100 = (y - 1901) div 100 + (if (y::int) mod 100 = 0 then 1 else 0)"
  using int_div_step [of 100 "y - 1901"] mod_shift [of 1900 100 y] by simp

lemma div400_step:
  "(y + 1 - 1601) div 400 = (y - 1601) div 400 + (if (y::int) mod 400 = 0 then 1 else 0)"
  using int_div_step [of 400 "y - 1601"] mod_shift [of 1600 400 y] by simp

lemma mod400_mod100: "(y::int) mod 400 = 0 \<Longrightarrow> y mod 100 = 0"
  using dvd_trans [of 100 400 y] by (simp add: mod_eq_0_iff_dvd)

lemma mod100_mod4: "(y::int) mod 100 = 0 \<Longrightarrow> y mod 4 = 0"
  using dvd_trans [of 4 100 y] by (simp add: mod_eq_0_iff_dvd)

lemma year_sum_step:
  fixes y p q r a b c :: int
  shows "365 * (y + 1 - 1970) + (p + a) - (q + b) + (r + c) =
    365 * (y - 1970) + p - q + r + (365 + a - b + c)"
  by simp

lemma dayFromYear_Suc: "dayFromYear (y + 1) = dayFromYear y + (if leap_year y then 366 else 365)"
proof -
  have "dayFromYear (y + 1) = dayFromYear y + (365 + (if y mod 4 = 0 then 1 else 0)
      - (if y mod 100 = 0 then 1 else 0) + (if y mod 400 = 0 then 1 else 0))"
    unfolding dayFromYear_def div4_step div100_step div400_step by (rule year_sum_step)
  then show ?thesis
    using mod400_mod100 [of y] mod100_mod4 [of y]
    by (cases "y mod 4 = 0"; cases "y mod 100 = 0"; cases "y mod 400 = 0") (simp_all add: leap_year_def)
qed

lemma dayFromYear_less_Suc: "dayFromYear y < dayFromYear (y + 1)"
  by (simp add: dayFromYear_Suc)

lemma dayFromYear_mono: "x \<le> y \<Longrightarrow> dayFromYear x \<le> dayFromYear y"
proof (induction y rule: int_ge_induct)
  case base
  then show ?case by simp
next
  case (step y)
  then show ?case using dayFromYear_less_Suc [of y] by linarith
qed

lemma dayFromYear_strict: "x < y \<Longrightarrow> dayFromYear x < dayFromYear y"
  using dayFromYear_mono [of "x + 1" y] dayFromYear_less_Suc [of x] by linarith

lemma dayFromYear_approx:
  "146097 * y - 287811596 \<le> 400 * dayFromYear y"
  "400 * dayFromYear y \<le> 146097 * y - 287810501"
proof -
  define p q r where "p = (y - 1969) div 4" and "q = (y - 1901) div 100" and "r = (y - 1601) div 400"
  have "4 * p \<le> y - 1969" "y - 1969 < 4 * p + 4"
    "100 * q \<le> y - 1901" "y - 1901 < 100 * q + 100"
    "400 * r \<le> y - 1601" "y - 1601 < 400 * r + 400"
    unfolding p_def q_def r_def by (rule int_div_bounds, simp)+
  moreover have "dayFromYear y = 365 * y - 719050 + p - q + r"
    by (simp add: dayFromYear_def p_def q_def r_def)
  ultimately show "146097 * y - 287811596 \<le> 400 * dayFromYear y"
    "400 * dayFromYear y \<le> 146097 * y - 287810501" by linarith+
qed

lemma year_of_day_bounds:
  shows "dayFromYear (year_of_day n) \<le> n" and "n < dayFromYear (year_of_day n + 1)"
proof -
  define g where "g = (400 * (n + 719528)) div 146097"
  have g: "146097 * g \<le> 400 * n + 287811200" "400 * n + 287811200 < 146097 * g + 146097"
    using int_div_bounds [of 146097 "400 * (n + 719528)"] by (simp_all add: g_def)
  have lo: "dayFromYear (g - 1) \<le> n"
    using g dayFromYear_approx(2) [of "g - 1"] by simp
  have hi: "n < dayFromYear (g + 1 + 1)"
    using g dayFromYear_approx(1) [of "g + 1 + 1"] by simp
  show "dayFromYear (year_of_day n) \<le> n" and "n < dayFromYear (year_of_day n + 1)"
    using lo hi unfolding year_of_day_def Let_def g_def [symmetric] by auto
qed

lemma year_of_day_eq:
  assumes "dayFromYear y \<le> n" and "n < dayFromYear (y + 1)"
  shows "year_of_day n = y"
proof (rule ccontr)
  assume "year_of_day n \<noteq> y"
  then consider "year_of_day n + 1 \<le> y" | "y + 1 \<le> year_of_day n" by linarith
  then show False
    using dayFromYear_mono [of "year_of_day n + 1" y] dayFromYear_mono [of "y + 1" "year_of_day n"]
      year_of_day_bounds [of n] assms by cases linarith+
qed

lemma year_len: "dayFromYear (y + 1) - dayFromYear y = month_start (leap_year y) 12"
  by (simp add: dayFromYear_Suc month_start_def)

lemma month_within_range: "0 \<le> month_within l k" "month_within l k \<le> 11"
  by (simp_all add: month_within_def Let_def)

lemma month_start_values:
  "month_start l 0 = 0" "month_start l 1 = 31" "month_start l 2 = 59 + of_bool l"
  "month_start l 3 = 90 + of_bool l" "month_start l 4 = 120 + of_bool l"
  "month_start l 5 = 151 + of_bool l" "month_start l 6 = 181 + of_bool l"
  "month_start l 7 = 212 + of_bool l" "month_start l 8 = 243 + of_bool l"
  "month_start l 9 = 273 + of_bool l" "month_start l 10 = 304 + of_bool l"
  "month_start l 11 = 334 + of_bool l" "month_start l 12 = 365 + of_bool l"
  by (simp_all add: month_start_def)

lemma month_within_bounds:
  assumes "0 \<le> k" and "k < month_start l 12"
  shows "month_start l (month_within l k) \<le> k" and "k < month_start l (month_within l k + 1)"
  using assms by (simp_all add: month_within_def Let_def month_start_values)

lemma month_of_day_range: "0 \<le> month_of_day n" "month_of_day n \<le> 11"
  by (simp_all add: month_of_day_def month_within_range)

lemma month_of_day_bounds:
  fixes n :: int
  defines "y \<equiv> year_of_day n"
  shows "month_start (leap_year y) (month_of_day n) \<le> n - dayFromYear y"
    and "n - dayFromYear y < month_start (leap_year y) (month_of_day n + 1)"
proof -
  have k: "0 \<le> n - dayFromYear y" "n - dayFromYear y < month_start (leap_year y) 12"
    using year_of_day_bounds [of n] year_len [of y] by (simp_all add: y_def)
  show "month_start (leap_year y) (month_of_day n) \<le> n - dayFromYear y"
    and "n - dayFromYear y < month_start (leap_year y) (month_of_day n + 1)"
    unfolding month_of_day_def y_def [symmetric] by (rule month_within_bounds [OF k])+
qed

lemma civil_of_day_valid:
  assumes "civil_of_day n = (y, m, d)"
  shows "valid_date y m d" and "makeDay y (m - 1) d = n"
proof -
  have eq: "y = year_of_day n" "m = month_of_day n + 1" "d = date_of_day n"
    using assms by (simp_all add: civil_of_day_def)
  show "valid_date y m d"
    using month_of_day_range [of n] month_of_day_bounds [of n]
    by (simp add: valid_date_def days_in_month_def date_of_day_def eq)
  show "makeDay y (m - 1) d = n"
    using month_of_day_range [of n] by (simp add: makeDay_def Let_def date_of_day_def eq)
qed

lemma month_cases:
  "0 \<le> m \<Longrightarrow> m < 12 \<Longrightarrow> (m::int) = 0 \<or> m = 1 \<or> m = 2 \<or> m = 3 \<or> m = 4 \<or> m = 5 \<or> m = 6 \<or>
     m = 7 \<or> m = 8 \<or> m = 9 \<or> m = 10 \<or> m = 11"
  by presburger

lemma month_start_Suc: "0 \<le> m \<Longrightarrow> m < 12 \<Longrightarrow> month_start l m < month_start l (m + 1)"
  by (drule (1) month_cases, elim disjE) (simp_all add: month_start_def)

lemma month_start_mono_le:
  assumes "m \<le> m'" "0 \<le> m" "m' \<le> 12"
  shows "month_start l m \<le> month_start l m'"
  using assms
proof (induction m' rule: int_ge_induct)
  case base
  then show ?case by simp
next
  case (step m')
  then show ?case using month_start_Suc [of m' l] by linarith
qed

lemma makeDay_plain:
  "1 \<le> m \<Longrightarrow> m \<le> 12 \<Longrightarrow>
     makeDay y (m - 1) d = dayFromYear y + month_start (leap_year y) (m - 1) + d - 1"
  by (simp add: makeDay_def Let_def)

lemma civil_of_makeDay:
  assumes "valid_date y m d"
  shows "civil_of_day (makeDay y (m - 1) d) = (y, m, d)"
proof -
  define n where "n = makeDay y (m - 1) d"
  have m: "1 \<le> m" "m \<le> 12" and d: "1 \<le> d"
    "d \<le> month_start (leap_year y) m - month_start (leap_year y) (m - 1)"
    using assms by (auto simp: valid_date_def days_in_month_def)
  have n: "n = dayFromYear y + month_start (leap_year y) (m - 1) + d - 1"
    using m by (simp add: n_def makeDay_plain)
  have k: "month_start (leap_year y) (m - 1) \<le> n - dayFromYear y"
    "n - dayFromYear y < month_start (leap_year y) m"
    using n d by linarith+
  have ge: "0 \<le> month_start (leap_year y) (m - 1)"
    using m month_start_mono_le [of 0 "m - 1" "leap_year y"] by (simp add: month_start_def [of _ 0])
  have le: "month_start (leap_year y) m \<le> month_start (leap_year y) 12"
    using m month_start_mono_le [of m 12 "leap_year y"] by simp
  have y: "year_of_day n = y"
    by (rule year_of_day_eq) (use k ge le year_len [of y] in linarith)+
  have mm: "month_of_day n = m - 1"
  proof (rule ccontr)
    assume neq: "month_of_day n \<noteq> m - 1"
    have b: "month_start (leap_year y) (month_of_day n) \<le> n - dayFromYear y"
      "n - dayFromYear y < month_start (leap_year y) (month_of_day n + 1)"
      using month_of_day_bounds [of n] by (simp_all add: y)
    from neq consider "month_of_day n + 1 \<le> m - 1" | "m \<le> month_of_day n" by linarith
    then show False
      using month_start_mono_le [of "month_of_day n + 1" "m - 1" "leap_year y"]
        month_start_mono_le [of m "month_of_day n" "leap_year y"]
        month_of_day_range [of n] b k m by cases linarith+
  qed
  have "date_of_day n = d"
    unfolding date_of_day_def y mm using n by linarith
  then show ?thesis
    by (simp add: civil_of_day_def y mm n_def [symmetric])
qed

lemma days_in_month_le: "1 \<le> m \<Longrightarrow> m \<le> 12 \<Longrightarrow> days_in_month y m \<le> 31"
  using month_cases [of "m - 1"] by (auto simp: days_in_month_def month_start_def)

subsection \<open>Labels\<close>

lemma split_on_plain: "c \<notin> set s \<Longrightarrow> split_on c s = [s]"
  by (induction s) auto

lemma split_on_append: "c \<notin> set w \<Longrightarrow> split_on c (w @ c # s) = w # split_on c s"
  by (induction w) auto

lemma dash_not_digit: "CHR ''-'' \<notin> set ''0123456789''"
  by simp

lemma string_of_int_nonneg: "0 \<le> i \<Longrightarrow> string_of_int i = string_of_nat (nat i)"
  by (simp add: string_of_int_def)

lemma no_dash_string_of_int: "0 \<le> i \<Longrightarrow> CHR ''-'' \<notin> set (string_of_int i)"
  using string_of_nat_digits [of "nat i"] dash_not_digit by (auto simp: string_of_int_nonneg)

lemma no_dash_pad2: "0 \<le> i \<Longrightarrow> CHR ''-'' \<notin> set (pad2 i)"
  using no_dash_string_of_int [of i] by (auto simp: pad2_def padStart_def)

lemma js_number_string_of_int: "0 \<le> i \<Longrightarrow> js_number (string_of_int i) = Some i"
  by (simp add: js_number_def string_of_int_nonneg decimal_simps)

lemma js_number_pad2: "0 \<le> i \<Longrightarrow> js_number (pad2 i) = Some i"
  by (simp add: js_number_def pad2_def decimal_simps string_of_int_nonneg)

lemma label_instant_formatDate:
  assumes "0 \<le> y" "0 \<le> m" "0 \<le> d"
  shows "label_instant (formatDate y m d) = Some (dateUTC y (m - 1) d)"
proof -
  have "split_on (CHR ''-'') (formatDate y m d) = [string_of_int y, pad2 m, pad2 d]"
    using assms no_dash_string_of_int no_dash_pad2
    by (simp add: formatDate_def split_on_append split_on_plain)
  then show ?thesis
    using assms by (simp add: label_instant_def js_number_string_of_int js_number_pad2)
qed

lemma MILLIS_PER_DAY_pos [simp]: "0 < MILLIS_PER_DAY"
  by (simp add: MILLIS_PER_DAY_def)

lemma day_label_instant:
  assumes "100 \<le> year_of_day n"
  shows "label_instant (day_label n) = Some (n * MILLIS_PER_DAY)"
proof -
  obtain y m d where c: "civil_of_day n = (y, m, d)" by (cases "civil_of_day n") auto
  then have y: "y = year_of_day n" by (simp add: civil_of_day_def)
  note v = civil_of_day_valid [OF c]
  have "1 \<le> m" "1 \<le> d" using v(1) by (auto simp: valid_date_def)
  then show ?thesis
    using assms v(2) y by (simp add: day_label_def c label_instant_formatDate dateUTC_def)
qed

lemma formatUTC_day: "formatUTC (n * MILLIS_PER_DAY) = day_label n"
  by (simp add: formatUTC_def day_label_def MILLIS_PER_DAY_def)

lemma minusDays_day:
  assumes "100 \<le> year_of_day n"
  shows "minusDays (day_label n) k = day_label (n - k)"
  using formatUTC_day [of "n - k"]
  by (simp add: minusDays_def day_label_instant [OF assms] left_diff_distrib)

lemma days_from_labels: "days_from (a * MILLIS_PER_DAY) (b * MILLIS_PER_DAY) = map day_label [a..b]"
proof (induction "nat (b + 1 - a)" arbitrary: a)
  case 0
  then show ?case by (subst days_from.simps) simp
next
  case (Suc k)
  then have "a \<le> b" by simp
  moreover have "days_from ((a + 1) * MILLIS_PER_DAY) (b * MILLIS_PER_DAY) = map day_label [a + 1..b]"
    using Suc.hyps(2) by (intro Suc.hyps(1)) simp
  ultimately show ?case
    by (subst days_from.simps) (simp add: formatUTC_day upto_rec1 distrib_right)
qed

lemma eachBusinessDay_labels:
  assumes "100 \<le> year_of_day a" "100 \<le> year_of_day b"
  shows "eachBusinessDay (day_label a) (day_label b) = map day_label [a..b]"
  by (simp add: eachBusinessDay_def day_label_instant assms days_from_labels)

lemma businessDayOf_shifted:
  assumes h: "0 \<le> startHour" "startHour \<le> 23"
    and y: "100 \<le> year_of_day ((instant + offset tz instant) div MILLIS_PER_DAY)"
  shows "businessDayOf offset instant tz startHour =
    day_label ((instant + offset tz instant - startHour * 3600000) div MILLIS_PER_DAY)"
proof -
  define t where "t = instant + offset tz instant"
  define n where "n = t div MILLIS_PER_DAY"
  define ms where "ms = t mod MILLIS_PER_DAY"
  have t: "t = n * MILLIS_PER_DAY + ms" by (simp add: n_def ms_def)
  have ms: "0 \<le> ms" "ms < 86400000" by (simp_all add: ms_def MILLIS_PER_DAY_def)
  define hour where "hour = ms div 3600000"
  have hr: "3600000 * hour \<le> ms" "ms < 3600000 * hour + 3600000"
    using int_div_bounds [of 3600000 ms] by (simp_all add: hour_def)
  obtain yy m d where c: "civil_of_day n = (yy, m, d)" by (cases "civil_of_day n") auto
  then have parts: "yy = year_of_day n" "m = month_of_day n + 1" "d = date_of_day n"
    by (simp_all add: civil_of_day_def)
  have wc: "localWallClock offset instant tz = \<lparr>wc_year = yy, wc_month = m, wc_day = d,
      wc_hour = hour, wc_minute = ms mod 3600000 div 60000\<rparr>"
    unfolding localWallClock_def Let_def t_def [symmetric] n_def [symmetric] ms_def [symmetric]
    by (simp add: parts hour_def)
  show ?thesis
  proof (cases "startHour \<le> hour")
    case True
    have "(t - startHour * 3600000) div MILLIS_PER_DAY = n"
      using True ms hr h
      by (intro int_div_pos_eq [of _ _ _ "ms - startHour * 3600000"])
        (auto simp: t MILLIS_PER_DAY_def)
    with True show ?thesis
      by (simp add: businessDayOf_def wc day_label_def c t_def)
  next
    case False
    have "(t - startHour * 3600000) div MILLIS_PER_DAY = n - 1"
      using False ms hr h
      by (intro int_div_pos_eq [of _ _ _ "ms - startHour * 3600000 + 86400000"])
        (auto simp: t MILLIS_PER_DAY_def)
    moreover have "dateUTC yy (m - 1) d - MILLIS_PER_DAY = (n - 1) * MILLIS_PER_DAY"
      using civil_of_day_valid(2) [OF c] y parts
      by (simp add: dateUTC_def left_diff_distrib n_def t_def)
    ultimately show ?thesis
      using False by (simp add: businessDayOf_def wc formatUTC_day t_def [symmetric])
  qed
qed

subsection \<open>Order of labels\<close>

lemma append_less_append:
  fixes a a' b b' :: "string"
  assumes "length a = length a'"
  shows "a @ b < a' @ b' \<longleftrightarrow> a < a' \<or> a = a' \<and> b < b'"
  using assms by (induction a a' rule: list_induct2) auto

lemma string_of_nat_small: "n < 10 \<Longrightarrow> string_of_nat n = [digit_char n]"
  by (simp add: string_of_nat.simps)

lemma string_of_nat_step:
  "10 \<le> n \<Longrightarrow> string_of_nat n = string_of_nat (n div 10) @ [digit_char (n mod 10)]"
  by (subst string_of_nat.simps) simp

lemma pad2_digits:
  assumes "0 \<le> i" "i < 100"
  shows "pad2 i = [digit_char (nat i div 10), digit_char (nat i mod 10)]"
proof (cases "i < 10")
  case True
  with assms show ?thesis
    by (simp add: pad2_def string_of_int_nonneg string_of_nat_small padStart_def digit_char_def)
next
  case False
  with assms show ?thesis
    by (simp add: pad2_def string_of_int_nonneg string_of_nat_step string_of_nat_small padStart_def)
qed

lemma div_mod_less:
  fixes m n k :: nat
  assumes "0 < k"
  shows "m < n \<longleftrightarrow> m div k < n div k \<or> m div k = n div k \<and> m mod k < n mod k"
proof (cases "m div k = n div k")
  case True
  have "m < n \<longleftrightarrow> m mod k < n mod k"
    by (metis True add_less_cancel_left div_mult_mod_eq)
  with True show ?thesis by simp
next
  case False
  then show ?thesis
    using div_le_mono [of m n k] div_le_mono [of n m k] by (cases "m < n") auto
qed

lemma two_digits_less:
  assumes "m < 100" "n < 100"
  shows "[digit_char (m div 10), digit_char (m mod 10)] < [digit_char (n div 10), digit_char (n mod 10)]
    \<longleftrightarrow> m < n"
proof -
  have "m div 10 < 10" "n div 10 < 10" "m mod 10 < 10" "n mod 10 < 10" using assms by auto
  then show ?thesis
    by (simp add: digit_char_less digit_char_inject div_mod_less [of 10 m n])
qed

lemma pad2_less:
  assumes "0 \<le> i" "i < 100" "0 \<le> j" "j < 100"
  shows "pad2 i < pad2 j \<longleftrightarrow> i < j" and "pad2 i = pad2 j \<longleftrightarrow> i = j"
proof -
  show "pad2 i < pad2 j \<longleftrightarrow> i < j"
    using assms two_digits_less [of "nat i" "nat j"] by (auto simp: pad2_digits)
  show "pad2 i = pad2 j \<longleftrightarrow> i = j"
    using assms js_number_pad2 by (metis option.inject)
qed

lemma digits_div10:
  assumes "10 ^ Suc k \<le> n" "n < 10 ^ Suc (Suc k)"
  shows "10 \<le> n" "10 ^ k \<le> n div 10" "n div 10 < (10::nat) ^ Suc k"
proof -
  have "(10::nat) ^ 1 \<le> 10 ^ Suc k" by (rule power_increasing) simp_all
  from order_trans [OF this assms(1)] show "10 \<le> n" by simp
  show "10 ^ k \<le> n div 10" using assms(1) div_le_mono [OF assms(1), of 10] by simp
  show "n div 10 < 10 ^ Suc k" using assms(2) by (simp add: less_mult_imp_div_less)
qed

lemma string_of_nat_length:
  "10 ^ k \<le> n \<Longrightarrow> n < 10 ^ Suc k \<Longrightarrow> length (string_of_nat n) = Suc k"
proof (induction k arbitrary: n)
  case 0
  then show ?case by (simp add: string_of_nat_small)
next
  case (Suc k)
  then show ?case using digits_div10 [OF Suc.prems] by (simp add: string_of_nat_step)
qed

text \<open>Numbers with the same number of digits compare as their decimal strings do.\<close>

lemma string_of_nat_less:
  "10 ^ k \<le> m \<Longrightarrow> m < 10 ^ Suc k \<Longrightarrow> 10 ^ k \<le> n \<Longrightarrow> n < 10 ^ Suc k \<Longrightarrow>
     string_of_nat m < string_of_nat n \<longleftrightarrow> m < n"
proof (induction k arbitrary: m n)
  case 0
  then show ?case by (simp add: string_of_nat_small digit_char_less)
next
  case (Suc k)
  note m = digits_div10 [OF Suc.prems(1,2)] and n = digits_div10 [OF Suc.prems(3,4)]
  have "length (string_of_nat (m div 10)) = length (string_of_nat (n div 10))"
    using string_of_nat_length m(2,3) n(2,3) by metis
  then have "string_of_nat m < string_of_nat n \<longleftrightarrow>
      m div 10 < n div 10 \<or> m div 10 = n div 10 \<and> m mod 10 < n mod 10"
    using m n Suc.IH [OF m(2,3) n(2,3)]
    by (simp add: string_of_nat_step append_less_append string_of_nat_inject digit_char_less)
  then show ?case by (simp add: div_mod_less [of 10 m n])
qed

lemma year_less:
  assumes "1000 \<le> y" "y \<le> 9999" "1000 \<le> z" "z \<le> 9999"
  shows "string_of_int y < string_of_int z \<longleftrightarrow> y < z"
    and "string_of_int y = string_of_int z \<longleftrightarrow> y = z"
    and "length (string_of_int y) = 4"
  using assms string_of_nat_less [of 3 "nat y" "nat z"] string_of_nat_length [of 3 "nat y"]
  by (auto simp: string_of_int_nonneg string_of_nat_inject)

text \<open>The date parts compare as the day numbers do.\<close>

lemma makeDay_less:
  assumes "valid_date y m d" "valid_date y' m' d'"
    and "y < y' \<or> y = y' \<and> (m < m' \<or> m = m' \<and> d < d')"
  shows "makeDay y (m - 1) d < makeDay y' (m' - 1) d'"
proof -
  have v: "1 \<le> m" "m \<le> 12" "1 \<le> d" "1 \<le> m'" "m' \<le> 12" "1 \<le> d'"
    "d \<le> month_start (leap_year y) m - month_start (leap_year y) (m - 1)"
    using assms by (auto simp: valid_date_def days_in_month_def)
  have start: "0 \<le> month_start (leap_year y') (m' - 1)"
    using v month_start_mono_le [of 0 "m' - 1" "leap_year y'"] by (simp add: month_start_def [of _ 0])
  have last: "month_start (leap_year y) m \<le> month_start (leap_year y) 12"
    using v by (intro month_start_mono_le) auto
  from assms(3) consider "y < y'" | "y = y'" "m < m'" | "y = y'" "m = m'" "d < d'" by blast
  then show ?thesis
  proof cases
    case 1
    then show ?thesis
      using dayFromYear_mono [of "y + 1" y'] year_len [of y] start last v
      by (simp add: makeDay_plain)
  next
    case 2
    then have "month_start (leap_year y) m \<le> month_start (leap_year y) (m' - 1)"
      using v by (intro month_start_mono_le) auto
    with 2 v show ?thesis by (simp add: makeDay_plain)
  next
    case 3
    with v show ?thesis by (simp add: makeDay_plain)
  qed
qed

lemma day_label_less:
  assumes "four_digit_day a" "four_digit_day b"
  shows "day_label a < day_label b \<longleftrightarrow> a < b"
proof -
  obtain y m d where c: "civil_of_day a = (y, m, d)" by (cases "civil_of_day a") auto
  obtain y' m' d' where c': "civil_of_day b = (y', m', d')" by (cases "civil_of_day b") auto
  note v = civil_of_day_valid [OF c] civil_of_day_valid [OF c']
  have y: "1000 \<le> y" "y \<le> 9999" "1000 \<le> y'" "y' \<le> 9999"
    using assms c c' by (auto simp: four_digit_day_def civil_of_day_def)
  have md: "0 \<le> m" "m < 100" "0 \<le> d" "d < 100" "0 \<le> m'" "m' < 100" "0 \<le> d'" "d' < 100"
    using v days_in_month_le [of m y] days_in_month_le [of m' y'] by (auto simp: valid_date_def)
  have len: "length (string_of_int y) = length (string_of_int y')"
    "length (pad2 m) = length (pad2 m')"
    using year_less(3) y md by (simp_all add: pad2_digits)
  have "day_label a < day_label b \<longleftrightarrow> y < y' \<or> y = y' \<and> (m < m' \<or> m = m' \<and> d < d')"
    using y md len
    by (simp add: day_label_def c c' formatDate_def append_less_append year_less pad2_less)
  moreover have "y < y' \<or> y = y' \<and> (m < m' \<or> m = m' \<and> d < d') \<longleftrightarrow> a < b"
    using makeDay_less [OF v(1) v(3)] makeDay_less [OF v(3) v(1)] v(2,4) by (metis less_asym linorder_less_linear)
  ultimately show ?thesis by simp
qed

lemma day_label_le:
  assumes "four_digit_day a" "four_digit_day b"
  shows "day_label a \<le> day_label b \<longleftrightarrow> a \<le> b"
  using day_label_less [OF assms(2,1)] by (simp add: not_less [symmetric])

lemma day_label_inject:
  "four_digit_day a \<Longrightarrow> four_digit_day b \<Longrightarrow> day_label a = day_label b \<longleftrightarrow> a = b"
  using day_label_less by (metis less_irrefl linorder_neqE)

lemma four_digit_year: "four_digit_day n \<Longrightarrow> 100 \<le> year_of_day n"
  by (simp add: four_digit_day_def)

subsection \<open>Opening hours\<close>

lemma minutesOf_Inr: "minutesOf s = Inr m \<Longrightarrow> 0 \<le> m \<and> m < 1440"
  by (induction s rule: minutesOf.induct)
    (auto split: option.splits if_splits dest!: digit_value_lt)

lemma isOpenAt_complement:
  assumes "minutesOf a = Inr m" "minutesOf b = Inr k" "m \<noteq> k"
  shows "isOpenAt offset instant \<lparr>oh_timeZone = tz, oh_open = b, oh_close = a\<rparr> =
    map_sum id Not (isOpenAt offset instant \<lparr>oh_timeZone = tz, oh_open = a, oh_close = b\<rparr>)"
  using assms by (auto simp: isOpenAt_def Let_def)

section \<open>Properties\<close>

text \<open>
  C13. The business day of an instant is the calendar date of the local wall clock turned back by
  the opening hour: an order rung up before the day's start belongs to the previous date, across
  month ends, year ends and leap days alike. (Years below 100 are excluded: there the platform's
  \<open>Date.UTC\<close> reads the year as a year of the 1900s.)
\<close>

theorem business_day_is_shifted_date:
  assumes "0 \<le> startHour" "startHour \<le> 23"
    and "100 \<le> year_of_day ((instant + offset tz instant) div MILLIS_PER_DAY)"
  shows "businessDayOf offset instant tz startHour =
    day_label ((instant + offset tz instant - startHour * 3600000) div MILLIS_PER_DAY)"
  using assms by (rule businessDayOf_shifted)

text \<open>2024-03-01 at 04:30 in Bangkok is still the business day 2024-02-29.\<close>

theorem business_day_is_shifted_date_witness:
  "businessDayOf (\<lambda>_ _. 25200000) 1709242200000 ''Asia/Bangkok'' 5 = day_label 19782 \<and>
   day_label 19782 = ''2024-02-29''"
proof -
  have y: "year_of_day ((1709242200000 + (\<lambda>_ _. 25200000) ''Asia/Bangkok'' (1709242200000::int))
      div MILLIS_PER_DAY) = 2024"
    by (simp add: year_of_day_def MILLIS_PER_DAY_def dayFromYear_def)
  have "businessDayOf (\<lambda>_ _. 25200000) 1709242200000 ''Asia/Bangkok'' 5 =
      day_label ((1709242200000 + 25200000 - 5 * 3600000) div MILLIS_PER_DAY)"
    using business_day_is_shifted_date [of 5 1709242200000 "\<lambda>_ _. 25200000" "''Asia/Bangkok''"] y
    by simp
  moreover have "day_label 19782 = ''2024-02-29''"
    by code_simp
  ultimately show ?thesis by (simp add: MILLIS_PER_DAY_def)
qed

text \<open>
  \<open>eachBusinessDay\<close> lists every calendar day of an inclusive range exactly once and in
  order, and is empty for an inverted range; \<open>minusDays\<close> moves a label by whole days.
\<close>

theorem business_day_ranges:
  assumes "100 \<le> year_of_day a" "100 \<le> year_of_day b"
  shows "eachBusinessDay (day_label a) (day_label b) = map day_label [a..b] \<and>
    minusDays (day_label a) k = day_label (a - k)"
  using eachBusinessDay_labels [OF assms] minusDays_day [OF assms(1)] by simp

theorem business_day_ranges_witness:
  "eachBusinessDay ''2024-02-28'' ''2024-03-01'' = [''2024-02-28'', ''2024-02-29'', ''2024-03-01''] \<and>
   minusDays ''2024-02-28'' 59 = ''2023-12-31''"
proof -
  have y: "100 \<le> year_of_day 19781" "100 \<le> year_of_day 19783"
    by (simp_all add: year_of_day_def dayFromYear_def)
  have l: "day_label 19781 = ''2024-02-28''" "day_label 19782 = ''2024-02-29''"
    "day_label 19783 = ''2024-03-01''" "day_label 19722 = ''2023-12-31''"
    by code_simp+
  have "[19781..19783] = [19781, 19782, 19783::int]" by (simp add: upto_rec1)
  then show ?thesis using business_day_ranges [OF y, of 59] by (simp add: l)
qed

text \<open>
  Comparing two business-day labels as strings, as the report queries do, compares the days:
  for years of four digits the lexicographic order of the labels is the order of the dates, and
  distinct days have distinct labels.
\<close>

theorem label_order_is_date_order:
  assumes "four_digit_day a" "four_digit_day b"
  shows "(day_label a \<le> day_label b \<longleftrightarrow> a \<le> b) \<and> (day_label a = day_label b \<longleftrightarrow> a = b)"
  using day_label_le [OF assms] day_label_inject [OF assms] by simp

theorem label_order_is_date_order_witness:
  "(day_label 19722 \<le> day_label 19781 \<longleftrightarrow> (19722::int) \<le> 19781) \<and> day_label 19722 = ''2023-12-31''"
proof -
  have "four_digit_day 19722" "four_digit_day 19781"
    by (simp_all add: four_digit_day_def year_of_day_def dayFromYear_def)
  then have "day_label 19722 \<le> day_label 19781 \<longleftrightarrow> (19722::int) \<le> 19781"
    using label_order_is_date_order by blast
  moreover have "day_label 19722 = ''2023-12-31''" by code_simp
  ultimately show ?thesis by simp
qed

end
