(* ===== verification/OrderViews.thy ===== *)
theory OrderViews
  imports Schema BusinessDay
begin

text \<open>
  The projections of \<open>orders/query/orders-read.service.ts\<close> that every route handing back an
  order shares: \<open>toOrderSummary\<close> and \<open>toOrderLines\<close>, with the platform's
  \<open>toISOString\<close> for the timestamps they print.
\<close>

section \<open>Definitions\<close>

definition pad_to :: "nat \<Rightarrow> int \<Rightarrow> string" where
  "pad_to k v = padStart k (CHR ''0'') (string_of_int v)"

definition toISOString :: "int \<Rightarrow> string" where
  "toISOString t =
     (case civil_of_day (t div MILLIS_PER_DAY) of (y, m, d) \<Rightarrow>
        let ms = t mod MILLIS_PER_DAY
        in (if 0 \<le> y \<and> y \<le> 9999 then pad_to 4 y
            else (if y < 0 then ''-'' else ''+'') @ pad_to 6 \<bar>y\<bar>) @
           ''-'' @ pad_to 2 m @ ''-'' @ pad_to 2 d @ ''T'' @ pad_to 2 (ms div 3600000) @ '':'' @
           pad_to 2 (ms div 60000 mod 60) @ '':'' @ pad_to 2 (ms div 1000 mod 60) @ ''.'' @
           pad_to 3 (ms mod 1000) @ ''Z'')"

text \<open>The driver hands a timestamp over as a \<open>Date\<close>, which has milliseconds only.\<close>

definition js_date :: "int \<Rightarrow> int" where
  "js_date micros = micros div 1000"

record order_summary =
  os_id :: string
  os_orderNumber :: "string option"
  os_status :: order_status
  os_channel :: order_channel
  os_businessDay :: string
  os_customerName :: "string option"
  os_subtotalMinor :: int
  os_vatMinor :: int
  os_totalMinor :: int
  os_currency :: string
  os_createdAt :: string
  os_expiresAt :: "string option"

definition toOrderSummary :: "order_row \<Rightarrow> order_summary" where
  "toOrderSummary row =
     \<lparr>os_id = ord_id row, os_orderNumber = ord_number row, os_status = ord_status row,
      os_channel = ord_channel row, os_businessDay = ord_businessDay row,
      os_customerName = ord_customerName row, os_subtotalMinor = ord_subtotalMinor row,
      os_vatMinor = ord_vatMinor row, os_totalMinor = ord_totalMinor row,
      os_currency = ord_currency row, os_createdAt = toISOString (js_date (ord_createdAt row)),
      os_expiresAt = map_option toISOString (ord_expiresAt row)\<rparr>"

record order_line_option =
  olo_group :: string
  olo_name :: string
  olo_priceDeltaMinor :: int

record order_line =
  ol_nameSnapshot :: string
  ol_unitPriceMinor :: int
  ol_quantity :: int
  ol_lineTotalMinor :: int
  ol_notes :: "string option"
  ol_options :: "order_line_option list"

text \<open>A line is given with the option rows the relation \<open>options\<close> of the item loads.\<close>

definition toOrderLines :: "(order_item_row \<times> order_item_option_row list) list \<Rightarrow> order_line list" where
  "toOrderLines lines =
     map (\<lambda>(line, opts).
       \<lparr>ol_nameSnapshot = oi_nameSnapshot line, ol_unitPriceMinor = oi_unitPriceMinorSnapshot line,
        ol_quantity = oi_quantity line, ol_lineTotalMinor = oi_lineTotalMinor line,
        ol_notes = oi_notes line,
        ol_options = map (\<lambda>o'. \<lparr>olo_group = oio_groupNameSnapshot o',
          olo_name = oio_optionNameSnapshot o',
          olo_priceDeltaMinor = oio_priceDeltaMinorSnapshot o'\<rparr>) opts\<rparr>) lines"

section \<open>Lemmas\<close>

lemma toOrderSummary_simps [simp]:
  "os_id (toOrderSummary r) = ord_id r"
  "os_status (toOrderSummary r) = ord_status r"
  "os_orderNumber (toOrderSummary r) = ord_number r"
  "os_totalMinor (toOrderSummary r) = ord_totalMinor r"
  "os_businessDay (toOrderSummary r) = ord_businessDay r"
  by (simp_all add: toOrderSummary_def)

end
