(* ===== verification/OrderState.thy ===== *)
theory OrderState
  imports AfterCommit OrderViews
begin

text \<open>
  \<open>orders/state/\<close>: the transition table, the guarded update \<open>transitionOrder\<close> every
  door that moves an order goes through, and the KDS route on top of it.
\<close>

section \<open>Definitions\<close>

subsection \<open>\<open>order-state.ts\<close>\<close>

fun ORDER_TRANSITIONS :: "order_status \<Rightarrow> order_status list" where
  "ORDER_TRANSITIONS DRAFT = [PENDING_PAYMENT, CANCELLED]"
| "ORDER_TRANSITIONS PENDING_PAYMENT = [PAID, EXPIRED, CANCELLED]"
| "ORDER_TRANSITIONS PAID = [IN_PREPARATION, REFUNDED]"
| "ORDER_TRANSITIONS IN_PREPARATION = [READY, REFUNDED]"
| "ORDER_TRANSITIONS READY = [COMPLETED, REFUNDED]"
| "ORDER_TRANSITIONS COMPLETED = [REFUNDED]"
| "ORDER_TRANSITIONS CANCELLED = []"
| "ORDER_TRANSITIONS EXPIRED = []"
| "ORDER_TRANSITIONS REFUNDED = []"

definition TERMINAL_STATUSES :: "order_status list" where
  "TERMINAL_STATUSES = [CANCELLED, EXPIRED, REFUNDED]"

definition isLegalTransition :: "order_status \<Rightarrow> order_status \<Rightarrow> bool" where
  "isLegalTransition s t = List.member (ORDER_TRANSITIONS s) t"

definition STAFF_TRANSITIONS :: "(order_status \<times> order_status) list" where
  "STAFF_TRANSITIONS = [(PAID, IN_PREPARATION), (IN_PREPARATION, READY), (READY, COMPLETED)]"

definition isStaffTransition :: "order_status \<Rightarrow> order_status \<Rightarrow> bool" where
  "isStaffTransition s t = list_ex (\<lambda>(source, target). source = s \<and> target = t) STAFF_TRANSITIONS"

subsection \<open>\<open>transition-order.ts\<close>\<close>

record transition_request =
  tr_orderId :: string
  tr_from :: order_status
  tr_to :: order_status
  tr_actorType :: actor_type
  tr_actorId :: "string option"
  tr_reason :: "string option"

definition explainFailure :: "('p, 'b) db \<Rightarrow> string \<Rightarrow> order_status \<Rightarrow> app_error" where
  "explainFailure d orderId target =
     (case row_by ord_id orderId (orders d) of
        None \<Rightarrow> ResourceNotFoundError ''order'' orderId
      | Some current \<Rightarrow> OrderInvalidTransitionError (ord_status current) target)"

definition moved_order :: "transition_request \<Rightarrow> order_row \<Rightarrow> order_row" where
  "moved_order q r = r\<lparr>ord_status := tr_to q,
     ord_expiresAt := (if tr_from q = PENDING_PAYMENT then None else ord_expiresAt r)\<rparr>"

definition history_of :: "int \<Rightarrow> transition_request \<Rightarrow> status_history_row" where
  "history_of now q =
     \<lparr>osh_orderId = tr_orderId q, osh_fromStatus = Some (tr_from q), osh_toStatus = tr_to q,
      osh_actorType = tr_actorType q, osh_actorId = tr_actorId q, osh_reason = tr_reason q,
      osh_createdAt = now\<rparr>"

definition transitionOrder :: "int \<Rightarrow> transition_request \<Rightarrow> ('p, 'b, order_row) tx" where
  "transitionOrder now q d =
     (case sql_update (\<lambda>r. ord_id r = tr_orderId q \<and> ord_status r = tr_from q)
             (moved_order q) (orders d) of
        ([], _) \<Rightarrow> Inl (explainFailure d (tr_orderId q) (tr_to q))
      | (updated # _, rows) \<Rightarrow>
          Inr (updated, append_history (history_of now q) (d\<lparr>orders := rows\<rparr>)))"

subsection \<open>\<open>order-status.service.ts\<close>\<close>

fun actorOf :: "principal \<Rightarrow> actor_type \<times> string" where
  "actorOf (DevicePrincipal deviceId) = (DEVICE, deviceId)"
| "actorOf (StaffPrincipal userId _) = (USER, userId)"

definition status_transition_work ::
  "int \<Rightarrow> principal \<Rightarrow> string \<Rightarrow> order_status \<Rightarrow> ('p, 'b, order_summary) emitting_tx" where
  "status_transition_work now who orderId target d =
     (case row_by ord_id orderId (orders d) of
        None \<Rightarrow> Inl (ResourceNotFoundError ''order'' orderId)
      | Some current \<Rightarrow>
          if \<not> isStaffTransition (ord_status current) target
          then Inl (OrderInvalidTransitionError (ord_status current) target)
          else sum_bind
            (transitionOrder now
               \<lparr>tr_orderId = orderId, tr_from = ord_status current, tr_to = target,
                tr_actorType = fst (actorOf who), tr_actorId = Some (snd (actorOf who)),
                tr_reason = None\<rparr> d)
            (\<lambda>(updated, d').
               Inr (toOrderSummary updated, d',
                 [if target = READY then order_ready orderId (ord_kioskDeviceId updated)
                  else order_updated orderId (ord_kioskDeviceId updated)])))"

definition status_transition ::
  "(domain_event list \<Rightarrow> bool) \<Rightarrow> int \<Rightarrow> principal \<Rightarrow> string \<Rightarrow> order_status \<Rightarrow>
   ('p, 'b) world \<Rightarrow> order_summary result \<times> ('p, 'b) world" where
  "status_transition publish now who orderId target =
     afterCommit_run publish (status_transition_work now who orderId target)"

subsection \<open>How far an order has come\<close>

text \<open>A measure of progress along the table, used to bound how often an order can move.\<close>

fun status_rank :: "order_status \<Rightarrow> nat" where
  "status_rank DRAFT = 0"
| "status_rank PENDING_PAYMENT = 1"
| "status_rank PAID = 2"
| "status_rank IN_PREPARATION = 3"
| "status_rank READY = 4"
| "status_rank COMPLETED = 5"
| "status_rank _ = 6"

fun legal_path :: "order_status \<Rightarrow> order_status list \<Rightarrow> bool" where
  "legal_path s [] = True"
| "legal_path s (t # ts) = (isLegalTransition s t \<and> legal_path t ts)"

section \<open>Lemmas\<close>

lemma isLegalTransition_iff: "isLegalTransition s t \<longleftrightarrow> t \<in> set (ORDER_TRANSITIONS s)"
  by (simp add: isLegalTransition_def)

lemma isStaffTransition_iff:
  "isStaffTransition s t \<longleftrightarrow>
     s = PAID \<and> t = IN_PREPARATION \<or> s = IN_PREPARATION \<and> t = READY \<or> s = READY \<and> t = COMPLETED"
  by (auto simp: isStaffTransition_def STAFF_TRANSITIONS_def)

lemma staff_is_legal: "isStaffTransition s t \<Longrightarrow> isLegalTransition s t"
  by (auto simp: isStaffTransition_iff isLegalTransition_iff)

lemma legal_rank: "isLegalTransition s t \<Longrightarrow> status_rank s < status_rank t"
  by (cases s) (auto simp: isLegalTransition_iff)

lemma status_rank_le: "status_rank s \<le> 6"
  by (cases s) auto

lemma legal_path_length: "legal_path s ts \<Longrightarrow> length ts + status_rank s \<le> 6"
proof (induction ts arbitrary: s)
  case Nil
  then show ?case by (simp add: status_rank_le)
next
  case (Cons t ts)
  then have "length ts + status_rank t \<le> 6" and "status_rank s < status_rank t"
    by (auto dest: legal_rank)
  then show ?case by simp
qed

lemma legal_path_rank: "legal_path s ts \<Longrightarrow> t \<in> set ts \<Longrightarrow> status_rank s < status_rank t"
proof (induction ts arbitrary: s)
  case (Cons x ts)
  then show ?case using legal_rank [of s x] by (auto intro: less_trans)
qed simp

lemma legal_path_distinct: "legal_path s ts \<Longrightarrow> distinct (s # ts)"
proof (induction ts arbitrary: s)
  case (Cons x ts)
  then show ?case using legal_path_rank [OF Cons.prems] by auto
qed simp

lemma moved_order_simps [simp]:
  "ord_id (moved_order q r) = ord_id r"
  "ord_status (moved_order q r) = tr_to q"
  "ord_kioskDeviceId (moved_order q r) = ord_kioskDeviceId r"
  "ord_createdByUserId (moved_order q r) = ord_createdByUserId r"
  "ord_number (moved_order q r) = ord_number r"
  "ord_businessDay (moved_order q r) = ord_businessDay r"
  "ord_totalMinor (moved_order q r) = ord_totalMinor r"
  "ord_subtotalMinor (moved_order q r) = ord_subtotalMinor r"
  "ord_vatMinor (moved_order q r) = ord_vatMinor r"
  "ord_channel (moved_order q r) = ord_channel r"
  "ord_currency (moved_order q r) = ord_currency r"
  "ord_customerName (moved_order q r) = ord_customerName r"
  "ord_createdAt (moved_order q r) = ord_createdAt r"
  by (simp_all add: moved_order_def)

lemma moved_order_expiresAt:
  "ord_expiresAt (moved_order q r) =
     (if tr_from q = PENDING_PAYMENT then None else ord_expiresAt r)"
  by (simp add: moved_order_def)

text \<open>The tables after a move, and when there is one.\<close>

definition moved_tables :: "int \<Rightarrow> transition_request \<Rightarrow> ('p, 'b) db \<Rightarrow> ('p, 'b) db" where
  "moved_tables now q d = append_history (history_of now q)
     (d\<lparr>orders := snd (sql_update (\<lambda>r. ord_id r = tr_orderId q \<and> ord_status r = tr_from q)
                        (moved_order q) (orders d))\<rparr>)"

lemma transitionOrder_Inr:
  assumes "distinct (map ord_id (orders d))"
  shows "transitionOrder now q d = Inr (u, d') \<longleftrightarrow>
    (\<exists>r. row_by ord_id (tr_orderId q) (orders d) = Some r \<and> ord_status r = tr_from q \<and>
         u = moved_order q r \<and> d' = moved_tables now q d)"
proof -
  have "fst (sql_update (\<lambda>r. ord_id r = tr_orderId q \<and> ord_status r = tr_from q)
      (moved_order q) (orders d)) =
    (case row_by ord_id (tr_orderId q) (orders d) of None \<Rightarrow> []
     | Some r \<Rightarrow> if ord_status r = tr_from q then [moved_order q r] else [])"
    by (rule sql_update_returning_key [OF assms])
  then show ?thesis
    by (cases "sql_update (\<lambda>r. ord_id r = tr_orderId q \<and> ord_status r = tr_from q)
          (moved_order q) (orders d)")
      (auto simp: transitionOrder_def moved_tables_def split: option.splits list.splits if_splits)
qed

lemma transitionOrder_Inl:
  assumes "distinct (map ord_id (orders d))"
  shows "transitionOrder now q d = Inl e \<longleftrightarrow>
    (case row_by ord_id (tr_orderId q) (orders d) of
       None \<Rightarrow> e = ResourceNotFoundError ''order'' (tr_orderId q)
     | Some r \<Rightarrow> ord_status r \<noteq> tr_from q \<and>
         e = OrderInvalidTransitionError (ord_status r) (tr_to q))"
proof -
  have "fst (sql_update (\<lambda>r. ord_id r = tr_orderId q \<and> ord_status r = tr_from q)
      (moved_order q) (orders d)) =
    (case row_by ord_id (tr_orderId q) (orders d) of None \<Rightarrow> []
     | Some r \<Rightarrow> if ord_status r = tr_from q then [moved_order q r] else [])"
    by (rule sql_update_returning_key [OF assms])
  then show ?thesis
    by (cases "sql_update (\<lambda>r. ord_id r = tr_orderId q \<and> ord_status r = tr_from q)
          (moved_order q) (orders d)")
      (auto simp: transitionOrder_def explainFailure_def
        split: option.splits list.splits if_splits)
qed

lemma moved_tables_orders:
  "orders (moved_tables now q d) =
     map (\<lambda>r. if ord_id r = tr_orderId q \<and> ord_status r = tr_from q then moved_order q r else r)
       (orders d)"
  by (simp add: moved_tables_def append_history_def sql_update_table)

lemma moved_tables_history:
  "orderStatusHistory (moved_tables now q d) = orderStatusHistory d @ [history_of now q]"
  by (simp add: moved_tables_def append_history_def)

lemma moved_tables_frame [simp]:
  "payments (moved_tables now q d) = payments d"
  "refunds (moved_tables now q d) = refunds d"
  "orderItems (moved_tables now q d) = orderItems d"
  "orderItemOptions (moved_tables now q d) = orderItemOptions d"
  "orderNumberCounters (moved_tables now q d) = orderNumberCounters d"
  "paymentEvents (moved_tables now q d) = paymentEvents d"
  "idempotencyKeys (moved_tables now q d) = idempotencyKeys d"
  "kioskDevices (moved_tables now q d) = kioskDevices d"
  "menuItems (moved_tables now q d) = menuItems d"
  by (simp_all add: moved_tables_def append_history_def)

lemma moved_tables_ids: "map ord_id (orders (moved_tables now q d)) = map ord_id (orders d)"
  by (simp add: moved_tables_orders)

lemma row_by_moved:
  "row_by ord_id k (orders (moved_tables now q d)) =
     map_option (\<lambda>r. if k = tr_orderId q \<and> ord_status r = tr_from q then moved_order q r else r)
       (row_by ord_id k (orders d))"
proof -
  have "row_by ord_id k (snd (sql_update
      (\<lambda>r. ord_id r = tr_orderId q \<and> ord_status r = tr_from q) (moved_order q) (orders d))) =
    map_option (\<lambda>r. if k = tr_orderId q \<and> ord_status r = tr_from q then moved_order q r else r)
      (row_by ord_id k (orders d))"
    by (rule row_by_sql_update) simp
  then show ?thesis by (simp add: moved_tables_def append_history_def)
qed

lemma status_transition_work_Inr:
  assumes "distinct (map ord_id (orders d))"
    and "status_transition_work now p orderId target d = Inr (u, d', evs)"
  obtains r q where "row_by ord_id orderId (orders d) = Some r"
    and "isStaffTransition (ord_status r) target"
    and "tr_orderId q = orderId" "tr_from q = ord_status r" "tr_to q = target"
    and "u = toOrderSummary (moved_order q r)" and "d' = moved_tables now q d"
    and "evs = [if target = READY then order_ready orderId (ord_kioskDeviceId r)
                else order_updated orderId (ord_kioskDeviceId r)]"
proof -
  from assms(2) obtain r where r: "row_by ord_id orderId (orders d) = Some r"
    and st: "isStaffTransition (ord_status r) target"
    by (auto simp: status_transition_work_def split: option.splits if_splits)
  define q where "q = \<lparr>tr_orderId = orderId, tr_from = ord_status r, tr_to = target,
      tr_actorType = fst (actorOf p), tr_actorId = Some (snd (actorOf p)), tr_reason = None\<rparr>"
  have "sum_bind (transitionOrder now q d) (\<lambda>(updated, d'). Inr (toOrderSummary updated, d',
      [if target = READY then order_ready orderId (ord_kioskDeviceId updated)
       else order_updated orderId (ord_kioskDeviceId updated)])) = Inr (u, d', evs)"
    using assms(2) r st by (simp add: status_transition_work_def q_def)
  with that [OF r st, of q] r show ?thesis
    by (auto simp: sum_bind_iffs transitionOrder_Inr [OF assms(1)] q_def)
qed

section \<open>Properties\<close>

text \<open>
  C12. The transition table is a terminating machine: every legal move goes strictly forward, so no
  path through the table has more than six moves and no status is ever revisited; exactly the
  terminal statuses have no move left; an order reaches \<open>PAID\<close> only from
  \<open>PENDING_PAYMENT\<close>; and what the staff route exposes is part of the table.
\<close>

theorem order_machine_is_acyclic:
  "(\<forall>s ts. legal_path s ts \<longrightarrow> length ts \<le> 6 \<and> distinct (s # ts)) \<and>
   (\<forall>s. ORDER_TRANSITIONS s = [] \<longleftrightarrow> s \<in> set TERMINAL_STATUSES) \<and>
   (\<forall>s. isLegalTransition s PAID \<longleftrightarrow> s = PENDING_PAYMENT) \<and>
   (\<forall>s t. isStaffTransition s t \<longrightarrow> isLegalTransition s t)"
proof (intro conjI allI impI)
  fix s ts assume p: "legal_path s ts"
  show "length ts \<le> 6" using legal_path_length [OF p] by simp
  show "distinct (s # ts)" by (rule legal_path_distinct [OF p])
next
  fix s show "ORDER_TRANSITIONS s = [] \<longleftrightarrow> s \<in> set TERMINAL_STATUSES"
    by (cases s) (simp_all add: TERMINAL_STATUSES_def)
next
  fix s show "isLegalTransition s PAID \<longleftrightarrow> s = PENDING_PAYMENT"
    by (cases s) (simp_all add: isLegalTransition_iff)
qed (rule staff_is_legal)

theorem order_machine_is_acyclic_witness:
  "legal_path DRAFT [PENDING_PAYMENT, PAID, IN_PREPARATION, READY, COMPLETED, REFUNDED] \<and>
   distinct [DRAFT, PENDING_PAYMENT, PAID, IN_PREPARATION, READY, COMPLETED, REFUNDED]"
proof -
  have "legal_path DRAFT [PENDING_PAYMENT, PAID, IN_PREPARATION, READY, COMPLETED, REFUNDED]"
    by (simp add: isLegalTransition_iff)
  then show ?thesis using order_machine_is_acyclic by blast
qed

text \<open>
  Two requests racing to make the same move: once one has committed, the other fails with the
  status the order is now in and changes nothing, whichever actor sends it and however stale its
  read was. (Order ids are distinct, and the two statuses of the move differ.)
\<close>

theorem second_transition_loses:
  assumes "distinct (map ord_id (orders d))"
    and "transitionOrder now q d = Inr (u, d')" and "tr_from q \<noteq> tr_to q"
    and "tr_orderId q' = tr_orderId q" and "tr_from q' = tr_from q"
  shows "transitionOrder now' q' d' = Inl (OrderInvalidTransitionError (tr_to q) (tr_to q'))"
proof -
  obtain r where r: "row_by ord_id (tr_orderId q) (orders d) = Some r" "ord_status r = tr_from q"
    and d': "d' = moved_tables now q d"
    using assms(2) by (auto simp: transitionOrder_Inr [OF assms(1)])
  have "distinct (map ord_id (orders d'))" using assms(1) by (simp add: d' moved_tables_ids)
  then show ?thesis
    using r assms(3-5) by (simp add: transitionOrder_Inl d' row_by_moved)
qed

definition sample_order :: order_row where
  "sample_order = \<lparr>ord_id = ''o1'', ord_number = Some ''A-001'', ord_businessDay = ''2024-02-29'',
     ord_channel = KIOSK, ord_status = PAID, ord_kioskDeviceId = Some ''k1'',
     ord_createdByUserId = None, ord_customerName = None, ord_subtotalMinor = 10000,
     ord_vatMinor = 654, ord_totalMinor = 10000, ord_currency = ''THB'', ord_expiresAt = None,
     ord_createdAt = 1709242200000123\<rparr>"

definition sample_db :: "('p, 'b) db" where
  "sample_db = \<lparr>categories = [], menuItems = [], optionGroups = [], options = [],
     menuItemOptionGroups = [], kioskDevices = [], orders = [sample_order], orderItems = [],
     orderItemOptions = [], orderStatusHistory = [], orderNumberCounters = [], payments = [],
     refunds = [], paymentEvents = [], idempotencyKeys = []\<rparr>"

theorem second_transition_loses_witness:
  "\<exists>u d'. transitionOrder 7 \<lparr>tr_orderId = ''o1'', tr_from = PAID, tr_to = IN_PREPARATION,
       tr_actorType = USER, tr_actorId = Some ''b1'', tr_reason = None\<rparr>
       (sample_db :: (unit, unit) db) = Inr (u, d') \<and>
     transitionOrder 8 \<lparr>tr_orderId = ''o1'', tr_from = PAID, tr_to = IN_PREPARATION,
       tr_actorType = USER, tr_actorId = Some ''b2'', tr_reason = None\<rparr> d' =
     Inl (OrderInvalidTransitionError IN_PREPARATION IN_PREPARATION)"
proof -
  let ?q = "\<lambda>b. \<lparr>tr_orderId = ''o1'', tr_from = PAID, tr_to = IN_PREPARATION,
       tr_actorType = USER, tr_actorId = Some b, tr_reason = None\<rparr>"
  have d: "distinct (map ord_id (orders (sample_db :: (unit, unit) db)))"
    by (simp add: sample_db_def)
  obtain u d' where t: "transitionOrder 7 (?q ''b1'') (sample_db :: (unit, unit) db) = Inr (u, d')"
    by (auto simp: transitionOrder_def sql_update_def sample_db_def sample_order_def)
  show ?thesis
    using second_transition_loses [OF d t, of "?q ''b2''" 8] t by auto
qed

end
