(* ===== verification/OrderPricing.thy ===== *)
theory OrderPricing
  imports AppErrors
begin

text \<open>
  \<open>orders/pricing/order-pricing.ts\<close>: turning a basket into the money owed, or refusing it.
  Money is integral minor units, kept as \<open>int\<close>: with the bounds of the request schema and of the
  price columns every intermediate product stays far below \<open>2^53\<close>, where the language's
  numbers are exact, and the one quotient is rounded after being computed to a precision finer than
  its distance from the nearest half. An optional field that may also be \<open>null\<close> is an
  \<open>option option\<close>: absent is \<open>None\<close>, \<open>null\<close> is \<open>Some None\<close>.
\<close>

section \<open>Definitions\<close>

subsection \<open>Data\<close>

record catalog_option =
  co_id :: string
  co_name :: string
  co_priceDeltaMinor :: int
  co_isAvailable :: bool

record catalog_group =
  cg_id :: string
  cg_name :: string
  cg_minSelect :: int
  cg_maxSelect :: int
  cg_options :: "catalog_option list"

record catalog_item =
  ci_id :: string
  ci_name :: string
  ci_basePriceMinor :: int
  ci_isAvailable :: bool
  ci_optionGroups :: "catalog_group list"

type_synonym catalog = "string \<Rightarrow> catalog_item option"

record requested_item =
  rq_menuItemId :: string
  rq_quantity :: int
  rq_optionIds :: "string list"
  rq_notes :: "string option option"

record priced_option =
  po_optionId :: string
  po_groupNameSnapshot :: string
  po_optionNameSnapshot :: string
  po_priceDeltaMinorSnapshot :: int

record priced_line =
  pl_menuItemId :: string
  pl_nameSnapshot :: string
  pl_unitPriceMinorSnapshot :: int
  pl_quantity :: int
  pl_lineTotalMinor :: int
  pl_notes :: "string option"
  pl_options :: "priced_option list"

record priced_order =
  pr_lines :: "priced_line list"
  pr_subtotalMinor :: int
  pr_vatMinor :: int
  pr_totalMinor :: int

text \<open>A submitted line joined to the catalog; an option comes with its group.\<close>

record resolved_line =
  rl_request :: requested_item
  rl_item :: "catalog_item option"
  rl_options :: "(catalog_option \<times> catalog_group) list"
  rl_unknownOptionIds :: "string list"
  rl_duplicateOptionIds :: "string list"

subsection \<open>\<open>resolveLine\<close>\<close>

text \<open>The options attached to an item; a later entry of the \<open>Map\<close> replaces an earlier one.\<close>

definition attached_pairs :: "catalog_item option \<Rightarrow> (string \<times> catalog_option \<times> catalog_group) list" where
  "attached_pairs item =
     (case item of None \<Rightarrow> []
      | Some i \<Rightarrow> concat (map (\<lambda>g. map (\<lambda>opt. (co_id opt, opt, g)) (cg_options g)) (ci_optionGroups i)))"

definition attached :: "catalog_item option \<Rightarrow> string \<Rightarrow> (catalog_option \<times> catalog_group) option" where
  "attached item = map_of (rev (attached_pairs item))"

text \<open>The loop over the submitted ids: what was seen, and the three lists it fills.\<close>

fun resolve_options ::
  "(string \<Rightarrow> (catalog_option \<times> catalog_group) option) \<Rightarrow> string list \<Rightarrow> string list \<Rightarrow>
   string list \<Rightarrow> string list \<Rightarrow> (catalog_option \<times> catalog_group) list \<Rightarrow>
   string list \<times> string list \<times> (catalog_option \<times> catalog_group) list" where
  "resolve_options att [] seen dups unknown opts = (dups, unknown, opts)"
| "resolve_options att (i # ids) seen dups unknown opts =
     (if List.member seen i
      then resolve_options att ids seen (if List.member dups i then dups else dups @ [i]) unknown opts
      else case att i of
             None \<Rightarrow> resolve_options att ids (seen @ [i]) dups (unknown @ [i]) opts
           | Some og \<Rightarrow> resolve_options att ids (seen @ [i]) dups unknown (opts @ [og]))"

definition resolveLine :: "catalog \<Rightarrow> requested_item \<Rightarrow> resolved_line" where
  "resolveLine catalog line =
     (let item = catalog (rq_menuItemId line) in
      case resolve_options (attached item) (rq_optionIds line) [] [] [] [] of
        (dups, unknown, opts) \<Rightarrow>
          \<lparr>rl_request = line, rl_item = item, rl_options = opts,
           rl_unknownOptionIds = unknown, rl_duplicateOptionIds = dups\<rparr>)"

subsection \<open>\<open>validateSelections\<close>\<close>

definition selected_in :: "resolved_line \<Rightarrow> catalog_group \<Rightarrow> nat" where
  "selected_in line grp = length (filter (\<lambda>(_, g). cg_id g = cg_id grp) (rl_options line))"

definition id_violation :: "nat \<Rightarrow> selection_rule \<Rightarrow> string list \<Rightarrow> selection_violation" where
  "id_violation itemIndex rule ids =
     \<lparr>v_itemIndex = itemIndex, v_rule = rule, v_optionGroupId = None, v_optionGroupName = None,
      v_optionIds = Some ids, v_selected = None, v_allowed = None\<rparr>"

definition bound_violations :: "resolved_line \<Rightarrow> nat \<Rightarrow> catalog_group \<Rightarrow> selection_violation list" where
  "bound_violations line itemIndex grp =
     (let selected = selected_in line grp in
      if cg_minSelect grp \<le> int selected \<and> int selected \<le> cg_maxSelect grp then []
      else [\<lparr>v_itemIndex = itemIndex,
             v_rule = (if int selected < cg_minSelect grp then MIN_SELECT else MAX_SELECT),
             v_optionGroupId = Some (cg_id grp), v_optionGroupName = Some (cg_name grp),
             v_optionIds = None, v_selected = Some selected,
             v_allowed = Some (cg_minSelect grp, cg_maxSelect grp)\<rparr>])"

definition line_groups :: "resolved_line \<Rightarrow> catalog_group list" where
  "line_groups line = (case rl_item line of None \<Rightarrow> [] | Some item \<Rightarrow> ci_optionGroups item)"

definition validateSelections :: "resolved_line \<Rightarrow> nat \<Rightarrow> selection_violation list" where
  "validateSelections line itemIndex =
     (let ids = (if rl_duplicateOptionIds line \<noteq> []
                 then [id_violation itemIndex DUPLICATE_OPTION (rl_duplicateOptionIds line)] else []) @
                (if rl_unknownOptionIds line \<noteq> []
                 then [id_violation itemIndex UNKNOWN_OPTION (rl_unknownOptionIds line)] else [])
      in if ids \<noteq> [] then ids
         else concat (map (bound_violations line itemIndex) (line_groups line)))"

subsection \<open>\<open>priceLine\<close> and \<open>extractVat\<close>\<close>

text \<open>The cast of \<open>line.item\<close>: on \<open>null\<close> the property read would throw.\<close>

definition priceLine :: "resolved_line \<Rightarrow> priced_line result" where
  "priceLine line =
     (case rl_item line of
        None \<Rightarrow> Inl (OtherError ''TypeError'')
      | Some item \<Rightarrow>
          let deltas = sum_list (map (co_priceDeltaMinor \<circ> fst) (rl_options line));
              unit_price = max 0 (ci_basePriceMinor item + deltas)
          in Inr \<lparr>pl_menuItemId = ci_id item, pl_nameSnapshot = ci_name item,
               pl_unitPriceMinorSnapshot = unit_price,
               pl_quantity = rq_quantity (rl_request line),
               pl_lineTotalMinor = unit_price * rq_quantity (rl_request line),
               pl_notes = or_null (rq_notes (rl_request line)),
               pl_options = map (\<lambda>(opt, g). \<lparr>po_optionId = co_id opt,
                 po_groupNameSnapshot = cg_name g, po_optionNameSnapshot = co_name opt,
                 po_priceDeltaMinorSnapshot = co_priceDeltaMinor opt\<rparr>) (rl_options line)\<rparr>)"

definition extractVat :: "int \<Rightarrow> int \<Rightarrow> int" where
  "extractVat totalMinor vatBasisPoints =
     round_div (totalMinor * vatBasisPoints) (10000 + vatBasisPoints)"

subsection \<open>\<open>priceOrder\<close>\<close>

text \<open>Adding to a \<open>Set\<close> that keeps insertion order.\<close>

definition set_add :: "string list \<Rightarrow> string \<Rightarrow> string list" where
  "set_add xs x = (if List.member xs x then xs else xs @ [x])"

definition js_set :: "string list \<Rightarrow> string list" where
  "js_set xs = foldl set_add [] xs"

fun violations_from :: "nat \<Rightarrow> resolved_line list \<Rightarrow> selection_violation list" where
  "violations_from i [] = []"
| "violations_from i (line # lines) =
     (if rl_item line = None then [] else validateSelections line i) @ violations_from (Suc i) lines"

definition unavailable_item :: "resolved_line \<Rightarrow> bool" where
  "unavailable_item line =
     (case rl_item line of None \<Rightarrow> True | Some item \<Rightarrow> \<not> ci_isAvailable item)"

definition unavailable_options :: "resolved_line \<Rightarrow> string list" where
  "unavailable_options line =
     map (co_id \<circ> fst) (filter (\<lambda>(opt, _). \<not> co_isAvailable opt) (rl_options line))"

definition priceOrder :: "requested_item list \<Rightarrow> catalog \<Rightarrow> int \<Rightarrow> priced_order result" where
  "priceOrder rqs catalog vatBasisPoints =
     (let resolved = map (resolveLine catalog) rqs;
          violations = violations_from 0 resolved;
          item_ids = js_set (map (rq_menuItemId \<circ> rl_request) (filter unavailable_item resolved));
          option_ids = js_set (concat (map unavailable_options resolved))
      in if violations \<noteq> [] then Inl (OptionSelectionInvalidError violations)
         else if item_ids \<noteq> [] \<or> option_ids \<noteq> []
         then Inl (OrderItemUnavailableError item_ids option_ids)
         else sum_bind (sum_map_list priceLine resolved) (\<lambda>lines.
           let subtotal = sum_list (map pl_lineTotalMinor lines)
           in Inr \<lparr>pr_lines = lines, pr_subtotalMinor = subtotal,
                pr_vatMinor = extractVat subtotal vatBasisPoints, pr_totalMinor = subtotal\<rparr>))"

subsection \<open>What an acceptable line is\<close>

text \<open>
  The specification a line is held to, in terms of the submitted ids and the catalog alone. In a
  well-formed item every option id occurs once and every group once, as the primary keys make sure.
\<close>

definition item_options :: "catalog_item \<Rightarrow> catalog_option list" where
  "item_options item = concat (map cg_options (ci_optionGroups item))"

definition wf_item :: "catalog_item \<Rightarrow> bool" where
  "wf_item item \<longleftrightarrow> distinct (map co_id (item_options item)) \<and> distinct (map cg_id (ci_optionGroups item))"

definition option_named :: "catalog_item \<Rightarrow> string \<Rightarrow> catalog_option option" where
  "option_named item i = find (\<lambda>opt. co_id opt = i) (item_options item)"

definition count_in_group :: "string list \<Rightarrow> catalog_group \<Rightarrow> nat" where
  "count_in_group ids g = length (filter (\<lambda>i. i \<in> co_id ` set (cg_options g)) ids)"

text \<open>The selection is one the menu permits (B2): shape, not state.\<close>

definition selection_ok :: "catalog_item \<Rightarrow> string list \<Rightarrow> bool" where
  "selection_ok item ids \<longleftrightarrow>
     distinct ids \<and> (\<forall>i \<in> set ids. i \<in> co_id ` set (item_options item)) \<and>
     (\<forall>g \<in> set (ci_optionGroups item).
        cg_minSelect g \<le> int (count_in_group ids g) \<and> int (count_in_group ids g) \<le> cg_maxSelect g)"

definition line_sellable :: "catalog_item \<Rightarrow> string list \<Rightarrow> bool" where
  "line_sellable item ids \<longleftrightarrow>
     ci_isAvailable item \<and> (\<forall>opt \<in> set (item_options item). co_id opt \<in> set ids \<longrightarrow> co_isAvailable opt)"

definition option_delta :: "catalog_item \<Rightarrow> string \<Rightarrow> int" where
  "option_delta item i = (case option_named item i of None \<Rightarrow> 0 | Some opt \<Rightarrow> co_priceDeltaMinor opt)"

definition unit_price_spec :: "catalog_item \<Rightarrow> string list \<Rightarrow> int" where
  "unit_price_spec item ids = max 0 (ci_basePriceMinor item + sum_list (map (option_delta item) ids))"

definition priced_option_spec :: "catalog_item \<Rightarrow> string \<Rightarrow> priced_option" where
  "priced_option_spec item i =
     (case attached (Some item) i of
        Some (opt, g) \<Rightarrow> \<lparr>po_optionId = i, po_groupNameSnapshot = cg_name g,
          po_optionNameSnapshot = co_name opt, po_priceDeltaMinorSnapshot = co_priceDeltaMinor opt\<rparr>
      | None \<Rightarrow> \<lparr>po_optionId = i, po_groupNameSnapshot = [], po_optionNameSnapshot = [],
          po_priceDeltaMinorSnapshot = 0\<rparr>)"

definition priced_line_spec :: "catalog_item \<Rightarrow> requested_item \<Rightarrow> priced_line" where
  "priced_line_spec item r =
     \<lparr>pl_menuItemId = ci_id item, pl_nameSnapshot = ci_name item,
      pl_unitPriceMinorSnapshot = unit_price_spec item (rq_optionIds r),
      pl_quantity = rq_quantity r,
      pl_lineTotalMinor = unit_price_spec item (rq_optionIds r) * rq_quantity r,
      pl_notes = or_null (rq_notes r),
      pl_options = map (priced_option_spec item) (rq_optionIds r)\<rparr>"

definition wf_catalog :: "catalog \<Rightarrow> bool" where
  "wf_catalog c \<longleftrightarrow> (\<forall>i item. c i = Some item \<longrightarrow> wf_item item \<and> ci_id item = i)"

definition sellable :: "catalog \<Rightarrow> requested_item \<Rightarrow> bool" where
  "sellable c r \<longleftrightarrow> (case c (rq_menuItemId r) of None \<Rightarrow> False
     | Some item \<Rightarrow> line_sellable item (rq_optionIds r))"

definition spec_lines :: "catalog \<Rightarrow> requested_item list \<Rightarrow> priced_line list" where
  "spec_lines c rqs = map (\<lambda>r. priced_line_spec (the (c (rq_menuItemId r))) r) rqs"

definition well_shaped :: "catalog \<Rightarrow> requested_item list \<Rightarrow> bool" where
  "well_shaped c rqs \<longleftrightarrow> (\<forall>r \<in> set rqs. \<forall>item. c (rq_menuItemId r) = Some item \<longrightarrow>
     selection_ok item (rq_optionIds r))"

definition order_spec :: "catalog \<Rightarrow> requested_item list \<Rightarrow> int \<Rightarrow> priced_order" where
  "order_spec c rqs vat =
     (let total = sum_list (map pl_lineTotalMinor (spec_lines c rqs))
      in \<lparr>pr_lines = spec_lines c rqs, pr_subtotalMinor = total,
          pr_vatMinor = extractVat total vat, pr_totalMinor = total\<rparr>)"

section \<open>Lemmas\<close>

subsection \<open>Resolving a line\<close>

lemma resolve_options_dups:
  "resolve_options att ids seen dups unknown opts = (dups', unknown', opts') \<Longrightarrow>
     dups' = [] \<longleftrightarrow> dups = [] \<and> distinct ids \<and> set ids \<inter> set seen = {}"
  by (induction att ids seen dups unknown opts rule: resolve_options.induct)
    (auto split: if_splits option.splits)

lemma resolve_options_unknown:
  "resolve_options att ids seen dups unknown opts = (dups', unknown', opts') \<Longrightarrow>
     unknown' = [] \<longleftrightarrow> unknown = [] \<and> (\<forall>i \<in> set ids. i \<in> set seen \<or> att i \<noteq> None)"
  by (induction att ids seen dups unknown opts rule: resolve_options.induct)
    (auto split: if_splits option.splits)

lemma resolve_options_opts:
  "resolve_options att ids seen dups unknown opts = (dups', unknown', opts') \<Longrightarrow>
     distinct ids \<Longrightarrow> set ids \<inter> set seen = {} \<Longrightarrow> \<forall>i \<in> set ids. att i \<noteq> None \<Longrightarrow>
     opts' = opts @ map (the \<circ> att) ids"
  by (induction att ids seen dups unknown opts rule: resolve_options.induct)
    (auto split: if_splits option.splits)

lemma resolve_options_attached:
  "resolve_options att ids seen dups unknown opts = (dups', unknown', opts') \<Longrightarrow>
     set opts' = set opts \<union> {og. \<exists>i \<in> set ids - set seen. att i = Some og}"
proof (induction att ids seen dups unknown opts rule: resolve_options.induct)
  case (2 att i ids seen dups unknown opts)
  show ?case
  proof (cases "i \<in> set seen")
    case True
    then have "set (i # ids) - set seen = set ids - set seen" by auto
    then show ?thesis using "2.IH"(1) "2.prems" True by simp
  next
    case new: False
    then have split: "set (i # ids) - set seen = insert i (set ids - set (seen @ [i]))" by auto
    show ?thesis
    proof (cases "att i")
      case None
      then show ?thesis using "2.IH"(2) [OF _ None] "2.prems" new unfolding split by simp
    next
      case (Some og)
      then have "set opts' = set (opts @ [og]) \<union> {og'. \<exists>j \<in> set ids - set (seen @ [i]). att j = Some og'}"
        using "2.IH"(3) [OF _ Some] "2.prems" new by simp
      then show ?thesis unfolding split using Some by auto
    qed
  qed
qed simp

lemma attached_pairs_keys: "map fst (attached_pairs (Some item)) = map co_id (item_options item)"
  by (simp add: attached_pairs_def item_options_def map_concat comp_def)

lemma attached_Some:
  assumes "wf_item item"
  shows "attached (Some item) i = Some (opt, g) \<longleftrightarrow>
    g \<in> set (ci_optionGroups item) \<and> opt \<in> set (cg_options g) \<and> co_id opt = i"
proof -
  have "distinct (map fst (rev (attached_pairs (Some item))))"
    using assms attached_pairs_keys [of item]
    by (simp add: wf_item_def rev_map [symmetric])
  then have "attached (Some item) i = Some (opt, g) \<longleftrightarrow> (i, opt, g) \<in> set (attached_pairs (Some item))"
    by (simp add: attached_def map_of_eq_Some_iff)
  then show ?thesis by (auto simp: attached_pairs_def)
qed

lemma attached_None:
  "attached (Some item) i = None \<longleftrightarrow> i \<notin> co_id ` set (item_options item)"
proof -
  have "attached (Some item) i = None \<longleftrightarrow> i \<notin> set (map fst (attached_pairs (Some item)))"
    by (simp add: attached_def map_of_eq_None_iff)
  then show ?thesis by (simp add: attached_pairs_keys)
qed

lemma option_named_attached:
  assumes "wf_item item"
  shows "option_named item i = map_option fst (attached (Some item) i)"
proof (cases "attached (Some item) i")
  case None
  then have "find (\<lambda>opt. co_id opt = i) (item_options item) = None"
    by (auto simp: attached_None find_None_iff)
  with None show ?thesis by (simp add: option_named_def)
next
  case (Some og)
  obtain opt g where og: "og = (opt, g)" by (cases og)
  with Some assms have mem: "opt \<in> set (item_options item)" "co_id opt = i"
    by (auto simp: attached_Some item_options_def)
  moreover have "option_named item (co_id opt) = Some opt"
    using row_by_mem [of co_id "item_options item" opt] assms mem
    by (simp add: wf_item_def option_named_def row_by_def sql_find_def)
  ultimately show ?thesis by (simp add: Some og)
qed

lemma attached_group_iff:
  assumes "wf_item item" "attached (Some item) i = Some (opt, g)" "h \<in> set (ci_optionGroups item)"
  shows "cg_id g = cg_id h \<longleftrightarrow> i \<in> co_id ` set (cg_options h)"
proof
  assume "cg_id g = cg_id h"
  moreover have "g \<in> set (ci_optionGroups item)" using assms by (simp add: attached_Some)
  ultimately have "g = h"
    using assms(1,3) by (auto simp: wf_item_def distinct_map inj_on_def)
  with assms show "i \<in> co_id ` set (cg_options h)" by (auto simp: attached_Some)
next
  assume "i \<in> co_id ` set (cg_options h)"
  then obtain opt' where "opt' \<in> set (cg_options h)" "co_id opt' = i" by auto
  then have "attached (Some item) i = Some (opt', h)" using assms by (simp add: attached_Some)
  with assms(2) show "cg_id g = cg_id h" by simp
qed

lemma resolveLine_simps:
  "rl_request (resolveLine c r) = r"
  "rl_item (resolveLine c r) = c (rq_menuItemId r)"
  by (simp_all add: resolveLine_def Let_def split: prod.splits)

lemma resolveLine_ids:
  assumes "c (rq_menuItemId r) = Some item"
  shows "rl_duplicateOptionIds (resolveLine c r) = [] \<longleftrightarrow> distinct (rq_optionIds r)"
    and "rl_unknownOptionIds (resolveLine c r) = [] \<longleftrightarrow>
      (\<forall>i \<in> set (rq_optionIds r). i \<in> co_id ` set (item_options item))"
proof -
  obtain dups unknown opts where
    r: "resolve_options (attached (Some item)) (rq_optionIds r) [] [] [] [] = (dups, unknown, opts)"
    by (metis prod_cases3)
  have l: "rl_duplicateOptionIds (resolveLine c r) = dups"
    "rl_unknownOptionIds (resolveLine c r) = unknown"
    by (simp_all add: resolveLine_def Let_def assms r)
  show "rl_duplicateOptionIds (resolveLine c r) = [] \<longleftrightarrow> distinct (rq_optionIds r)"
    using resolve_options_dups [OF r] by (simp add: l)
  show "rl_unknownOptionIds (resolveLine c r) = [] \<longleftrightarrow>
      (\<forall>i \<in> set (rq_optionIds r). i \<in> co_id ` set (item_options item))"
    using resolve_options_unknown [OF r] attached_None [of item] by (auto simp: l)
qed

lemma resolveLine_options:
  assumes "c (rq_menuItemId r) = Some item" "distinct (rq_optionIds r)"
    and "\<forall>i \<in> set (rq_optionIds r). i \<in> co_id ` set (item_options item)"
  shows "rl_options (resolveLine c r) = map (the \<circ> attached (Some item)) (rq_optionIds r)"
proof -
  obtain dups unknown opts where
    r: "resolve_options (attached (Some item)) (rq_optionIds r) [] [] [] [] = (dups, unknown, opts)"
    by (metis prod_cases3)
  have "\<forall>i \<in> set (rq_optionIds r). attached (Some item) i \<noteq> None"
    using assms(3) by (simp only: attached_None not_not)
  from resolve_options_opts [OF r assms(2) _ this] show ?thesis
    by (simp add: resolveLine_def Let_def assms(1) r)
qed

lemma selected_in_count:
  assumes "wf_item item" "c (rq_menuItemId r) = Some item" "distinct (rq_optionIds r)"
    and "\<forall>i \<in> set (rq_optionIds r). i \<in> co_id ` set (item_options item)"
    and "g \<in> set (ci_optionGroups item)"
  shows "selected_in (resolveLine c r) g = count_in_group (rq_optionIds r) g"
proof -
  have "cg_id (snd (the (attached (Some item) i))) = cg_id g \<longleftrightarrow> i \<in> co_id ` set (cg_options g)"
    if i: "i \<in> set (rq_optionIds r)" for i
  proof -
    have "attached (Some item) i \<noteq> None" using i assms(4) by (simp only: attached_None) blast
    then obtain opt h where "attached (Some item) i = Some (opt, h)" by auto
    then show ?thesis using attached_group_iff [OF assms(1) _ assms(5)] by simp
  qed
  then have "filter ((\<lambda>(_, h). cg_id h = cg_id g) \<circ> (the \<circ> attached (Some item))) (rq_optionIds r) =
      filter (\<lambda>i. i \<in> co_id ` set (cg_options g)) (rq_optionIds r)"
    by (intro filter_cong) (auto simp: case_prod_beta)
  then show ?thesis
    by (simp add: selected_in_def count_in_group_def resolveLine_options [of c r, OF assms(2-4)] filter_map)
qed

subsection \<open>Validation\<close>

lemma validateSelections_Nil:
  assumes "wf_item item" "c (rq_menuItemId r) = Some item"
  shows "validateSelections (resolveLine c r) k = [] \<longleftrightarrow> selection_ok item (rq_optionIds r)"
proof (cases "distinct (rq_optionIds r) \<and>
    (\<forall>i \<in> set (rq_optionIds r). i \<in> co_id ` set (item_options item))")
  case True
  then have "validateSelections (resolveLine c r) k =
      concat (map (bound_violations (resolveLine c r) k) (ci_optionGroups item))"
    using resolveLine_ids [of c r, OF assms(2)]
    by (simp add: validateSelections_def line_groups_def resolveLine_simps assms(2))
  then show ?thesis
    using True selected_in_count [of item c r, OF assms(1) assms(2)]
    by (auto simp: selection_ok_def bound_violations_def Let_def)
next
  case False
  then show ?thesis
    using resolveLine_ids [of c r, OF assms(2)]
    by (auto simp: validateSelections_def selection_ok_def Let_def)
qed

lemma violations_from_Nil:
  "violations_from k lines = [] \<longleftrightarrow>
     (\<forall>j < length lines. rl_item (lines ! j) = None \<or> validateSelections (lines ! j) (k + j) = [])"
proof (induction lines arbitrary: k)
  case (Cons line lines)
  then show ?case by (auto simp: less_Suc_eq_0_disj)
qed simp

lemma no_violations_iff:
  assumes "wf_catalog c"
  shows "violations_from 0 (map (resolveLine c) rqs) = [] \<longleftrightarrow>
    (\<forall>r \<in> set rqs. \<forall>item. c (rq_menuItemId r) = Some item \<longrightarrow> selection_ok item (rq_optionIds r))"
proof -
  have "(rl_item (resolveLine c r) = None \<or> validateSelections (resolveLine c r) k = []) \<longleftrightarrow>
      (\<forall>item. c (rq_menuItemId r) = Some item \<longrightarrow> selection_ok item (rq_optionIds r))" for r k
    using assms validateSelections_Nil [of _ c r k]
    by (cases "c (rq_menuItemId r)") (auto simp: resolveLine_simps wf_catalog_def)
  then show ?thesis
    by (simp add: violations_from_Nil all_set_conv_all_nth)
qed

subsection \<open>Availability\<close>

lemma set_foldl_set_add: "set (foldl set_add acc xs) = set acc \<union> set xs"
  by (induction xs arbitrary: acc) (auto simp: set_add_def)

lemma distinct_foldl_set_add: "distinct acc \<Longrightarrow> distinct (foldl set_add acc xs)"
  by (induction xs arbitrary: acc) (auto simp: set_add_def)

lemma js_set_props [simp]:
  "set (js_set xs) = set xs" "distinct (js_set xs)" "js_set xs = [] \<longleftrightarrow> xs = []"
  using set_foldl_set_add [of "[]" xs] distinct_foldl_set_add [of "[]" xs]
  by (auto simp: js_set_def)

lemma resolveLine_option_set:
  assumes "c (rq_menuItemId r) = Some item"
  shows "set (rl_options (resolveLine c r)) =
    {og. \<exists>i \<in> set (rq_optionIds r). attached (Some item) i = Some og}"
proof -
  obtain dups unknown opts where
    r: "resolve_options (attached (Some item)) (rq_optionIds r) [] [] [] [] = (dups, unknown, opts)"
    by (metis prod_cases3)
  from resolve_options_attached [OF r] show ?thesis
    by (simp add: resolveLine_def Let_def assms r)
qed

lemma sellable_iff:
  assumes "wf_item item" "c (rq_menuItemId r) = Some item"
  shows "\<not> unavailable_item (resolveLine c r) \<and> unavailable_options (resolveLine c r) = [] \<longleftrightarrow>
    line_sellable item (rq_optionIds r)"
proof -
  have "unavailable_options (resolveLine c r) = [] \<longleftrightarrow>
      (\<forall>(opt, g) \<in> set (rl_options (resolveLine c r)). co_isAvailable opt)"
    by (auto simp: unavailable_options_def filter_empty_conv)
  also have "\<dots> \<longleftrightarrow> (\<forall>opt \<in> set (item_options item). co_id opt \<in> set (rq_optionIds r) \<longrightarrow> co_isAvailable opt)"
    unfolding resolveLine_option_set [of c r, OF assms(2)]
    by (auto simp: attached_Some [OF assms(1)] item_options_def)
  finally show ?thesis
    by (auto simp: unavailable_item_def line_sellable_def resolveLine_simps assms(2))
qed

lemma unknown_item_line:
  assumes "c (rq_menuItemId r) = None"
  shows "unavailable_item (resolveLine c r)" "rl_options (resolveLine c r) = []"
proof -
  show "unavailable_item (resolveLine c r)"
    by (simp add: unavailable_item_def resolveLine_simps assms)
  obtain dups unknown opts where
    r: "resolve_options (attached None) (rq_optionIds r) [] [] [] [] = (dups, unknown, opts)"
    by (metis prod_cases3)
  from resolve_options_attached [OF r] have "opts = []"
    by (simp add: attached_def attached_pairs_def)
  then show "rl_options (resolveLine c r) = []"
    by (simp add: resolveLine_def Let_def assms r)
qed

lemma all_sellable_iff:
  assumes "wf_catalog c"
  shows "filter unavailable_item (map (resolveLine c) rqs) = [] \<and>
      concat (map unavailable_options (map (resolveLine c) rqs)) = [] \<longleftrightarrow>
    (\<forall>r \<in> set rqs. sellable c r)"
proof -
  have "\<not> unavailable_item (resolveLine c r) \<and> unavailable_options (resolveLine c r) = [] \<longleftrightarrow>
      sellable c r" for r
    using assms sellable_iff [of _ c r] unknown_item_line [of c r]
    by (cases "c (rq_menuItemId r)") (auto simp: sellable_def wf_catalog_def)
  then show ?thesis by (auto simp: filter_empty_conv)
qed

subsection \<open>The price of a line\<close>

lemma priceLine_spec:
  assumes "wf_item item" "c (rq_menuItemId r) = Some item" "selection_ok item (rq_optionIds r)"
  shows "priceLine (resolveLine c r) = Inr (priced_line_spec item r)"
proof -
  have ids: "distinct (rq_optionIds r)"
    "\<forall>i \<in> set (rq_optionIds r). i \<in> co_id ` set (item_options item)"
    using assms(3) by (auto simp: selection_ok_def)
  have att: "\<exists>opt g. attached (Some item) i = Some (opt, g) \<and> co_id opt = i"
    if "i \<in> set (rq_optionIds r)" for i
  proof -
    have "attached (Some item) i \<noteq> None" using that ids(2) by (simp only: attached_None) blast
    then show ?thesis using attached_Some [OF assms(1), of i] by auto
  qed
  have "map (co_priceDeltaMinor \<circ> fst) (rl_options (resolveLine c r)) =
      map (option_delta item) (rq_optionIds r)"
    using att by (fastforce simp: resolveLine_options [of c r, OF assms(2) ids] option_delta_def
        option_named_attached [OF assms(1)] intro!: map_cong [OF refl])
  moreover have "map (\<lambda>(opt, g). \<lparr>po_optionId = co_id opt, po_groupNameSnapshot = cg_name g,
        po_optionNameSnapshot = co_name opt, po_priceDeltaMinorSnapshot = co_priceDeltaMinor opt\<rparr>)
      (rl_options (resolveLine c r)) = map (priced_option_spec item) (rq_optionIds r)"
    using att by (fastforce simp: resolveLine_options [of c r, OF assms(2) ids] priced_option_spec_def
        intro!: map_cong [OF refl])
  ultimately show ?thesis
    by (simp add: priceLine_def resolveLine_simps assms(2) priced_line_spec_def unit_price_spec_def Let_def)
qed

lemma sum_map_list_all:
  "(\<And>x. x \<in> set xs \<Longrightarrow> f x = Inr (g x)) \<Longrightarrow> sum_map_list f xs = Inr (map g xs)"
  by (induction xs) auto

lemma priceOrder_cases:
  assumes "wf_catalog c"
  shows "\<not> well_shaped c rqs \<Longrightarrow>
      priceOrder rqs c vat =
        Inl (OptionSelectionInvalidError (violations_from 0 (map (resolveLine c) rqs)))"
    and "well_shaped c rqs \<Longrightarrow> \<not> (\<forall>r \<in> set rqs. sellable c r) \<Longrightarrow>
      priceOrder rqs c vat = Inl (OrderItemUnavailableError
        (js_set (map rq_menuItemId (filter (unavailable_item \<circ> resolveLine c) rqs)))
        (js_set (concat (map (unavailable_options \<circ> resolveLine c) rqs))))"
    and "well_shaped c rqs \<Longrightarrow> \<forall>r \<in> set rqs. sellable c r \<Longrightarrow>
      priceOrder rqs c vat = Inr (order_spec c rqs vat)"
proof -
  have v: "violations_from 0 (map (resolveLine c) rqs) = [] \<longleftrightarrow> well_shaped c rqs"
    unfolding well_shaped_def by (rule no_violations_iff [OF assms(1)])
  have items: "map (rq_menuItemId \<circ> rl_request) (filter unavailable_item (map (resolveLine c) rqs)) =
      map rq_menuItemId (filter (unavailable_item \<circ> resolveLine c) rqs)"
    by (simp add: filter_map resolveLine_simps comp_def)
  have u: "(js_set (map rq_menuItemId (filter (unavailable_item \<circ> resolveLine c) rqs)) = [] \<and>
      js_set (concat (map (unavailable_options \<circ> resolveLine c) rqs)) = []) \<longleftrightarrow>
      (\<forall>r \<in> set rqs. sellable c r)"
    using all_sellable_iff [OF assms(1), of rqs] by (simp add: filter_map)
  show "\<not> well_shaped c rqs \<Longrightarrow>
      priceOrder rqs c vat =
        Inl (OptionSelectionInvalidError (violations_from 0 (map (resolveLine c) rqs)))"
    using v by (simp add: priceOrder_def Let_def)
  show "well_shaped c rqs \<Longrightarrow> \<not> (\<forall>r \<in> set rqs. sellable c r) \<Longrightarrow>
      priceOrder rqs c vat = Inl (OrderItemUnavailableError
        (js_set (map rq_menuItemId (filter (unavailable_item \<circ> resolveLine c) rqs)))
        (js_set (concat (map (unavailable_options \<circ> resolveLine c) rqs))))"
    using v u unfolding priceOrder_def Let_def items by auto
  assume sh: "well_shaped c rqs" and se: "\<forall>r \<in> set rqs. sellable c r"
  have "priceLine (resolveLine c r) = Inr (priced_line_spec (the (c (rq_menuItemId r))) r)"
    if "r \<in> set rqs" for r
    using that sh se assms(1) priceLine_spec [of _ c r]
    by (auto simp: well_shaped_def sellable_def wf_catalog_def split: option.splits)
  then have "sum_map_list priceLine (map (resolveLine c) rqs) = Inr (spec_lines c rqs)"
    unfolding spec_lines_def by (induction rqs) auto
  then show "priceOrder rqs c vat = Inr (order_spec c rqs vat)"
    using v u sh se unfolding priceOrder_def Let_def items
    by (simp add: order_spec_def Let_def comp_def)
qed

subsection \<open>Money\<close>

lemma unit_price_nonneg: "0 \<le> unit_price_spec item ids"
  by (simp add: unit_price_spec_def)

lemma spec_total_nonneg:
  assumes "\<forall>r \<in> set rqs. 0 \<le> rq_quantity r"
  shows "0 \<le> sum_list (map pl_lineTotalMinor (spec_lines c rqs))"
  using assms unit_price_nonneg
  by (intro sum_list_nonneg) (auto simp: spec_lines_def priced_line_spec_def)

lemma extractVat_bounds:
  assumes "0 \<le> amt" "0 \<le> bp"
  shows "0 \<le> extractVat amt bp" and "extractVat amt bp \<le> amt"
    and "2 * \<bar>extractVat amt bp * (10000 + bp) - amt * bp\<bar> \<le> 10000 + bp"
proof -
  define v where "v = extractVat amt bp"
  have b: "0 < 10000 + bp" using assms by simp
  have lo: "2 * (10000 + bp) * v \<le> 2 * (amt * bp) + (10000 + bp)"
    and hi: "2 * (amt * bp) + (10000 + bp) < 2 * (10000 + bp) * v + 2 * (10000 + bp)"
    using round_div_bounds [OF b, of "amt * bp"] by (simp_all add: v_def extractVat_def)
  show "0 \<le> extractVat amt bp"
    using assms b by (simp add: extractVat_def round_div_nonneg)
  have "v * (10000 + bp) * 2 \<le> 2 * (amt * bp) + (10000 + bp)"
    using lo by (simp add: algebra_simps)
  moreover have "2 * (amt * bp) \<le> v * (10000 + bp) * 2 + (10000 + bp)"
    using hi by (simp add: algebra_simps)
  ultimately show "2 * \<bar>extractVat amt bp * (10000 + bp) - amt * bp\<bar> \<le> 10000 + bp"
    unfolding v_def [symmetric] by arith
  show "extractVat amt bp \<le> amt"
  proof (rule ccontr)
    assume "\<not> extractVat amt bp \<le> amt"
    then have "amt + 1 \<le> v" by (simp add: v_def)
    then have "2 * (10000 + bp) * (amt + 1) \<le> 2 * (10000 + bp) * v"
      using b by (intro mult_left_mono) auto
    with lo have "2 * (10000 + bp) * (amt + 1) \<le> 2 * (amt * bp) + (10000 + bp)" by simp
    moreover have "2 * (10000 + bp) * (amt + 1) =
        2 * (amt * bp) + (10000 + bp) + (10000 + bp) + 20000 * amt"
      by (simp add: algebra_simps)
    ultimately show False using assms b by linarith
  qed
qed

section \<open>Properties\<close>

text \<open>
  C9. Pricing accepts exactly the baskets the menu permits, and charges exactly what the catalog
  says. Over a catalog whose options and groups are keyed uniquely: a basket with a line whose
  selection the menu never allowed is refused with every such violation; otherwise a basket with an
  unknown or sold-out item or option is refused naming those ids; otherwise the order is the
  specified one, each line at \<open>max 0 (base + deltas)\<close> times its quantity, with subtotal and
  total the sum of the lines.
\<close>

theorem price_order_is_spec:
  assumes "wf_catalog c"
  shows "priceOrder rqs c vat =
    (if \<not> well_shaped c rqs
     then Inl (OptionSelectionInvalidError (violations_from 0 (map (resolveLine c) rqs)))
     else if \<exists>r \<in> set rqs. \<not> sellable c r
     then Inl (OrderItemUnavailableError
       (js_set (map rq_menuItemId (filter (unavailable_item \<circ> resolveLine c) rqs)))
       (js_set (concat (map (unavailable_options \<circ> resolveLine c) rqs))))
     else Inr (order_spec c rqs vat))"
  using priceOrder_cases [OF assms, of rqs vat] by auto

definition sample_menu :: catalog where
  "sample_menu i =
     (if i = ''latte'' then Some \<lparr>ci_id = ''latte'', ci_name = ''Latte'', ci_basePriceMinor = 9000,
        ci_isAvailable = True, ci_optionGroups =
          [\<lparr>cg_id = ''size'', cg_name = ''Size'', cg_minSelect = 1, cg_maxSelect = 1, cg_options =
             [\<lparr>co_id = ''small'', co_name = ''Small'', co_priceDeltaMinor = -1000, co_isAvailable = True\<rparr>,
              \<lparr>co_id = ''large'', co_name = ''Large'', co_priceDeltaMinor = 2000, co_isAvailable = True\<rparr>]\<rparr>]\<rparr>
      else None)"

lemma sample_menu_wf: "wf_catalog sample_menu"
  by (auto simp: wf_catalog_def sample_menu_def wf_item_def item_options_def split: if_splits)

definition sample_basket :: "requested_item list" where
  "sample_basket = [\<lparr>rq_menuItemId = ''latte'', rq_quantity = 2, rq_optionIds = [''large''], rq_notes = None\<rparr>]"

theorem price_order_is_spec_witness:
  "priceOrder sample_basket sample_menu 700 = Inr (order_spec sample_menu sample_basket 700) \<and>
   pr_totalMinor (order_spec sample_menu sample_basket 700) = 22000 \<and>
   pr_vatMinor (order_spec sample_menu sample_basket 700) = 1439"
proof -
  have "well_shaped sample_menu sample_basket" "\<forall>r \<in> set sample_basket. sellable sample_menu r"
    by (auto simp: well_shaped_def sellable_def sample_basket_def sample_menu_def selection_ok_def
        line_sellable_def item_options_def count_in_group_def)
  then have "priceOrder sample_basket sample_menu 700 = Inr (order_spec sample_menu sample_basket 700)"
    using price_order_is_spec [OF sample_menu_wf, of sample_basket 700] by auto
  then show ?thesis
    by (simp add: order_spec_def spec_lines_def sample_basket_def sample_menu_def
        priced_line_spec_def unit_price_spec_def option_delta_def option_named_def item_options_def
        extractVat_def round_div_def)
qed

text \<open>
  An accepted order never charges a negative amount, and its VAT figure is carved out of the
  total rather than added to it: between zero and the total, and the nearest minor unit to
  \<open>total * rate / (1 + rate)\<close>.
\<close>

theorem priced_money_bounds:
  assumes "priceOrder rqs c vat = Inr p" "wf_catalog c" "0 \<le> vat"
    and "\<forall>r \<in> set rqs. 0 \<le> rq_quantity r"
  shows "pr_totalMinor p = pr_subtotalMinor p \<and>
    pr_subtotalMinor p = sum_list (map pl_lineTotalMinor (pr_lines p)) \<and>
    (\<forall>l \<in> set (pr_lines p). 0 \<le> pl_unitPriceMinorSnapshot l \<and>
       pl_lineTotalMinor l = pl_unitPriceMinorSnapshot l * pl_quantity l) \<and>
    0 \<le> pr_vatMinor p \<and> pr_vatMinor p \<le> pr_totalMinor p \<and>
    2 * \<bar>pr_vatMinor p * (10000 + vat) - pr_totalMinor p * vat\<bar> \<le> 10000 + vat"
proof -
  have "p = order_spec c rqs vat"
    using assms(1) priceOrder_cases [OF assms(2), of rqs vat]
    by (cases "well_shaped c rqs"; cases "\<forall>r \<in> set rqs. sellable c r") auto
  moreover have "\<forall>l \<in> set (spec_lines c rqs). 0 \<le> pl_unitPriceMinorSnapshot l \<and>
       pl_lineTotalMinor l = pl_unitPriceMinorSnapshot l * pl_quantity l"
    by (auto simp: spec_lines_def priced_line_spec_def unit_price_nonneg)
  ultimately show ?thesis
    using extractVat_bounds [OF spec_total_nonneg [OF assms(4)] assms(3)]
    by (simp add: order_spec_def Let_def)
qed

theorem priced_money_bounds_witness:
  "\<exists>p. priceOrder sample_basket sample_menu 700 = Inr p \<and> 0 \<le> pr_vatMinor p \<and>
     pr_vatMinor p \<le> pr_totalMinor p"
proof -
  obtain p where p: "priceOrder sample_basket sample_menu 700 = Inr p"
    using priceOrder_cases(3) [OF sample_menu_wf, of sample_basket 700]
    by (auto simp: well_shaped_def sellable_def sample_basket_def sample_menu_def selection_ok_def
        line_sellable_def item_options_def count_in_group_def)
  moreover have "\<forall>r \<in> set sample_basket. 0 \<le> rq_quantity r" by (simp add: sample_basket_def)
  ultimately show ?thesis
    using priced_money_bounds [OF p sample_menu_wf] by auto
qed

end
