(* ===== verification/OrderNumber.thy ===== *)
theory OrderNumber
  imports Schema
begin

text \<open>
  \<open>orders/order-number.ts\<close>: the queue number a barista calls, and the counter it comes from.
  The upsert is one statement, so it is one function of the tables; a counter that would leave the
  range of its \<open>integer\<close> column is the driver's error.
\<close>

section \<open>Definitions\<close>

definition QUEUE_PREFIX :: string where "QUEUE_PREFIX = ''A''"

definition QUEUE_DIGITS :: nat where "QUEUE_DIGITS = 3"

definition formatOrderNumber :: "int \<Rightarrow> string" where
  "formatOrderNumber sequence =
     QUEUE_PREFIX @ ''-'' @ padStart QUEUE_DIGITS (CHR ''0'') (string_of_int sequence)"

definition nextOrderNumber :: "string \<Rightarrow> ('p, 'b) db \<Rightarrow> (string \<times> ('p, 'b) db) result" where
  "nextOrderNumber businessDay d =
     (case row_by fst businessDay (orderNumberCounters d) of
        None \<Rightarrow> Inr (formatOrderNumber 1,
                   d\<lparr>orderNumberCounters := orderNumberCounters d @ [(businessDay, 1)]\<rparr>)
      | Some (_, lastValue) \<Rightarrow>
          if \<not> int4_ok (lastValue + 1) then Inl NumericOutOfRange
          else Inr (formatOrderNumber (lastValue + 1),
                 d\<lparr>orderNumberCounters := snd (sql_update (\<lambda>c. fst c = businessDay)
                     (\<lambda>c. (fst c, lastValue + 1)) (orderNumberCounters d))\<rparr>))"

text \<open>The last number handed out on a day; zero before the first.\<close>

definition last_number :: "string \<Rightarrow> ('p, 'b) db \<Rightarrow> int" where
  "last_number day d =
     (case row_by fst day (orderNumberCounters d) of None \<Rightarrow> 0 | Some (_, n) \<Rightarrow> n)"

section \<open>Lemmas\<close>

lemma formatOrderNumber_inject:
  assumes "0 \<le> m" "0 \<le> n"
  shows "formatOrderNumber m = formatOrderNumber n \<longleftrightarrow> m = n"
proof
  assume "formatOrderNumber m = formatOrderNumber n"
  then have "padStart 3 (CHR ''0'') (string_of_nat (nat m)) = padStart 3 (CHR ''0'') (string_of_nat (nat n))"
    using assms by (simp add: formatOrderNumber_def QUEUE_PREFIX_def QUEUE_DIGITS_def string_of_int_def)
  then have "digits_value 0 (string_of_nat (nat m)) = digits_value 0 (string_of_nat (nat n))"
    using digits_value_padStart by metis
  then show "m = n" using assms by (simp add: decimal_simps eq_nat_nat_iff)
qed simp

text \<open>Claiming a number is incrementing the day's counter, and touches nothing else.\<close>

lemma nextOrderNumber_Inr:
  assumes "nextOrderNumber day d = Inr (num, d')"
  shows "num = formatOrderNumber (last_number day d + 1)"
    and "last_number day' d' = (if day' = day then last_number day d + 1 else last_number day' d)"
    and "\<exists>cs. d' = d\<lparr>orderNumberCounters := cs\<rparr>"
proof -
  have new: "row_by fst k (xs @ [(day, 1)]) = (if k = day then Some (day, 1) else row_by fst k xs)"
    if "row_by fst day xs = None" for k and xs :: "(string \<times> int) list"
    using that row_by_append_new [of fst "(day, 1)" xs k] by (simp add: row_by_None)
  have upd: "row_by fst k (snd (sql_update (\<lambda>c. fst c = day) (\<lambda>c. (fst c, v)) xs)) =
      map_option (\<lambda>c. if k = day then (fst c, v) else c) (row_by fst k xs)"
    for k v and xs :: "(string \<times> int) list"
    using row_by_sql_update [of fst "\<lambda>c. (fst c, v)" k day "\<lambda>_. True" xs] by simp
  show "num = formatOrderNumber (last_number day d + 1)"
    using assms by (auto simp: nextOrderNumber_def last_number_def split: option.splits if_splits)
  show "last_number day' d' = (if day' = day then last_number day d + 1 else last_number day' d)"
    using assms
    by (auto simp: nextOrderNumber_def last_number_def new upd split: option.splits if_splits)
  show "\<exists>cs. d' = d\<lparr>orderNumberCounters := cs\<rparr>"
    using assms by (auto simp: nextOrderNumber_def split: option.splits if_splits)
qed

end
