(* ===== verification/RequestHash.thy ===== *)
theory RequestHash
  imports Schema "HOL-Library.Multiset"
begin

text \<open>
  \<open>orders/idempotency/request-hash.ts\<close> and \<open>idempotency-key.ts\<close>: the fingerprint of a
  money-mutating request, and the validation of the key header.

  A parsed body is a value of \<open>json\<close>; an object is the list of its entries, an entry
  being \<open>None\<close> where the property is \<open>undefined\<close>. Every number of the hashed bodies is
  an integer (\<open>z.int()\<close>). A character stands for a code unit below 256. The digest is
  \<open>node:crypto\<close>'s and is the argument \<open>sha256\<close>.
\<close>

section \<open>Definitions\<close>

datatype json =
    JNull
  | JBool bool
  | JNum int
  | JStr string
  | JArr "json list"
  | JObj "(string \<times> json option) list"

fun join :: "string \<Rightarrow> string list \<Rightarrow> string" where
  "join sep [] = []"
| "join sep [x] = x"
| "join sep (x # y # zs) = x @ sep @ join sep (y # zs)"

subsection \<open>\<open>JSON.stringify\<close> of a primitive\<close>

definition hex_digit :: "nat \<Rightarrow> char" where
  "hex_digit n = ''0123456789abcdef'' ! n"

definition escape_char :: "char \<Rightarrow> string" where
  "escape_char c =
     (let n = (of_char c :: nat); bs = CHR 0x5C in
      if n = 34 \<or> n = 92 then [bs, c]
      else if n = 8 then [bs, CHR ''b''] else if n = 9 then [bs, CHR ''t'']
      else if n = 10 then [bs, CHR ''n''] else if n = 12 then [bs, CHR ''f'']
      else if n = 13 then [bs, CHR ''r'']
      else if n < 32 then [bs, CHR ''u'', CHR ''0'', CHR ''0'', hex_digit (n div 16), hex_digit (n mod 16)]
      else [c])"

definition stringify_string :: "string \<Rightarrow> string" where
  "stringify_string s = [CHR 0x22] @ concat (map escape_char s) @ [CHR 0x22]"

subsection \<open>\<open>canonicalize\<close> and \<open>hashRequest\<close>\<close>

text \<open>The entries that are not \<open>undefined\<close>, in key order.\<close>

definition sorted_entries :: "(string \<times> 'v option) list \<Rightarrow> (string \<times> 'v) list" where
  "sorted_entries es = sort_key fst (map (map_prod id the) (filter (\<lambda>(_, entry). entry \<noteq> None) es))"

primrec canonicalize :: "json \<Rightarrow> string" where
  "canonicalize JNull = ''null''"
| "canonicalize (JBool b) = (if b then ''true'' else ''false'')"
| "canonicalize (JNum i) = string_of_int i"
| "canonicalize (JStr s) = stringify_string s"
| "canonicalize (JArr vs) = ''['' @ join '','' (map canonicalize vs) @ '']''"
| "canonicalize (JObj es) =
     ''{'' @ join '','' (map (\<lambda>(key, entry). stringify_string key @ '':'' @ entry)
       (sorted_entries (map (map_prod id (map_option canonicalize)) es))) @ ''}''"

text \<open>What the two \<open>update\<close> calls feed the digest.\<close>

definition request_preimage :: "string \<Rightarrow> json \<Rightarrow> string" where
  "request_preimage scope body =
     string_of_nat (length scope) @ '':'' @ scope @ canonicalize body"

definition hashRequest :: "(string \<Rightarrow> string) \<Rightarrow> string \<Rightarrow> json \<Rightarrow> string" where
  "hashRequest sha256 scope body = sha256 (request_preimage scope body)"

subsection \<open>\<open>parseIdempotencyKey\<close>\<close>

definition MIN_LENGTH :: nat where "MIN_LENGTH = 8"

definition MAX_LENGTH :: nat where "MAX_LENGTH = 128"

definition key_char :: "char \<Rightarrow> bool" where
  "key_char c \<longleftrightarrow> (let n = (of_char c :: nat) in
     65 \<le> n \<and> n \<le> 90 \<or> 97 \<le> n \<and> n \<le> 122 \<or> 48 \<le> n \<and> n \<le> 57 \<or>
     c = CHR ''.'' \<or> c = CHR ''_'' \<or> c = CHR '':'' \<or> c = CHR ''-'')"

definition parseIdempotencyKey :: "string option \<Rightarrow> string option result" where
  "parseIdempotencyKey raw =
     (case raw of
        None \<Rightarrow> Inr None
      | Some header \<Rightarrow>
          let key = js_trim header in
          if length key < MIN_LENGTH \<or> length key > MAX_LENGTH \<or> \<not> (key \<noteq> [] \<and> list_all key_char key)
          then Inl IdempotencyKeyInvalidError
          else Inr (Some key))"

subsection \<open>The body a fingerprint stands for\<close>

text \<open>A body with every object's entries in key order and the \<open>undefined\<close> ones gone.\<close>

primrec normal :: "json \<Rightarrow> json" where
  "normal JNull = JNull"
| "normal (JBool b) = JBool b"
| "normal (JNum i) = JNum i"
| "normal (JStr s) = JStr s"
| "normal (JArr vs) = JArr (map normal vs)"
| "normal (JObj es) =
     JObj (map (map_prod id Some) (sorted_entries (map (map_prod id (map_option normal)) es)))"

section \<open>Lemmas\<close>

subsection \<open>Prefix codes\<close>

text \<open>A value is followed by the end of the text or by a closing or separating character.\<close>

definition delimited :: "string \<Rightarrow> bool" where
  "delimited r \<longleftrightarrow> (case r of [] \<Rightarrow> True | c # _ \<Rightarrow> c = CHR '','' \<or> c = CHR '']'' \<or> c = CHR ''}'')"

text \<open>Reading the first character of an escaped string back.\<close>

definition hex_value :: "char \<Rightarrow> nat" where
  "hex_value h = length (takeWhile (\<lambda>x. x \<noteq> h) ''0123456789abcdef'')"

fun unescape :: "string \<Rightarrow> (char \<times> string) option" where
  "unescape [] = None"
| "unescape (a # r) =
     (if of_char a \<noteq> (92 :: nat) then Some (a, r)
      else case r of [] \<Rightarrow> None
        | b # r1 \<Rightarrow>
            if b = CHR ''b'' then Some (CHR 0x08, r1)
            else if b = CHR ''t'' then Some (CHR 0x09, r1)
            else if b = CHR ''n'' then Some (CHR 0x0A, r1)
            else if b = CHR ''f'' then Some (CHR 0x0C, r1)
            else if b = CHR ''r'' then Some (CHR 0x0D, r1)
            else if b = CHR ''u'' then Some (char_of (16 * hex_value (r1 ! 2) + hex_value (r1 ! 3)), drop 4 r1)
            else Some (b, r1))"

lemma hex_value_digit: "n < 16 \<Longrightarrow> hex_value (hex_digit n) = n"
proof -
  assume "n < 16"
  then have "n \<in> set [0..<16]" by simp
  moreover have "\<forall>k \<in> set [0..<16]. hex_value (hex_digit k) = k"
    by (simp add: hex_value_def hex_digit_def upt_rec numeral_eq_Suc)
  ultimately show ?thesis by blast
qed

lemma unescape_escape_char: "unescape (escape_char c @ x) = Some (c, x)"
proof -
  have code: "c = char_of n" if "of_char c = n" for n :: nat
    using that by (metis char_of_char)
  have hex: "char_of (16 * hex_value (hex_digit (n div 16)) + hex_value (hex_digit (n mod 16))) = c"
    if "of_char c = n" "n < 32" for n :: nat
    using that code by (simp add: hex_value_digit)
  consider "of_char c \<in> {34, 92, 8, 9, 10, 12, 13 :: nat}"
    | "of_char c < (32::nat)" "of_char c \<notin> {8, 9, 10, 12, 13 :: nat}"
    | "of_char c \<ge> (32::nat)" "of_char c \<notin> {34, 92 :: nat}" by force
  then show ?thesis
  proof cases
    case 1
    then have "c \<in> char_of ` {34, 92, 8, 9, 10, 12, 13 :: nat}" using code by blast
    also have "char_of ` {34, 92, 8, 9, 10, 12, 13 :: nat} =
        {CHR 0x22, CHR 0x5C, CHR 0x08, CHR 0x09, CHR 0x0A, CHR 0x0C, CHR 0x0D}"
      by (simp add: char_of_def bit_0)
    finally show ?thesis by (elim insertE emptyE) (simp_all add: escape_char_def Let_def)
  next
    case 2
    then show ?thesis using hex [OF refl] by (simp add: escape_char_def Let_def)
  next
    case 3
    then show ?thesis by (simp add: escape_char_def Let_def)
  qed
qed

lemma escape_char_prefix:
  assumes "escape_char c @ x = escape_char c' @ y"
  shows "c = c' \<and> x = y"
  using assms unescape_escape_char by (metis option.inject prod.inject)

lemma escape_char_head: "escape_char c @ x \<noteq> CHR 0x22 # y"
proof
  assume "escape_char c @ x = CHR 0x22 # y"
  then have "unescape (escape_char c @ x) = Some (CHR 0x22, y)" by simp
  then have "c = CHR 0x22" by (simp add: unescape_escape_char)
  with \<open>escape_char c @ x = CHR 0x22 # y\<close> show False by (simp add: escape_char_def)
qed

lemma escaped_prefix:
  "concat (map escape_char s) @ CHR 0x22 # r = concat (map escape_char s') @ CHR 0x22 # r' \<Longrightarrow>
     s = s' \<and> r = r'"
proof (induction s arbitrary: s')
  case Nil
  then show ?case using escape_char_head by (cases s') (auto, metis append_assoc)
next
  case (Cons c s)
  show ?case
  proof (cases s')
    case Nil
    with Cons.prems show ?thesis
      using escape_char_head [of c "concat (map escape_char s) @ CHR 0x22 # r" r'] by simp
  next
    case (Cons c' t)
    with Cons.prems have "c = c' \<and> concat (map escape_char s) @ CHR 0x22 # r =
        concat (map escape_char t) @ CHR 0x22 # r'"
      using escape_char_prefix by simp
    with Cons.IH [of t] Cons show ?thesis by simp
  qed
qed

lemma stringify_string_prefix:
  "stringify_string s @ r = stringify_string s' @ r' \<Longrightarrow> s = s' \<and> r = r'"
  using escaped_prefix [of s r s' r'] by (simp add: stringify_string_def)

lemma digits_then:
  assumes "set ds \<subseteq> D" "set ds' \<subseteq> D" "ds @ r = ds' @ r'"
    and "\<forall>c \<in> set (take 1 r). c \<notin> D" "\<forall>c \<in> set (take 1 r'). c \<notin> D"
  shows "ds = ds' \<and> r = r'"
proof -
  have "takeWhile (\<lambda>c. c \<in> D) (ds @ r) = ds" if "set ds \<subseteq> D" "\<forall>c \<in> set (take 1 r). c \<notin> D" for ds r
    using that by (cases r) (auto simp: subset_iff takeWhile_append2)
  with assms have "ds = ds'" by metis
  with assms(3) show ?thesis by simp
qed

lemma string_of_int_chars: "set (string_of_int i) \<subseteq> insert (CHR ''-'') (set ''0123456789'')"
proof -
  define D where "D = set ''0123456789''"
  have "set (string_of_nat n) \<subseteq> D" for n unfolding D_def by (rule string_of_nat_digits)
  then show ?thesis unfolding D_def [symmetric] by (auto simp: string_of_int_def)
qed

lemma string_of_nat_no_minus: "string_of_nat n \<noteq> CHR ''-'' # cs"
proof
  assume "string_of_nat n = CHR ''-'' # cs"
  then have "CHR ''-'' \<in> set (string_of_nat n)" by simp
  with string_of_nat_digits [of n] show False by auto
qed

lemma string_of_int_inject: "string_of_int i = string_of_int j \<longleftrightarrow> i = j"
  by (cases "i < 0"; cases "j < 0")
    (simp_all add: string_of_int_def string_of_nat_inject eq_nat_nat_iff string_of_nat_no_minus
      string_of_nat_no_minus [symmetric])

lemma string_of_int_prefix:
  assumes "string_of_int i @ r = string_of_int j @ r'" "delimited r" "delimited r'"
  shows "i = j \<and> r = r'"
proof -
  have "\<forall>c \<in> set (take 1 x). c \<notin> insert (CHR ''-'') (set ''0123456789'')" if "delimited x" for x
    using that by (cases x) (auto simp: delimited_def)
  with assms have "string_of_int i = string_of_int j \<and> r = r'"
    by (intro digits_then [OF string_of_int_chars string_of_int_chars assms(1)]) auto
  then show ?thesis by (simp add: string_of_int_inject)
qed

subsection \<open>Unambiguous bodies\<close>

lemma join_Cons: "join sep (x # xs) = x @ (if xs = [] then [] else sep @ join sep xs)"
  by (cases xs) simp_all

lemma join_prefix:
  assumes "\<forall>x \<in> set xs. \<forall>y r r'. f x @ r = f y @ r' \<longrightarrow> delimited r \<longrightarrow> delimited r' \<longrightarrow> g x = g y \<and> r = r'"
    and "\<forall>x r. \<not> delimited (f x @ r)" and "c \<in> set '']}''"
    and "join '','' (map f xs) @ c # r = join '','' (map f ys) @ c # r'"
  shows "map g xs = map g ys \<and> r = r'"
proof -
  define tl where "tl zs r = (if zs = [] then c # r else '','' @ join '','' (map f zs) @ c # r)" for zs r
  have join: "join '','' (map f (z # zs)) @ c # r = f z @ tl zs r" for z zs r
    by (simp add: join_Cons tl_def)
  have delim: "delimited (tl zs r)" "delimited (c # r)" for zs r
    using assms(3) by (auto simp: tl_def delimited_def)
  have comma: "c \<noteq> CHR '',''" using assms(3) by auto
  show ?thesis
    using assms(1,4)
  proof (induction xs arbitrary: ys)
    case Nil
    then have "delimited (join '','' (map f ys) @ c # r')" using delim(2) [of r] by simp
    then have "ys = []" using assms(2) join by (cases ys) (simp_all del: join.simps)
    with Nil.prems show ?case by simp
  next
    case (Cons x xs)
    from Cons.prems(2) have eq: "f x @ tl xs r = join '','' (map f ys) @ c # r'" by (simp only: join)
    have "ys \<noteq> []" using assms(2) eq delim(2) [of r'] by (metis append_Nil join.simps(1) list.map(1))
    then obtain y zs where ys: "ys = y # zs" by (cases ys) auto
    from eq have "f x @ tl xs r = f y @ tl zs r'" unfolding ys by (simp only: join)
    with Cons.prems(1) delim(1) have step: "g x = g y" "tl xs r = tl zs r'" by auto
    have IH: "join '','' (map f xs) @ c # r = join '','' (map f zs) @ c # r' \<Longrightarrow>
        map g xs = map g zs \<and> r = r'"
      using Cons.IH [of zs] Cons.prems(1) by (meson list.set_intros(2))
    from step(2) have "map g xs = map g zs \<and> r = r'"
      using IH comma by (cases "xs = []"; cases "zs = []") (simp_all add: tl_def)
    with step(1) ys show ?case by simp
  qed
qed

lemma sort_key_map:
  assumes "\<And>x. k' (h x) = k x"
  shows "sort_key k' (map h xs) = map h (sort_key k xs)"
proof -
  have "insort_key k' (h x) (map h ys) = map h (insort_key k x ys)" for x ys
    using assms by (induction ys) auto
  then show ?thesis by (induction xs) simp_all
qed

lemma sorted_entries_map:
  "sorted_entries (map (map_prod id (map_option f)) es) = map (map_prod id f) (sorted_entries es)"
proof -
  have "map (map_prod id the) (filter (\<lambda>(_, entry). entry \<noteq> None) (map (map_prod id (map_option f)) es)) =
      map (map_prod id f) (map (map_prod id the) (filter (\<lambda>(_, entry). entry \<noteq> None) es))"
    by (induction es) auto
  then show ?thesis unfolding sorted_entries_def 
    by (simp only: sort_key_map [where k = fst and k' = fst] fst_map_prod id_apply)
qed

lemma canonicalize_JObj:
  "canonicalize (JObj es) = ''{'' @ join '','' (map (\<lambda>(key, entry).
     stringify_string key @ '':'' @ canonicalize entry) (sorted_entries es)) @ ''}''"
  by (simp add: sorted_entries_map case_prod_unfold comp_def)

lemma normal_JObj:
  "normal (JObj es) = JObj (map (\<lambda>(key, entry). (key, Some (normal entry))) (sorted_entries es))"
  unfolding normal.simps sorted_entries_map by (simp add: map_prod_def case_prod_unfold)

declare canonicalize.simps(6) [simp del] normal.simps(6) [simp del]

lemma sorted_entries_mem: "(k, v) \<in> set (sorted_entries es) \<Longrightarrow> (k, Some v) \<in> set es"
  by (auto simp: sorted_entries_def)

lemma string_of_int_ne: "string_of_int i \<noteq> []"
  by (simp add: string_of_int_def string_of_nat_ne)

lemma string_of_int_head:
  assumes "c \<in> set ''ntf[{'' \<or> c = CHR 0x22 \<or> delimited [c]"
  shows "string_of_int i @ r \<noteq> c # x" and "c # x \<noteq> string_of_int i @ r"
proof -
  obtain d ds where d: "string_of_int i = d # ds"
    using string_of_int_ne [of i] by (cases "string_of_int i") auto
  then have "d \<in> insert (CHR ''-'') (set ''0123456789'')" using string_of_int_chars [of i] by auto
  then have "d \<noteq> c" using assms by (auto simp: delimited_def)
  then show "string_of_int i @ r \<noteq> c # x" and "c # x \<noteq> string_of_int i @ r" using d by auto
qed

lemma canonicalize_not_delimited: "\<not> delimited (canonicalize v @ r)"
proof (cases v)
  case (JNum i)
  then show ?thesis
    using string_of_int_head(1) [of "hd (string_of_int i @ r)" i r "tl (string_of_int i @ r)"]
    by (cases "string_of_int i @ r") (auto simp: delimited_def string_of_int_ne)
qed (simp_all add: delimited_def canonicalize_JObj stringify_string_def)

lemma canonicalize_prefix:
  "canonicalize v @ r = canonicalize w @ r' \<Longrightarrow> delimited r \<Longrightarrow> delimited r' \<Longrightarrow>
     normal v = normal w \<and> r = r'"
proof (induction v arbitrary: w r r')
  case (JNum i)
  then show ?case
    by (cases w) (auto simp: string_of_int_head canonicalize_JObj stringify_string_def
        dest: string_of_int_prefix split: if_splits)
next
  case (JStr s)
  then show ?case
    using stringify_string_prefix [of s r _ r']
    by (cases w) (auto simp: string_of_int_head canonicalize_JObj stringify_string_def split: if_splits)
next
  case (JArr vs)
  show ?case
  proof (cases w)
    case (JArr ws)
    have "map normal vs = map normal ws \<and> r = r'"
    proof (rule join_prefix [where f = canonicalize and c = "CHR '']''"])
      show "\<forall>x \<in> set vs. \<forall>y r r'. canonicalize x @ r = canonicalize y @ r' \<longrightarrow> delimited r \<longrightarrow>
          delimited r' \<longrightarrow> normal x = normal y \<and> r = r'"
        using JArr.IH by blast
      show "\<forall>x r. \<not> delimited (canonicalize x @ r)" by (simp add: canonicalize_not_delimited)
      show "CHR '']'' \<in> set '']}''" by simp
      show "join '','' (map canonicalize vs) @ CHR '']'' # r = join '','' (map canonicalize ws) @ CHR '']'' # r'"
        using JArr.prems(1) JArr by simp
    qed
    with JArr show ?thesis by simp
  qed (use JArr.prems in \<open>auto simp: string_of_int_head canonicalize_JObj stringify_string_def split: if_splits\<close>)
next
  case (JObj es)
  show ?case
  proof (cases w)
    case (JObj es')
    let ?f = "\<lambda>(key, entry). stringify_string key @ '':'' @ canonicalize entry"
    let ?g = "\<lambda>(key, entry). (key, Some (normal entry))"
    have "map ?g (sorted_entries es) = map ?g (sorted_entries es') \<and> r = r'"
    proof (rule join_prefix [where f = ?f and c = "CHR ''}''"])
      have IH: "normal v = normal w \<and> r = r'" if "(k, v) \<in> set (sorted_entries es)"
        "canonicalize v @ r = canonicalize w @ r'" "delimited r" "delimited r'" for k v w r r'
      proof (rule JObj.IH)
        show "(k, Some v) \<in> set es" using sorted_entries_mem [OF that(1)] .
      qed (use that(2-) in simp_all)
      show "\<forall>x \<in> set (sorted_entries es). \<forall>y r r'. ?f x @ r = ?f y @ r' \<longrightarrow> delimited r \<longrightarrow>
          delimited r' \<longrightarrow> ?g x = ?g y \<and> r = r'"
      proof (intro ballI allI impI)
        fix x y r r'
        assume m: "x \<in> set (sorted_entries es)" and d: "delimited r" "delimited r'"
          and eq: "?f x @ r = ?f y @ r'"
        obtain k v k' v' where xy: "x = (k, v)" "y = (k', v')" by (cases x, cases y) auto
        from eq have "stringify_string k @ CHR '':'' # canonicalize v @ r =
            stringify_string k' @ CHR '':'' # canonicalize v' @ r'" by (simp add: xy)
        from stringify_string_prefix [OF this] have "k = k'" "canonicalize v @ r = canonicalize v' @ r'"
          by simp_all
        with IH [of k v r v' r'] m d show "?g x = ?g y \<and> r = r'" by (simp add: xy)
      qed
      show "\<forall>x r. \<not> delimited (?f x @ r)" by (auto simp: stringify_string_def delimited_def)
      show "CHR ''}'' \<in> set '']}''" by simp
      show "join '','' (map ?f (sorted_entries es)) @ CHR ''}'' # r =
          join '','' (map ?f (sorted_entries es')) @ CHR ''}'' # r'"
        using JObj.prems(1) JObj by (simp add: canonicalize_JObj)
    qed
    with JObj show ?thesis by (simp add: normal_JObj)
  qed (use JObj.prems in \<open>auto simp: string_of_int_head canonicalize_JObj stringify_string_def split: if_splits\<close>)
qed (case_tac w; auto simp: string_of_int_head canonicalize_JObj stringify_string_def split: if_splits)+

lemma sorted_entries_Some:
  "sorted_entries (map (map_prod id Some) ps) = sort_key fst ps"
proof -
  have "filter (\<lambda>(_, entry). entry \<noteq> None) (map (map_prod id Some) ps) = map (map_prod id Some) ps"
    by (auto simp: filter_id_conv)
  then show ?thesis by (simp add: sorted_entries_def prod.map_comp comp_def prod.map_ident)
qed

lemma canonicalize_normal: "canonicalize (normal v) = canonicalize v"
proof (induction v)
  case (JArr vs)
  then have "map (canonicalize \<circ> normal) vs = map canonicalize vs" by simp
  then show ?case by (simp only: canonicalize.simps normal.simps list.map_comp)
next
  case (JObj es)
  have "normal (JObj es) = JObj (map (map_prod id Some) (map (map_prod id normal) (sorted_entries es)))"
    by (simp add: normal_JObj map_prod_def case_prod_unfold)
  moreover have "sorted_entries (map (map_prod id Some) (map (map_prod id normal) (sorted_entries es))) =
      map (map_prod id normal) (sorted_entries es)"
    unfolding sorted_entries_Some
    by (subst sort_key_map [where k = fst])
      (simp_all add: properties_for_sort_key [OF refl refl] sorted_entries_def)
  moreover have "canonicalize (normal v) = canonicalize v" if "(k, v) \<in> set (sorted_entries es)" for k v
    using JObj.IH [of "(k, Some v)" "Some v" v] sorted_entries_mem [OF that] by simp
  then have "map (\<lambda>(key, entry). stringify_string key @ '':'' @ canonicalize entry)
        (map (map_prod id normal) (sorted_entries es)) =
      map (\<lambda>(key, entry). stringify_string key @ '':'' @ canonicalize entry) (sorted_entries es)"
    by auto
  ultimately show ?case by (simp only: canonicalize_JObj)
qed simp_all

lemma canonicalize_inject: "canonicalize v = canonicalize w \<longleftrightarrow> normal v = normal w"
  using canonicalize_prefix [of v "[]" w "[]"] canonicalize_normal
  by (auto simp: delimited_def) (metis canonicalize_normal)

text \<open>Two objects with the same entries in another order have one normal form.\<close>

lemma normal_permuted:
  assumes "mset es = mset es'" "distinct (map fst es)"
  shows "normal (JObj es) = normal (JObj es')"
proof -
  define live where "live = (\<lambda>es :: (string \<times> json option) list.
    map (map_prod id the) (filter (\<lambda>(_, entry). entry \<noteq> None) es))"
  have m: "mset (live es) = mset (live es')"
    using assms(1) by (simp add: live_def)
  have "map fst (live es) = map fst (filter (\<lambda>(_, entry). entry \<noteq> None) es)"
    by (simp add: live_def)
  then have "inj_on fst (set (live es))"
    using distinct_map_filter [OF assms(2)] by (metis distinct_map)
  then have "sorted_entries es = sorted_entries es'"
    unfolding sorted_entries_def live_def [symmetric, THEN fun_cong]
    using m by (intro sort_key_inj_key_eq) simp_all
  then show ?thesis by (simp add: normal_JObj)
qed

lemma request_preimage_eq:
  "request_preimage scope body = request_preimage scope' body' \<longleftrightarrow>
     scope = scope' \<and> normal body = normal body'"
proof
  assume eq: "request_preimage scope body = request_preimage scope' body'"
  define D where "D = set ''0123456789''"
  have D: "set (string_of_nat n) \<subseteq> D" "CHR '':'' \<notin> D" for n
    unfolding D_def by (rule string_of_nat_digits) simp
  from eq have "string_of_nat (length scope) @ CHR '':'' # scope @ canonicalize body =
      string_of_nat (length scope') @ CHR '':'' # scope' @ canonicalize body'"
    by (simp add: request_preimage_def)
  from digits_then [OF D(1) D(1) this] D(2)
  have "length scope = length scope'" "scope @ canonicalize body = scope' @ canonicalize body'"
    by (simp_all add: string_of_nat_inject)
  then show "scope = scope' \<and> normal body = normal body'"
    using canonicalize_inject by simp
next
  assume "scope = scope' \<and> normal body = normal body'"
  then show "request_preimage scope body = request_preimage scope' body'"
    using canonicalize_inject by (simp add: request_preimage_def)
qed

section \<open>Properties\<close>

text \<open>
  C11. The text a request is fingerprinted by is unambiguous: two requests feed the digest the same
  text exactly when they come from the same principal and their bodies agree once every object's
  keys are put in order and \<open>undefined\<close> entries dropped. A client that serialises a basket with
  its keys in another order is recognised as a retry; a different basket, or the same basket from
  another tablet, is not.
\<close>

theorem request_fingerprint_unambiguous:
  "request_preimage scope body = request_preimage scope' body' \<longleftrightarrow>
     scope = scope' \<and> normal body = normal body'"
  by (rule request_preimage_eq)

end
