(* ===== verification/Idempotency.thy ===== *)
theory Idempotency
  imports AfterCommit RequestHash
begin

text \<open>
  \<open>orders/idempotency/idempotency.store.ts\<close>: keys reserved before there is a response, completed
  in the same transaction, and replayed afterwards. The interface the money-moving endpoints rely
  on is the locale \<open>idempotency_store\<close>; the endpoints' shape, a transaction that reserves the
  key, does the work and stores the answer, is \<open>keyed_tx\<close>, and the lemmas about it are
  proved once in the locale.
\<close>

section \<open>Definitions\<close>

definition reserveKey :: "string \<Rightarrow> string \<Rightarrow> int \<Rightarrow> ('p, 'b) db \<Rightarrow> ('p, 'b) db result" where
  "reserveKey key requestHash expiresAt d =
     (case sql_insert (\<lambda>x y. idk_key x = idk_key y)
             \<lparr>idk_key = key, idk_requestHash = requestHash, idk_responseStatus = None,
              idk_responseBody = None, idk_expiresAt = expiresAt\<rparr> (idempotencyKeys d) of
        None \<Rightarrow> Inl KeyAlreadyReserved
      | Some rows \<Rightarrow> Inr (d\<lparr>idempotencyKeys := rows\<rparr>))"

definition completeKey :: "string \<Rightarrow> nat \<Rightarrow> 'b \<Rightarrow> ('p, 'b) db \<Rightarrow> ('p, 'b) db" where
  "completeKey key status body d =
     d\<lparr>idempotencyKeys := snd (sql_update (\<lambda>r. idk_key r = key)
        (\<lambda>r. r\<lparr>idk_responseStatus := Some status, idk_responseBody := Some body\<rparr>)
        (idempotencyKeys d))\<rparr>"

definition completedResponseFor :: "string \<Rightarrow> ('p, 'b) db \<Rightarrow> (string \<times> 'b) option" where
  "completedResponseFor key d =
     (case row_by idk_key key (idempotencyKeys d) of
        None \<Rightarrow> None
      | Some stored \<Rightarrow>
          (case idk_responseBody stored of
             None \<Rightarrow> None
           | Some body \<Rightarrow> Some (idk_requestHash stored, body)))"

definition replayKey :: "string \<Rightarrow> string \<Rightarrow> ('p, 'b) db \<Rightarrow> 'b result" where
  "replayKey key requestHash d =
     (case row_by idk_key key (idempotencyKeys d) of
        None \<Rightarrow> Inl IdempotencyConflictError
      | Some stored \<Rightarrow>
          if idk_requestHash stored \<noteq> requestHash then Inl IdempotencyConflictError
          else (case idk_responseBody stored of
                  None \<Rightarrow> Inl IdempotencyConflictError
                | Some body \<Rightarrow> Inr body))"

section \<open>The interface\<close>

text \<open>
  A store of answers by key. \<open>answer_of s k\<close> is the request hash a key is bound to and the
  answer recorded for it, if any.
\<close>

locale idempotency_store =
  fixes reserve :: "string \<Rightarrow> string \<Rightarrow> int \<Rightarrow> 's \<Rightarrow> 's result"
    and complete :: "string \<Rightarrow> nat \<Rightarrow> 'b \<Rightarrow> 's \<Rightarrow> 's"
    and replay :: "string \<Rightarrow> string \<Rightarrow> 's \<Rightarrow> 'b result"
    and answer_of :: "'s \<Rightarrow> string \<Rightarrow> (string \<times> 'b option) option"
  assumes reserve_taken: "answer_of s k = Some a \<Longrightarrow> reserve k h t s = Inl KeyAlreadyReserved"
    and reserve_free: "answer_of s k = None \<Longrightarrow>
      \<exists>s'. reserve k h t s = Inr s' \<and> answer_of s' = (answer_of s)(k := Some (h, None))"
    and complete_answer: "answer_of (complete k st b s) =
      (answer_of s)(k := map_option (\<lambda>(h, _). (h, Some b)) (answer_of s k))"
    and replay_eq: "replay k h s = (case answer_of s k of
        Some (h', Some b) \<Rightarrow> if h' = h then Inr b else Inl IdempotencyConflictError
      | _ \<Rightarrow> Inl IdempotencyConflictError)"
begin

text \<open>Reserve, work, store the answer: one transaction.\<close>

definition keyed_tx :: "string \<Rightarrow> string \<Rightarrow> int \<Rightarrow> nat \<Rightarrow> ('s \<Rightarrow> ('b \<times> 's) result) \<Rightarrow> 's \<Rightarrow> ('b \<times> 's) result" where
  "keyed_tx k h t st work s =
     sum_bind (reserve k h t s) (\<lambda>s1. sum_bind (work s1) (\<lambda>(b, s2). Inr (b, complete k st b s2)))"

definition keeps_answers :: "('s \<Rightarrow> ('b \<times> 's) result) \<Rightarrow> bool" where
  "keeps_answers work \<longleftrightarrow> (\<forall>s b s'. work s = Inr (b, s') \<longrightarrow> answer_of s' = answer_of s)"

lemma keyed_tx_fresh:
  assumes "keeps_answers work" "keyed_tx k h t st work s = Inr (b, s')"
  shows "answer_of s k = None" and "answer_of s' = (answer_of s)(k := Some (h, Some b))"
proof -
  show free: "answer_of s k = None"
    using assms(2) reserve_taken [of s k _ h t]
    by (cases "answer_of s k") (auto simp: keyed_tx_def)
  from assms(2) obtain s1 s2 where "reserve k h t s = Inr s1" "work s1 = Inr (b, s2)"
    "s' = complete k st b s2"
    by (auto simp: keyed_tx_def sum_bind_iffs)
  with reserve_free [OF free, of h t] assms(1)
  show "answer_of s' = (answer_of s)(k := Some (h, Some b))"
    by (auto simp: complete_answer keeps_answers_def)
qed

lemma keyed_tx_taken:
  "answer_of s k = Some a \<Longrightarrow> keyed_tx k h t st work s = Inl KeyAlreadyReserved"
  by (simp add: keyed_tx_def reserve_taken)

text \<open>
  Once a key has answered, and for as long as the store keeps that answer, the same request
  gets the same answer back and any other request gets a conflict; neither does the work again.
\<close>

lemma keyed_replay:
  assumes "keeps_answers work" "keyed_tx k h t st work s = Inr (b, s')"
    and "answer_of s'' k = answer_of s' k"
  shows "keyed_tx k h' t' st' work' s'' = Inl KeyAlreadyReserved"
    and "replay k h' s'' = (if h' = h then Inr b else Inl IdempotencyConflictError)"
  using keyed_tx_fresh [OF assms(1,2)] assms(3)
  by (simp_all add: keyed_tx_taken [of s'' k "(h, Some b)"] replay_eq)

end

section \<open>The store implements it\<close>

definition answers :: "('p, 'b) db \<Rightarrow> string \<Rightarrow> (string \<times> 'b option) option" where
  "answers d k =
     map_option (\<lambda>r. (idk_requestHash r, idk_responseBody r)) (row_by idk_key k (idempotencyKeys d))"

lemma reserveKey_Inr:
  "reserveKey k h t d = Inr d' \<longleftrightarrow> answers d k = None \<and>
     d' = d\<lparr>idempotencyKeys := idempotencyKeys d @
       [\<lparr>idk_key = k, idk_requestHash = h, idk_responseStatus = None,
         idk_responseBody = None, idk_expiresAt = t\<rparr>]\<rparr>"
  by (auto simp: reserveKey_def answers_def row_by_None sql_insert_Some sql_insert_None split: option.splits)

lemma reserveKey_Inl:
  "reserveKey k h t d = Inl e \<longleftrightarrow> answers d k \<noteq> None \<and> e = KeyAlreadyReserved"
  by (auto simp: reserveKey_def answers_def row_by_None sql_insert_Some sql_insert_None split: option.splits)

lemma answers_reserved:
  assumes "answers d k = None"
  shows "answers (d\<lparr>idempotencyKeys := idempotencyKeys d @ [\<lparr>idk_key = k, idk_requestHash = h,
      idk_responseStatus = st, idk_responseBody = b, idk_expiresAt = t\<rparr>]\<rparr>) =
    (answers d)(k := Some (h, b))"
proof
  fix k'
  have "k \<notin> idk_key ` set (idempotencyKeys d)" using assms by (simp add: answers_def row_by_None)
  then show "answers (d\<lparr>idempotencyKeys := idempotencyKeys d @ [\<lparr>idk_key = k, idk_requestHash = h,
      idk_responseStatus = st, idk_responseBody = b, idk_expiresAt = t\<rparr>]\<rparr>) k' =
    ((answers d)(k := Some (h, b))) k'"
    by (simp add: answers_def row_by_append_new)
qed

lemma answers_completed:
  "answers (completeKey k st b d) = (answers d)(k := map_option (\<lambda>(h, _). (h, Some b)) (answers d k))"
proof
  fix k'
  show "answers (completeKey k st b d) k' =
      ((answers d)(k := map_option (\<lambda>(h, _). (h, Some b)) (answers d k))) k'"
    using row_by_sql_update [of idk_key "\<lambda>r. r\<lparr>idk_responseStatus := Some st, idk_responseBody := Some b\<rparr>"
        k' k "\<lambda>_. True" "idempotencyKeys d"]
    by (simp add: answers_def completeKey_def option.map_comp comp_def)
qed

interpretation keys: idempotency_store reserveKey completeKey replayKey answers
proof unfold_locales
  show "answers s k = Some a \<Longrightarrow> reserveKey k h t s = Inl KeyAlreadyReserved" for s :: "('p, 'b) db" and k h t a
    by (simp add: reserveKey_Inl)
  show "answers s k = None \<Longrightarrow> \<exists>s'. reserveKey k h t s = Inr s' \<and> answers s' = (answers s)(k := Some (h, None))"
    for s :: "('p, 'b) db" and k h t
    by (simp add: reserveKey_Inr answers_reserved)
  show "replayKey k h s = (case answers s k of
      Some (h', Some b) \<Rightarrow> if h' = h then Inr b else Inl IdempotencyConflictError
    | _ \<Rightarrow> Inl IdempotencyConflictError)" for s :: "('p, 'b) db" and k h
    by (auto simp: replayKey_def answers_def split: option.splits)
qed (rule answers_completed)

lemma completedResponseFor_answers:
  "completedResponseFor k d = (case answers d k of Some (h, Some b) \<Rightarrow> Some (h, b) | _ \<Rightarrow> None)"
  by (auto simp: completedResponseFor_def answers_def split: option.splits)

lemma completeKey_frame [simp]:
  "orders (completeKey k st b d) = orders d"
  "payments (completeKey k st b d) = payments d"
  "refunds (completeKey k st b d) = refunds d"
  "orderItems (completeKey k st b d) = orderItems d"
  "orderItemOptions (completeKey k st b d) = orderItemOptions d"
  "orderStatusHistory (completeKey k st b d) = orderStatusHistory d"
  "orderNumberCounters (completeKey k st b d) = orderNumberCounters d"
  "paymentEvents (completeKey k st b d) = paymentEvents d"
  by (simp_all add: completeKey_def)

end
