(* ===== verification/Responses.thy ===== *)
theory Responses
  imports OrderState OrderPricing OrderNumber Idempotency
begin

text \<open>
  What the money-moving endpoints answer and the idempotency store keeps, the configuration they
  read, and the pieces \<open>orders.service.ts\<close> and \<open>create-payment.service.ts\<close> share. The
  stored response is a JSON column; \<open>stored_body\<close> is what the two endpoints put in
  it, and the cast on the way out is the identity.
\<close>

section \<open>Definitions\<close>

record order_view =
  vw_id :: string
  vw_orderNumber :: "string option"
  vw_status :: order_status
  vw_channel :: order_channel
  vw_businessDay :: string
  vw_customerName :: "string option"
  vw_expiresAt :: "string option"
  vw_items :: "order_line list"
  vw_subtotalMinor :: int
  vw_vatMinor :: int
  vw_totalMinor :: int
  vw_currency :: string

text \<open>\<open>pv_clientSecret\<close> is the secret of the one kind of client action there is.\<close>

record payment_view =
  pv_id :: string
  pv_status :: payment_status
  pv_method :: "payment_method option"
  pv_amountMinor :: int
  pv_currency :: string
  pv_provider :: payment_provider
  pv_clientSecret :: "string option"

datatype stored_body = OrderBody order_view | PaymentBody payment_view

type_synonym 'p tables = "('p, stored_body) db"
type_synonym 'p app = "('p, stored_body) world"

text \<open>The settings of \<open>config/env.validation.ts\<close> these services read.\<close>

record config =
  VAT_BASIS_POINTS :: int
  BUSINESS_TIMEZONE :: string
  BUSINESS_DAY_START_HOUR :: int
  ORDER_EXPIRY_SECONDS :: int
  CURRENCY :: string

fun scopeOf :: "principal \<Rightarrow> string" where
  "scopeOf (DevicePrincipal deviceId) = ''device:'' @ deviceId"
| "scopeOf (StaffPrincipal userId _) = ''user:'' @ userId"

definition keyExpiry :: "int \<Rightarrow> int" where
  "keyExpiry now = now + 24 * 60 * 60 * 1000"

definition expiry_instant :: "config \<Rightarrow> int \<Rightarrow> int" where
  "expiry_instant cfg now = now + ORDER_EXPIRY_SECONDS cfg * 1000"

definition today_of :: "(string \<Rightarrow> int \<Rightarrow> int) \<Rightarrow> config \<Rightarrow> int \<Rightarrow> string" where
  "today_of offset cfg now =
     businessDayOf offset now (BUSINESS_TIMEZONE cfg) (BUSINESS_DAY_START_HOUR cfg)"

end
