(* ===== verification/Gateway.thy ===== *)
theory Gateway
  imports Responses
begin

text \<open>
  \<open>payments/provider/\<close>: the port the order pipeline speaks to the payment gateway through, and
  the adapter that speaks it to Stripe.

  The port is the record \<open>payment_provider_port\<close>; a handler takes one as an argument, so
  every answer the gateway may give in that call is covered. Stripe's SDK is not part of the
  program: \<open>stripe_client\<close> is the record of the calls the adapter makes, an error being one
  of the SDK's error classes. \<open>stripe_provider\<close> builds the port from it. Stored event payloads
  are JSON; a field that is absent or of another type than the adapter reads is \<open>None\<close>.
\<close>

section \<open>Definitions\<close>

subsection \<open>\<open>payment-provider.ts\<close>\<close>

record created_intent =
  int_intentId :: string
  int_clientSecret :: string

datatype cancel_intent_outcome = INTENT_CANCELLED | ALREADY_SUCCEEDED

datatype gateway_outcome =
    SUCCEEDED (outcome_intentId: "string option") (outcome_amountMinor: "int option") (outcome_currency: string)
  | FAILED (outcome_intentId: "string option") (outcome_reason: "string option")
  | CANCELLED_OUTCOME (outcome_intentId: "string option")
  | IGNORED

record gateway_event =
  ge_eventId :: string
  ge_type :: string
  ge_createdAt :: int
  ge_payload :: json
  ge_outcome :: gateway_outcome

record payment_provider_port =
  createIntent :: "int \<Rightarrow> string \<Rightarrow> string option \<Rightarrow> string \<Rightarrow> created_intent result"
  cancelIntent :: "string \<Rightarrow> cancel_intent_outcome result"
  clientSecretFor :: "string \<Rightarrow> string result"
  parseWebhook :: "string \<Rightarrow> string \<Rightarrow> gateway_event result"
  interpret_payload :: "json \<Rightarrow> gateway_outcome result"
  capturedTotalFor :: "string list \<Rightarrow> (int \<times> string list) result"
  resolveMethod :: "string \<Rightarrow> payment_method option"

subsection \<open>The SDK as the adapter sees it\<close>

datatype stripe_error =
    StripeConnectionError | StripeAPIError | StripeRateLimitError | StripeInvalidRequestError
  | StripeOtherError

datatype charge_ref = NoCharge | ChargeId string | Charge "string option"

record stripe_intent =
  si_id :: string
  si_status :: string
  si_client_secret :: "string option"
  si_amount_received :: int
  si_latest_charge :: charge_ref

record stripe_event =
  se_id :: string
  se_type :: string
  se_created :: int
  se_json :: json

record stripe_client =
  sdk_create :: "int \<Rightarrow> string \<Rightarrow> string option \<Rightarrow> string \<Rightarrow> stripe_error + stripe_intent"
  sdk_cancel :: "string \<Rightarrow> stripe_error + unit"
  sdk_retrieve :: "string \<Rightarrow> stripe_error + stripe_intent"
  sdk_constructEvent :: "string \<Rightarrow> string \<Rightarrow> string \<Rightarrow> stripe_event option"

subsection \<open>\<open>stripe-payment.provider.ts\<close>\<close>

definition toLowerCase :: "string \<Rightarrow> string" where
  "toLowerCase s = map (\<lambda>c. let n = (of_char c :: nat) in if 65 \<le> n \<and> n \<le> 90 then char_of (n + 32) else c) s"

definition toUpperCase :: "string \<Rightarrow> string" where
  "toUpperCase s = map (\<lambda>c. let n = (of_char c :: nat) in if 97 \<le> n \<and> n \<le> 122 then char_of (n - 32) else c) s"

definition UNREACHABLE :: "stripe_error list" where
  "UNREACHABLE = [StripeConnectionError, StripeAPIError, StripeRateLimitError]"

definition thrown :: "stripe_error \<Rightarrow> app_error" where
  "thrown e = OtherError ''StripeError''"

definition gateway :: "stripe_error + 'a \<Rightarrow> 'a result" where
  "gateway answer =
     (case answer of
        Inr x \<Rightarrow> Inr x
      | Inl e \<Rightarrow> if List.member UNREACHABLE e then Inl DependencyUnavailableError else Inl (thrown e))"

definition stripe_createIntent ::
  "stripe_client \<Rightarrow> int \<Rightarrow> string \<Rightarrow> string option \<Rightarrow> string \<Rightarrow> created_intent result" where
  "stripe_createIntent stripe amountMinor currency idempotencyKey orderId =
     sum_bind (gateway (sdk_create stripe amountMinor (toLowerCase currency) idempotencyKey orderId)) (\<lambda>intent.
       case si_client_secret intent of
         None \<Rightarrow> Inl (OtherError ''Stripe returned no client secret'')
       | Some secret \<Rightarrow> Inr \<lparr>int_intentId = si_id intent, int_clientSecret = secret\<rparr>)"

definition stripe_cancelIntent :: "stripe_client \<Rightarrow> string \<Rightarrow> cancel_intent_outcome result" where
  "stripe_cancelIntent stripe intentId =
     (case sdk_cancel stripe intentId of
        Inr _ \<Rightarrow> Inr INTENT_CANCELLED
      | Inl e \<Rightarrow>
          if e \<noteq> StripeInvalidRequestError then Inl (thrown e)
          else case sdk_retrieve stripe intentId of
                 Inl e' \<Rightarrow> Inl (thrown e')
               | Inr intent \<Rightarrow>
                   if si_status intent = ''succeeded'' then Inr ALREADY_SUCCEEDED
                   else if si_status intent = ''canceled'' then Inr INTENT_CANCELLED
                   else Inl (thrown e))"

definition stripe_clientSecretFor :: "stripe_client \<Rightarrow> string \<Rightarrow> string result" where
  "stripe_clientSecretFor stripe intentId =
     sum_bind (gateway (sdk_retrieve stripe intentId)) (\<lambda>intent.
       case si_client_secret intent of
         None \<Rightarrow> Inl (OtherError ''Stripe returned no client secret'')
       | Some secret \<Rightarrow> Inr secret)"

text \<open>Reading a stored payload. A later entry of the same key wins, as in a JavaScript object.\<close>

definition field :: "string \<Rightarrow> json \<Rightarrow> json option" where
  "field k v = (case v of JObj es \<Rightarrow> Option.bind (map_of (rev es) k) id | _ \<Rightarrow> None)"

fun as_string :: "json option \<Rightarrow> string option" where
  "as_string (Some (JStr s)) = Some s"
| "as_string _ = None"

fun as_number :: "json option \<Rightarrow> int option" where
  "as_number (Some (JNum i)) = Some i"
| "as_number _ = None"

fun is_object :: "json option \<Rightarrow> bool" where
  "is_object (Some (JObj _)) = True"
| "is_object (Some (JArr _)) = True"
| "is_object _ = False"

definition data_object :: "json \<Rightarrow> json option" where
  "data_object payload = Option.bind (field ''data'' payload) (field ''object'')"

definition hasEventShape :: "json \<Rightarrow> bool" where
  "hasEventShape payload \<longleftrightarrow>
     is_object (Some payload) \<and> as_string (field ''type'' payload) \<noteq> None \<and>
     is_object (field ''data'' payload) \<and> is_object (data_object payload)"

definition toOutcome :: "json \<Rightarrow> gateway_outcome result" where
  "toOutcome payload =
     (if \<not> hasEventShape payload then Inr IGNORED
      else let intent = the (data_object payload);
               intentId = as_string (field ''id'' intent);
               type = the (as_string (field ''type'' payload))
           in if type = ''payment_intent.succeeded'' then
                (case as_string (field ''currency'' intent) of
                   None \<Rightarrow> Inl (OtherError ''TypeError'')
                 | Some currency \<Rightarrow>
                     Inr (SUCCEEDED intentId (as_number (field ''amount_received'' intent)) (toUpperCase currency)))
              else if type = ''payment_intent.payment_failed'' then
                Inr (FAILED intentId (Option.bind (field ''last_payment_error'' intent)
                       (\<lambda>e. as_string (field ''message'' e))))
              else if type = ''payment_intent.canceled'' then Inr (CANCELLED_OUTCOME intentId)
              else Inr IGNORED)"

text \<open>The secrets are tried in turn, newest first.\<close>

fun verify :: "stripe_client \<Rightarrow> string list \<Rightarrow> string \<Rightarrow> string \<Rightarrow> stripe_event result" where
  "verify stripe [] rawBody signature = Inl WebhookSignatureInvalidError"
| "verify stripe (secret # secrets) rawBody signature =
     (case sdk_constructEvent stripe rawBody signature secret of
        Some event \<Rightarrow> Inr event
      | None \<Rightarrow> verify stripe secrets rawBody signature)"

definition stripe_parseWebhook ::
  "stripe_client \<Rightarrow> string list \<Rightarrow> string \<Rightarrow> string \<Rightarrow> gateway_event result" where
  "stripe_parseWebhook stripe secrets rawBody signature =
     sum_bind (verify stripe secrets rawBody signature) (\<lambda>event.
     sum_bind (toOutcome (se_json event)) (\<lambda>outcome.
       Inr \<lparr>ge_eventId = se_id event, ge_type = se_type event,
            ge_createdAt = se_created event * 1000, ge_payload = se_json event, ge_outcome = outcome\<rparr>))"

fun stripe_capturedTotalFor ::
  "stripe_client \<Rightarrow> int \<Rightarrow> string list \<Rightarrow> string list \<Rightarrow> (int \<times> string list) result" where
  "stripe_capturedTotalFor stripe totalMinor notCaptured [] = Inr (totalMinor, notCaptured)"
| "stripe_capturedTotalFor stripe totalMinor notCaptured (intentId # intentIds) =
     (case sdk_retrieve stripe intentId of
        Inl e \<Rightarrow> Inl (thrown e)
      | Inr intent \<Rightarrow>
          if si_status intent = ''succeeded''
          then stripe_capturedTotalFor stripe (totalMinor + si_amount_received intent) notCaptured intentIds
          else stripe_capturedTotalFor stripe totalMinor (notCaptured @ [intentId]) intentIds)"

definition METHOD_BY_STRIPE_TYPE :: "string \<Rightarrow> payment_method option" where
  "METHOD_BY_STRIPE_TYPE type =
     (if type = ''card'' then Some CARD else if type = ''promptpay'' then Some PROMPTPAY else None)"

definition stripe_resolveMethod :: "stripe_client \<Rightarrow> string \<Rightarrow> payment_method option" where
  "stripe_resolveMethod stripe intentId =
     (case sdk_retrieve stripe intentId of
        Inl _ \<Rightarrow> None
      | Inr intent \<Rightarrow>
          (case si_latest_charge intent of
             NoCharge \<Rightarrow> None
           | ChargeId _ \<Rightarrow> None
           | Charge None \<Rightarrow> None
           | Charge (Some type) \<Rightarrow> METHOD_BY_STRIPE_TYPE type))"

definition stripe_provider :: "stripe_client \<Rightarrow> string list \<Rightarrow> payment_provider_port" where
  "stripe_provider stripe secrets =
     \<lparr>createIntent = stripe_createIntent stripe,
      cancelIntent = stripe_cancelIntent stripe,
      clientSecretFor = stripe_clientSecretFor stripe,
      parseWebhook = stripe_parseWebhook stripe secrets,
      interpret_payload = toOutcome,
      capturedTotalFor = stripe_capturedTotalFor stripe 0 [],
      resolveMethod = stripe_resolveMethod stripe\<rparr>"

section \<open>Lemmas\<close>

lemma verify_iff:
  "verify stripe secrets body sig = Inr ev \<Longrightarrow>
     \<exists>secret \<in> set secrets. sdk_constructEvent stripe body sig secret = Some ev"
  by (induction secrets) (auto split: option.splits)

lemma verify_total:
  "\<exists>secret \<in> set secrets. sdk_constructEvent stripe body sig secret \<noteq> None \<Longrightarrow>
     \<exists>ev. verify stripe secrets body sig = Inr ev"
  by (induction secrets) (auto split: option.splits)

lemma verify_Inl:
  "verify stripe secrets body sig = Inl e \<longleftrightarrow> e = WebhookSignatureInvalidError \<and>
     (\<forall>secret \<in> set secrets. sdk_constructEvent stripe body sig secret = None)"
  by (induction secrets) (auto split: option.splits)

text \<open>Cancelling says the money was taken only when the gateway says so on a second look.\<close>

lemma stripe_cancelIntent_cases:
  "stripe_cancelIntent stripe i = Inr ALREADY_SUCCEEDED \<longleftrightarrow>
     sdk_cancel stripe i = Inl StripeInvalidRequestError \<and>
     (\<exists>intent. sdk_retrieve stripe i = Inr intent \<and> si_status intent = ''succeeded'')"
  by (auto simp: stripe_cancelIntent_def split: sum.splits if_splits)

lemma capturedTotal_acc:
  "stripe_capturedTotalFor stripe t nc ids =
     map_sum id (\<lambda>(t', nc'). (t + t', nc @ nc')) (stripe_capturedTotalFor stripe 0 [] ids)"
proof (induction ids arbitrary: t nc)
  case (Cons i ids)
  show ?case
  proof (cases "sdk_retrieve stripe i")
    case (Inr intent)
    show ?thesis
      using Cons.IH [of "t + si_amount_received intent" nc] Cons.IH [of "si_amount_received intent" "[]"]
        Cons.IH [of t "nc @ [i]"] Cons.IH [of 0 "[i]"]
      by (cases "stripe_capturedTotalFor stripe 0 [] ids") (auto simp: Inr)
  qed simp
qed simp

end
