(* ===== verification/OrderExit.thy ===== *)
theory OrderExit
  imports Gateway
begin

text \<open>
  The two ways an unpaid order leaves the queue: \<open>orders/cancel/cancel-order.service.ts\<close> and
  \<open>orders/expiry/order-expiry.service.ts\<close>. Both read outside a transaction, ask the gateway to
  cancel the live intent, and only then commit. \<open>gaps n\<close> is what other requests commit in the
  \<open>n\<close>-th place where the handler holds no transaction; the identity when it runs alone.
\<close>

section \<open>Definitions\<close>

type_synonym ('p, 'b) gaps = "nat \<Rightarrow> ('p, 'b) world \<Rightarrow> ('p, 'b) world"

definition live_payment :: "string \<Rightarrow> ('p, 'b) db \<Rightarrow> payment_row option" where
  "live_payment orderId d =
     sql_find (\<lambda>p. pay_orderId p = orderId \<and> live_status (pay_status p)) (payments d)"

text \<open>The order a principal may act on: a device only sees its own.\<close>

definition visible_order :: "principal \<Rightarrow> string \<Rightarrow> ('p, 'b) db \<Rightarrow> order_row option" where
  "visible_order who orderId d =
     sql_find (\<lambda>r. ord_id r = orderId \<and>
       (case who of DevicePrincipal deviceId \<Rightarrow> ord_kioskDeviceId r = Some deviceId
                  | StaffPrincipal _ _ \<Rightarrow> True)) (orders d)"

subsection \<open>\<open>cancel-order.service.ts\<close>\<close>

definition CANCELLABLE :: "order_status list" where
  "CANCELLABLE = [DRAFT, PENDING_PAYMENT]"

definition cancel_precheck :: "principal \<Rightarrow> string \<Rightarrow> ('p, 'b) db \<Rightarrow> order_status result" where
  "cancel_precheck who orderId d =
     (case visible_order who orderId d of
        None \<Rightarrow> Inl (ResourceNotFoundError ''order'' orderId)
      | Some current \<Rightarrow>
          if \<not> List.member CANCELLABLE (ord_status current)
          then Inl (OrderInvalidTransitionError (ord_status current) CANCELLED)
          else Inr (ord_status current))"

text \<open>The gateway's say: an unreachable gateway or a payment already taken stops the cancellation.\<close>

definition cancel_at_gateway :: "payment_provider_port \<Rightarrow> payment_row option \<Rightarrow> unit result" where
  "cancel_at_gateway provider live =
     (case Option.bind live pay_providerIntentId of
        None \<Rightarrow> Inr ()
      | Some intentId \<Rightarrow>
          (case cancelIntent provider intentId of
             Inl _ \<Rightarrow> Inl DependencyUnavailableError
           | Inr ALREADY_SUCCEEDED \<Rightarrow> Inl OrderAlreadyPaidError
           | Inr INTENT_CANCELLED \<Rightarrow> Inr ()))"

definition cancel_payment :: "string \<Rightarrow> ('p, 'b) db \<Rightarrow> bool \<times> ('p, 'b) db" where
  "cancel_payment paymentId d =
     (case sql_update (\<lambda>p. pay_id p = paymentId \<and> pay_status p \<noteq> PAY_SUCCEEDED)
             (\<lambda>p. p\<lparr>pay_status := PAY_CANCELLED\<rparr>) (payments d) of
        (returned, rows) \<Rightarrow> (returned \<noteq> [], d\<lparr>payments := rows\<rparr>))"

definition cancel_work ::
  "int \<Rightarrow> principal \<Rightarrow> string \<Rightarrow> string option \<Rightarrow> order_status \<Rightarrow> payment_row option \<Rightarrow>
   ('p, 'b, order_summary \<times> bool) emitting_tx" where
  "cancel_work now who orderId reason source live d =
     sum_bind (transitionOrder now
       \<lparr>tr_orderId = orderId, tr_from = source, tr_to = CANCELLED,
        tr_actorType = fst (actorOf who), tr_actorId = Some (snd (actorOf who)),
        tr_reason = reason\<rparr> d) (\<lambda>(updated, d1).
     let (cancelledPayment, d2) =
       (case live of None \<Rightarrow> (False, d1) | Some p \<Rightarrow> cancel_payment (pay_id p) d1)
     in Inr ((toOrderSummary updated, cancelledPayment), d2,
             [order_updated orderId (ord_kioskDeviceId updated)]))"

definition cancel ::
  "payment_provider_port \<Rightarrow> (domain_event list \<Rightarrow> bool) \<Rightarrow> ('p, 'b) gaps \<Rightarrow> int \<Rightarrow> principal \<Rightarrow> string \<Rightarrow>
   string option \<Rightarrow> ('p, 'b) world \<Rightarrow> order_summary result \<times> ('p, 'b) world" where
  "cancel provider publish gaps now who orderId reason w =
     (case cancel_precheck who orderId (tables w) of
        Inl e \<Rightarrow> (Inl e, w)
      | Inr source \<Rightarrow>
          let w1 = gaps 0 w; live = live_payment orderId (tables w1) in
          case cancel_at_gateway provider live of
            Inl e \<Rightarrow> (Inl e, w1)
          | Inr _ \<Rightarrow>
              (case afterCommit_run publish (cancel_work now who orderId reason source live) (gaps 1 w1) of
                 (Inl e, w2) \<Rightarrow> (Inl e, w2)
               | (Inr (summary, cancelledPayment), w2) \<Rightarrow>
                   (Inr summary,
                    if cancelledPayment then count_metric (payments_inc STRIPE PAY_CANCELLED) w2 else w2)))"

subsection \<open>\<open>order-expiry.service.ts\<close>\<close>

definition MAX_PER_TICK :: nat where "MAX_PER_TICK = 200"

definition expire_work :: "int \<Rightarrow> string \<Rightarrow> payment_row option \<Rightarrow> ('p, 'b, unit) tx" where
  "expire_work now orderId live d =
     sum_bind (transitionOrder now
       \<lparr>tr_orderId = orderId, tr_from = PENDING_PAYMENT, tr_to = EXPIRED,
        tr_actorType = SYSTEM, tr_actorId = None, tr_reason = None\<rparr> d) (\<lambda>(_, d1).
     Inr ((), case live of
                None \<Rightarrow> d1
              | Some p \<Rightarrow> d1\<lparr>payments := snd (sql_update (\<lambda>q. pay_id q = pay_id p)
                                (\<lambda>q. q\<lparr>pay_status := PAY_CANCELLED\<rparr>) (payments d1))\<rparr>))"

text \<open>Every failure is caught and logged; the result says whether the order expired.\<close>

definition expireOne ::
  "payment_provider_port \<Rightarrow> ('p, 'b) gaps \<Rightarrow> int \<Rightarrow> string \<Rightarrow> ('p, 'b) world \<Rightarrow> bool \<times> ('p, 'b) world" where
  "expireOne provider gaps now orderId w =
     (let live = live_payment orderId (tables w);
          answer = (case Option.bind live pay_providerIntentId of
                      None \<Rightarrow> Inr INTENT_CANCELLED
                    | Some intentId \<Rightarrow> cancelIntent provider intentId)
      in if answer \<noteq> Inr INTENT_CANCELLED then (False, w)
         else case db_transaction (expire_work now orderId live) (gaps 0 w) of
                (Inl _, w1) \<Rightarrow> (False, w1)
              | (Inr _, w1) \<Rightarrow>
                  (True, if live \<noteq> None then count_metric (payments_inc STRIPE PAY_CANCELLED) w1 else w1))"

definition overdue_orders :: "int \<Rightarrow> ('p, 'b) db \<Rightarrow> string list" where
  "overdue_orders now d =
     take MAX_PER_TICK (map ord_id (filter (\<lambda>r. ord_status r = PENDING_PAYMENT \<and>
       (case ord_expiresAt r of None \<Rightarrow> False | Some t \<Rightarrow> t < now)) (orders d)))"

fun expire_each ::
  "payment_provider_port \<Rightarrow> (nat \<Rightarrow> ('p, 'b) gaps) \<Rightarrow> int \<Rightarrow> string list \<Rightarrow> nat \<Rightarrow> ('p, 'b) world \<Rightarrow>
   nat \<times> ('p, 'b) world" where
  "expire_each provider gaps now [] expired w = (expired, w)"
| "expire_each provider gaps now (i # ids) expired w =
     (case expireOne provider (\<lambda>n. gaps (length ids) (Suc n)) now i (gaps (length ids) 0 w) of
        (reaped, w1) \<Rightarrow> expire_each provider gaps now ids (if reaped then expired + 1 else expired) w1)"

definition expireOverdue ::
  "payment_provider_port \<Rightarrow> (nat \<Rightarrow> ('p, 'b) gaps) \<Rightarrow> int \<Rightarrow> ('p, 'b) world \<Rightarrow> nat \<times> ('p, 'b) world" where
  "expireOverdue provider gaps now w = expire_each provider gaps now (overdue_orders now (tables w)) 0 w"

end
