(* ===== verification/Webhooks.thy ===== *)
theory Webhooks
  imports OrderExit
begin

text \<open>
  \<open>payments/webhooks/\<close>: the inbox a gateway event is stored in, the decision what an event means
  for our rows, and the processor that writes the consequences. The decision is pure; the processor
  judges a snapshot read outside its transaction, so \<open>gaps\<close> stands for what others commit in
  between, as in \<open>OrderExit\<close>.
\<close>

section \<open>Definitions\<close>

subsection \<open>\<open>decide-payment-outcome.ts\<close>\<close>

datatype refuse_reason =
    NoPaymentRow | SettledAlready | AmountMismatch | CurrencyMismatch | OrderMissing
  | OrderNotPending order_status

datatype skip_reason = NotActedOn | AlreadyThatStatus | AlreadyPaid

datatype payment_decision =
    MARK_PAID (decision_paymentId: string) (decision_orderId: string)
  | MARK_PAYMENT (decision_paymentId: string) (decision_status: payment_status)
  | SKIP skip_reason
  | REFUSE refuse_reason

definition SETTLED :: "payment_status list" where
  "SETTLED = [PAY_SUCCEEDED]"

definition decideSuccess ::
  "int option \<Rightarrow> string \<Rightarrow> payment_row \<Rightarrow> order_row option \<Rightarrow> payment_decision" where
  "decideSuccess amountMinor currency payment order =
     (if Some (pay_amountMinor payment) \<noteq> amountMinor then REFUSE AmountMismatch
      else if pay_currency payment \<noteq> currency then REFUSE CurrencyMismatch
      else case order of
             None \<Rightarrow> REFUSE OrderMissing
           | Some r \<Rightarrow>
               if ord_status r = PAID then SKIP AlreadyPaid
               else if ord_status r \<noteq> PENDING_PAYMENT then REFUSE (OrderNotPending (ord_status r))
               else MARK_PAID (pay_id payment) (ord_id r))"

definition decideOther :: "payment_status \<Rightarrow> payment_row \<Rightarrow> payment_decision" where
  "decideOther status payment =
     (if pay_status payment = status then SKIP AlreadyThatStatus
      else if List.member SETTLED (pay_status payment) then REFUSE SettledAlready
      else MARK_PAYMENT (pay_id payment) status)"

definition decidePaymentOutcome ::
  "gateway_outcome \<Rightarrow> payment_row option \<Rightarrow> order_row option \<Rightarrow> payment_decision" where
  "decidePaymentOutcome outcome payment order =
     (case outcome of
        IGNORED \<Rightarrow> SKIP NotActedOn
      | SUCCEEDED _ amountMinor currency \<Rightarrow>
          (case payment of None \<Rightarrow> REFUSE NoPaymentRow
           | Some p \<Rightarrow> decideSuccess amountMinor currency p order)
      | FAILED _ _ \<Rightarrow>
          (case payment of None \<Rightarrow> REFUSE NoPaymentRow | Some p \<Rightarrow> decideOther PAY_FAILED p)
      | CANCELLED_OUTCOME _ \<Rightarrow>
          (case payment of None \<Rightarrow> REFUSE NoPaymentRow | Some p \<Rightarrow> decideOther PAY_CANCELLED p))"

subsection \<open>\<open>payment-event-processor.service.ts\<close>\<close>

definition MAX_EVENTS_PER_TICK :: nat where "MAX_EVENTS_PER_TICK = 100"

fun intent_of :: "gateway_outcome \<Rightarrow> string option" where
  "intent_of (SUCCEEDED i _ _) = i"
| "intent_of (FAILED i _) = i"
| "intent_of (CANCELLED_OUTCOME i) = i"
| "intent_of IGNORED = None"

definition load_payment :: "gateway_outcome \<Rightarrow> ('p, 'b) db \<Rightarrow> payment_row option" where
  "load_payment outcome d =
     (case intent_of outcome of
        None \<Rightarrow> None
      | Some i \<Rightarrow> sql_find (\<lambda>p. pay_providerIntentId p = Some i) (payments d))"

definition load_order :: "payment_row option \<Rightarrow> ('p, 'b) db \<Rightarrow> order_row option" where
  "load_order payment d =
     (case payment of None \<Rightarrow> None | Some p \<Rightarrow> row_by ord_id (pay_orderId p) (orders d))"

definition markProcessed :: "int \<Rightarrow> string \<Rightarrow> string option \<Rightarrow> ('p, 'b) db \<Rightarrow> bool \<times> ('p, 'b) db" where
  "markProcessed now eventId paymentId d =
     (case sql_update (\<lambda>e. ev_id e = eventId \<and> ev_processedAt e = None)
             (\<lambda>e. e\<lparr>ev_processedAt := Some now,
                    ev_paymentId := (case paymentId of None \<Rightarrow> ev_paymentId e | Some i \<Rightarrow> Some i)\<rparr>)
             (paymentEvents d) of
        (stamped, rows) \<Rightarrow> (stamped \<noteq> [], d\<lparr>paymentEvents := rows\<rparr>))"

definition mark_payment_work ::
  "int \<Rightarrow> string \<Rightarrow> string \<Rightarrow> payment_status \<Rightarrow> ('p, 'b, bool) emitting_tx" where
  "mark_payment_work now eventId paymentId status d =
     (case sql_update (\<lambda>p. pay_id p = paymentId \<and> \<not> List.member SETTLED (pay_status p))
             (\<lambda>p. p\<lparr>pay_status := status\<rparr>) (payments d) of
        (returned, rows) \<Rightarrow>
          let (stamped, d1) = markProcessed now eventId (Some paymentId) (d\<lparr>payments := rows\<rparr>);
              announced =
                (case returned of
                   [] \<Rightarrow> []
                 | settled # _ \<Rightarrow>
                     if status = PAY_FAILED
                     then (case row_by ord_id (pay_orderId settled) (orders d1) of
                             None \<Rightarrow> []
                           | Some order \<Rightarrow> [payment_failed (ord_id order) (ord_kioskDeviceId order) paymentId])
                     else [])
          in Inr (returned \<noteq> [] \<and> stamped, d1, announced))"

definition mark_paid_work ::
  "int \<Rightarrow> string \<Rightarrow> string \<Rightarrow> string \<Rightarrow> payment_method option \<Rightarrow> ('p, 'b, unit) emitting_tx" where
  "mark_paid_work now eventId paymentId orderId method d =
     sum_bind (transitionOrder now
       \<lparr>tr_orderId = orderId, tr_from = PENDING_PAYMENT, tr_to = PAID,
        tr_actorType = SYSTEM, tr_actorId = None, tr_reason = None\<rparr> d) (\<lambda>(updated, d1).
     let d2 = d1\<lparr>payments := snd (sql_update (\<lambda>p. pay_id p = paymentId)
                (\<lambda>p. p\<lparr>pay_status := PAY_SUCCEEDED,
                       pay_method := (case method of None \<Rightarrow> pay_method p | Some m \<Rightarrow> Some m)\<rparr>)
                (payments d1))\<rparr>;
         (_, d3) = markProcessed now eventId (Some paymentId) d2
     in Inr ((), d3,
             [order_paid orderId (ord_kioskDeviceId updated),
              payment_succeeded orderId (ord_kioskDeviceId updated) paymentId]))"

definition resolve_rail :: "payment_provider_port \<Rightarrow> string \<Rightarrow> ('p, 'b) db \<Rightarrow> payment_method option" where
  "resolve_rail provider paymentId d =
     (case Option.bind (row_by pay_id paymentId (payments d)) pay_providerIntentId of
        None \<Rightarrow> None
      | Some intentId \<Rightarrow> resolveMethod provider intentId)"

definition markPaid ::
  "payment_provider_port \<Rightarrow> (domain_event list \<Rightarrow> bool) \<Rightarrow> (json, 'b) gaps \<Rightarrow> int \<Rightarrow> string \<Rightarrow> string \<Rightarrow>
   string \<Rightarrow> (json, 'b) world \<Rightarrow> bool result \<times> (json, 'b) world" where
  "markPaid provider publish gaps now eventId paymentId orderId w =
     (let method = resolve_rail provider paymentId (tables w) in
      case afterCommit_run publish (mark_paid_work now eventId paymentId orderId method) (gaps 3 w) of
        (Inl e, w1) \<Rightarrow> (Inl e, w1)
      | (Inr _, w1) \<Rightarrow> (Inr True, count_metric (payments_inc STRIPE PAY_SUCCEEDED) w1))"

definition decide_at ::
  "payment_provider_port \<Rightarrow> (json, 'b) gaps \<Rightarrow> json \<Rightarrow> (json, 'b) world \<Rightarrow>
   (payment_row option \<times> payment_decision) result \<times> (json, 'b) world" where
  "decide_at provider gaps payload w =
     (case interpret_payload provider payload of
        Inl e \<Rightarrow> (Inl e, w)
      | Inr outcome \<Rightarrow>
          let w1 = gaps 0 w; payment = load_payment outcome (tables w1);
              w2 = gaps 1 w1; order = load_order payment (tables w2)
          in (Inr (payment, decidePaymentOutcome outcome payment order), w2))"

definition apply_event ::
  "payment_provider_port \<Rightarrow> (domain_event list \<Rightarrow> bool) \<Rightarrow> (json, 'b) gaps \<Rightarrow> int \<Rightarrow> string \<Rightarrow>
   (json, 'b) world \<Rightarrow> bool result \<times> (json, 'b) world" where
  "apply_event provider publish gaps now eventId w =
     (case sql_find (\<lambda>e. ev_id e = eventId \<and> ev_processedAt e = None) (paymentEvents (tables w)) of
        None \<Rightarrow> (Inr False, w)
      | Some event \<Rightarrow>
          (case decide_at provider gaps (ev_payload event) w of
             (Inl e, w2) \<Rightarrow> (Inl e, w2)
           | (Inr (payment, decision), w2) \<Rightarrow>
               (case decision of
                  REFUSE _ \<Rightarrow> (Inr False, w2)
                | SKIP _ \<Rightarrow>
                    let w3 = gaps 2 w2
                    in (Inr False, w3\<lparr>tables := snd (markProcessed now eventId (map_option pay_id payment) (tables w3))\<rparr>)
                | MARK_PAYMENT paymentId status \<Rightarrow>
                    (case afterCommit_run publish (mark_payment_work now eventId paymentId status) (gaps 2 w2) of
                       (Inl e, w3) \<Rightarrow> (Inl e, w3)
                     | (Inr landed, w3) \<Rightarrow>
                         (Inr True, if landed then count_metric (payments_inc STRIPE status) w3 else w3))
                | MARK_PAID paymentId orderId \<Rightarrow>
                    markPaid provider publish gaps now eventId paymentId orderId (gaps 2 w2))))"

definition processEvent ::
  "payment_provider_port \<Rightarrow> (domain_event list \<Rightarrow> bool) \<Rightarrow> (json, 'b) gaps \<Rightarrow> int \<Rightarrow> string \<Rightarrow>
   (json, 'b) world \<Rightarrow> bool \<times> (json, 'b) world" where
  "processEvent provider publish gaps now eventId w =
     (case apply_event provider publish gaps now eventId w of
        (Inr b, w1) \<Rightarrow> (b, w1)
      | (Inl e, w1) \<Rightarrow>
          (False, if isLostRace e then w1 else count_metric webhookProcessingFailures_inc w1))"

fun process_each ::
  "payment_provider_port \<Rightarrow> (domain_event list \<Rightarrow> bool) \<Rightarrow> (nat \<Rightarrow> (json, 'b) gaps) \<Rightarrow> int \<Rightarrow> string list \<Rightarrow>
   nat \<Rightarrow> (json, 'b) world \<Rightarrow> nat \<times> (json, 'b) world" where
  "process_each provider publish gaps now [] applied w = (applied, w)"
| "process_each provider publish gaps now (i # ids) applied w =
     (case processEvent provider publish (\<lambda>n. gaps (length ids) (Suc n)) now i (gaps (length ids) 0 w) of
        (b, w1) \<Rightarrow> process_each provider publish gaps now ids (if b then applied + 1 else applied) w1)"

definition drainInbox ::
  "payment_provider_port \<Rightarrow> (domain_event list \<Rightarrow> bool) \<Rightarrow> (nat \<Rightarrow> (json, 'b) gaps) \<Rightarrow> int \<Rightarrow>
   (json, 'b) world \<Rightarrow> nat \<times> (json, 'b) world" where
  "drainInbox provider publish gaps now w =
     process_each provider publish gaps now
       (take MAX_EVENTS_PER_TICK
         (map ev_id (filter (\<lambda>e. ev_processedAt e = None) (paymentEvents (tables w))))) 0 w"

subsection \<open>\<open>webhook-inbox.service.ts\<close> and \<open>stripe-webhook.controller.ts\<close>\<close>

definition record_event :: "int \<Rightarrow> string \<Rightarrow> gateway_event \<Rightarrow> (json, 'b) db \<Rightarrow> string option \<times> (json, 'b) db" where
  "record_event now rowId event d =
     (case sql_insert (\<lambda>x y. ev_providerEventId x = ev_providerEventId y)
             \<lparr>ev_id = rowId, ev_providerEventId = ge_eventId event, ev_eventType = ge_type event,
              ev_paymentId = None, ev_payload = ge_payload event, ev_receivedAt = now,
              ev_processedAt = None, ev_payloadTrimmedAt = None\<rparr> (paymentEvents d) of
        None \<Rightarrow> (None, d)
      | Some rows \<Rightarrow> (Some rowId, d\<lparr>paymentEvents := rows\<rparr>))"

text \<open>
  The processing the controller starts without awaiting it is the second half; its interference
  starts at \<open>gaps 1\<close>. A fresh row id is the database's.
\<close>

definition receive ::
  "payment_provider_port \<Rightarrow> (domain_event list \<Rightarrow> bool) \<Rightarrow> (json, 'b) gaps \<Rightarrow> int \<Rightarrow> string \<Rightarrow>
   string option \<Rightarrow> string option \<Rightarrow> (json, 'b) world \<Rightarrow> unit result \<times> (json, 'b) world" where
  "receive provider publish gaps now rowId rawBody signature w =
     (case rawBody of
        None \<Rightarrow> (Inl (OtherError ''No raw body on the webhook request''), w)
      | Some body \<Rightarrow>
          (case signature of
             None \<Rightarrow> (Inl WebhookSignatureInvalidError, w)
           | Some sig \<Rightarrow>
               (case parseWebhook provider body sig of
                  Inl e \<Rightarrow> (Inl e, w)
                | Inr event \<Rightarrow>
                    (case record_event now rowId event (tables w) of
                       (None, _) \<Rightarrow> (Inr (), w)
                     | (Some i, d) \<Rightarrow>
                         (Inr (), snd (processEvent provider publish (\<lambda>n. gaps (Suc n)) now i
                            (gaps 0 (w\<lparr>tables := d\<rparr>))))))))"

end
