(* ===== verification/Payments.thy ===== *)
theory Payments
  imports Webhooks
begin

text \<open>
  \<open>payments/create/\<close>, \<open>payments/refunds/\<close>, \<open>payments/query/\<close> and
  \<open>payments/reconciliation/\<close>: taking money, giving it back, listing the attempts behind an
  order, and comparing the books with the gateway. \<open>gaps\<close> is as in \<open>OrderExit\<close>.
\<close>

section \<open>Definitions\<close>

subsection \<open>\<open>create-payment.service.ts\<close>\<close>

record create_payment_input =
  cp_method :: payment_method
  cp_cashTenderedMinor :: "int option"

fun method_name :: "payment_method \<Rightarrow> string" where
  "method_name CARD = ''CARD''"
| "method_name PROMPTPAY = ''PROMPTPAY''"
| "method_name CASH = ''CASH''"

definition payment_json :: "create_payment_input \<Rightarrow> json" where
  "payment_json input = JObj
     [(''method'', Some (JStr (method_name (cp_method input)))),
      (''cashTenderedMinor'', map_option JNum (cp_cashTenderedMinor input))]"

text \<open>The order row and the live-payment check are two reads.\<close>

definition payable_order :: "principal \<Rightarrow> string \<Rightarrow> ('p, 'b) db \<Rightarrow> order_row result" where
  "payable_order who orderId d =
     (case row_by ord_id orderId (orders d) of
        None \<Rightarrow> Inl (ResourceNotFoundError ''order'' orderId)
      | Some order \<Rightarrow>
          if (case who of DevicePrincipal deviceId \<Rightarrow> ord_kioskDeviceId order \<noteq> Some deviceId
                        | StaffPrincipal _ _ \<Rightarrow> False)
          then Inl (ResourceNotFoundError ''order'' orderId)
          else if ord_status order = EXPIRED then Inl OrderExpiredError
          else if ord_status order \<noteq> PENDING_PAYMENT then Inl (OrderNotPayableError (ord_status order))
          else Inr order)"

definition loadPayableOrder ::
  "principal \<Rightarrow> string \<Rightarrow> ('p, 'b) gaps \<Rightarrow> ('p, 'b) world \<Rightarrow> order_row result \<times> ('p, 'b) world" where
  "loadPayableOrder who orderId gaps w =
     (case payable_order who orderId (tables w) of
        Inl e \<Rightarrow> (Inl e, w)
      | Inr order \<Rightarrow>
          let w1 = gaps 1 w in
          (case live_payment orderId (tables w1) of
             Some p \<Rightarrow> Inl (PaymentAlreadyActiveError (pay_id p))
           | None \<Rightarrow> Inr order, w1))"

text \<open>A unique violation is reported as the payment that won, read on another connection.\<close>

definition insertPayment :: "payment_row \<Rightarrow> ('p, 'b) db \<Rightarrow> (string \<times> ('p, 'b) db) result" where
  "insertPayment row d =
     (case insert_payment_row row d of
        Inr d' \<Rightarrow> Inr (pay_id row, d')
      | Inl e \<Rightarrow>
          if \<not> isUniqueViolation e then Inl e
          else Inl (PaymentAlreadyActiveError
            (case live_payment (pay_orderId row) d of None \<Rightarrow> pay_orderId row | Some p \<Rightarrow> pay_id p)))"

definition rehydrate :: "payment_provider_port \<Rightarrow> stored_body \<Rightarrow> 'p tables \<Rightarrow> stored_body result" where
  "rehydrate provider body d =
     (case body of
        OrderBody _ \<Rightarrow> Inr body
      | PaymentBody view \<Rightarrow>
          if pv_provider view \<noteq> STRIPE \<or> pv_status view \<noteq> PAY_PENDING then Inr body
          else (case Option.bind (row_by pay_id (pv_id view) (payments d)) pay_providerIntentId of
                  None \<Rightarrow> Inr body
                | Some intentId \<Rightarrow>
                    sum_bind (clientSecretFor provider intentId) (\<lambda>secret.
                      Inr (PaymentBody (view\<lparr>pv_clientSecret := Some secret\<rparr>)))))"

definition write_work ::
  "int \<Rightarrow> (string \<times> string) option \<Rightarrow> ('p, stored_body, payment_view) emitting_tx \<Rightarrow>
   ('p, stored_body, payment_view) emitting_tx" where
  "write_work now keyed work d =
     (case keyed of
        None \<Rightarrow> work d
      | Some (key, requestHash) \<Rightarrow>
          sum_bind (reserveKey key requestHash (keyExpiry now) d) (\<lambda>d1.
          sum_bind (work d1) (\<lambda>(view, d2, evs).
            Inr (view, completeKey key 201 (PaymentBody (view\<lparr>pv_clientSecret := None\<rparr>)) d2, evs))))"

definition write_payment ::
  "payment_provider_port \<Rightarrow> (domain_event list \<Rightarrow> bool) \<Rightarrow> ('p, stored_body) gaps \<Rightarrow> int \<Rightarrow>
   (string \<times> string) option \<Rightarrow> ('p, stored_body, payment_view) emitting_tx \<Rightarrow> 'p app \<Rightarrow>
   (stored_body \<times> bool) result \<times> 'p app" where
  "write_payment provider publish gaps now keyed work w =
     (case afterCommit_run publish (write_work now keyed work) w of
        (Inr payment, w1) \<Rightarrow> (Inr (PaymentBody payment, False), w1)
      | (Inl error, w1) \<Rightarrow>
          (case keyed of
             None \<Rightarrow> (Inl error, w1)
           | Some (key, requestHash) \<Rightarrow>
               if \<not> isKeyAlreadyReserved error then (Inl error, w1)
               else let w2 = gaps 3 w1 in
                 (case replayKey key requestHash (tables w2) of
                    Inl e \<Rightarrow> (Inl e, w2)
                  | Inr body \<Rightarrow>
                      let w3 = gaps 4 w2 in
                      (sum_bind (rehydrate provider body (tables w3)) (\<lambda>b. Inr (b, True)), w3))))"

definition cash_row :: "int \<Rightarrow> string \<Rightarrow> order_row \<Rightarrow> int \<Rightarrow> string option \<Rightarrow> payment_row" where
  "cash_row now newId order tendered key =
     \<lparr>pay_id = newId, pay_orderId = ord_id order, pay_provider = CASH_DRAWER,
      pay_providerIntentId = None, pay_method = Some CASH, pay_status = PAY_SUCCEEDED,
      pay_amountMinor = ord_totalMinor order, pay_currency = ord_currency order,
      pay_idempotencyKey = key, pay_cashTenderedMinor = Some tendered, pay_createdAt = now\<rparr>"

definition cash_work ::
  "int \<Rightarrow> string \<Rightarrow> string \<Rightarrow> order_row \<Rightarrow> int \<Rightarrow> string option \<Rightarrow> ('p, 'b, payment_view) emitting_tx" where
  "cash_work now newId userId order tendered key d =
     sum_bind (insertPayment (cash_row now newId order tendered key) d) (\<lambda>(paymentId, d1).
     sum_bind (transitionOrder now
       \<lparr>tr_orderId = ord_id order, tr_from = PENDING_PAYMENT, tr_to = PAID,
        tr_actorType = USER, tr_actorId = Some userId, tr_reason = None\<rparr> d1) (\<lambda>(updated, d2).
     Inr (\<lparr>pv_id = paymentId, pv_status = PAY_SUCCEEDED, pv_method = Some CASH,
           pv_amountMinor = ord_totalMinor order, pv_currency = ord_currency order,
           pv_provider = CASH_DRAWER, pv_clientSecret = None\<rparr>, d2,
          [order_paid (ord_id order) (ord_kioskDeviceId updated)])))"

definition takeCash ::
  "payment_provider_port \<Rightarrow> (domain_event list \<Rightarrow> bool) \<Rightarrow> ('p, stored_body) gaps \<Rightarrow> int \<Rightarrow> string \<Rightarrow>
   principal \<Rightarrow> order_row \<Rightarrow> create_payment_input \<Rightarrow> (string \<times> string) option \<Rightarrow> 'p app \<Rightarrow>
   (stored_body \<times> bool) result \<times> 'p app" where
  "takeCash provider publish gaps now newId who order input keyed w =
     (case who of
        DevicePrincipal _ \<Rightarrow> (Inl CashPaymentNotAllowedError, w)
      | StaffPrincipal userId _ \<Rightarrow>
          (case cp_cashTenderedMinor input of
             None \<Rightarrow> (Inl (CashTenderInsufficientError 0 (ord_totalMinor order)), w)
           | Some tendered \<Rightarrow>
               if tendered < ord_totalMinor order
               then (Inl (CashTenderInsufficientError tendered (ord_totalMinor order)), w)
               else (case write_payment provider publish gaps now keyed
                            (cash_work now newId userId order tendered (map_option fst keyed)) (gaps 2 w) of
                       (Inr (body, False), w1) \<Rightarrow>
                         (Inr (body, False), count_metric (payments_inc CASH_DRAWER PAY_SUCCEEDED) w1)
                     | other \<Rightarrow> other)))"

definition gateway_row :: "int \<Rightarrow> string \<Rightarrow> order_row \<Rightarrow> string \<Rightarrow> string option \<Rightarrow> payment_row" where
  "gateway_row now newId order intentId key =
     \<lparr>pay_id = newId, pay_orderId = ord_id order, pay_provider = STRIPE,
      pay_providerIntentId = Some intentId, pay_method = None, pay_status = PAY_PENDING,
      pay_amountMinor = ord_totalMinor order, pay_currency = ord_currency order,
      pay_idempotencyKey = key, pay_cashTenderedMinor = None, pay_createdAt = now\<rparr>"

definition gateway_work ::
  "int \<Rightarrow> string \<Rightarrow> order_row \<Rightarrow> created_intent \<Rightarrow> string option \<Rightarrow> ('p, 'b, payment_view) emitting_tx" where
  "gateway_work now newId order intent key d =
     sum_bind (insertPayment (gateway_row now newId order (int_intentId intent) key) d) (\<lambda>(paymentId, d1).
     Inr (\<lparr>pv_id = paymentId, pv_status = PAY_PENDING, pv_method = None,
           pv_amountMinor = ord_totalMinor order, pv_currency = ord_currency order,
           pv_provider = STRIPE, pv_clientSecret = Some (int_clientSecret intent)\<rparr>, d1, []))"

definition openGatewayPayment ::
  "payment_provider_port \<Rightarrow> (domain_event list \<Rightarrow> bool) \<Rightarrow> ('p, stored_body) gaps \<Rightarrow> int \<Rightarrow> string \<Rightarrow>
   order_row \<Rightarrow> (string \<times> string) option \<Rightarrow> 'p app \<Rightarrow> (stored_body \<times> bool) result \<times> 'p app" where
  "openGatewayPayment provider publish gaps now newId order keyed w =
     (case createIntent provider (ord_totalMinor order) (ord_currency order) (map_option fst keyed) (ord_id order) of
        Inl e \<Rightarrow> (Inl e, w)
      | Inr intent \<Rightarrow>
          write_payment provider publish gaps now keyed
            (gateway_work now newId order intent (map_option fst keyed)) (gaps 2 w))"

definition create_payment ::
  "(string \<Rightarrow> string) \<Rightarrow> payment_provider_port \<Rightarrow> (domain_event list \<Rightarrow> bool) \<Rightarrow> ('p, stored_body) gaps \<Rightarrow>
   int \<Rightarrow> string \<Rightarrow> principal \<Rightarrow> string \<Rightarrow> create_payment_input \<Rightarrow> string option \<Rightarrow> 'p app \<Rightarrow>
   (stored_body \<times> bool) result \<times> 'p app" where
  "create_payment sha256 provider publish gaps now newId who orderId input idempotencyKey w =
     (let keyed = map_option (\<lambda>key. (key, hashRequest sha256 (scopeOf who @ '':payments:'' @ orderId)
                    (payment_json input))) idempotencyKey;
          answered = Option.bind keyed (\<lambda>(key, requestHash). map_option (\<lambda>(storedHash, body).
                       (storedHash = requestHash, body)) (completedResponseFor key (tables w)))
      in case answered of
           Some (False, _) \<Rightarrow> (Inl IdempotencyConflictError, w)
         | Some (True, body) \<Rightarrow>
             let w1 = gaps 0 w in
             (sum_bind (rehydrate provider body (tables w1)) (\<lambda>b. Inr (b, True)), w1)
         | None \<Rightarrow>
             (case loadPayableOrder who orderId gaps (gaps 0 w) of
                (Inl e, w1) \<Rightarrow> (Inl e, w1)
              | (Inr order, w1) \<Rightarrow>
                  if cp_method input = CASH
                  then takeCash provider publish gaps now newId who order input keyed w1
                  else openGatewayPayment provider publish gaps now newId order keyed w1))"

subsection \<open>\<open>create-refund.service.ts\<close>\<close>

record create_refund_input =
  ri_amountMinor :: int
  ri_reason :: string

record refund_view =
  rv_id :: string
  rv_paymentId :: string
  rv_amountMinor :: int
  rv_reason :: string
  rv_status :: refund_status
  rv_fullyRefunded :: bool

definition refunded :: "string \<Rightarrow> ('p, 'b) db \<Rightarrow> int" where
  "refunded paymentId d =
     sum_list (map ref_amountMinor (filter (\<lambda>r. ref_paymentId r = paymentId) (refunds d)))"

definition refund_row_of :: "string \<Rightarrow> string \<Rightarrow> string \<Rightarrow> create_refund_input \<Rightarrow> refund_row" where
  "refund_row_of newId userId paymentId input =
     \<lparr>ref_id = newId, ref_paymentId = paymentId, ref_amountMinor = ri_amountMinor input,
      ref_reason = ri_reason input, ref_status = REF_SUCCEEDED, ref_initiatedByUserId = userId\<rparr>"

definition refund_work ::
  "int \<Rightarrow> string \<Rightarrow> string \<Rightarrow> payment_row \<Rightarrow> order_row \<Rightarrow> create_refund_input \<Rightarrow>
   ('p, 'b, refund_view) emitting_tx" where
  "refund_work now newId userId payment order input d =
     (let already = refunded (pay_id payment) d;
          remaining = pay_amountMinor payment - already;
          fullyRefunded = (already + ri_amountMinor input = pay_amountMinor payment)
      in if ri_amountMinor input > remaining
         then Inl (RefundExceedsRemainingError (ri_amountMinor input) remaining)
         else
           sum_bind (insert_refund_row (refund_row_of newId userId (pay_id payment) input) d) (\<lambda>d1.
           sum_bind (if fullyRefunded
                     then sum_bind (transitionOrder now
                            \<lparr>tr_orderId = ord_id order, tr_from = ord_status order, tr_to = REFUNDED,
                             tr_actorType = USER, tr_actorId = Some userId,
                             tr_reason = Some (ri_reason input)\<rparr> d1)
                            (\<lambda>(updated, d2). Inr (d2, [order_updated (ord_id order) (ord_kioskDeviceId updated)]))
                     else Inr (d1, [])) (\<lambda>(d3, evs).
           Inr (\<lparr>rv_id = newId, rv_paymentId = pay_id payment, rv_amountMinor = ri_amountMinor input,
                 rv_reason = ri_reason input, rv_status = REF_SUCCEEDED,
                 rv_fullyRefunded = fullyRefunded\<rparr>, d3, evs))))"

definition refund ::
  "(string \<Rightarrow> int \<Rightarrow> int) \<Rightarrow> config \<Rightarrow> (domain_event list \<Rightarrow> bool) \<Rightarrow> ('p, 'b) gaps \<Rightarrow> int \<Rightarrow> string \<Rightarrow>
   string \<Rightarrow> string \<Rightarrow> create_refund_input \<Rightarrow> ('p, 'b) world \<Rightarrow> refund_view result \<times> ('p, 'b) world" where
  "refund offset cfg publish gaps now newId userId paymentId input w =
     (case row_by pay_id paymentId (payments (tables w)) of
        None \<Rightarrow> (Inl (ResourceNotFoundError ''payment'' paymentId), w)
      | Some payment \<Rightarrow>
          if pay_status payment \<noteq> PAY_SUCCEEDED then (Inl PaymentNotRefundableError, w)
          else
            let w1 = gaps 0 w in
            (case row_by ord_id (pay_orderId payment) (orders (tables w1)) of
               None \<Rightarrow> (Inl (ResourceNotFoundError ''order'' (pay_orderId payment)), w1)
             | Some order \<Rightarrow>
                 if ord_businessDay order \<noteq> today_of offset cfg now then (Inl PaymentNotRefundableError, w1)
                 else afterCommit_run publish (refund_work now newId userId payment order input) (gaps 1 w1)))"

subsection \<open>\<open>order-payments.service.ts\<close>\<close>

record payment_attempt_view =
  pa_id :: string
  pa_status :: payment_status
  pa_method :: "payment_method option"
  pa_amountMinor :: int
  pa_currency :: string
  pa_provider :: payment_provider
  pa_providerIntentId :: "string option"
  pa_cashTenderedMinor :: "int option"
  pa_createdAt :: string

definition attempt_view :: "payment_row \<Rightarrow> payment_attempt_view" where
  "attempt_view row =
     \<lparr>pa_id = pay_id row, pa_status = pay_status row, pa_method = pay_method row,
      pa_amountMinor = pay_amountMinor row, pa_currency = pay_currency row,
      pa_provider = pay_provider row, pa_providerIntentId = pay_providerIntentId row,
      pa_cashTenderedMinor = pay_cashTenderedMinor row, pa_createdAt = toISOString (pay_createdAt row)\<rparr>"

definition listFor ::
  "principal \<Rightarrow> string \<Rightarrow> ('p, 'b) db \<Rightarrow> payment_attempt_view list result" where
  "listFor who orderId d =
     (case row_by ord_id orderId (orders d) of
        None \<Rightarrow> Inl (ResourceNotFoundError ''order'' orderId)
      | Some order \<Rightarrow>
          if (case who of DevicePrincipal deviceId \<Rightarrow> ord_kioskDeviceId order \<noteq> Some deviceId
                        | StaffPrincipal _ _ \<Rightarrow> False)
          then Inl (ResourceNotFoundError ''order'' orderId)
          else Inr (map attempt_view
                 (sort_key pay_createdAt (filter (\<lambda>p. pay_orderId p = orderId) (payments d)))))"

subsection \<open>\<open>reconciliation.service.ts\<close>\<close>

record reconciliation_report =
  rc_businessDay :: string
  rc_gatewayCapturedMinor :: int
  rc_dbRecordedMinor :: int
  rc_deltaMinor :: int
  rc_unmatchedEvents :: "string list"
  rc_notCaptured :: "string list"

definition recorded_payments :: "string \<Rightarrow> ('p, 'b) db \<Rightarrow> payment_row list" where
  "recorded_payments businessDay d =
     filter (\<lambda>p. pay_provider p = STRIPE \<and> pay_status p = PAY_SUCCEEDED \<and>
       map_option ord_businessDay (row_by ord_id (pay_orderId p) (orders d)) = Some businessDay) (payments d)"

definition reconcile ::
  "payment_provider_port \<Rightarrow> ('p, 'b) gaps \<Rightarrow> string \<Rightarrow> ('p, 'b) world \<Rightarrow>
   reconciliation_report result \<times> ('p, 'b) world" where
  "reconcile provider gaps businessDay w =
     (let rows = recorded_payments businessDay (tables w);
          dbRecordedMinor = sum_list (map pay_amountMinor rows)
      in case capturedTotalFor provider (List.map_filter pay_providerIntentId rows) of
           Inl e \<Rightarrow> (Inl e, w)
         | Inr (totalMinor, notCaptured) \<Rightarrow>
             let w1 = gaps 0 w in
             (Inr \<lparr>rc_businessDay = businessDay, rc_gatewayCapturedMinor = totalMinor,
                   rc_dbRecordedMinor = dbRecordedMinor, rc_deltaMinor = totalMinor - dbRecordedMinor,
                   rc_unmatchedEvents = map ev_providerEventId
                     (filter (\<lambda>e. ev_processedAt e = None) (paymentEvents (tables w1))),
                   rc_notCaptured = notCaptured\<rparr>, w1))"

definition reconcileYesterday ::
  "(string \<Rightarrow> int \<Rightarrow> int) \<Rightarrow> config \<Rightarrow> payment_provider_port \<Rightarrow> ('p, 'b) gaps \<Rightarrow> int \<Rightarrow> ('p, 'b) world \<Rightarrow>
   reconciliation_report option \<times> ('p, 'b) world" where
  "reconcileYesterday offset cfg provider gaps now w =
     (case reconcile provider gaps (today_of offset cfg (now - 24 * 60 * 60 * 1000)) w of
        (Inr report, w1) \<Rightarrow> (Some report, count_metric (reconciliation_recorded (rc_deltaMinor report)) w1)
      | (Inl _, w1) \<Rightarrow> (None, count_metric reconciliation_failed w1))"

end
