(* ===== verification/Orders.thy ===== *)
theory Orders
  imports Responses
begin

text \<open>
  \<open>orders/orders.service.ts\<close> and \<open>orders/checkout/checkout-order.service.ts\<close>: creating an
  order, and checking a parked one out. The clock, the identifiers the rows get and the
  database's own timestamp are arguments. Foreign keys make the joined category and option group of a catalog row exist; a row
  without one contributes nothing. Options are read in the byte order of their names.
\<close>

section \<open>Definitions\<close>

record create_order_input =
  in_channel :: order_channel
  in_items :: "requested_item list"
  in_customerName :: "string option option"
  in_expectedTotalMinor :: "int option"
  in_draft :: "bool option"

text \<open>The parsed body as the JSON value it is hashed as.\<close>

fun channel_name :: "order_channel \<Rightarrow> string" where
  "channel_name KIOSK = ''KIOSK''"
| "channel_name COUNTER = ''COUNTER''"

definition nullable_json :: "string option option \<Rightarrow> json option" where
  "nullable_json v = map_option (\<lambda>x. case x of None \<Rightarrow> JNull | Some s \<Rightarrow> JStr s) v"

definition item_json :: "requested_item \<Rightarrow> json" where
  "item_json r = JObj
     [(''menuItemId'', Some (JStr (rq_menuItemId r))), (''quantity'', Some (JNum (rq_quantity r))),
      (''optionIds'', Some (JArr (map JStr (rq_optionIds r)))), (''notes'', nullable_json (rq_notes r))]"

definition input_json :: "create_order_input \<Rightarrow> json" where
  "input_json i = JObj
     [(''channel'', Some (JStr (channel_name (in_channel i)))),
      (''items'', Some (JArr (map item_json (in_items i)))),
      (''customerName'', nullable_json (in_customerName i)),
      (''expectedTotalMinor'', map_option JNum (in_expectedTotalMinor i)),
      (''draft'', map_option JBool (in_draft i))]"

subsection \<open>\<open>resolveChannel\<close>\<close>

fun expected_channel :: "principal \<Rightarrow> order_channel" where
  "expected_channel (DevicePrincipal _) = KIOSK"
| "expected_channel (StaffPrincipal _ _) = COUNTER"

definition resolveChannel :: "principal \<Rightarrow> create_order_input \<Rightarrow> ('p, 'b) db \<Rightarrow> order_channel result" where
  "resolveChannel who input d =
     (if in_channel input \<noteq> expected_channel who
      then Inl (OrderChannelMismatchError (in_channel input) (expected_channel who))
      else case who of
             DevicePrincipal deviceId \<Rightarrow>
               if in_draft input = Some True then Inl OrderDraftNotAllowedError
               else if map_option dev_status (row_by dev_id deviceId (kioskDevices d)) = Some DEV_PAUSED
               then Inl DevicePausedError
               else Inr KIOSK
           | StaffPrincipal _ _ \<Rightarrow> Inr COUNTER)"

subsection \<open>\<open>readCatalog\<close>\<close>

definition group_options :: "('p, 'b) db \<Rightarrow> string \<Rightarrow> catalog_option list" where
  "group_options d groupId =
     map (\<lambda>r. \<lparr>co_id = opt_id r, co_name = opt_name r, co_priceDeltaMinor = opt_priceDeltaMinor r,
               co_isAvailable = opt_isAvailable r\<rparr>)
       (sort_key opt_name (filter (\<lambda>r. opt_groupId r = groupId) (options d)))"

definition catalog_group_of :: "('p, 'b) db \<Rightarrow> option_group_row \<Rightarrow> catalog_group" where
  "catalog_group_of d g =
     \<lparr>cg_id = og_id g, cg_name = og_name g, cg_minSelect = og_minSelect g,
      cg_maxSelect = og_maxSelect g, cg_options = group_options d (og_id g)\<rparr>"

definition item_groups :: "('p, 'b) db \<Rightarrow> string \<Rightarrow> catalog_group list" where
  "item_groups d itemId =
     List.map_filter (\<lambda>l. map_option (catalog_group_of d)
         (row_by og_id (lnk_optionGroupId l) (optionGroups d)))
       (sort_key lnk_sortOrder (filter (\<lambda>l. lnk_menuItemId l = itemId) (menuItemOptionGroups d)))"

definition catalog_item_of :: "('p, 'b) db \<Rightarrow> menu_item_row \<Rightarrow> catalog_item" where
  "catalog_item_of d item =
     \<lparr>ci_id = mi_id item, ci_name = mi_name item, ci_basePriceMinor = mi_basePriceMinor item,
      ci_isAvailable = (mi_isAvailable item \<and>
        (case row_by cat_id (mi_categoryId item) (categories d) of
           None \<Rightarrow> False | Some c \<Rightarrow> cat_isActive c)),
      ci_optionGroups = item_groups d (mi_id item)\<rparr>"

definition readCatalog :: "string list \<Rightarrow> ('p, 'b) db \<Rightarrow> catalog" where
  "readCatalog menuItemIds d =
     map_of (rev (map (\<lambda>item. (mi_id item, catalog_item_of d item))
       (filter (\<lambda>item. List.member menuItemIds (mi_id item)) (menuItems d))))"

subsection \<open>\<open>persist\<close>\<close>

record fresh_ids =
  fr_orderId :: string
  fr_itemIds :: "nat \<Rightarrow> string"
  fr_createdAt :: int

fun kiosk_of :: "principal \<Rightarrow> string option" where
  "kiosk_of (DevicePrincipal deviceId) = Some deviceId"
| "kiosk_of (StaffPrincipal _ _) = None"

fun user_of :: "principal \<Rightarrow> string option" where
  "user_of (DevicePrincipal _) = None"
| "user_of (StaffPrincipal userId _) = Some userId"

definition opening_status :: "create_order_input \<Rightarrow> order_status" where
  "opening_status input = (if in_draft input = Some True then DRAFT else PENDING_PAYMENT)"

definition new_order ::
  "config \<Rightarrow> int \<Rightarrow> fresh_ids \<Rightarrow> string \<Rightarrow> string option \<Rightarrow> principal \<Rightarrow> order_channel \<Rightarrow>
   create_order_input \<Rightarrow> priced_order \<Rightarrow> order_row" where
  "new_order cfg now fresh businessDay number who channel input priced =
     \<lparr>ord_id = fr_orderId fresh, ord_number = number, ord_businessDay = businessDay, ord_channel = channel,
      ord_status = opening_status input, ord_kioskDeviceId = kiosk_of who,
      ord_createdByUserId = user_of who, ord_customerName = or_null (in_customerName input),
      ord_subtotalMinor = pr_subtotalMinor priced, ord_vatMinor = pr_vatMinor priced,
      ord_totalMinor = pr_totalMinor priced, ord_currency = CURRENCY cfg,
      ord_expiresAt = (if opening_status input = DRAFT then None else Some (expiry_instant cfg now)),
      ord_createdAt = fr_createdAt fresh\<rparr>"

definition line_row :: "fresh_ids \<Rightarrow> nat \<Rightarrow> priced_line \<Rightarrow> order_item_row" where
  "line_row fresh i line =
     \<lparr>oi_id = fr_itemIds fresh i, oi_orderId = fr_orderId fresh, oi_menuItemId = pl_menuItemId line,
      oi_nameSnapshot = pl_nameSnapshot line,
      oi_unitPriceMinorSnapshot = pl_unitPriceMinorSnapshot line,
      oi_quantity = pl_quantity line, oi_lineTotalMinor = pl_lineTotalMinor line,
      oi_notes = pl_notes line\<rparr>"

definition option_rows :: "fresh_ids \<Rightarrow> nat \<Rightarrow> priced_line \<Rightarrow> order_item_option_row list" where
  "option_rows fresh i line =
     map (\<lambda>opt. \<lparr>oio_orderItemId = fr_itemIds fresh i, oio_optionId = po_optionId opt,
          oio_groupNameSnapshot = po_groupNameSnapshot opt,
          oio_optionNameSnapshot = po_optionNameSnapshot opt,
          oio_priceDeltaMinorSnapshot = po_priceDeltaMinorSnapshot opt\<rparr>) (pl_options line)"

definition indexed :: "(nat \<Rightarrow> 'a \<Rightarrow> 'b) \<Rightarrow> 'a list \<Rightarrow> 'b list" where
  "indexed f xs = map (\<lambda>(i, x). f i x) (zip [0..<length xs] xs)"

definition insert_option_rows :: "order_item_option_row list \<Rightarrow> ('p, 'b) db \<Rightarrow> ('p, 'b) db result" where
  "insert_option_rows rows d =
     (if list_all (int4_ok \<circ> oio_priceDeltaMinorSnapshot) rows
      then Inr (d\<lparr>orderItemOptions := orderItemOptions d @ rows\<rparr>) else Inl NumericOutOfRange)"

definition opening_history :: "int \<Rightarrow> string \<Rightarrow> order_status \<Rightarrow> principal \<Rightarrow> status_history_row" where
  "opening_history now orderId status who =
     \<lparr>osh_orderId = orderId, osh_fromStatus = None, osh_toStatus = status,
      osh_actorType = fst (actorOf who), osh_actorId = Some (snd (actorOf who)),
      osh_reason = None, osh_createdAt = now\<rparr>"

definition toView :: "order_row \<Rightarrow> priced_order \<Rightarrow> order_view" where
  "toView order priced =
     \<lparr>vw_id = ord_id order, vw_orderNumber = ord_number order, vw_status = ord_status order,
      vw_channel = ord_channel order, vw_businessDay = ord_businessDay order,
      vw_customerName = ord_customerName order,
      vw_expiresAt = map_option toISOString (ord_expiresAt order),
      vw_items = map (\<lambda>line. \<lparr>ol_nameSnapshot = pl_nameSnapshot line,
        ol_unitPriceMinor = pl_unitPriceMinorSnapshot line, ol_quantity = pl_quantity line,
        ol_lineTotalMinor = pl_lineTotalMinor line, ol_notes = pl_notes line,
        ol_options = map (\<lambda>opt. \<lparr>olo_group = po_groupNameSnapshot opt,
          olo_name = po_optionNameSnapshot opt,
          olo_priceDeltaMinor = po_priceDeltaMinorSnapshot opt\<rparr>) (pl_options line)\<rparr>) (pr_lines priced),
      vw_subtotalMinor = ord_subtotalMinor order, vw_vatMinor = ord_vatMinor order,
      vw_totalMinor = ord_totalMinor order, vw_currency = ord_currency order\<rparr>"

text \<open>A queue number is only claimed for an order that goes straight to payment.\<close>

definition claim_number :: "order_status \<Rightarrow> string \<Rightarrow> ('p, 'b) db \<Rightarrow> (string option \<times> ('p, 'b) db) result" where
  "claim_number status businessDay d =
     (if status = DRAFT then Inr (None, d)
      else sum_bind (nextOrderNumber businessDay d) (\<lambda>(number, d'). Inr (Some number, d')))"

definition persist ::
  "(string \<Rightarrow> int \<Rightarrow> int) \<Rightarrow> config \<Rightarrow> int \<Rightarrow> fresh_ids \<Rightarrow> principal \<Rightarrow> order_channel \<Rightarrow>
   create_order_input \<Rightarrow> priced_order \<Rightarrow> ('p, 'b) db \<Rightarrow> (order_view \<times> ('p, 'b) db) result" where
  "persist offset cfg now fresh who channel input priced d =
     (let businessDay = today_of offset cfg now; status = opening_status input in
      sum_bind (claim_number status businessDay d) (\<lambda>(number, d1).
      let order = new_order cfg now fresh businessDay number who channel input priced in
      sum_bind (insert_order order d1) (\<lambda>d2.
      sum_bind (throw_if (pr_lines priced = []) (OtherError ''values() must be called with at least one value''))
        (\<lambda>_.
      sum_bind (insert_order_items (indexed (line_row fresh) (pr_lines priced)) d2) (\<lambda>d3.
      sum_bind (insert_option_rows (concat (indexed (option_rows fresh) (pr_lines priced))) d3) (\<lambda>d4.
        Inr (toView order priced,
             append_history (opening_history now (ord_id order) status who) d4)))))))"

subsection \<open>\<open>build\<close> and \<open>create\<close>\<close>

definition build ::
  "(string \<Rightarrow> int \<Rightarrow> int) \<Rightarrow> config \<Rightarrow> int \<Rightarrow> fresh_ids \<Rightarrow> principal \<Rightarrow> create_order_input \<Rightarrow>
   ('p, 'b) db \<Rightarrow> (order_view \<times> ('p, 'b) db) result" where
  "build offset cfg now fresh who input d =
     sum_bind (resolveChannel who input d) (\<lambda>channel.
     sum_bind (priceOrder (in_items input) (readCatalog (map rq_menuItemId (in_items input)) d)
                 (VAT_BASIS_POINTS cfg)) (\<lambda>priced.
     case in_expectedTotalMinor input of
       Some expected \<Rightarrow>
         if expected \<noteq> pr_totalMinor priced
         then Inl (PriceMismatchError expected (pr_totalMinor priced))
         else persist offset cfg now fresh who channel input priced d
     | None \<Rightarrow> persist offset cfg now fresh who channel input priced d))"

definition create_work ::
  "(string \<Rightarrow> int \<Rightarrow> int) \<Rightarrow> config \<Rightarrow> int \<Rightarrow> fresh_ids \<Rightarrow> principal \<Rightarrow> create_order_input \<Rightarrow>
   (string \<times> string) option \<Rightarrow> ('p, stored_body, order_view) tx" where
  "create_work offset cfg now fresh who input keyed d =
     (case keyed of
        None \<Rightarrow> build offset cfg now fresh who input d
      | Some (key, requestHash) \<Rightarrow>
          sum_bind (reserveKey key requestHash (keyExpiry now) d) (\<lambda>d1.
          sum_bind (build offset cfg now fresh who input d1) (\<lambda>(view, d2).
            Inr (view, completeKey key 201 (OrderBody view) d2))))"

text \<open>
  \<open>meanwhile\<close> is what other requests commit between the losing transaction's rollback and the
  read of the winner's row. The result carries whether it is a replay.
\<close>

definition create ::
  "(string \<Rightarrow> string) \<Rightarrow> (string \<Rightarrow> int \<Rightarrow> int) \<Rightarrow> config \<Rightarrow> ('p app \<Rightarrow> 'p app) \<Rightarrow> int \<Rightarrow> fresh_ids \<Rightarrow>
   principal \<Rightarrow> create_order_input \<Rightarrow> string option \<Rightarrow> 'p app \<Rightarrow>
   (stored_body \<times> bool) result \<times> 'p app" where
  "create sha256 offset cfg meanwhile now fresh who input idempotencyKey w =
     (let keyed = map_option (\<lambda>key. (key, hashRequest sha256 (scopeOf who) (input_json input))) idempotencyKey in
      case db_transaction (create_work offset cfg now fresh who input keyed) w of
        (Inr order, w') \<Rightarrow> (Inr (OrderBody order, False), count_metric (ordersCreated_inc (vw_channel order)) w')
      | (Inl error, w') \<Rightarrow>
          if \<not> isKeyAlreadyReserved error then (Inl error, w')
          else (case keyed of
                  None \<Rightarrow> (Inl error, w')
                | Some (key, requestHash) \<Rightarrow>
                    let w1 = meanwhile w' in
                    (sum_bind (replayKey key requestHash (tables w1)) (\<lambda>body. Inr (body, True)), w1)))"

subsection \<open>\<open>checkout\<close>\<close>

definition queue_order :: "string \<Rightarrow> int \<Rightarrow> order_row \<Rightarrow> order_row" where
  "queue_order number expiresAt r = r\<lparr>ord_number := Some number, ord_expiresAt := Some expiresAt\<rparr>"

text \<open>The update of the number is checked against the unique index on (day, number).\<close>

definition number_taken :: "string \<Rightarrow> string \<Rightarrow> string \<Rightarrow> ('p, 'b) db \<Rightarrow> bool" where
  "number_taken number day orderId d =
     list_ex (\<lambda>r. ord_id r \<noteq> orderId \<and> ord_number r = Some number \<and> ord_businessDay r = day) (orders d)"

definition checkout_work :: "config \<Rightarrow> int \<Rightarrow> principal \<Rightarrow> string \<Rightarrow> ('p, 'b, order_summary) tx" where
  "checkout_work cfg now who orderId d =
     (case row_by ord_id orderId (orders d) of
        None \<Rightarrow> Inl (ResourceNotFoundError ''order'' orderId)
      | Some current \<Rightarrow>
          if ord_status current \<noteq> DRAFT
          then Inl (OrderInvalidTransitionError (ord_status current) PENDING_PAYMENT)
          else
            sum_bind (transitionOrder now
              \<lparr>tr_orderId = orderId, tr_from = DRAFT, tr_to = PENDING_PAYMENT,
               tr_actorType = fst (actorOf who), tr_actorId = Some (snd (actorOf who)),
               tr_reason = None\<rparr> d) (\<lambda>(updated, d1).
            sum_bind (nextOrderNumber (ord_businessDay current) d1) (\<lambda>(number, d2).
            if number_taken number (ord_businessDay current) (ord_id updated) d2 then Inl UniqueViolation
            else case sql_update (\<lambda>r. ord_id r = ord_id updated)
                        (queue_order number (expiry_instant cfg now)) (orders d2) of
                   ([], _) \<Rightarrow> Inl (OtherError ''TypeError'')
                 | (queued # _, rows) \<Rightarrow> Inr (toOrderSummary queued, d2\<lparr>orders := rows\<rparr>))))"

definition checkout ::
  "config \<Rightarrow> int \<Rightarrow> principal \<Rightarrow> string \<Rightarrow> ('p, 'b) world \<Rightarrow> order_summary result \<times> ('p, 'b) world" where
  "checkout cfg now who orderId = db_transaction (checkout_work cfg now who orderId)"

end
