(* ===== verification/Ledger.thy ===== *)
theory Ledger
  imports Payments Orders
begin

text \<open>
  The abstract specification of the order and payment tables: the facts that must hold between
  them (\<open>ledger\<close>) and the changes a committed transaction may make (\<open>commit\<close>). Every
  handler refines \<open>commit\<close>; that is shown in \<open>System\<close>. Here: \<open>commit\<close> preserves
  \<open>ledger\<close>, and what a committed row promises later readers (\<open>grows\<close>).
\<close>

section \<open>Definitions\<close>

subsection \<open>What the tables owe each other\<close>

definition was_paid :: "order_status \<Rightarrow> bool" where
  "was_paid s \<longleftrightarrow> s \<in> set [PAID, IN_PREPARATION, READY, COMPLETED, REFUNDED]"

definition keys_ok :: "('p, 'b) db \<Rightarrow> bool" where
  "keys_ok d \<longleftrightarrow> distinct (map ord_id (orders d)) \<and> distinct (map pay_id (payments d))"

text \<open>A payment is for its order's total, in its order's currency.\<close>

definition payments_ok :: "('p, 'b) db \<Rightarrow> bool" where
  "payments_ok d \<longleftrightarrow> (\<forall>p \<in> set (payments d). 0 < pay_amountMinor p \<and>
     (\<exists>r \<in> set (orders d). ord_id r = pay_orderId p \<and> pay_amountMinor p = ord_totalMinor r \<and>
        pay_currency p = ord_currency r))"

definition settles :: "payment_row \<Rightarrow> order_row \<Rightarrow> bool" where
  "settles p r \<longleftrightarrow> pay_orderId p = ord_id r \<and> pay_status p = PAY_SUCCEEDED"

text \<open>An order is paid exactly when a payment for it succeeded, and one is the most there is.\<close>

definition settled_ok :: "('p, 'b) db \<Rightarrow> bool" where
  "settled_ok d \<longleftrightarrow> (\<forall>r \<in> set (orders d).
     (was_paid (ord_status r) \<longleftrightarrow> (\<exists>p \<in> set (payments d). settles p r)) \<and>
     (\<forall>p \<in> set (payments d). \<forall>p' \<in> set (payments d). settles p r \<longrightarrow> settles p' r \<longrightarrow> p = p'))"

definition one_live :: "('p, 'b) db \<Rightarrow> bool" where
  "one_live d \<longleftrightarrow> (\<forall>p \<in> set (payments d). \<forall>p' \<in> set (payments d).
     live_status (pay_status p) \<longrightarrow> live_status (pay_status p') \<longrightarrow> pay_orderId p = pay_orderId p' \<longrightarrow> p = p')"

text \<open>Only captured money is given back, never more than was captured; all of it means \<open>REFUNDED\<close>.\<close>

definition refunds_ok :: "('p, 'b) db \<Rightarrow> bool" where
  "refunds_ok d \<longleftrightarrow>
     (\<forall>x \<in> set (refunds d). 0 < ref_amountMinor x \<and>
        (\<exists>p \<in> set (payments d). pay_id p = ref_paymentId x \<and> pay_status p = PAY_SUCCEEDED)) \<and>
     (\<forall>p \<in> set (payments d). refunded (pay_id p) d \<le> pay_amountMinor p) \<and>
     (\<forall>r \<in> set (orders d). \<forall>p \<in> set (payments d). settles p r \<longrightarrow>
        (refunded (pay_id p) d = pay_amountMinor p \<longleftrightarrow> ord_status r = REFUNDED))"

text \<open>The audit trail of an order tells how it got where it is, move by legal move.\<close>

definition trail :: "string \<Rightarrow> ('p, 'b) db \<Rightarrow> status_history_row list" where
  "trail i d = filter (\<lambda>h. osh_orderId h = i) (orderStatusHistory d)"

fun tells :: "order_status option \<Rightarrow> status_history_row list \<Rightarrow> order_status \<Rightarrow> bool" where
  "tells at [] s \<longleftrightarrow> at = Some s"
| "tells at (h # hs) s \<longleftrightarrow> osh_fromStatus h = at \<and>
     (case at of None \<Rightarrow> osh_toStatus h \<in> {DRAFT, PENDING_PAYMENT} | Some x \<Rightarrow> isLegalTransition x (osh_toStatus h)) \<and>
     tells (Some (osh_toStatus h)) hs s"

definition trails_ok :: "('p, 'b) db \<Rightarrow> bool" where
  "trails_ok d \<longleftrightarrow>
     (\<forall>r \<in> set (orders d). tells None (trail (ord_id r) d) (ord_status r)) \<and>
     (\<forall>h \<in> set (orderStatusHistory d). osh_orderId h \<in> ord_id ` set (orders d))"

text \<open>Queue numbers: none before checkout, and on every day exactly the numbers up to the counter.\<close>

definition numbers_ok :: "('p, 'b) db \<Rightarrow> bool" where
  "numbers_ok d \<longleftrightarrow>
     (\<forall>r \<in> set (orders d). (ord_status r = DRAFT \<longrightarrow> ord_number r = None) \<and>
        (ord_number r = None \<longrightarrow> ord_status r \<in> {DRAFT, CANCELLED})) \<and>
     (\<forall>day. 0 \<le> last_number day d \<and>
        {n. \<exists>r \<in> set (orders d). ord_businessDay r = day \<and> ord_number r = Some n} =
          formatOrderNumber ` {1..last_number day d}) \<and>
     (\<forall>r \<in> set (orders d). \<forall>r' \<in> set (orders d). ord_number r \<noteq> None \<longrightarrow> ord_number r = ord_number r' \<longrightarrow>
        ord_businessDay r = ord_businessDay r' \<longrightarrow> r = r')"

definition expiry_ok :: "('p, 'b) db \<Rightarrow> bool" where
  "expiry_ok d \<longleftrightarrow> (\<forall>r \<in> set (orders d). ord_expiresAt r \<noteq> None \<longleftrightarrow> ord_status r = PENDING_PAYMENT)"

definition lines_of :: "string \<Rightarrow> ('p, 'b) db \<Rightarrow> order_item_row list" where
  "lines_of i d = filter (\<lambda>l. oi_orderId l = i) (orderItems d)"

definition lines_ok :: "('p, 'b) db \<Rightarrow> bool" where
  "lines_ok d \<longleftrightarrow>
     (\<forall>r \<in> set (orders d). 0 \<le> ord_totalMinor r \<and> ord_subtotalMinor r = ord_totalMinor r \<and>
        lines_of (ord_id r) d \<noteq> [] \<and>
        ord_totalMinor r = sum_list (map oi_lineTotalMinor (lines_of (ord_id r) d))) \<and>
     (\<forall>l \<in> set (orderItems d). oi_orderId l \<in> ord_id ` set (orders d) \<and>
        0 \<le> oi_unitPriceMinorSnapshot l \<and>
        oi_lineTotalMinor l = oi_unitPriceMinorSnapshot l * oi_quantity l)"

definition ledger :: "('p, 'b) db \<Rightarrow> bool" where
  "ledger d \<longleftrightarrow> keys_ok d \<and> payments_ok d \<and> settled_ok d \<and> one_live d \<and> refunds_ok d \<and>
     trails_ok d \<and> numbers_ok d \<and> expiry_ok d \<and> lines_ok d"

subsection \<open>What a commit may do\<close>

definition same_ledger :: "('p, 'b) db \<Rightarrow> ('p, 'b) db \<Rightarrow> bool" where
  "same_ledger d d' \<longleftrightarrow> orders d' = orders d \<and> orderItems d' = orderItems d \<and>
     orderStatusHistory d' = orderStatusHistory d \<and> orderNumberCounters d' = orderNumberCounters d \<and>
     payments d' = payments d \<and> refunds d' = refunds d"

definition counted :: "string \<Rightarrow> ('p, 'b) db \<Rightarrow> ('p, 'b) db \<Rightarrow> bool" where
  "counted day d d' \<longleftrightarrow> (\<forall>day'. last_number day' d' =
     (if day' = day then last_number day d + 1 else last_number day' d))"

definition opens :: "order_row \<Rightarrow> ('p, 'b) db \<Rightarrow> ('p, 'b) db \<Rightarrow> bool" where
  "opens r d d' \<longleftrightarrow>
     (ord_status r = DRAFT \<and> ord_number r = None \<and> ord_expiresAt r = None \<and>
        orderNumberCounters d' = orderNumberCounters d \<or>
      ord_status r = PENDING_PAYMENT \<and>
        ord_number r = Some (formatOrderNumber (last_number (ord_businessDay r) d + 1)) \<and>
        ord_expiresAt r \<noteq> None \<and> counted (ord_businessDay r) d d')"

definition bills :: "order_row \<Rightarrow> order_item_row list \<Rightarrow> bool" where
  "bills r ls \<longleftrightarrow> ls \<noteq> [] \<and> 0 \<le> ord_totalMinor r \<and> ord_subtotalMinor r = ord_totalMinor r \<and>
     ord_totalMinor r = sum_list (map oi_lineTotalMinor ls) \<and>
     (\<forall>l \<in> set ls. oi_orderId l = ord_id r \<and> 0 \<le> oi_unitPriceMinorSnapshot l \<and>
        oi_lineTotalMinor l = oi_unitPriceMinorSnapshot l * oi_quantity l)"

definition applies :: "transition_request \<Rightarrow> order_row \<Rightarrow> ('p, 'b) db \<Rightarrow> bool" where
  "applies q r d \<longleftrightarrow> r \<in> set (orders d) \<and> ord_id r = tr_orderId q \<and> ord_status r = tr_from q"

definition unsettled_change :: "payment_status list \<Rightarrow> (payment_row \<Rightarrow> payment_row) \<Rightarrow> ('p, 'b) db \<Rightarrow> bool" where
  "unsettled_change ss g d \<longleftrightarrow> (\<forall>p \<in> set (payments d). g p = p \<or>
     pay_status p \<noteq> PAY_SUCCEEDED \<and> (\<exists>s \<in> set ss. g p = p\<lparr>pay_status := s\<rparr>))"

definition pays_for :: "payment_row \<Rightarrow> order_row \<Rightarrow> ('p, 'b) db \<Rightarrow> bool" where
  "pays_for p r d \<longleftrightarrow> pay_id p \<notin> pay_id ` set (payments d) \<and> r \<in> set (orders d) \<and>
     pay_orderId p = ord_id r \<and> 0 < pay_amountMinor p \<and> pay_amountMinor p = ord_totalMinor r \<and>
     pay_currency p = ord_currency r"

definition on_payment :: "string \<Rightarrow> (payment_row \<Rightarrow> payment_row) \<Rightarrow> ('p, 'b) db \<Rightarrow> ('p, 'b) db" where
  "on_payment i f d = d\<lparr>payments := map (\<lambda>p. if pay_id p = i then f p else p) (payments d)\<rparr>"

inductive commit :: "('p, 'b) db \<Rightarrow> ('p, 'b) db \<Rightarrow> bool" where
  frame: "same_ledger d d' \<Longrightarrow> commit d d'"
| order_opened: "ord_id r \<notin> ord_id ` set (orders d) \<Longrightarrow> opens r d d' \<Longrightarrow> bills r ls \<Longrightarrow>
    osh_orderId h = ord_id r \<Longrightarrow> osh_fromStatus h = None \<Longrightarrow> osh_toStatus h = ord_status r \<Longrightarrow>
    orders d' = orders d @ [r] \<Longrightarrow> orderItems d' = orderItems d @ ls \<Longrightarrow>
    orderStatusHistory d' = orderStatusHistory d @ [h] \<Longrightarrow>
    payments d' = payments d \<Longrightarrow> refunds d' = refunds d \<Longrightarrow> commit d d'"
| order_queued: "applies q r d \<Longrightarrow> tr_from q = DRAFT \<Longrightarrow> tr_to q = PENDING_PAYMENT \<Longrightarrow>
    counted (ord_businessDay r) d d' \<Longrightarrow>
    orders d' = map (\<lambda>x. if ord_id x = ord_id r
      then queue_order (formatOrderNumber (last_number (ord_businessDay r) d + 1)) t x else x)
      (orders (moved_tables now q d)) \<Longrightarrow>
    orderItems d' = orderItems d \<Longrightarrow> payments d' = payments d \<Longrightarrow> refunds d' = refunds d \<Longrightarrow>
    orderStatusHistory d' = orderStatusHistory d @ [history_of now q] \<Longrightarrow> commit d d'"
| order_served: "applies q r d \<Longrightarrow> isStaffTransition (tr_from q) (tr_to q) \<Longrightarrow>
    commit d (moved_tables now q d)"
| order_left: "applies q r d \<Longrightarrow> isLegalTransition (tr_from q) (tr_to q) \<Longrightarrow>
    tr_to q \<in> {CANCELLED, EXPIRED} \<Longrightarrow> unsettled_change [PAY_CANCELLED] g d \<Longrightarrow>
    commit d ((moved_tables now q d)\<lparr>payments := map g (payments d)\<rparr>)"
| payment_opened: "pays_for p r d \<Longrightarrow> live_status (pay_status p) \<Longrightarrow>
    (\<And>x. x \<in> set (payments d) \<Longrightarrow> pay_orderId x = pay_orderId p \<Longrightarrow> \<not> live_status (pay_status x)) \<Longrightarrow>
    commit d (d\<lparr>payments := payments d @ [p]\<rparr>)"
| cash_taken: "pays_for p r d \<Longrightarrow> pay_status p = PAY_SUCCEEDED \<Longrightarrow> applies q r d \<Longrightarrow>
    tr_from q = PENDING_PAYMENT \<Longrightarrow> tr_to q = PAID \<Longrightarrow>
    commit d (moved_tables now q (d\<lparr>payments := payments d @ [p]\<rparr>))"
| payment_captured: "p \<in> set (payments d) \<Longrightarrow> applies q r d \<Longrightarrow> pay_orderId p = ord_id r \<Longrightarrow>
    tr_from q = PENDING_PAYMENT \<Longrightarrow> tr_to q = PAID \<Longrightarrow>
    commit d (on_payment (pay_id p) (\<lambda>x. x\<lparr>pay_status := PAY_SUCCEEDED, pay_method := m\<rparr>) (moved_tables now q d))"
| payment_ended: "unsettled_change [PAY_FAILED, PAY_CANCELLED] g d \<Longrightarrow>
    commit d (d\<lparr>payments := map g (payments d)\<rparr>)"
| refunded_part: "p \<in> set (payments d) \<Longrightarrow> pay_status p = PAY_SUCCEEDED \<Longrightarrow>
    ref_paymentId x = pay_id p \<Longrightarrow> 0 < ref_amountMinor x \<Longrightarrow>
    refunded (pay_id p) d + ref_amountMinor x < pay_amountMinor p \<Longrightarrow>
    commit d (d\<lparr>refunds := refunds d @ [x]\<rparr>)"
| refunded_fully: "p \<in> set (payments d) \<Longrightarrow> settles p r \<Longrightarrow> applies q r d \<Longrightarrow> tr_to q = REFUNDED \<Longrightarrow>
    ref_paymentId x = pay_id p \<Longrightarrow> 0 < ref_amountMinor x \<Longrightarrow>
    refunded (pay_id p) d + ref_amountMinor x = pay_amountMinor p \<Longrightarrow>
    commit d (moved_tables now q (d\<lparr>refunds := refunds d @ [x]\<rparr>))"

inductive_cases commitE: "commit d d'"

text \<open>What a row that has been read still says of the tables later on.\<close>

definition order_kept :: "order_row \<Rightarrow> order_row \<Rightarrow> bool" where
  "order_kept r r' \<longleftrightarrow> ord_id r' = ord_id r \<and> ord_totalMinor r' = ord_totalMinor r \<and>
     ord_currency r' = ord_currency r \<and> ord_businessDay r' = ord_businessDay r \<and>
     ord_kioskDeviceId r' = ord_kioskDeviceId r \<and>
     (ord_number r \<noteq> None \<longrightarrow> ord_number r' = ord_number r) \<and>
     (was_paid (ord_status r) \<longrightarrow> was_paid (ord_status r'))"

definition payment_kept :: "payment_row \<Rightarrow> payment_row \<Rightarrow> bool" where
  "payment_kept p p' \<longleftrightarrow> pay_id p' = pay_id p \<and> pay_orderId p' = pay_orderId p \<and>
     pay_amountMinor p' = pay_amountMinor p \<and> pay_currency p' = pay_currency p \<and>
     pay_providerIntentId p' = pay_providerIntentId p \<and>
     (pay_status p = PAY_SUCCEEDED \<longrightarrow> pay_status p' = PAY_SUCCEEDED)"

definition grows :: "('p, 'b) db \<Rightarrow> ('p, 'b) db \<Rightarrow> bool" where
  "grows d d' \<longleftrightarrow>
     (\<forall>r \<in> set (orders d). \<exists>r' \<in> set (orders d'). order_kept r r') \<and>
     (\<forall>p \<in> set (payments d). \<exists>p' \<in> set (payments d'). payment_kept p p')"

section \<open>Lemmas\<close>

subsection \<open>Tables after a change\<close>

lemma was_paid_simps [simp]:
  "was_paid PAID" "was_paid IN_PREPARATION" "was_paid READY" "was_paid COMPLETED" "was_paid REFUNDED"
  "\<not> was_paid DRAFT" "\<not> was_paid PENDING_PAYMENT" "\<not> was_paid CANCELLED" "\<not> was_paid EXPIRED"
  by (simp_all add: was_paid_def)

lemma same_key:
  assumes "distinct (map key rows)" "x \<in> set rows" "y \<in> set rows" "key x = key y"
  shows "x = y"
  using assms by (auto simp: distinct_map dest: inj_onD)

text \<open>A guarded move touches the one row it applies to.\<close>

lemma set_moved:
  assumes "keys_ok d" "applies q r d"
  shows "set (orders (moved_tables now q d)) =
    insert (moved_order q r) {x \<in> set (orders d). ord_id x \<noteq> ord_id r}"
proof -
  have "(if ord_id x = tr_orderId q \<and> ord_status x = tr_from q then moved_order q x else x) =
      (if ord_id x = ord_id r then moved_order q r else x)" if "x \<in> set (orders d)" for x
    using same_key [of ord_id "orders d" x r] that assms by (auto simp: keys_ok_def applies_def)
  then show ?thesis
    using assms(2) by (auto simp: moved_tables_orders applies_def image_iff)
qed

lemma set_on_payment:
  assumes "keys_ok d" "p \<in> set (payments d)"
  shows "set (payments (on_payment (pay_id p) f d)) =
    insert (f p) {x \<in> set (payments d). pay_id x \<noteq> pay_id p}"
proof -
  have "(if pay_id x = pay_id p then f x else x) = (if pay_id x = pay_id p then f p else x)"
    if "x \<in> set (payments d)" for x
    using same_key [of pay_id "payments d" x p] that assms by (auto simp: keys_ok_def)
  then show ?thesis
    using assms(2) by (auto simp: on_payment_def image_iff)
qed

lemma on_payment_frame [simp]:
  "orders (on_payment i f d) = orders d"
  "orderItems (on_payment i f d) = orderItems d"
  "orderStatusHistory (on_payment i f d) = orderStatusHistory d"
  "orderNumberCounters (on_payment i f d) = orderNumberCounters d"
  "refunds (on_payment i f d) = refunds d"
  by (simp_all add: on_payment_def)

lemma keys_ids: "(\<And>p. pay_id (f p) = pay_id p) \<Longrightarrow> keys_ok (on_payment i f d) \<longleftrightarrow> keys_ok d"
proof -
  assume "\<And>p. pay_id (f p) = pay_id p"
  then have "map pay_id (payments (on_payment i f d)) = map pay_id (payments d)"
    by (simp add: on_payment_def)
  then show ?thesis by (simp add: keys_ok_def)
qed

lemma unsettled_kept:
  assumes "unsettled_change ss g d" "p \<in> set (payments d)"
  shows "pay_id (g p) = pay_id p" "pay_orderId (g p) = pay_orderId p"
    "pay_amountMinor (g p) = pay_amountMinor p" "pay_currency (g p) = pay_currency p"
    "pay_providerIntentId (g p) = pay_providerIntentId p"
    "PAY_SUCCEEDED \<notin> set ss \<Longrightarrow> pay_status (g p) = PAY_SUCCEEDED \<longleftrightarrow> pay_status p = PAY_SUCCEEDED"
    "pay_status p = PAY_SUCCEEDED \<Longrightarrow> g p = p"
    "(\<And>s. s \<in> set ss \<Longrightarrow> \<not> live_status s) \<Longrightarrow> live_status (pay_status (g p)) \<Longrightarrow> g p = p"
  using assms by (auto simp: unsettled_change_def)

lemma refunded_same: "refunds d' = refunds d \<Longrightarrow> refunded i d' = refunded i d"
  by (simp add: refunded_def)

lemma refunded_append:
  "refunded i (d\<lparr>refunds := refunds d @ [x]\<rparr>) =
     refunded i d + (if ref_paymentId x = i then ref_amountMinor x else 0)"
  by (simp add: refunded_def)

subsection \<open>Keys, amounts and settlement\<close>

lemma commit_keys: "commit d d' \<Longrightarrow> keys_ok d \<Longrightarrow> keys_ok d'"
proof (induction rule: commit.induct)
  case (order_opened r d d' ls h)
  then show ?case by (simp add: keys_ok_def)
next
  case (order_queued q r d d' t now)
  have "map ord_id (orders d') = map ord_id (orders (moved_tables now q d))"
    using order_queued.hyps by (simp add: queue_order_def comp_def if_distrib cong: if_cong)
  then show ?case using order_queued by (simp add: keys_ok_def moved_tables_ids)
next
  case (order_left q r d g now)
  have "map pay_id (map g (payments d)) = map pay_id (payments d)"
    using unsettled_kept(1) [OF order_left.hyps(4)] by simp
  then show ?case using order_left.prems
    by (simp add: keys_ok_def moved_tables_ids del: map_map)
next
  case (payment_ended g d)
  have "map pay_id (map g (payments d)) = map pay_id (payments d)"
    using unsettled_kept(1) [OF payment_ended.hyps] by simp
  then show ?case using payment_ended.prems by (simp add: keys_ok_def del: map_map)
qed (simp_all add: same_ledger_def keys_ok_def moved_tables_ids pays_for_def keys_ids
    on_payment_def comp_def if_distrib cong: if_cong)

text \<open>The rows of the orders table, by what a commit leaves of each.\<close>

lemma moved_kept:
  assumes "keys_ok d" "applies q r d" "was_paid (tr_from q) \<longrightarrow> was_paid (tr_to q)" "x \<in> set (orders d)"
  shows "\<exists>x' \<in> set (orders (moved_tables now q d)). order_kept x x'"
proof (cases "ord_id x = ord_id r")
  case True
  then have "x = r" using assms same_key [of ord_id "orders d" x r] by (simp add: keys_ok_def applies_def)
  with assms show ?thesis by (simp add: set_moved [OF assms(1,2)] order_kept_def applies_def)
next
  case False
  with assms(4) show ?thesis
    by (auto simp: set_moved [OF assms(1,2)] order_kept_def)
qed

lemma payment_kept_refl [simp]: "payment_kept p p"
  by (simp add: payment_kept_def)

lemma order_kept_refl [simp]: "order_kept r r"
  by (simp add: order_kept_def)

lemma legal_leave: "isLegalTransition s t \<Longrightarrow> t \<in> {CANCELLED, EXPIRED} \<Longrightarrow> s \<in> {DRAFT, PENDING_PAYMENT}"
  by (cases s) (auto simp: isLegalTransition_iff)

lemma set_queued:
  assumes "keys_ok d" "applies q r d"
    and "orders d' = map (\<lambda>x. if ord_id x = ord_id r then queue_order n t x else x) (orders (moved_tables now q d))"
  shows "set (orders d') = insert (queue_order n t (moved_order q r)) {x \<in> set (orders d). ord_id x \<noteq> ord_id r}"
  by (auto simp: assms(3) set_moved [OF assms(1,2)])

lemma queue_order_simps [simp]:
  "ord_id (queue_order n t r) = ord_id r" "ord_status (queue_order n t r) = ord_status r"
  "ord_number (queue_order n t r) = Some n" "ord_expiresAt (queue_order n t r) = Some t"
  "ord_totalMinor (queue_order n t r) = ord_totalMinor r" "ord_currency (queue_order n t r) = ord_currency r"
  "ord_subtotalMinor (queue_order n t r) = ord_subtotalMinor r"
  "ord_businessDay (queue_order n t r) = ord_businessDay r"
  "ord_kioskDeviceId (queue_order n t r) = ord_kioskDeviceId r"
  by (simp_all add: queue_order_def)

lemma commit_orders_kept:
  assumes "commit d d'" "keys_ok d" "numbers_ok d" "x \<in> set (orders d)"
  shows "\<exists>x' \<in> set (orders d'). order_kept x x'"
  using assms
proof (induction rule: commit.induct)
  case (frame d d')
  then have "x \<in> set (orders d')" by (simp add: same_ledger_def)
  then show ?case by (rule bexI [rotated]) simp
next
  case (order_opened r d d' ls h)
  then have "x \<in> set (orders d')" by simp
  then show ?case by (rule bexI [rotated]) simp
next
  case (order_queued q r d d' t now)
  note set' = set_queued [OF order_queued.prems(1) order_queued.hyps(1,5)]
  show ?case
  proof (cases "ord_id x = ord_id r")
    case True
    then have "x = r" using order_queued same_key [of ord_id "orders d" x r]
      by (simp add: keys_ok_def applies_def)
    moreover have "ord_number r = None"
      using order_queued.prems(2) order_queued.hyps(1,2) by (auto simp: numbers_ok_def applies_def)
    ultimately show ?thesis using order_queued.hyps(1-3)
      by (simp add: set' order_kept_def applies_def)
  qed (use order_queued.prems in \<open>auto simp: set' order_kept_def\<close>)
next
  case (order_served q r d now)
  then show ?case by (intro moved_kept [where r = r]) (auto simp: isStaffTransition_iff)
next
  case (order_left q r d g now)
  have "tr_from q \<in> {DRAFT, PENDING_PAYMENT}" using order_left.hyps by (intro legal_leave)
  then have "\<exists>x' \<in> set (orders (moved_tables now q d)). order_kept x x'"
    using order_left by (intro moved_kept [where r = r]) auto
  then show ?case by simp
next
  case (cash_taken p r d q now)
  then show ?case by (intro moved_kept [where r = r]) (auto simp: keys_ok_def applies_def pays_for_def)
next
  case (payment_captured p d q r m now)
  then show ?case using moved_kept [of d q r x now] by simp
next
  case (refunded_fully p d r q xr now)
  then show ?case by (intro moved_kept [where r = r]) (auto simp: keys_ok_def applies_def)
qed (auto intro!: bexI [where x = x])

lemma commit_payments_kept:
  assumes "commit d d'" "keys_ok d" "p \<in> set (payments d)"
  shows "\<exists>p' \<in> set (payments d'). payment_kept p p'"
  using assms
proof (induction rule: commit.induct)
  case (order_left q r d g now)
  then show ?case using unsettled_kept [OF order_left.hyps(4) order_left.prems(2)]
    by (auto simp: payment_kept_def)
next
  case (payment_ended g d)
  then show ?case using unsettled_kept [OF payment_ended.hyps payment_ended.prems(2)]
    by (auto simp: payment_kept_def)
next
  case (payment_captured p' d q r m now)
  let ?g = "\<lambda>x. if pay_id x = pay_id p' then x\<lparr>pay_status := PAY_SUCCEEDED, pay_method := m\<rparr> else x"
  have "?g p \<in> set (map ?g (payments d))" using payment_captured.prems(2) by simp
  moreover have "payment_kept p (?g p)" by (simp add: payment_kept_def)
  ultimately show ?case unfolding on_payment_def by auto
qed (auto simp: same_ledger_def intro!: bexI [where x = p])

lemma commit_grows: "commit d d' \<Longrightarrow> ledger d \<Longrightarrow> grows d d'"
  using commit_orders_kept commit_payments_kept by (auto simp: grows_def ledger_def)

lemma grows_refl [simp]: "grows d d"
  by (auto simp: grows_def intro!: bexI)

lemma grows_trans: "grows d d' \<Longrightarrow> grows d' d'' \<Longrightarrow> grows d d''"
proof -
  have o: "order_kept r r' \<Longrightarrow> order_kept r' r'' \<Longrightarrow> order_kept r r''" for r r' r''
    by (auto simp: order_kept_def)
  have p: "payment_kept p p' \<Longrightarrow> payment_kept p' p'' \<Longrightarrow> payment_kept p p''" for p p' p''
    by (auto simp: payment_kept_def)
  show "grows d d' \<Longrightarrow> grows d' d'' \<Longrightarrow> grows d d''"
    unfolding grows_def by (meson o p)
qed

subsection \<open>Each part of the ledger survives a commit\<close>

lemma keys_with [simp]:
  "keys_ok (d\<lparr>refunds := rs\<rparr>) \<longleftrightarrow> keys_ok d"
  "applies q r (d\<lparr>refunds := rs\<rparr>) \<longleftrightarrow> applies q r d"
  "applies q r (d\<lparr>payments := ps\<rparr>) \<longleftrightarrow> applies q r d"
  by (simp_all add: keys_ok_def applies_def)

lemma keys_new_payment: "keys_ok d \<Longrightarrow> pays_for p r d \<Longrightarrow> keys_ok (d\<lparr>payments := payments d @ [p]\<rparr>)"
  by (simp add: keys_ok_def pays_for_def)

text \<open>Every payment row after a commit is an old one, kept, or a new one for the order's total.\<close>

lemma commit_payments_from:
  assumes "commit d d'" "p' \<in> set (payments d')"
  shows "(\<exists>p \<in> set (payments d). payment_kept p p') \<or> (\<exists>r. pays_for p' r d)"
proof -
  have "\<forall>p' \<in> set (payments d'). (\<exists>p \<in> set (payments d). payment_kept p p') \<or> (\<exists>r. pays_for p' r d)"
    using assms(1)
  proof (cases rule: commit.cases)
    case (order_left q r g now)
    then show ?thesis using unsettled_kept [of "[PAY_CANCELLED]" g d] by (fastforce simp: payment_kept_def)
  next
    case (payment_ended g)
    then show ?thesis using unsettled_kept [of "[PAY_FAILED, PAY_CANCELLED]" g d]
      by (fastforce simp: payment_kept_def)
  next
    case (payment_captured p q r m now)
    have "payment_kept x (x\<lparr>pay_status := PAY_SUCCEEDED, pay_method := m\<rparr>)" for x
      by (simp add: payment_kept_def)
    then show ?thesis unfolding payment_captured(1) on_payment_def using payment_kept_refl by force
  qed (use payment_kept_refl in \<open>force simp: same_ledger_def\<close>)+
  then show ?thesis using assms(2) by blast
qed

lemma commit_payments:
  assumes "commit d d'" "keys_ok d" "numbers_ok d" "payments_ok d"
  shows "payments_ok d'"
proof -
  have old: "0 < pay_amountMinor p' \<and> (\<exists>r \<in> set (orders d'). ord_id r = pay_orderId p' \<and>
      pay_amountMinor p' = ord_totalMinor r \<and> pay_currency p' = ord_currency r)"
    if "p \<in> set (payments d)" "payment_kept p p'" for p p'
  proof -
    obtain r where "r \<in> set (orders d)" "ord_id r = pay_orderId p" "pay_amountMinor p = ord_totalMinor r"
      "pay_currency p = ord_currency r" "0 < pay_amountMinor p"
      using assms(4) \<open>p \<in> _\<close> by (auto simp: payments_ok_def)
    moreover obtain r' where "r' \<in> set (orders d')" "order_kept r r'"
      using commit_orders_kept [OF assms(1-3) \<open>r \<in> _\<close>] by blast
    ultimately show ?thesis using that(2) by (auto simp: order_kept_def payment_kept_def intro!: bexI [of _ r'])
  qed
  have new: "0 < pay_amountMinor p \<and> (\<exists>r' \<in> set (orders d'). ord_id r' = pay_orderId p \<and>
      pay_amountMinor p = ord_totalMinor r' \<and> pay_currency p = ord_currency r')"
    if "pays_for p r d" for p r
    using commit_orders_kept [OF assms(1-3), of r] that by (fastforce simp: pays_for_def order_kept_def)
  show ?thesis using old new commit_payments_from [OF assms(1)] unfolding payments_ok_def by blast
qed

lemma commit_expiry:
  assumes "commit d d'" "keys_ok d" "expiry_ok d"
  shows "expiry_ok d'"
proof -
  have move: "expiry_ok (moved_tables now q d)" if "keys_ok d" "expiry_ok d" "applies q r d"
    "tr_to q \<noteq> PENDING_PAYMENT" for q r now and d :: "('p, 'b) db"
    using that(2-) by (auto simp: expiry_ok_def set_moved [OF that(1,3)] moved_order_expiresAt applies_def)
  have frames: "expiry_ok (d\<lparr>payments := ps\<rparr>) \<longleftrightarrow> expiry_ok d" "expiry_ok (d\<lparr>refunds := rs\<rparr>) \<longleftrightarrow> expiry_ok d"
    "expiry_ok (on_payment i f d) \<longleftrightarrow> expiry_ok d" for d :: "('p, 'b) db" and ps rs i f
    by (simp_all add: expiry_ok_def)
  show ?thesis using assms
  proof (cases rule: commit.cases)
    case (order_queued q r t now)
    note set' = set_queued [OF assms(2) order_queued(1,5)]
    show ?thesis using assms(3) order_queued(3) by (auto simp: expiry_ok_def set')
  next
    case (order_served q r now)
    then show ?thesis using move [of d q r] assms by (auto simp: isStaffTransition_iff)
  next
    case (order_left q r g now)
    then show ?thesis using move [of d q r] assms by (auto simp: frames isLegalTransition_iff)
  next
    case (cash_taken p r q now)
    then show ?thesis using move [of "d\<lparr>payments := payments d @ [p]\<rparr>" q r] assms
      by (auto simp: frames keys_new_payment)
  next
    case (payment_captured p q r m now)
    then show ?thesis using move [of d q r] assms by (auto simp: frames)
  next
    case (refunded_fully p r q x now)
    then show ?thesis using move [of "d\<lparr>refunds := refunds d @ [x]\<rparr>" q r] assms refunded_fully
      by (auto simp: frames)
  qed (auto simp: expiry_ok_def same_ledger_def opens_def)
qed

text \<open>Settlement, by the set of payments that settle an order.\<close>

definition settlers :: "string \<Rightarrow> ('p, 'b) db \<Rightarrow> payment_row set" where
  "settlers i d = {p \<in> set (payments d). pay_orderId p = i \<and> pay_status p = PAY_SUCCEEDED}"

definition settled_by :: "order_status \<Rightarrow> payment_row set \<Rightarrow> bool" where
  "settled_by s S \<longleftrightarrow> (if was_paid s then \<exists>p. S = {p} else S = {})"

lemma only_one:
  "((w \<longleftrightarrow> (\<exists>x \<in> A. Q x)) \<and> (\<forall>x \<in> A. \<forall>y \<in> A. Q x \<longrightarrow> Q y \<longrightarrow> x = y)) \<longleftrightarrow>
     (if w then \<exists>x. {x \<in> A. Q x} = {x} else {x \<in> A. Q x} = {})"
proof (cases w)
  case True
  have "(\<exists>x. {x \<in> A. Q x} = {x}) \<longleftrightarrow> (\<exists>x \<in> A. Q x) \<and> (\<forall>x \<in> A. \<forall>y \<in> A. Q x \<longrightarrow> Q y \<longrightarrow> x = y)"
    (is "?l \<longleftrightarrow> ?r")
  proof
    assume ?r
    then obtain x where x: "x \<in> A" "Q x" by blast
    with \<open>?r\<close> have "\<forall>y \<in> A. Q y \<longrightarrow> y = x" by simp
    with x have "{x \<in> A. Q x} = {x}" by blast
    then show ?l by (rule exI)
  next
    assume ?l
    then obtain z where z: "{x \<in> A. Q x} = {z}" by blast
    then have "z \<in> {x \<in> A. Q x}" "\<And>x. x \<in> {x \<in> A. Q x} \<Longrightarrow> x = z" by simp_all
    then show ?r by auto
  qed
  with True show ?thesis by simp
qed auto

lemma settled_ok_iff:
  "settled_ok d \<longleftrightarrow> (\<forall>r \<in> set (orders d). settled_by (ord_status r) (settlers (ord_id r) d))"
  unfolding settled_ok_def settlers_def settled_by_def settles_def only_one ..

lemma settlers_unsettled:
  assumes "unsettled_change ss g d" "PAY_SUCCEEDED \<notin> set ss" "payments d' = map g (payments d)"
  shows "settlers i d' = settlers i d"
proof -
  have "g p \<in> settlers i d' \<longleftrightarrow> p \<in> settlers i d" if "p \<in> set (payments d)" for p
    using unsettled_kept [OF assms(1) that] that assms(2,3) by (auto simp: settlers_def)
  moreover have "g p = p" if "p \<in> settlers i d" for p
    using unsettled_kept(7) [OF assms(1)] that by (simp add: settlers_def)
  moreover have "settlers i d' = {g p |p. p \<in> set (payments d) \<and> g p \<in> settlers i d'}"
    using assms(3) by (auto simp: settlers_def)
  moreover have "settlers i d = {p. p \<in> set (payments d) \<and> p \<in> settlers i d}"
    by (auto simp: settlers_def)
  ultimately show ?thesis by (smt (verit) Collect_cong)
qed

lemma moved_tables_commute:
  "(moved_tables now q d)\<lparr>payments := ps\<rparr> = moved_tables now q (d\<lparr>payments := ps\<rparr>)"
  "on_payment i f (moved_tables now q d) = moved_tables now q (on_payment i f d)"
  by (simp_all add: moved_tables_def append_history_def on_payment_def)

lemma settled_move:
  assumes "keys_ok d" "applies q r d" "settled_ok d" "keys_ok d'" "orders d' = orders d"
    and "\<And>i. i \<noteq> ord_id r \<Longrightarrow> settlers i d' = settlers i d"
    and "settled_by (tr_to q) (settlers (ord_id r) d')"
  shows "settled_ok (moved_tables now q d')"
proof -
  have a: "applies q r d'" using assms by (simp add: applies_def)
  have "settlers i (moved_tables now q d') = settlers i d'" for i by (simp add: settlers_def)
  then show ?thesis
    using assms(3,6,7) unfolding settled_ok_iff set_moved [OF assms(4) a] by (auto simp: assms(5))
qed

lemma settlers_new:
  assumes "pays_for p r d" "pay_status p = PAY_SUCCEEDED" "settlers (ord_id r) d = {}"
  shows "settlers i (d\<lparr>payments := payments d @ [p]\<rparr>) = (if i = ord_id r then {p} else settlers i d)"
  using assms by (auto simp: settlers_def pays_for_def)

lemma settlers_captured:
  assumes "keys_ok d" "p \<in> set (payments d)" "pay_orderId p = ord_id r" "settlers (ord_id r) d = {}"
  shows "settlers i (on_payment (pay_id p) (\<lambda>x. x\<lparr>pay_status := PAY_SUCCEEDED, pay_method := m\<rparr>) d) =
    (if i = ord_id r then {p\<lparr>pay_status := PAY_SUCCEEDED, pay_method := m\<rparr>} else settlers i d)"
  using assms same_key [of pay_id "payments d" _ p]
  by (auto simp: settlers_def set_on_payment [OF assms(1,2)] keys_ok_def)

lemma commit_settled:
  assumes "commit d d'" "keys_ok d" "payments_ok d" "settled_ok d"
  shows "settled_ok d'"
proof -
  have old: "settled_by (ord_status r) (settlers (ord_id r) d)" if "r \<in> set (orders d)" for r
    using assms(4) that by (simp add: settled_ok_iff)
  have unpaid: "settlers (ord_id r) d = {}" if "r \<in> set (orders d)" "\<not> was_paid (ord_status r)" for r
    using old that by (simp add: settled_by_def)
  show ?thesis using assms(1)
  proof (cases rule: commit.cases)
    case frame
    then show ?thesis using assms(4) by (simp add: settled_ok_iff same_ledger_def settlers_def)
  next
    case (order_opened r ls h)
    have "settlers (ord_id r) d = {}"
      using order_opened(1) assms(3) by (fastforce simp: settlers_def payments_ok_def image_iff)
    moreover have "settlers i d' = settlers i d" for i by (simp add: settlers_def order_opened(10))
    ultimately show ?thesis using assms(4) order_opened(2)
      by (auto simp: settled_ok_iff settled_by_def opens_def order_opened(7))
  next
    case (order_queued q r t now)
    then have e: "settlers i d' = settlers i d" for i by (simp add: settlers_def)
    show ?thesis using unpaid [of r] assms(4) order_queued(1-3) e
      by (auto simp: settled_ok_iff set_queued [OF assms(2) order_queued(1,5)] settled_by_def applies_def)
  next
    case (order_served q r now)
    have "was_paid (tr_from q)" "was_paid (tr_to q)"
      using order_served(3) by (auto simp: isStaffTransition_iff)
    then show ?thesis unfolding order_served(1) using old [of r] assms order_served(2)
      by (intro settled_move [where r = r and d = d]) (auto simp: applies_def settled_by_def)
  next
    case (order_left q r g now)
    have "tr_from q \<in> {DRAFT, PENDING_PAYMENT}" using order_left by (intro legal_leave)
    moreover have "settlers i (d\<lparr>payments := map g (payments d)\<rparr>) = settlers i d" for i
      by (rule settlers_unsettled [OF order_left(5)]) simp_all
    moreover have "keys_ok (d\<lparr>payments := map g (payments d)\<rparr>)"
      using commit_keys [OF assms(1,2)] order_left(1) by (simp add: keys_ok_def moved_tables_ids)
    ultimately show ?thesis unfolding order_left(1) moved_tables_commute
      using unpaid [of r] assms order_left(2,4)
      by (intro settled_move [where r = r and d = d]) (auto simp: applies_def settled_by_def)
  next
    case (payment_opened p r)
    then have "settlers i d' = settlers i d" for i by (auto simp: settlers_def)
    then show ?thesis using assms(4) payment_opened(1) by (simp add: settled_ok_iff)
  next
    case (cash_taken p r q now)
    note e = settlers_new [OF cash_taken(2,3) unpaid]
    show ?thesis unfolding cash_taken(1)
      using assms cash_taken(2-) keys_new_payment
      by (intro settled_move [where r = r and d = d]) (auto simp: e settled_by_def applies_def)
  next
    case (payment_captured p q r m now)
    note e = settlers_captured [OF assms(2) payment_captured(2,4) unpaid]
    show ?thesis unfolding payment_captured(1) moved_tables_commute
      using assms payment_captured(2-)
      by (intro settled_move [where r = r and d = d]) (auto simp: e settled_by_def keys_ids applies_def)
  next
    case (payment_ended g)
    then show ?thesis using assms(4) settlers_unsettled [OF payment_ended(2), of d']
      by (simp add: settled_ok_iff)
  next
    case (refunded_part p x)
    then show ?thesis using assms(4) by (simp add: settled_ok_iff settlers_def)
  next
    case (refunded_fully p r q x now)
    have "settlers i (d\<lparr>refunds := refunds d @ [x]\<rparr>) = settlers i d" for i by (simp add: settlers_def)
    moreover have "was_paid (ord_status r)"
      using refunded_fully unpaid [of r] by (auto simp: settlers_def settles_def applies_def)
    ultimately show ?thesis unfolding refunded_fully(1)
      using assms refunded_fully(2-) old [of r]
      by (intro settled_move [where r = r and d = d]) (auto simp: settled_by_def applies_def)
  qed
qed

lemma commit_one_live:
  assumes "commit d d'" "keys_ok d" "one_live d"
  shows "one_live d'"
proof -
  have sub: "one_live d'"
    if "\<forall>p \<in> set (payments d'). live_status (pay_status p) \<longrightarrow> p \<in> set (payments d)"
    using assms(3) that by (auto simp: one_live_def)
  show ?thesis using assms(1)
  proof (cases rule: commit.cases)
    case (order_left q r g now)
    then show ?thesis using unsettled_kept(8) [OF order_left(5)] by (intro sub) fastforce
  next
    case (payment_ended g)
    then show ?thesis using unsettled_kept(8) [OF payment_ended(2)] by (intro sub) fastforce
  next
    case (payment_captured p q r m now)
    then show ?thesis by (intro sub) (auto simp: on_payment_def)
  next
    case (payment_opened p r)
    have "one_live (d\<lparr>payments := payments d @ [p]\<rparr>)"
      using assms(3) payment_opened(4) unfolding one_live_def by auto
    then show ?thesis by (simp add: payment_opened(1))
  qed (rule sub; auto simp: same_ledger_def)+
qed

subsection \<open>Refunds\<close>

lemma unrefunded:
  assumes "refunds_ok d" "\<And>p. p \<in> set (payments d) \<Longrightarrow> pay_id p = i \<Longrightarrow> pay_status p \<noteq> PAY_SUCCEEDED"
  shows "refunded i d = 0"
proof -
  have "filter (\<lambda>x. ref_paymentId x = i) (refunds d) = []"
    using assms by (force simp: refunds_ok_def filter_empty_conv)
  then show ?thesis by (simp add: refunded_def)
qed

definition refund_mark :: "('p, 'b) db \<Rightarrow> order_row \<Rightarrow> bool" where
  "refund_mark d r \<longleftrightarrow> (\<forall>p \<in> settlers (ord_id r) d.
     refunded (pay_id p) d = pay_amountMinor p \<longleftrightarrow> ord_status r = REFUNDED)"

lemma refunds_ok_iff:
  "refunds_ok d \<longleftrightarrow>
     (\<forall>x \<in> set (refunds d). 0 < ref_amountMinor x \<and>
        (\<exists>p \<in> set (payments d). pay_id p = ref_paymentId x \<and> pay_status p = PAY_SUCCEEDED)) \<and>
     (\<forall>p \<in> set (payments d). refunded (pay_id p) d \<le> pay_amountMinor p) \<and>
     (\<forall>r \<in> set (orders d). refund_mark d r)"
  unfolding refunds_ok_def refund_mark_def settlers_def settles_def by blast

lemma commit_refund_rows:
  assumes "commit d d'" "keys_ok d" "refunds_ok d" "x \<in> set (refunds d')"
  shows "0 < ref_amountMinor x \<and>
    (\<exists>p \<in> set (payments d'). pay_id p = ref_paymentId x \<and> pay_status p = PAY_SUCCEEDED)"
proof -
  have kept: "\<exists>p' \<in> set (payments d'). pay_id p' = pay_id p \<and> pay_status p' = PAY_SUCCEEDED"
    if "p \<in> set (payments d)" "pay_status p = PAY_SUCCEEDED" for p
    using commit_payments_kept [OF assms(1,2) that(1)] that(2) by (auto simp: payment_kept_def)
  have "0 < ref_amountMinor x \<and>
      (\<exists>p \<in> set (payments d). pay_id p = ref_paymentId x \<and> pay_status p = PAY_SUCCEEDED)"
    using assms(1)
    by (cases rule: commit.cases)
      (use assms(3,4) in \<open>auto simp: refunds_ok_def same_ledger_def settles_def\<close>)
  then show ?thesis using kept by metis
qed

lemma commit_refund_sums:
  assumes "commit d d'" "keys_ok d" "refunds_ok d" "p' \<in> set (payments d')"
  shows "refunded (pay_id p') d' \<le> pay_amountMinor p'"
proof -
  have within: "refunded (pay_id p') d \<le> pay_amountMinor p'"
    using commit_payments_from [OF assms(1,4)]
  proof (elim disjE bexE exE)
    fix p assume "p \<in> set (payments d)" "payment_kept p p'"
    then show ?thesis using assms(3) by (auto simp: refunds_ok_def payment_kept_def)
  next
    fix r assume r: "pays_for p' r d"
    then have "refunded (pay_id p') d = 0"
      using assms(3) by (intro unrefunded) (force simp: pays_for_def image_iff)+
    with r show ?thesis by (simp add: pays_for_def)
  qed
  have same: "q = p" if "q \<in> set (payments d)" "p \<in> set (payments d)" "pay_id q = pay_id p" for p q
    using that assms(2) same_key [of pay_id "payments d"] by (simp add: keys_ok_def)
  show ?thesis using assms(1)
  proof (cases rule: commit.cases)
    case (refunded_part p x)
    then show ?thesis using within assms(4) same [of p' p] by (auto simp: refunded_append)
  next
    case (refunded_fully p r q x now)
    have "refunded (pay_id p') d' = refunded (pay_id p') (d\<lparr>refunds := refunds d @ [x]\<rparr>)"
      by (rule refunded_same) (simp add: refunded_fully(1))
    moreover have "pay_id p' = pay_id p \<Longrightarrow> p' = p"
      using assms(4) same [of p' p] refunded_fully(1,2) by simp
    ultimately show ?thesis using within refunded_fully(6,8)
      by (cases "pay_id p' = pay_id p") (simp_all add: refunded_append)
  qed (use within in \<open>auto simp: refunded_def same_ledger_def\<close>)
qed

lemma refund_mark_move:
  assumes "keys_ok d" "applies q r d" "keys_ok d'" "orders d' = orders d"
    and "\<And>x. x \<in> set (orders d) \<Longrightarrow> ord_id x \<noteq> ord_id r \<Longrightarrow> refund_mark d' x"
    and "\<forall>p \<in> settlers (ord_id r) d'. refunded (pay_id p) d' = pay_amountMinor p \<longleftrightarrow> tr_to q = REFUNDED"
    and "x \<in> set (orders (moved_tables now q d'))"
  shows "refund_mark (moved_tables now q d') x"
proof -
  have a: "applies q r d'" using assms by (simp add: applies_def)
  have e: "settlers i (moved_tables now q d') = settlers i d'"
    "refunded i (moved_tables now q d') = refunded i d'" for i
    by (simp_all add: settlers_def refunded_def)
  show ?thesis
    using assms(5-7) unfolding refund_mark_def set_moved [OF assms(3) a] e
    by (auto simp: assms(4))
qed

lemma refund_mark_paid:
  assumes "keys_ok d" "applies q r d" "keys_ok d'" "orders d' = orders d" "refunds d' = refunds d"
    and "\<And>x. x \<in> set (orders d) \<Longrightarrow> refund_mark d x"
    and "\<And>i. settlers i d' = (if i = ord_id r then {p} else settlers i d)"
    and "refunded (pay_id p) d = 0" "0 < pay_amountMinor p" "tr_to q = PAID"
    and "x \<in> set (orders (moved_tables now q d'))"
  shows "refund_mark (moved_tables now q d') x"
proof (rule refund_mark_move [OF assms(1-4) _ _ assms(11)])
  show "\<forall>p \<in> settlers (ord_id r) d'. refunded (pay_id p) d' = pay_amountMinor p \<longleftrightarrow> tr_to q = REFUNDED"
    using assms(8-10) by (simp add: assms(7) refunded_same [OF assms(5)])
  show "refund_mark d' x" if "x \<in> set (orders d)" "ord_id x \<noteq> ord_id r" for x
    using assms(6) [OF that(1)] that(2) by (simp add: refund_mark_def assms(7) refunded_same [OF assms(5)])
qed

lemma settlers_refunds [simp]: "settlers i (d\<lparr>refunds := rs\<rparr>) = settlers i d"
  by (simp add: settlers_def)

lemma same_payment:
  "keys_ok d \<Longrightarrow> p \<in> set (payments d) \<Longrightarrow> p' \<in> settlers i d \<Longrightarrow> pay_id p' = pay_id p \<Longrightarrow> p' = p"
  using same_key [of pay_id "payments d" p' p] by (simp add: settlers_def keys_ok_def)

lemma refund_mark_part:
  assumes "keys_ok d" "p \<in> set (payments d)" "ref_paymentId y = pay_id p" "0 < ref_amountMinor y"
    and "refunded (pay_id p) d + ref_amountMinor y < pay_amountMinor p"
    and "refund_mark d x"
  shows "refund_mark (d\<lparr>refunds := refunds d @ [y]\<rparr>) x"
  unfolding refund_mark_def
proof
  fix p' assume p': "p' \<in> settlers (ord_id x) (d\<lparr>refunds := refunds d @ [y]\<rparr>)"
  then have mark: "refunded (pay_id p') d = pay_amountMinor p' \<longleftrightarrow> ord_status x = REFUNDED"
    using assms(6) by (simp add: refund_mark_def)
  show "refunded (pay_id p') (d\<lparr>refunds := refunds d @ [y]\<rparr>) = pay_amountMinor p' \<longleftrightarrow> ord_status x = REFUNDED"
    using mark assms(3-5) same_payment [OF assms(1,2), of p' "ord_id x"] p'
    by (cases "pay_id p' = pay_id p") (auto simp: refunded_append)
qed

lemma refund_mark_full:
  assumes "keys_ok d" "applies q r d" "settlers (ord_id r) d = {p}" "tr_to q = REFUNDED"
    and "ref_paymentId y = pay_id p" "refunded (pay_id p) d + ref_amountMinor y = pay_amountMinor p"
    and "\<And>x. x \<in> set (orders d) \<Longrightarrow> refund_mark d x"
    and "x \<in> set (orders (moved_tables now q (d\<lparr>refunds := refunds d @ [y]\<rparr>)))"
  shows "refund_mark (moved_tables now q (d\<lparr>refunds := refunds d @ [y]\<rparr>)) x"
proof (rule refund_mark_move [OF assms(1,2) _ _ _ _ assms(8)])
  show "\<forall>p \<in> settlers (ord_id r) (d\<lparr>refunds := refunds d @ [y]\<rparr>).
      refunded (pay_id p) (d\<lparr>refunds := refunds d @ [y]\<rparr>) = pay_amountMinor p \<longleftrightarrow> tr_to q = REFUNDED"
    using assms(3-6) by (simp add: refunded_append)
  show "refund_mark (d\<lparr>refunds := refunds d @ [y]\<rparr>) x" if x: "x \<in> set (orders d)" "ord_id x \<noteq> ord_id r" for x
  proof -
    have p: "p \<in> set (payments d)" "pay_orderId p = ord_id r" using assms(3) by (auto simp: settlers_def)
    have "pay_id p' \<noteq> pay_id p" if "p' \<in> settlers (ord_id x) d" for p'
      using same_payment [OF assms(1) p(1) that] that p(2) x(2) by (auto simp: settlers_def)
    then show ?thesis using assms(5) assms(7) [OF x(1)]
      by (simp add: refund_mark_def refunded_append eq_commute [of "pay_id p"])
  qed
qed (use assms(1) in simp_all)

lemma commit_refund_marks:
  assumes "commit d d'" "keys_ok d" "payments_ok d" "settled_ok d" "refunds_ok d" "x \<in> set (orders d')"
  shows "refund_mark d' x"
proof -
  have old: "refund_mark d r" if "r \<in> set (orders d)" for r
    using assms(5) that by (simp add: refunds_ok_iff)
  have unpaid: "settlers (ord_id r) d = {}" if "r \<in> set (orders d)" "\<not> was_paid (ord_status r)" for r
    using assms(4) that by (auto simp: settled_ok_iff settled_by_def)
  show ?thesis using assms(1)
  proof (cases rule: commit.cases)
    case frame
    then show ?thesis using old assms(6)
      by (simp add: refund_mark_def same_ledger_def settlers_def refunded_def)
  next
    case (order_opened r ls h)
    have "settlers (ord_id r) d = {}"
      using order_opened(1) assms(3) by (fastforce simp: settlers_def payments_ok_def image_iff)
    then have "refund_mark d r" by (simp add: refund_mark_def)
    then have "refund_mark d x" using old assms(6) order_opened(7) by auto
    then show ?thesis
      by (simp add: refund_mark_def settlers_def refunded_def order_opened(10,11))
  next
    case (order_queued q r t now)
    have e: "settlers i d' = settlers i d" "refunded i d' = refunded i d" for i
      by (simp_all add: settlers_def refunded_def order_queued(7,8))
    have "settlers (ord_id r) d = {}" using unpaid [of r] order_queued(1,2) by (simp add: applies_def)
    then show ?thesis using old assms(6)
      by (auto simp: refund_mark_def e set_queued [OF assms(2) order_queued(1,5)])
  next
    case (order_served q r now)
    have "ord_status r \<noteq> REFUNDED" "tr_to q \<noteq> REFUNDED"
      using order_served(2,3) by (auto simp: isStaffTransition_iff applies_def)
    then show ?thesis using assms(2,6) old [of r] old order_served(2) unfolding order_served(1)
      by (intro refund_mark_move [where r = r and d = d]) (auto simp: refund_mark_def applies_def)
  next
    case (order_left q r g now)
    have from_unpaid: "tr_from q \<in> {DRAFT, PENDING_PAYMENT}" using order_left by (intro legal_leave)
    have e: "settlers i (d\<lparr>payments := map g (payments d)\<rparr>) = settlers i d"
      "refunded i (d\<lparr>payments := map g (payments d)\<rparr>) = refunded i d" for i
      by (rule settlers_unsettled [OF order_left(5)]) (simp_all add: refunded_def)
    have k: "keys_ok (d\<lparr>payments := map g (payments d)\<rparr>)"
      using commit_keys [OF assms(1,2)] order_left(1) by (simp add: keys_ok_def moved_tables_ids)
    show ?thesis using assms(6) unpaid [of r] from_unpaid old order_left(2)
      unfolding order_left(1) moved_tables_commute
      by (intro refund_mark_move [where r = r and d = d, OF assms(2) order_left(2) k])
        (auto simp: e refund_mark_def applies_def)
  next
    case (payment_opened p r)
    have "settlers i d' = settlers i d" "refunded i d' = refunded i d" for i
      using payment_opened(1,3) by (auto simp: settlers_def refunded_def)
    then show ?thesis using old assms(6) payment_opened(1) by (simp add: refund_mark_def)
  next
    case (payment_ended g)
    have "settlers i d' = settlers i d" "refunded i d' = refunded i d" for i
      by (rule settlers_unsettled [OF payment_ended(2)]) (simp_all add: refunded_def payment_ended(1))
    then show ?thesis using old assms(6) payment_ended(1) by (simp add: refund_mark_def)
  next
    case (cash_taken p r q now)
    have none: "settlers (ord_id r) d = {}" using unpaid [of r] cash_taken(4,5) by (simp add: applies_def)
    have "refunded (pay_id p) d = 0"
      using assms(5) cash_taken(2) by (intro unrefunded) (force simp: pays_for_def image_iff)+
    then show ?thesis using assms(2,6) old cash_taken settlers_new [OF cash_taken(2,3) none]
      unfolding cash_taken(1)
      by (intro refund_mark_paid [where r = r and d = d and p = p])
        (auto simp: keys_new_payment pays_for_def)
  next
    case (payment_captured p q r m now)
    have none: "settlers (ord_id r) d = {}" using unpaid [of r] payment_captured(3,5) by (simp add: applies_def)
    have "p \<notin> settlers (ord_id r) d" using none by simp
    then have "refunded (pay_id p) d = 0"
      using assms(2,5) payment_captured(2,4) same_key [of pay_id "payments d" _ p]
      by (intro unrefunded) (auto simp: settlers_def keys_ok_def)
    then show ?thesis
      using assms(2,3,6) old payment_captured settlers_captured [OF assms(2) payment_captured(2,4) none]
      unfolding payment_captured(1) moved_tables_commute
      by (intro refund_mark_paid [where r = r and d = d and p = "p\<lparr>pay_status := PAY_SUCCEEDED, pay_method := m\<rparr>"])
        (auto simp: keys_ids payments_ok_def)
  next
    case (refunded_part p y)
    have "x \<in> set (orders d)" using assms(6) refunded_part(1) by simp
    then show ?thesis using refund_mark_part [OF assms(2) refunded_part(2,4-6) old] refunded_part(1) by simp
  next
    case (refunded_fully p r q y now)
    have "settled_by (ord_status r) (settlers (ord_id r) d)"
      using assms(4) refunded_fully(4) by (auto simp: settled_ok_iff applies_def)
    moreover have "p \<in> settlers (ord_id r) d"
      using refunded_fully(2,3) by (simp add: settlers_def settles_def)
    ultimately have "settlers (ord_id r) d = {p}" by (auto simp: settled_by_def split: if_splits)
    then show ?thesis using refund_mark_full [OF assms(2) refunded_fully(4) _ refunded_fully(5,6,8) old]
      assms(6) unfolding refunded_fully(1) by simp
  qed
qed

lemma commit_refunds:
  assumes "commit d d'" "keys_ok d" "payments_ok d" "settled_ok d" "refunds_ok d"
  shows "refunds_ok d'"
  using commit_refund_rows [OF assms(1,2,5)] commit_refund_sums [OF assms(1,2,5)]
    commit_refund_marks [OF assms] by (simp add: refunds_ok_iff)

subsection \<open>The audit trail\<close>

lemma tells_move:
  "tells at hs s \<Longrightarrow> osh_fromStatus h = Some s \<Longrightarrow> isLegalTransition s (osh_toStatus h) \<Longrightarrow>
     tells at (hs @ [h]) (osh_toStatus h)"
  by (induction hs arbitrary: at) auto

lemma trail_append:
  "orderStatusHistory d' = orderStatusHistory d @ [h] \<Longrightarrow>
     trail i d' = trail i d @ (if osh_orderId h = i then [h] else [])"
  by (simp add: trail_def)

lemma trails_move:
  assumes "keys_ok d" "applies q r d" "trails_ok d" "isLegalTransition (tr_from q) (tr_to q)"
    and "orderStatusHistory d' = orderStatusHistory d @ [history_of now q]"
    and "set (orders d') = insert r' {x \<in> set (orders d). ord_id x \<noteq> ord_id r}"
    and "ord_id r' = ord_id r" "ord_status r' = tr_to q"
  shows "trails_ok d'"
proof -
  have h: "osh_orderId (history_of now q) = ord_id r" "osh_fromStatus (history_of now q) = Some (ord_status r)"
    "osh_toStatus (history_of now q) = tr_to q"
    using assms(2) by (simp_all add: history_of_def applies_def)
  have "tells None (trail (ord_id r) d) (ord_status r)"
    using assms(2,3) by (auto simp: trails_ok_def applies_def)
  then have "tells None (trail (ord_id r) d @ [history_of now q]) (tr_to q)"
    using tells_move [of None _ _ "history_of now q"] h assms(2,4) by (simp add: applies_def)
  moreover have "ord_id ` set (orders d') = ord_id ` set (orders d)"
    using assms(2,6,7) by (force simp: applies_def)
  ultimately show ?thesis
    using assms(3) h(1) assms(2)
    by (auto simp: trails_ok_def trail_append [OF assms(5)] assms(5-8) applies_def)
qed

lemma trails_same:
  "orders d' = orders d \<Longrightarrow> orderStatusHistory d' = orderStatusHistory d \<Longrightarrow> trails_ok d' \<longleftrightarrow> trails_ok d"
  by (simp add: trails_ok_def trail_def)

lemma trails_moved:
  assumes "keys_ok d" "applies q r d" "trails_ok d" "isLegalTransition (tr_from q) (tr_to q)"
    and "orders d' = orders (moved_tables now q d)"
    and "orderStatusHistory d' = orderStatusHistory d @ [history_of now q]"
  shows "trails_ok d'"
  by (rule trails_move [OF assms(1-4,6), where r' = "moved_order q r"])
    (simp_all add: assms(5) set_moved [OF assms(1,2)])

lemma opened_trail:
  assumes "trails_ok d" "ord_id r \<notin> ord_id ` set (orders d)" "osh_orderId h = ord_id r"
    and "osh_fromStatus h = None" "osh_toStatus h = ord_status r" "ord_status r \<in> {DRAFT, PENDING_PAYMENT}"
    and "orders d' = orders d @ [r]" "orderStatusHistory d' = orderStatusHistory d @ [h]"
  shows "trails_ok d'"
proof -
  have "trail (ord_id r) d = []"
    using assms(1,2) unfolding trail_def trails_ok_def filter_empty_conv by metis
  moreover have "ord_id x \<noteq> ord_id r" if "x \<in> set (orders d)" for x
    using assms(2) that by (metis image_eqI)
  ultimately show ?thesis
    using assms(1,3-6) by (auto simp: trails_ok_def trail_append [OF assms(8)] assms(7,8))
qed

lemma refund_is_legal:
  assumes "settled_ok d" "refunds_ok d" "r \<in> set (orders d)" "p \<in> set (payments d)" "settles p r"
    and "0 < a" "refunded (pay_id p) d + a = pay_amountMinor p"
  shows "isLegalTransition (ord_status r) REFUNDED"
proof -
  have "was_paid (ord_status r)" using assms(1,3,4,5) by (auto simp: settled_ok_def)
  moreover have "ord_status r \<noteq> REFUNDED"
    using assms by (auto simp: refunds_ok_def)
  ultimately show ?thesis by (cases "ord_status r") (auto simp: isLegalTransition_iff was_paid_def)
qed

lemma commit_trails:
  assumes "commit d d'" "keys_ok d" "settled_ok d" "refunds_ok d" "trails_ok d"
  shows "trails_ok d'"
  using assms(1)
proof (cases rule: commit.cases)
  case frame
  then show ?thesis using assms(5) trails_same [of d' d] by (simp add: same_ledger_def)
next
  case (order_opened r ls h)
  have "ord_status r \<in> {DRAFT, PENDING_PAYMENT}" using order_opened(2) by (auto simp: opens_def)
  then show ?thesis by (rule opened_trail [OF assms(5) order_opened(1,4-6) _ order_opened(7,9)])
next
  case (order_queued q r t now)
  show ?thesis
    by (rule trails_move [OF assms(2) order_queued(1) assms(5) _ order_queued(9)
          set_queued [OF assms(2) order_queued(1,5)]])
      (simp_all add: order_queued(2,3) isLegalTransition_iff)
next
  case (order_served q r now)
  show ?thesis using staff_is_legal [OF order_served(3)] order_served(1)
    by (intro trails_moved [OF assms(2) order_served(2) assms(5), of _ now]) (simp_all add: moved_tables_history)
next
  case (order_left q r g now)
  show ?thesis using order_left(1)
    by (intro trails_moved [OF assms(2) order_left(2) assms(5) order_left(3), of _ now])
      (simp_all add: moved_tables_history)
next
  case (payment_opened p r)
  then show ?thesis using assms(5) trails_same [of d' d] by simp
next
  case (cash_taken p r q now)
  show ?thesis using cash_taken(1,5,6)
    by (intro trails_moved [OF assms(2) cash_taken(4) assms(5), of _ now])
      (simp_all add: moved_tables_history isLegalTransition_iff moved_tables_orders)
next
  case (payment_captured p q r m now)
  show ?thesis using payment_captured(1,5,6)
    by (intro trails_moved [OF assms(2) payment_captured(3) assms(5), of _ now])
      (simp_all add: moved_tables_history isLegalTransition_iff)
next
  case (payment_ended g)
  then show ?thesis using assms(5) trails_same [of d' d] by simp
next
  case (refunded_part p x)
  then show ?thesis using assms(5) trails_same [of d' d] by simp
next
  case (refunded_fully p r q x now)
  have "isLegalTransition (tr_from q) (tr_to q)"
    using refund_is_legal [OF assms(3,4) _ refunded_fully(2,3,7,8)] refunded_fully(4,5)
    by (simp add: applies_def)
  then show ?thesis using refunded_fully(1)
    by (intro trails_moved [OF assms(2) refunded_fully(4) assms(5), of _ now])
      (simp_all add: moved_tables_history moved_tables_orders)
qed

subsection \<open>Queue numbers\<close>

definition numbered :: "string \<Rightarrow> order_row set \<Rightarrow> string set" where
  "numbered day R = {n. \<exists>r \<in> R. ord_businessDay r = day \<and> ord_number r = Some n}"

definition number_fits :: "order_row \<Rightarrow> bool" where
  "number_fits r \<longleftrightarrow> (ord_status r = DRAFT \<longrightarrow> ord_number r = None) \<and>
     (ord_number r = None \<longrightarrow> ord_status r \<in> {DRAFT, CANCELLED})"

lemma numbers_ok_iff:
  "numbers_ok d \<longleftrightarrow> (\<forall>r \<in> set (orders d). number_fits r) \<and>
     (\<forall>day. 0 \<le> last_number day d \<and>
        numbered day (set (orders d)) = formatOrderNumber ` {1..last_number day d}) \<and>
     (\<forall>r \<in> set (orders d). \<forall>r' \<in> set (orders d). ord_number r \<noteq> None \<longrightarrow> ord_number r = ord_number r' \<longrightarrow>
        ord_businessDay r = ord_businessDay r' \<longrightarrow> r = r')"
  by (auto simp: numbers_ok_def numbered_def number_fits_def)

lemma numbers_claim:
  assumes ok: "numbers_ok d" and day: "counted day d d'"
    and set': "set (orders d') = insert r' S" and S: "S \<subseteq> set (orders d)"
    and rest: "\<And>x. x \<in> set (orders d) \<Longrightarrow> x \<in> S \<or> ord_number x = None"
    and r': "ord_businessDay r' = day" "ord_status r' = PENDING_PAYMENT"
      "ord_number r' = Some (formatOrderNumber (last_number day d + 1))"
  shows "numbers_ok d'"
proof -
  have old: "numbered day' S = formatOrderNumber ` {1..last_number day' d}" "0 \<le> last_number day' d" for day'
  proof -
    have "numbered day' S = numbered day' (set (orders d))"
      using S rest by (fastforce simp: numbered_def)
    with ok show "numbered day' S = formatOrderNumber ` {1..last_number day' d}" "0 \<le> last_number day' d"
      by (simp_all add: numbers_ok_iff)
  qed
  have fresh: "formatOrderNumber (last_number day d + 1) \<notin> numbered day S"
    unfolding old(1) using old(2) [of day] by (auto simp: formatOrderNumber_inject)
  have "{1..last_number day d + 1} = insert (last_number day d + 1) {1..last_number day d}"
    using old(2) [of day] by auto
  moreover have "numbered day' (insert r' S) =
      (if day' = day then insert (formatOrderNumber (last_number day d + 1)) (numbered day S) else numbered day' S)" for day'
    using r' by (auto simp: numbered_def)
  ultimately have "0 \<le> last_number day' d' \<and>
      numbered day' (set (orders d')) = formatOrderNumber ` {1..last_number day' d'}" for day'
    using day old by (simp add: counted_def set')
  moreover have "number_fits r" if "r \<in> insert r' S" for r
    using that ok S r' by (auto simp: numbers_ok_iff number_fits_def)
  moreover have "x = y" if "x \<in> insert r' S" "y \<in> insert r' S" "ord_number x \<noteq> None"
    "ord_number x = ord_number y" "ord_businessDay x = ord_businessDay y" for x y
  proof (cases "x = r' \<or> y = r'")
    case True
    then show ?thesis using that fresh r' by (auto simp: numbered_def)
  next
    case False
    then have "x \<in> set (orders d)" "y \<in> set (orders d)" using that(1,2) S by auto
    then show ?thesis using ok that(3-) by (auto simp: numbers_ok_iff)
  qed
  ultimately show ?thesis unfolding numbers_ok_iff set' by blast
qed

lemma numbers_keep:
  assumes "numbers_ok d" "orderNumberCounters d' = orderNumberCounters d"
    and set': "set (orders d') = insert r' {x \<in> set (orders d). ord_id x \<noteq> ord_id r}"
    and r: "keys_ok d" "r \<in> set (orders d)" "ord_number r' = ord_number r" "ord_businessDay r' = ord_businessDay r"
    and "number_fits r'"
  shows "numbers_ok d'"
proof -
  have split: "set (orders d) = insert r {x \<in> set (orders d). ord_id x \<noteq> ord_id r}"
    using r(1,2) same_key [of ord_id "orders d" _ r] by (auto simp: keys_ok_def)
  have "numbered day (insert r' X) = numbered day (insert r X)" for day X
    using r(3,4) by (auto simp: numbered_def)
  then have "numbered day (set (orders d')) = numbered day (set (orders d))" for day
    using set' split by metis
  moreover have "last_number day d' = last_number day d" for day
    by (simp add: last_number_def assms(2))
  moreover have "x = y" if "x \<in> set (orders d')" "y \<in> set (orders d')" "ord_number x \<noteq> None"
    "ord_number x = ord_number y" "ord_businessDay x = ord_businessDay y" for x y
  proof -
    have uniq: "u = v" if "u \<in> set (orders d)" "v \<in> set (orders d)" "ord_number u \<noteq> None"
      "ord_number u = ord_number v" "ord_businessDay u = ord_businessDay v" for u v
      using assms(1) that by (simp add: numbers_ok_iff)
    have other: "z \<in> set (orders d) \<and> ord_id z \<noteq> ord_id r" if "z \<in> set (orders d')" "z \<noteq> r'" for z
      using that unfolding set' by simp
    consider "x = r'" "y = r'" | "x = r'" "y \<noteq> r'" | "x \<noteq> r'" "y = r'" | "x \<noteq> r'" "y \<noteq> r'" by blast
    then show ?thesis
    proof cases
      case 2
      then have "r = y" using that(2-) r(2-4) other [of y] by (intro uniq) simp_all
      then show ?thesis using 2 that(2) other [of y] by simp
    next
      case 3
      then have "x = r" using that(1,3-) r(2-4) other [of x] by (intro uniq) simp_all
      then show ?thesis using 3 that(1) other [of x] by simp
    next
      case 4
      then show ?thesis using that other [of x] other [of y] by (intro uniq) simp_all
    qed simp
  qed
  ultimately show ?thesis using assms(1,8) unfolding numbers_ok_iff by (auto simp: set')
qed

lemma numbers_moved:
  assumes "numbers_ok d" "keys_ok d" "applies q r d" "isLegalTransition (tr_from q) (tr_to q)"
    and "tr_to q \<noteq> PENDING_PAYMENT" "orderNumberCounters d' = orderNumberCounters d"
    and "orders d' = orders (moved_tables now q d)"
  shows "numbers_ok d'"
proof (rule numbers_keep [OF assms(1,6) _ assms(2)])
  show "set (orders d') = insert (moved_order q r) {x \<in> set (orders d). ord_id x \<noteq> ord_id r}"
    by (simp add: assms(7) set_moved [OF assms(2,3)])
  have "number_fits r" "r \<in> set (orders d)" using assms(1,3) by (auto simp: numbers_ok_iff applies_def)
  then show "r \<in> set (orders d)" by simp
  show "number_fits (moved_order q r)"
    using \<open>number_fits r\<close> assms(3-5)
    by (cases "tr_from q") (auto simp: number_fits_def applies_def isLegalTransition_iff)
qed simp_all

lemma numbers_same:
  "orders d' = orders d \<Longrightarrow> orderNumberCounters d' = orderNumberCounters d \<Longrightarrow> numbers_ok d' \<longleftrightarrow> numbers_ok d"
  by (simp add: numbers_ok_def last_number_def)

lemma numbers_opened:
  assumes "numbers_ok d" "ord_id r \<notin> ord_id ` set (orders d)" "opens r d d'" "orders d' = orders d @ [r]"
  shows "numbers_ok d'"
proof (cases "ord_status r = DRAFT")
  case True
  then have n: "ord_number r = None" "orderNumberCounters d' = orderNumberCounters d"
    using assms(3) by (auto simp: opens_def)
  have "numbered day (set (orders d')) = numbered day (set (orders d))" for day
    using n(1) by (auto simp: numbered_def assms(4))
  moreover have "last_number day d' = last_number day d" for day by (simp add: last_number_def n(2))
  ultimately show ?thesis
    using assms(1) True n(1) unfolding numbers_ok_iff by (auto simp: assms(4) number_fits_def)
next
  case False
  then show ?thesis using assms(3)
    by (intro numbers_claim [OF assms(1), where r' = r and S = "set (orders d)" and day = "ord_businessDay r"])
      (auto simp: opens_def assms(4))
qed

lemma commit_numbers:
  assumes "commit d d'" "keys_ok d" "settled_ok d" "refunds_ok d" "numbers_ok d"
  shows "numbers_ok d'"
  using assms(1)
proof (cases rule: commit.cases)
  case frame
  then show ?thesis using assms(5) numbers_same [of d' d] by (simp add: same_ledger_def)
next
  case (order_opened r ls h)
  show ?thesis by (rule numbers_opened [OF assms(5) order_opened(1,2,7)])
next
  case (order_queued q r t now)
  have "ord_number r = None" using assms(5) order_queued(1,2) by (auto simp: numbers_ok_def applies_def)
  then have rest: "x \<in> set (orders d) \<Longrightarrow> x \<in> {x \<in> set (orders d). ord_id x \<noteq> ord_id r} \<or> ord_number x = None" for x
    using assms(2) order_queued(1) same_key [of ord_id "orders d" x r] by (auto simp: keys_ok_def applies_def)
  show ?thesis
    by (rule numbers_claim [OF assms(5) order_queued(4) set_queued [OF assms(2) order_queued(1,5)] _ rest])
      (auto simp: order_queued(3))
next
  case (order_served q r now)
  show ?thesis using order_served(1,3) staff_is_legal [OF order_served(3)]
    by (intro numbers_moved [OF assms(5,2) order_served(2), where now = now])
      (auto simp: isStaffTransition_iff)
next
  case (order_left q r g now)
  show ?thesis using order_left(1,4)
    by (intro numbers_moved [OF assms(5,2) order_left(2,3), where now = now]) auto
next
  case (cash_taken p r q now)
  show ?thesis using cash_taken(1,5,6)
    by (intro numbers_moved [OF assms(5,2) cash_taken(4), where now = now])
      (simp_all add: isLegalTransition_iff moved_tables_orders)
next
  case (payment_captured p q r m now)
  show ?thesis using payment_captured(1,5,6)
    by (intro numbers_moved [OF assms(5,2) payment_captured(3), where now = now])
      (simp_all add: isLegalTransition_iff)
next
  case (refunded_fully p r q x now)
  have "isLegalTransition (tr_from q) (tr_to q)"
    using refund_is_legal [OF assms(3,4) _ refunded_fully(2,3,7,8)] refunded_fully(4,5)
    by (simp add: applies_def)
  then show ?thesis using refunded_fully(1,5)
    by (intro numbers_moved [OF assms(5,2) refunded_fully(4), where now = now])
      (simp_all add: moved_tables_orders)
qed (use assms(5) numbers_same [of d' d] in simp_all)

subsection \<open>Lines\<close>

lemma lines_kept:
  assumes "lines_ok d" "orderItems d' = orderItems d"
    and "\<And>r'. r' \<in> set (orders d') \<Longrightarrow> \<exists>r \<in> set (orders d). ord_id r' = ord_id r \<and>
      ord_totalMinor r' = ord_totalMinor r \<and> ord_subtotalMinor r' = ord_subtotalMinor r"
    and "ord_id ` set (orders d) \<subseteq> ord_id ` set (orders d')"
  shows "lines_ok d'"
proof -
  have "0 \<le> ord_totalMinor r' \<and> ord_subtotalMinor r' = ord_totalMinor r' \<and> lines_of (ord_id r') d' \<noteq> [] \<and>
      ord_totalMinor r' = sum_list (map oi_lineTotalMinor (lines_of (ord_id r') d'))"
    if "r' \<in> set (orders d')" for r'
    using assms(1) assms(3) [OF that] by (auto simp: lines_ok_def lines_of_def assms(2))
  then show ?thesis using assms(1,4) unfolding lines_ok_def assms(2) by blast
qed

lemma lines_opened:
  assumes "lines_ok d" "ord_id r \<notin> ord_id ` set (orders d)" "bills r ls"
    and "orders d' = orders d @ [r]" "orderItems d' = orderItems d @ ls"
  shows "lines_ok d'"
proof -
  have new: "lines_of (ord_id r) d = []"
    using assms(1,2) unfolding lines_of_def lines_ok_def filter_empty_conv by metis
  have "filter (\<lambda>l. oi_orderId l = ord_id r) ls = ls"
    using assms(3) by (simp add: bills_def filter_id_conv)
  then have "lines_of (ord_id r) d' = ls" using new by (simp add: lines_of_def assms(5))
  moreover have "lines_of (ord_id x) d' = lines_of (ord_id x) d" if "x \<in> set (orders d)" for x
  proof -
    have "ord_id x \<noteq> ord_id r" using assms(2) that by (metis image_eqI)
    then have "filter (\<lambda>l. oi_orderId l = ord_id x) ls = []"
      using assms(3) by (auto simp: bills_def filter_empty_conv)
    then show ?thesis by (simp add: lines_of_def assms(5))
  qed
  ultimately show ?thesis
    using assms(1,3) by (auto simp: lines_ok_def bills_def assms(4,5))
qed

lemma lines_replaced:
  assumes "lines_ok d" "orderItems d' = orderItems d" "r \<in> set (orders d)"
    and "set (orders d') = insert r' {x \<in> set (orders d). ord_id x \<noteq> ord_id r}"
    and "ord_id r' = ord_id r" "ord_totalMinor r' = ord_totalMinor r" "ord_subtotalMinor r' = ord_subtotalMinor r"
  shows "lines_ok d'"
proof (rule lines_kept [OF assms(1,2)])
  show "ord_id ` set (orders d) \<subseteq> ord_id ` set (orders d')" using assms(4,5) by force
qed (use assms(3-7) in auto)

lemma lines_moved:
  assumes "lines_ok d" "keys_ok d" "applies q r d" "orderItems d' = orderItems d"
    and "orders d' = orders (moved_tables now q d)"
  shows "lines_ok d'"
  by (rule lines_replaced [OF assms(1,4), of r "moved_order q r"])
    (use assms(3) in \<open>simp_all add: assms(5) set_moved [OF assms(2,3)] applies_def\<close>)

lemma lines_same:
  "orders d' = orders d \<Longrightarrow> orderItems d' = orderItems d \<Longrightarrow> lines_ok d' \<longleftrightarrow> lines_ok d"
  by (simp add: lines_ok_def lines_of_def)

lemma commit_lines:
  assumes "commit d d'" "keys_ok d" "lines_ok d"
  shows "lines_ok d'"
  using assms(1)
proof (cases rule: commit.cases)
  case frame
  then show ?thesis using assms(3) lines_same [of d' d] by (simp add: same_ledger_def)
next
  case (order_opened r ls h)
  show ?thesis by (rule lines_opened [OF assms(3) order_opened(1,3,7,8)])
next
  case (order_queued q r t now)
  show ?thesis
    by (rule lines_replaced [OF assms(3) order_queued(6) _ set_queued [OF assms(2) order_queued(1,5)]])
      (use order_queued(1) in \<open>simp_all add: applies_def\<close>)
next
  case (order_served q r now)
  then show ?thesis by (intro lines_moved [OF assms(3,2) order_served(2), where now = now]) simp_all
next
  case (order_left q r g now)
  then show ?thesis by (intro lines_moved [OF assms(3,2) order_left(2), where now = now]) simp_all
next
  case (cash_taken p r q now)
  then show ?thesis
    by (intro lines_moved [OF assms(3,2) cash_taken(4), where now = now]) (simp_all add: moved_tables_orders)
next
  case (payment_captured p q r m now)
  then show ?thesis by (intro lines_moved [OF assms(3,2) payment_captured(3), where now = now]) simp_all
next
  case (refunded_fully p r q x now)
  then show ?thesis
    by (intro lines_moved [OF assms(3,2) refunded_fully(4), where now = now]) (simp_all add: moved_tables_orders)
qed (use assms(3) lines_same [of d' d] in simp_all)

subsection \<open>The ledger\<close>

lemma commit_ledger:
  assumes "commit d d'" "ledger d"
  shows "ledger d'"
proof -
  have L: "keys_ok d" "payments_ok d" "settled_ok d" "one_live d" "refunds_ok d" "trails_ok d"
    "numbers_ok d" "expiry_ok d" "lines_ok d"
    using assms(2) by (simp_all add: ledger_def)
  show ?thesis unfolding ledger_def
    using commit_keys [OF assms(1) L(1)] commit_payments [OF assms(1) L(1,7,2)]
      commit_settled [OF assms(1) L(1-3)] commit_one_live [OF assms(1) L(1,4)]
      commit_refunds [OF assms(1) L(1-3,5)] commit_trails [OF assms(1) L(1,3,5,6)]
      commit_numbers [OF assms(1) L(1,3,5,7)] commit_expiry [OF assms(1) L(1,8)]
      commit_lines [OF assms(1) L(1,9)]
    by simp
qed

lemma commits_ledger: "commit\<^sup>*\<^sup>* d d' \<Longrightarrow> ledger d \<Longrightarrow> ledger d' \<and> grows d d'"
  by (induction rule: rtranclp_induct) (auto intro: commit_ledger grows_trans commit_grows)

lemma empty_ledger:
  "orders d = [] \<Longrightarrow> payments d = [] \<Longrightarrow> refunds d = [] \<Longrightarrow> orderStatusHistory d = [] \<Longrightarrow>
   orderItems d = [] \<Longrightarrow> orderNumberCounters d = [] \<Longrightarrow> ledger d"
  by (simp add: ledger_def keys_ok_def payments_ok_def settled_ok_def one_live_def refunds_ok_def
      trails_ok_def numbers_ok_def expiry_ok_def lines_ok_def last_number_def row_by_def sql_find_def)

end
