(* ===== verification/System.thy ===== *)
theory System
  imports Ledger
begin

text \<open>
  The whole system: every handler of the order and payment paths as a step, with anything else
  that may commit while it holds no transaction, and the proof that whatever they do together they
  do within \<open>commit\<close>. So the ledger holds after every run, however the handlers interleave.
\<close>

section \<open>Interference\<close>

text \<open>
  A state seen through \<open>view\<close>, an invariant of what is seen, and the steps that keep it. A
  function on the state is \<open>tame\<close> when, from a good state, it only ever makes such steps;
  the handlers are shown tame one after the other, each under the assumption that what happens in
  its gaps is.
\<close>

locale guarded_steps =
  fixes view :: "'w \<Rightarrow> 'd"
    and ok :: "'d \<Rightarrow> bool"
    and step :: "'d \<Rightarrow> 'd \<Rightarrow> bool"
  assumes step_ok: "step d d' \<Longrightarrow> ok d \<Longrightarrow> ok d'"
begin

definition reaches :: "'d \<Rightarrow> 'd \<Rightarrow> bool" where
  "reaches d d' \<longleftrightarrow> step\<^sup>*\<^sup>* d d'"

definition tame :: "('w \<Rightarrow> 'w) \<Rightarrow> bool" where
  "tame m \<longleftrightarrow> (\<forall>w. ok (view w) \<longrightarrow> reaches (view w) (view (m w)))"

lemma reaches_refl [simp]: "reaches d d"
  by (simp add: reaches_def)

lemma reaches_trans: "reaches d d' \<Longrightarrow> reaches d' d'' \<Longrightarrow> reaches d d''"
  by (simp add: reaches_def)

lemma reaches_step: "step d d' \<Longrightarrow> reaches d d'"
  by (simp add: reaches_def)

lemma reaches_ok: "reaches d d' \<Longrightarrow> ok d \<Longrightarrow> ok d'"
  unfolding reaches_def by (induction rule: rtranclp_induct) (auto intro: step_ok)

lemma tameD: "tame m \<Longrightarrow> ok (view w) \<Longrightarrow> reaches (view w) (view (m w)) \<and> ok (view (m w))"
  using reaches_ok by (auto simp: tame_def)

lemma tame_extends: "tame m \<Longrightarrow> ok d \<Longrightarrow> reaches d (view w) \<Longrightarrow> reaches d (view (m w))"
  using reaches_ok tameD reaches_trans by blast

lemma tame_after: "tame m \<Longrightarrow> ok (view w) \<Longrightarrow> (ok (view (m w)) \<Longrightarrow> reaches (view (m w)) d) \<Longrightarrow> reaches (view w) d"
  using tameD reaches_trans by blast

end

interpretation lg: guarded_steps tables ledger commit
  by unfold_locales (rule commit_ledger)

section \<open>The transactions\<close>

lemma frame_reaches: "same_ledger d d' \<Longrightarrow> lg.reaches d d'"
  by (intro lg.reaches_step commit.frame)

lemma reserve_reaches: "reserveKey k h t d = Inr d' \<Longrightarrow> lg.reaches d d'"
  by (auto simp: reserveKey_Inr same_ledger_def intro: frame_reaches)

lemma complete_reaches: "lg.reaches d (completeKey k st b d)"
  by (auto simp: same_ledger_def intro: frame_reaches)

lemma processed_reaches: "lg.reaches d (snd (markProcessed now i p d))"
  by (auto simp: markProcessed_def same_ledger_def split: prod.splits intro: frame_reaches)

lemma record_reaches: "lg.reaches d (snd (record_event now i ev d))"
  by (auto simp: record_event_def same_ledger_def split: option.splits intro: frame_reaches)

lemma ledger_ids [dest]: "ledger d \<Longrightarrow> distinct (map ord_id (orders d))"
  by (simp add: ledger_def keys_ok_def)

lemma transition_applies:
  assumes "transitionOrder now q d = Inr (u, d')" "ledger d"
  obtains r where "applies q r d" "u = moved_order q r" "d' = moved_tables now q d"
  using assms by (auto simp: transitionOrder_Inr ledger_ids applies_def dest: row_by_SomeD)

lemma status_work_reaches:
  assumes "status_transition_work now who i t d = Inr (u, d', evs)" "ledger d"
  shows "lg.reaches d d'"
proof -
  obtain r q where "row_by ord_id i (orders d) = Some r" "isStaffTransition (ord_status r) t"
    "tr_orderId q = i" "tr_from q = ord_status r" "tr_to q = t" "d' = moved_tables now q d"
    by (rule status_transition_work_Inr [OF ledger_ids [OF assms(2)] assms(1)])
  then show ?thesis
    by (auto simp: applies_def dest: row_by_SomeD intro!: lg.reaches_step commit.order_served [where r = r])
qed

text \<open>Checking a parked order out.\<close>

lemma checkout_work_reaches:
  assumes "checkout_work cfg now who i d = Inr (u, d')" "ledger d"
  shows "lg.reaches d d'"
proof -
  let ?q = "\<lparr>tr_orderId = i, tr_from = DRAFT, tr_to = PENDING_PAYMENT,
    tr_actorType = fst (actorOf who), tr_actorId = Some (snd (actorOf who)), tr_reason = None\<rparr>"
  obtain c up d1 num d2 where c: "row_by ord_id i (orders d) = Some c" "ord_status c = DRAFT"
    and t: "transitionOrder now ?q d = Inr (up, d1)"
    and n: "nextOrderNumber (ord_businessDay c) d1 = Inr (num, d2)"
    and d': "d' = d2\<lparr>orders := snd (sql_update (\<lambda>r. ord_id r = ord_id up)
      (queue_order num (expiry_instant cfg now)) (orders d2))\<rparr>"
    using assms(1)
    by (auto simp: checkout_work_def sum_bind_iffs split: option.splits if_splits list.splits prod.splits)
  obtain r where r: "applies ?q r d" "up = moved_order ?q r" "d1 = moved_tables now ?q d"
    by (rule transition_applies [OF t assms(2)])
  have "r = c"
    using row_by_mem [of ord_id "orders d" r] r(1) c(1) ledger_ids [OF assms(2)] by (simp add: applies_def)
  have last: "last_number day d1 = last_number day d" for day by (simp add: r(3) last_number_def)
  obtain cs where d2: "d2 = d1\<lparr>orderNumberCounters := cs\<rparr>" using nextOrderNumber_Inr(3) [OF n] by blast
  have num: "num = formatOrderNumber (last_number (ord_businessDay r) d + 1)"
    using nextOrderNumber_Inr(1) [OF n] last \<open>r = c\<close> by simp
  have "last_number day d' = last_number day d2" for day by (simp add: d' last_number_def)
  then have "counted (ord_businessDay r) d d'"
    using nextOrderNumber_Inr(2) [OF n] last \<open>r = c\<close> by (simp add: counted_def)
  then show ?thesis
    by (intro lg.reaches_step commit.order_queued [OF r(1), where now = now and t = "expiry_instant cfg now"])
      (simp_all add: d' d2 r(2,3) num moved_tables_history sql_update_table)
qed

text \<open>Cancelling and expiring.\<close>

lemma cancel_payment_change:
  "cancel_payment i d = (b, d') \<Longrightarrow> \<exists>g. unsettled_change [PAY_CANCELLED] g d \<and> d' = d\<lparr>payments := map g (payments d)\<rparr>"
  by (auto simp: cancel_payment_def sql_update_def unsettled_change_def
      intro!: exI [of _ "\<lambda>p. if pay_id p = i \<and> pay_status p \<noteq> PAY_SUCCEEDED then p\<lparr>pay_status := PAY_CANCELLED\<rparr> else p"])

lemma left_commit:
  assumes "applies q r d" "isLegalTransition (tr_from q) (tr_to q)" "tr_to q \<in> {CANCELLED, EXPIRED}"
  shows "commit d (moved_tables now q d)"
proof -
  have "commit d ((moved_tables now q d)\<lparr>payments := map id (payments d)\<rparr>)"
    by (rule commit.order_left [OF assms]) (simp add: unsettled_change_def)
  moreover have "(moved_tables now q d)\<lparr>payments := map id (payments d)\<rparr> = moved_tables now q d"
    by (simp add: moved_tables_def append_history_def)
  ultimately show ?thesis by (simp only:)
qed

lemma cancel_work_reaches:
  assumes "cancel_work now who i reason source live d = Inr (u, d', evs)" "ledger d"
    and "source \<in> {DRAFT, PENDING_PAYMENT}"
  shows "lg.reaches d d'"
proof -
  let ?q = "\<lparr>tr_orderId = i, tr_from = source, tr_to = CANCELLED,
    tr_actorType = fst (actorOf who), tr_actorId = Some (snd (actorOf who)), tr_reason = reason\<rparr>"
  obtain up d1 where t: "transitionOrder now ?q d = Inr (up, d1)"
    and d': "d' = snd (case live of None \<Rightarrow> (False, d1) | Some p \<Rightarrow> cancel_payment (pay_id p) d1)"
    using assms(1) by (cases live) (auto simp: cancel_work_def sum_bind_iffs Let_def case_prod_unfold)
  obtain r where r: "applies ?q r d" "d1 = moved_tables now ?q d"
    by (rule transition_applies [OF t assms(2)])
  have legal: "isLegalTransition (tr_from ?q) (tr_to ?q)" using assms(3) by (auto simp: isLegalTransition_iff)
  show ?thesis
  proof (cases live)
    case None
    then show ?thesis using left_commit [OF r(1) legal] by (simp add: d' r(2) lg.reaches_step)
  next
    case (Some p)
    obtain g where "unsettled_change [PAY_CANCELLED] g d1" "d' = d1\<lparr>payments := map g (payments d1)\<rparr>"
      using Some d' cancel_payment_change [of "pay_id p" d1] by (cases "cancel_payment (pay_id p) d1") auto
    then show ?thesis
      using commit.order_left [OF r(1) legal, where g = g and now = now]
      by (simp add: r(2) unsettled_change_def lg.reaches_step)
  qed
qed

lemma expire_work_reaches:
  assumes "expire_work now i live d = Inr (u, d')" "ledger d"
    and "\<And>p x. live = Some p \<Longrightarrow> x \<in> set (payments d) \<Longrightarrow> pay_id x = pay_id p \<Longrightarrow> pay_orderId x = i"
  shows "lg.reaches d d'"
proof -
  let ?q = "\<lparr>tr_orderId = i, tr_from = PENDING_PAYMENT, tr_to = EXPIRED,
    tr_actorType = SYSTEM, tr_actorId = None, tr_reason = None\<rparr>"
  obtain up d1 where t: "transitionOrder now ?q d = Inr (up, d1)"
    and d': "d' = (case live of None \<Rightarrow> d1 | Some p \<Rightarrow> d1\<lparr>payments := snd (sql_update
      (\<lambda>q. pay_id q = pay_id p) (\<lambda>q. q\<lparr>pay_status := PAY_CANCELLED\<rparr>) (payments d1))\<rparr>)"
    using assms(1) by (auto simp: expire_work_def sum_bind_iffs)
  obtain r where r: "applies ?q r d" "d1 = moved_tables now ?q d"
    by (rule transition_applies [OF t assms(2)])
  have legal: "isLegalTransition (tr_from ?q) (tr_to ?q)" by (simp add: isLegalTransition_iff)
  show ?thesis
  proof (cases live)
    case None
    then show ?thesis using left_commit [OF r(1) legal] by (simp add: d' r(2) lg.reaches_step)
  next
    case (Some p)
    let ?g = "\<lambda>x. if pay_id x = pay_id p then x\<lparr>pay_status := PAY_CANCELLED\<rparr> else x"
    have "pay_status x \<noteq> PAY_SUCCEEDED" if "x \<in> set (payments d)" "pay_id x = pay_id p" for x
      using assms(2) assms(3) [OF Some that] r(1) that
      by (auto simp: ledger_def settled_ok_def settles_def applies_def)
    then have "unsettled_change [PAY_CANCELLED] ?g d" by (simp add: unsettled_change_def)
    then show ?thesis
      using commit.order_left [OF r(1) legal, where g = ?g and now = now]
      by (simp add: d' Some r(2) sql_update_table lg.reaches_step)
  qed
qed

text \<open>The gateway's events.\<close>

lemma mark_payment_reaches:
  assumes "mark_payment_work now e i st d = Inr (b, d', evs)" "st \<in> {PAY_FAILED, PAY_CANCELLED}"
  shows "lg.reaches d d'"
proof -
  let ?g = "\<lambda>p. if pay_id p = i \<and> \<not> List.member SETTLED (pay_status p) then p\<lparr>pay_status := st\<rparr> else p"
  have "d' = snd (markProcessed now e (Some i) (d\<lparr>payments := map ?g (payments d)\<rparr>))"
    using assms(1) by (auto simp: mark_payment_work_def sql_update_def Let_def case_prod_unfold)
  moreover have "unsettled_change [PAY_FAILED, PAY_CANCELLED] ?g d"
    using assms(2) by (auto simp: unsettled_change_def SETTLED_def)
  then have "lg.reaches d (d\<lparr>payments := map ?g (payments d)\<rparr>)"
    by (intro lg.reaches_step commit.payment_ended)
  ultimately show ?thesis using processed_reaches lg.reaches_trans by blast
qed

lemma mark_paid_reaches:
  assumes "mark_paid_work now e (pay_id p) i method d = Inr (u, d', evs)" "ledger d"
    and "p \<in> set (payments d)" "pay_orderId p = i"
  shows "lg.reaches d d'"
proof -
  let ?q = "\<lparr>tr_orderId = i, tr_from = PENDING_PAYMENT, tr_to = PAID,
    tr_actorType = SYSTEM, tr_actorId = None, tr_reason = None\<rparr>"
  let ?m = "case method of None \<Rightarrow> pay_method p | Some m \<Rightarrow> Some m"
  let ?f = "\<lambda>x. x\<lparr>pay_status := PAY_SUCCEEDED, pay_method := (case method of None \<Rightarrow> pay_method x | Some m \<Rightarrow> Some m)\<rparr>"
  obtain up d1 where t: "transitionOrder now ?q d = Inr (up, d1)"
    and d': "d' = snd (markProcessed now e (Some (pay_id p)) (on_payment (pay_id p) ?f d1))"
    using assms(1)
    by (auto simp: mark_paid_work_def sum_bind_iffs Let_def case_prod_unfold sql_update_table on_payment_def)
  obtain r where r: "applies ?q r d" "d1 = moved_tables now ?q d"
    by (rule transition_applies [OF t assms(2)])
  have "(if pay_id x = pay_id p then ?f x else x) =
      (if pay_id x = pay_id p then x\<lparr>pay_status := PAY_SUCCEEDED, pay_method := ?m\<rparr> else x)"
    if "x \<in> set (payments d)" for x
    using same_key [of pay_id "payments d" x p] that assms(2,3) by (auto simp: ledger_def keys_ok_def)
  then have "map (\<lambda>x. if pay_id x = pay_id p then ?f x else x) (payments d) =
      map (\<lambda>x. if pay_id x = pay_id p then x\<lparr>pay_status := PAY_SUCCEEDED, pay_method := ?m\<rparr> else x) (payments d)"
    by (intro map_cong refl)
  then have "on_payment (pay_id p) ?f d1 =
      on_payment (pay_id p) (\<lambda>x. x\<lparr>pay_status := PAY_SUCCEEDED, pay_method := ?m\<rparr>) d1"
    unfolding on_payment_def r(2) moved_tables_frame by (simp only:)
  moreover have "commit d (on_payment (pay_id p) (\<lambda>x. x\<lparr>pay_status := PAY_SUCCEEDED, pay_method := ?m\<rparr>) d1)"
    unfolding r(2) using r(1) assms(3,4)
    by (intro commit.payment_captured [where r = r]) (simp_all add: applies_def)
  ultimately have "lg.reaches d (on_payment (pay_id p) ?f d1)" by (simp only: lg.reaches_step)
  then show ?thesis unfolding d' by (rule lg.reaches_trans) (rule processed_reaches)
qed

text \<open>Taking money and giving it back.\<close>

lemma insertPayment_Inr:
  assumes "insertPayment row d = Inr (i, d')"
  shows "i = pay_id row" and "d' = d\<lparr>payments := payments d @ [row]\<rparr>" and "0 < pay_amountMinor row"
    and "\<And>x. x \<in> set (payments d) \<Longrightarrow> \<not> payment_conflicts x row"
  using assms by (auto simp: insertPayment_def insert_payment_row_Inr split: sum.splits if_splits)

lemma inserted_pays_for:
  assumes "insertPayment row d = Inr (i, d')" "r' \<in> set (orders d)" "order_kept r r'"
    and "pay_orderId row = ord_id r" "pay_amountMinor row = ord_totalMinor r" "pay_currency row = ord_currency r"
  shows "pays_for row r' d"
proof -
  have "pay_id row \<notin> pay_id ` set (payments d)"
    using insertPayment_Inr(4) [OF assms(1)] by (force simp: payment_conflicts_def)
  then show ?thesis
    using insertPayment_Inr(3) [OF assms(1)] assms(2-) by (simp add: pays_for_def order_kept_def)
qed

lemma gateway_work_reaches:
  assumes "gateway_work now new r intent key d = Inr (v, d', evs)" "r' \<in> set (orders d)" "order_kept r r'"
  shows "lg.reaches d d'"
proof -
  let ?p = "gateway_row now new r (int_intentId intent) key"
  obtain i where i: "insertPayment ?p d = Inr (i, d')"
    using assms(1) by (auto simp: gateway_work_def sum_bind_iffs)
  have "pays_for ?p r' d"
    by (rule inserted_pays_for [OF i assms(2,3)]) (simp_all add: gateway_row_def)
  moreover have "\<not> live_status (pay_status x)" if "x \<in> set (payments d)" "pay_orderId x = pay_orderId ?p" for x
    using insertPayment_Inr(4) [OF i that(1)] that(2) by (auto simp: payment_conflicts_def gateway_row_def)
  ultimately show ?thesis unfolding insertPayment_Inr(2) [OF i]
    by (intro lg.reaches_step commit.payment_opened) (simp_all add: gateway_row_def)
qed

lemma cash_work_reaches:
  assumes "cash_work now new user r tendered key d = Inr (v, d', evs)" "ledger d"
    and "r' \<in> set (orders d)" "order_kept r r'"
  shows "lg.reaches d d'"
proof -
  let ?p = "cash_row now new r tendered key"
  let ?q = "\<lparr>tr_orderId = ord_id r, tr_from = PENDING_PAYMENT, tr_to = PAID,
    tr_actorType = USER, tr_actorId = Some user, tr_reason = None\<rparr>"
  obtain i d1 up where i: "insertPayment ?p d = Inr (i, d1)" and t: "transitionOrder now ?q d1 = Inr (up, d')"
    using assms(1) by (auto simp: cash_work_def sum_bind_iffs)
  have d1: "d1 = d\<lparr>payments := payments d @ [?p]\<rparr>" by (rule insertPayment_Inr(2) [OF i])
  have pf: "pays_for ?p r' d"
    by (rule inserted_pays_for [OF i assms(3,4)]) (simp_all add: cash_row_def)
  have "distinct (map ord_id (orders d1))" using ledger_ids [OF assms(2)] by (simp add: d1)
  then obtain r0 where r0: "row_by ord_id (ord_id r) (orders d) = Some r0" "ord_status r0 = PENDING_PAYMENT"
    and d': "d' = moved_tables now ?q d1"
    using t by (auto simp: transitionOrder_Inr d1)
  have "r0 = r'"
    using row_by_mem [OF ledger_ids [OF assms(2)] assms(3)] r0(1) assms(4) by (simp add: order_kept_def)
  then have "applies ?q r' d" using r0 assms(3,4) by (simp add: applies_def order_kept_def)
  then show ?thesis unfolding d' d1 using pf
    by (intro lg.reaches_step commit.cash_taken) (simp_all add: cash_row_def)
qed

lemma refund_work_reaches:
  assumes "refund_work now new user p r input d = Inr (v, d', evs)" "ledger d"
    and "p' \<in> set (payments d)" "payment_kept p p'" "pay_status p = PAY_SUCCEEDED" "ord_id r = pay_orderId p"
  shows "lg.reaches d d'"
proof -
  let ?x = "refund_row_of new user (pay_id p) input"
  let ?q = "\<lparr>tr_orderId = ord_id r, tr_from = ord_status r, tr_to = REFUNDED,
    tr_actorType = USER, tr_actorId = Some user, tr_reason = Some (ri_reason input)\<rparr>"
  let ?full = "refunded (pay_id p) d + ri_amountMinor input = pay_amountMinor p"
  obtain d1 where d1: "insert_refund_row ?x d = Inr d1"
    and le: "refunded (pay_id p) d + ri_amountMinor input \<le> pay_amountMinor p"
    and d': "if ?full then \<exists>up. transitionOrder now ?q d1 = Inr (up, d') else d' = d1"
    using assms(1) by (auto simp: refund_work_def Let_def sum_bind_iffs split: if_splits)
  have ins: "0 < ref_amountMinor ?x" "d1 = d\<lparr>refunds := refunds d @ [?x]\<rparr>"
    using d1 by (simp_all add: insert_refund_row_Inr)
  have x: "ref_paymentId ?x = pay_id p'" "ref_amountMinor ?x = ri_amountMinor input"
    using assms(4) by (simp_all add: refund_row_of_def payment_kept_def)
  have p': "pay_status p' = PAY_SUCCEEDED" "pay_amountMinor p' = pay_amountMinor p" "pay_id p' = pay_id p"
    "pay_orderId p' = pay_orderId p"
    using assms(4,5) by (simp_all add: payment_kept_def)
  show ?thesis
  proof (cases ?full)
    case True
    then obtain up where t: "transitionOrder now ?q d1 = Inr (up, d')" using d' by auto
    have "distinct (map ord_id (orders d1))" using ledger_ids [OF assms(2)] by (simp add: ins)
    then obtain r0 where "row_by ord_id (ord_id r) (orders d) = Some r0" "ord_status r0 = ord_status r"
      and e: "d' = moved_tables now ?q d1"
      using t by (auto simp: transitionOrder_Inr ins)
    then have "applies ?q r0 d" "settles p' r0"
      using row_by_SomeD [of ord_id "ord_id r" "orders d" r0] p' assms(6) by (auto simp: applies_def settles_def)
    then show ?thesis unfolding e ins(2) using True p' x ins(1) assms(3)
      by (intro lg.reaches_step commit.refunded_fully [where p = p' and r = r0]) simp_all
  next
    case False
    then show ?thesis using d' le p' x ins assms(3)
      by (auto intro!: lg.reaches_step commit.refunded_part [where p = p'])
  qed
qed

text \<open>Creating an order.\<close>

lemma insert_order_items_quantities:
  "insert_order_items rs d = Inr d' \<Longrightarrow> r \<in> set rs \<Longrightarrow> 1 \<le> oi_quantity r"
  by (induction rs arbitrary: d) (auto split: if_splits option.splits)

lemma map_indexed:
  assumes "\<And>i x. f (g i x) = h x"
  shows "map f (indexed g xs) = map h xs"
proof -
  have "map f (indexed g xs) = map h (map snd (zip [0..<length xs] xs))"
    using assms unfolding indexed_def map_map by (simp add: comp_def case_prod_unfold)
  also have "map snd (zip [0..<length xs] xs) = xs" by (rule map_snd_zip) simp
  finally show ?thesis .
qed

lemma set_indexed: "y \<in> set (indexed g xs) \<Longrightarrow> \<exists>i. \<exists>x \<in> set xs. y = g i x"
  by (force simp: indexed_def dest: set_zip_rightD)

lemma priceOrder_money:
  assumes "priceOrder rqs c vat = Inr p"
  shows "pr_totalMinor p = pr_subtotalMinor p" "pr_subtotalMinor p = sum_list (map pl_lineTotalMinor (pr_lines p))"
    and "l \<in> set (pr_lines p) \<Longrightarrow> 0 \<le> pl_unitPriceMinorSnapshot l \<and>
      pl_lineTotalMinor l = pl_unitPriceMinorSnapshot l * pl_quantity l"
proof -
  obtain ls where ls: "sum_map_list priceLine (map (resolveLine c) rqs) = Inr ls" "pr_lines p = ls"
    "pr_subtotalMinor p = sum_list (map pl_lineTotalMinor ls)" "pr_totalMinor p = pr_subtotalMinor p"
    using assms by (auto simp: priceOrder_def Let_def sum_bind_iffs split: if_splits)
  then show "pr_totalMinor p = pr_subtotalMinor p" "pr_subtotalMinor p = sum_list (map pl_lineTotalMinor (pr_lines p))"
    by simp_all
  assume "l \<in> set (pr_lines p)"
  then obtain x where "priceLine x = Inr l"
    using ls(1,2) by (auto simp: sum_map_list_Inr list_all2_conv_all_nth in_set_conv_nth)
  then show "0 \<le> pl_unitPriceMinorSnapshot l \<and>
      pl_lineTotalMinor l = pl_unitPriceMinorSnapshot l * pl_quantity l"
    by (auto simp: priceLine_def Let_def split: option.splits)
qed

lemma claim_number_Inr:
  assumes "claim_number s day d = Inr (num, d')"
  shows "\<exists>cs. d' = d\<lparr>orderNumberCounters := cs\<rparr>"
    and "if s = DRAFT then num = None \<and> d' = d
         else num = Some (formatOrderNumber (last_number day d + 1)) \<and> counted day d d'"
proof -
  consider "s = DRAFT" "num = None" "d' = d"
    | n where "s \<noteq> DRAFT" "nextOrderNumber day d = Inr (n, d')" "num = Some n"
    using assms by (auto simp: claim_number_def sum_bind_iffs split: if_splits)
  then have "(\<exists>cs. d' = d\<lparr>orderNumberCounters := cs\<rparr>) \<and> (if s = DRAFT then num = None \<and> d' = d
         else num = Some (formatOrderNumber (last_number day d + 1)) \<and> counted day d d')"
  proof cases
    case 1
    then show ?thesis by (auto intro: exI [of _ "orderNumberCounters d"])
  next
    case 2
    then show ?thesis using nextOrderNumber_Inr [OF 2(2)] by (simp add: counted_def)
  qed
  then show "\<exists>cs. d' = d\<lparr>orderNumberCounters := cs\<rparr>" and "if s = DRAFT then num = None \<and> d' = d
         else num = Some (formatOrderNumber (last_number day d + 1)) \<and> counted day d d'" by blast+
qed

lemma persist_reaches:
  assumes "persist offset cfg now fresh who ch input priced d = Inr (v, d')"
    and "priceOrder rqs c vat = Inr priced"
  shows "lg.reaches d d'"
proof -
  let ?day = "today_of offset cfg now" and ?s = "opening_status input"
  let ?ls = "indexed (line_row fresh) (pr_lines priced)"
  obtain num d1 d2 d3 d4 where n: "claim_number ?s ?day d = Inr (num, d1)"
    and o: "insert_order (new_order cfg now fresh ?day num who ch input priced) d1 = Inr d2"
    and ne: "pr_lines priced \<noteq> []" and i: "insert_order_items ?ls d2 = Inr d3"
    and op: "insert_option_rows (concat (indexed (option_rows fresh) (pr_lines priced))) d3 = Inr d4"
    and d': "d' = append_history (opening_history now (fr_orderId fresh) ?s who) d4"
    using assms(1) by (auto simp: persist_def Let_def sum_bind_iffs new_order_def)
  let ?r = "new_order cfg now fresh ?day num who ch input priced"
  obtain cs where d1: "d1 = d\<lparr>orderNumberCounters := cs\<rparr>" using claim_number_Inr(1) [OF n] by blast
  have d2: "d2 = d1\<lparr>orders := orders d1 @ [?r]\<rparr>" and fresh: "\<forall>x \<in> set (orders d1). \<not> order_conflicts x ?r"
    using o by (simp_all add: insert_order_Inr)
  have d3: "d3 = d2\<lparr>orderItems := orderItems d2 @ ?ls\<rparr>" by (rule insert_order_items_Inr [OF i])
  have d4: "d4 = d3\<lparr>orderItemOptions := orderItemOptions d4\<rparr>"
    using op by (auto simp: insert_option_rows_def split: if_splits)
  have tabs: "orders d' = orders d @ [?r]" "orderItems d' = orderItems d @ ?ls" "payments d' = payments d"
    "refunds d' = refunds d" "orderNumberCounters d' = orderNumberCounters d1"
    "orderStatusHistory d' = orderStatusHistory d @ [opening_history now (fr_orderId fresh) ?s who]"
    unfolding d' by (subst d4, simp add: d3 d2 d1 append_history_def)+
  have "ord_id ?r \<notin> ord_id ` set (orders d)" using fresh by (force simp: order_conflicts_def d1)
  moreover have "opens ?r d d'"
  proof -
    have "last_number day d' = last_number day d1" for day by (simp add: last_number_def tabs(5))
    then have "counted ?day d d' \<longleftrightarrow> counted ?day d d1" by (simp add: counted_def)
    then show ?thesis
      using claim_number_Inr(2) [OF n] tabs(5)
      by (auto simp: opens_def new_order_def opening_status_def split: if_splits)
  qed
  moreover have "bills ?r ?ls"
  proof -
    have q: "0 \<le> oi_lineTotalMinor l \<and> oi_orderId l = ord_id ?r \<and> 0 \<le> oi_unitPriceMinorSnapshot l \<and>
        oi_lineTotalMinor l = oi_unitPriceMinorSnapshot l * oi_quantity l" if "l \<in> set ?ls" for l
      using insert_order_items_quantities [OF i that] set_indexed [OF that] priceOrder_money(3) [OF assms(2)]
      by (auto simp: line_row_def new_order_def)
    have "map oi_lineTotalMinor ?ls = map pl_lineTotalMinor (pr_lines priced)"
      by (rule map_indexed) (simp add: line_row_def)
    moreover have "0 \<le> sum_list (map oi_lineTotalMinor ?ls)" 
      using q by (intro sum_list_nonneg) (metis (mono_tags, lifting) imageE list.set_map)
    ultimately show ?thesis
      using q ne priceOrder_money(1,2) [OF assms(2)] by (auto simp: bills_def new_order_def indexed_def)
  qed
  ultimately show ?thesis using tabs
    by (intro lg.reaches_step commit.order_opened [of ?r d d' ?ls]) 
      (simp_all add: opening_history_def new_order_def)
qed

lemma build_reaches: "build offset cfg now fresh who input d = Inr (v, d') \<Longrightarrow> lg.reaches d d'"
  by (auto simp: build_def sum_bind_iffs split: option.splits if_splits intro: persist_reaches)

lemma create_work_reaches:
  assumes "create_work offset cfg now fresh who input keyed d = Inr (v, d')"
  shows "lg.reaches d d'"
proof (cases keyed)
  case None
  then show ?thesis using assms build_reaches by (auto simp: create_work_def)
next
  case (Some kh)
  then obtain k h d1 d2 where "reserveKey k h (keyExpiry now) d = Inr d1"
    "build offset cfg now fresh who input d1 = Inr (v, d2)" "d' = completeKey k 201 (OrderBody v) d2"
    using assms by (cases kh) (auto simp: create_work_def sum_bind_iffs)
  then show ?thesis
    using reserve_reaches build_reaches complete_reaches lg.reaches_trans by metis
qed

section \<open>The handlers\<close>

lemma db_transaction_reaches:
  assumes "\<And>x d'. work (tables w) = Inr (x, d') \<Longrightarrow> lg.reaches (tables w) d'"
  shows "lg.reaches (tables w) (tables (snd (db_transaction work w)))"
  using assms by (auto simp: db_transaction_def split: sum.splits)

lemma afterCommit_reaches:
  assumes "\<And>x d' evs. work (tables w) = Inr (x, d', evs) \<Longrightarrow> lg.reaches (tables w) d'"
  shows "lg.reaches (tables w) (tables (snd (afterCommit_run publish work w)))"
  using assms by (auto simp: afterCommit_tables split: sum.splits)

lemma status_transition_tame: "lg.tame (\<lambda>w. snd (status_transition publish now who i t w))"
  unfolding lg.tame_def status_transition_def
  by (auto intro!: afterCommit_reaches intro: status_work_reaches)

lemma checkout_tame: "lg.tame (\<lambda>w. snd (checkout cfg now who i w))"
  unfolding lg.tame_def checkout_def
  by (auto intro!: db_transaction_reaches intro: checkout_work_reaches)

lemma create_tame:
  assumes "lg.tame meanwhile"
  shows "lg.tame (\<lambda>w. snd (create sha offset cfg meanwhile now fresh who input key w))"
  unfolding lg.tame_def
proof (intro allI impI)
  fix w :: "'a app" assume ok: "ledger (tables w)"
  define keyed where "keyed = map_option (\<lambda>k. (k, hashRequest sha (scopeOf who) (input_json input))) key"
  obtain res w' where t: "db_transaction (create_work offset cfg now fresh who input keyed) w = (res, w')"
    by fastforce
  have r: "lg.reaches (tables w) (tables w')"
    using db_transaction_reaches [of "create_work offset cfg now fresh who input keyed" w] t create_work_reaches
    by (metis snd_conv)
  have "snd (create sha offset cfg meanwhile now fresh who input key w) \<in>
      {w', meanwhile w'} \<union> {count_metric m w' |m. True}"
    using t by (auto simp: create_def keyed_def [symmetric] Let_def split: sum.splits option.splits)
  then consider "tables (snd (create sha offset cfg meanwhile now fresh who input key w)) = tables w'"
    | "snd (create sha offset cfg meanwhile now fresh who input key w) = meanwhile w'"
    by auto
  then show "lg.reaches (tables w) (tables (snd (create sha offset cfg meanwhile now fresh who input key w)))"
  proof cases
    case 1
    then show ?thesis using r by simp
  next
    case 2
    have "lg.reaches (tables w') (tables (meanwhile w'))"
      using lg.tameD [OF assms lg.reaches_ok [OF r ok]] by simp
    then show ?thesis using r 2 lg.reaches_trans by simp
  qed
qed


subsection \<open>Handlers that wait between their reads and their writes\<close>

lemma gap:
  assumes "lg.tame g" "ledger (tables w)"
  shows "lg.reaches (tables w) (tables (g w))" "ledger (tables (g w))" "grows (tables w) (tables (g w))"
  using lg.tameD [OF assms] commits_ledger assms(2) by (auto simp: lg.reaches_def)

lemma gap_then:
  assumes "lg.tame g" "ledger (tables w)"
    and "ledger (tables (g w)) \<Longrightarrow> grows (tables w) (tables (g w)) \<Longrightarrow> lg.reaches (tables (g w)) d"
  shows "lg.reaches (tables w) d"
  using assms(3) gap [OF assms(1,2)] lg.reaches_trans by blast

lemma cancel_tame:
  assumes "\<And>n. lg.tame (gaps n)"
  shows "lg.tame (\<lambda>w. snd (cancel provider publish gaps now who i reason w))"
  unfolding lg.tame_def
proof (intro allI impI)
  fix w :: "('a, 'b) world" assume ok: "ledger (tables w)"
  define out where "out = tables (snd (cancel provider publish gaps now who i reason w))"
  show "lg.reaches (tables w) (tables (snd (cancel provider publish gaps now who i reason w)))"
  proof (cases "cancel_precheck who i (tables w)")
    case (Inl e)
    then show ?thesis by (simp add: cancel_def)
  next
    case (Inr source)
    then have source: "source \<in> {DRAFT, PENDING_PAYMENT}"
      by (auto simp: cancel_precheck_def CANCELLABLE_def split: option.splits if_splits)
    let ?w1 = "gaps 0 w"
    let ?live = "live_payment i (tables ?w1)"
    have "lg.reaches (tables ?w1) out" if "ledger (tables ?w1)"
    proof (cases "cancel_at_gateway provider ?live")
      case (Inl e)
      then show ?thesis using Inr by (simp add: out_def cancel_def)
    next
      case (Inr u)
      let ?run = "afterCommit_run publish (cancel_work now who i reason source ?live) (gaps 1 ?w1)"
      have "out = tables (snd ?run)"
        using Inr \<open>cancel_precheck who i (tables w) = _\<close>
        by (auto simp: out_def cancel_def Let_def split: prod.splits sum.splits)
      then show ?thesis
        using source by (auto intro!: gap_then [OF assms that] afterCommit_reaches intro: cancel_work_reaches)
    qed
    then show ?thesis unfolding out_def [symmetric] by (rule gap_then [OF assms ok])
  qed
qed

lemma live_payment_SomeD:
  "live_payment i d = Some p \<Longrightarrow> p \<in> set (payments d) \<and> pay_orderId p = i \<and> live_status (pay_status p)"
  by (auto simp: live_payment_def sql_find_def find_Some_iff)

lemma grown_payment:
  assumes "grows d d'" "ledger d'" "p \<in> set (payments d)" "x \<in> set (payments d')" "pay_id x = pay_id p"
  shows "payment_kept p x"
proof -
  obtain p' where p': "p' \<in> set (payments d')" "payment_kept p p'" using assms(1,3) by (auto simp: grows_def)
  then have "pay_id p' = pay_id x" using assms(5) by (simp add: payment_kept_def)
  then have "p' = x" using same_key [of pay_id "payments d'" p' x] assms(2,4) p'(1)
    by (simp add: ledger_def keys_ok_def)
  then show ?thesis using p'(2) by simp
qed

lemma grown_order:
  assumes "grows d d'" "r \<in> set (orders d)"
  obtains r' where "r' \<in> set (orders d')" "order_kept r r'"
  using assms by (auto simp: grows_def)

lemma expireOne_tame:
  assumes "\<And>n. lg.tame (gaps n)"
  shows "lg.tame (\<lambda>w. snd (expireOne provider gaps now i w))"
  unfolding lg.tame_def
proof (intro allI impI)
  fix w :: "('a, 'b) world" assume ok: "ledger (tables w)"
  let ?live = "live_payment i (tables w)"
  let ?run = "db_transaction (expire_work now i ?live) (gaps 0 w)"
  have live: "lg.reaches (tables (gaps 0 w)) (tables (snd ?run))"
    if "ledger (tables (gaps 0 w))" "grows (tables w) (tables (gaps 0 w))"
  proof (rule db_transaction_reaches)
    fix u d' assume "expire_work now i ?live (tables (gaps 0 w)) = Inr (u, d')"
    then show "lg.reaches (tables (gaps 0 w)) d'"
    proof (rule expire_work_reaches [OF _ that(1)])
      fix p x assume "?live = Some p" "x \<in> set (payments (tables (gaps 0 w)))" "pay_id x = pay_id p"
      then show "pay_orderId x = i"
        using grown_payment [OF that(2,1)] live_payment_SomeD [of i "tables w" p]
        by (auto simp: payment_kept_def)
    qed
  qed
  have "tables (snd (expireOne provider gaps now i w)) = tables w \<or>
      tables (snd (expireOne provider gaps now i w)) = tables (snd ?run)"
    unfolding expireOne_def Let_def by (simp split: prod.split sum.split)
  then consider "tables (snd (expireOne provider gaps now i w)) = tables w"
    | "tables (snd (expireOne provider gaps now i w)) = tables (snd ?run)"
    by (rule disjE)
  then show "lg.reaches (tables w) (tables (snd (expireOne provider gaps now i w)))"
  proof cases
    case 2
    then show ?thesis using gap_then [OF assms ok live] by simp
  qed simp
qed

lemma tame_comp: "lg.tame f \<Longrightarrow> lg.tame g \<Longrightarrow> lg.tame (\<lambda>w. g (f w))"
  using lg.tameD lg.reaches_trans unfolding lg.tame_def by blast

lemma tame_id [simp]: "lg.tame (\<lambda>w. w)"
  by (simp add: lg.tame_def)

lemma tame_bind:
  assumes "lg.tame f" "\<And>x. lg.tame (g x)" "\<And>w. h w = g (b w) (f w)"
  shows "lg.tame h"
  using lg.tameD [OF assms(1)] lg.tameD [OF assms(2)] lg.reaches_trans
  unfolding lg.tame_def assms(3) by blast

lemma tame_frame: "(\<And>w. lg.reaches (tables w) (tables (f w))) \<Longrightarrow> lg.tame f"
  by (simp add: lg.tame_def)

lemma expire_each_tame:
  assumes "\<And>m n. lg.tame (gaps m n)"
  shows "lg.tame (\<lambda>w. snd (expire_each provider gaps now ids n w))"
proof (induction ids arbitrary: n)
  case (Cons i ids)
  let ?one = "\<lambda>w. expireOne provider (\<lambda>k. gaps (length ids) (Suc k)) now i (gaps (length ids) 0 w)"
  have one: "lg.tame (\<lambda>w. snd (?one w))"
    by (rule tame_comp [OF assms expireOne_tame [OF assms]])
  show ?case
    by (rule tame_bind [OF one, where b = "\<lambda>w. if fst (?one w) then n + 1 else n"
        and g = "\<lambda>x w. snd (expire_each provider gaps now ids x w)"])
      (auto simp: Cons.IH split: prod.splits)
qed simp

lemma expireOverdue_tame:
  assumes "\<And>m n. lg.tame (gaps m n)"
  shows "lg.tame (\<lambda>w. snd (expireOverdue provider gaps now w))"
  using expire_each_tame [where gaps = gaps, OF assms] unfolding expireOverdue_def lg.tame_def by blast

subsection \<open>The webhook processor\<close>

lemma markPaid_reaches:
  assumes "\<And>n. lg.tame (gaps n)" "ledger (tables w)" "p \<in> set (payments (tables w))"
    and "pay_id p = pid" "pay_orderId p = i"
  shows "lg.reaches (tables w) (tables (snd (markPaid provider publish gaps now e pid i w)))"
proof -
  let ?run = "\<lambda>m. afterCommit_run publish (mark_paid_work now e pid i m) (gaps 3 w)"
  have run: "tables (snd (markPaid provider publish gaps now e pid i w)) =
      tables (snd (?run (resolve_rail provider pid (tables w))))"
    by (simp add: markPaid_def Let_def split: prod.split sum.split)
  have "lg.reaches (tables (gaps 3 w)) (tables (snd (?run m)))"
    if ok: "ledger (tables (gaps 3 w))" and gr: "grows (tables w) (tables (gaps 3 w))" for m
  proof (rule afterCommit_reaches)
    fix u d' evs assume work: "mark_paid_work now e pid i m (tables (gaps 3 w)) = Inr (u, d', evs)"
    obtain p' where "p' \<in> set (payments (tables (gaps 3 w)))" "payment_kept p p'"
      using gr assms(3) by (auto simp: grows_def)
    then show "lg.reaches (tables (gaps 3 w)) d'"
      using mark_paid_reaches [of now e p' i m "tables (gaps 3 w)" u d' evs] work ok assms(4,5)
      by (simp add: payment_kept_def)
  qed
  then show ?thesis unfolding run by (rule gap_then [OF assms(1,2)])
qed

lemma decide_at_reaches:
  assumes "\<And>n. lg.tame (gaps n)" "ledger (tables w)" "decide_at provider gaps payload w = (res, w')"
  shows "lg.reaches (tables w) (tables w')"
    and "res = Inr (pm, MARK_PAID pid i) \<Longrightarrow>
      \<exists>p \<in> set (payments (tables w')). pay_id p = pid \<and> pay_orderId p = i"
proof -
  note g0 = gap [OF assms(1) assms(2), of 0]
  note g1 = gap [OF assms(1) g0(2), of 1]
  have w': "w' = w \<or> w' = gaps 1 (gaps 0 w)"
    using assms(3) by (auto simp: decide_at_def Let_def split: sum.splits)
  then show "lg.reaches (tables w) (tables w')" using lg.reaches_trans [OF g0(1) g1(1)] by auto
  assume "res = Inr (pm, MARK_PAID pid i)"
  then obtain outcome p r where "w' = gaps 1 (gaps 0 w)"
    and p: "load_payment outcome (tables (gaps 0 w)) = Some p" "pid = pay_id p"
    and r: "load_order (Some p) (tables w') = Some r" "i = ord_id r"
    using assms(3) by (auto simp: decide_at_def decidePaymentOutcome_def decideSuccess_def decideOther_def Let_def
        split: sum.splits gateway_outcome.splits option.splits if_splits)
  moreover have "p \<in> set (payments (tables (gaps 0 w)))"
    using p(1) by (auto simp: load_payment_def sql_find_def find_Some_iff split: option.splits)
  moreover have "i = pay_orderId p"
    using r by (auto simp: load_order_def dest: row_by_SomeD)
  ultimately show "\<exists>p \<in> set (payments (tables w')). pay_id p = pid \<and> pay_orderId p = i"
    using g1(3) by (fastforce simp: grows_def payment_kept_def)
qed

lemma decided_status:
  "decidePaymentOutcome outcome payment order = MARK_PAYMENT pid st \<Longrightarrow> st \<in> {PAY_FAILED, PAY_CANCELLED}"
  by (auto simp: decidePaymentOutcome_def decideSuccess_def decideOther_def
      split: gateway_outcome.splits option.splits if_splits)

lemma decide_at_status:
  "decide_at provider gaps payload w = (Inr (pm, MARK_PAYMENT pid st), w') \<Longrightarrow> st \<in> {PAY_FAILED, PAY_CANCELLED}"
  by (auto simp: decide_at_def Let_def split: sum.splits dest: decided_status)

lemma apply_event_tame:
  assumes "\<And>n. lg.tame (gaps n)"
  shows "lg.tame (\<lambda>w. snd (apply_event provider publish gaps now e w))"
  unfolding lg.tame_def
proof (intro allI impI)
  fix w :: "(json, 'a) world" assume ok: "ledger (tables w)"
  let ?out = "snd (apply_event provider publish gaps now e w)"
  show "lg.reaches (tables w) (tables ?out)"
  proof (cases "sql_find (\<lambda>x. ev_id x = e \<and> ev_processedAt x = None) (paymentEvents (tables w))")
    case None
    then show ?thesis by (simp add: apply_event_def)
  next
    case (Some ev)
    obtain res w2 where dec: "decide_at provider gaps (ev_payload ev) w = (res, w2)" by fastforce
    note at = decide_at_reaches [OF assms ok dec]
    have ok2: "ledger (tables w2)" using lg.reaches_ok [OF at(1) ok] .
    note out = apply_event_def [of provider publish gaps now e w, unfolded Some option.case dec prod.case]
    have "lg.reaches (tables w2) (tables ?out)"
    proof (cases res)
      case (Inl x)
      then show ?thesis by (simp add: out)
    next
      case (Inr pd)
      obtain pm decision where [simp]: "pd = (pm, decision)" by fastforce
      show ?thesis
      proof (cases decision)
        case (REFUSE x)
        then show ?thesis using Inr by (simp add: out)
      next
        case (SKIP x)
        then show ?thesis using Inr
          by (auto simp: out Let_def intro!: gap_then [OF assms ok2] processed_reaches)
      next
        case (MARK_PAYMENT pid st)
        have st: "st \<in> {PAY_FAILED, PAY_CANCELLED}" using decide_at_status dec Inr MARK_PAYMENT by simp
        have "tables ?out = tables (snd (afterCommit_run publish (mark_payment_work now e pid st) (gaps 2 w2)))"
          using Inr MARK_PAYMENT by (simp add: out split: prod.split sum.split)
        then show ?thesis
          by (auto intro!: gap_then [OF assms ok2] afterCommit_reaches intro: mark_payment_reaches [OF _ st])
      next
        case (MARK_PAID pid i)
        obtain p where p: "p \<in> set (payments (tables w2))" "pay_id p = pid" "pay_orderId p = i"
          using at(2) Inr MARK_PAID by auto
        have "?out = snd (markPaid provider publish gaps now e pid i (gaps 2 w2))"
          using Inr MARK_PAID by (simp add: out)
        moreover have "lg.reaches (tables (gaps 2 w2)) (tables (snd (markPaid provider publish gaps now e pid i (gaps 2 w2))))"
          if g: "ledger (tables (gaps 2 w2))" "grows (tables w2) (tables (gaps 2 w2))"
        proof -
          obtain p' where "p' \<in> set (payments (tables (gaps 2 w2)))" "payment_kept p p'"
            using g(2) p(1) by (auto simp: grows_def)
          then show ?thesis using markPaid_reaches [OF assms g(1)] p(2,3) by (simp add: payment_kept_def)
        qed
        ultimately show ?thesis by (auto intro: gap_then [OF assms ok2, of 2])
      qed
    qed
    then show ?thesis using lg.reaches_trans [OF at(1)] by simp
  qed
qed

lemma processEvent_tame:
  assumes "\<And>n. lg.tame (gaps n)"
  shows "lg.tame (\<lambda>w. snd (processEvent provider publish gaps now e w))"
proof -
  have "tables (snd (processEvent provider publish gaps now e w)) =
      tables (snd (apply_event provider publish gaps now e w))" for w
    by (simp add: processEvent_def split: prod.split sum.split)
  then show ?thesis using apply_event_tame [OF assms] by (simp add: lg.tame_def)
qed

lemma process_each_tame:
  assumes "\<And>m n. lg.tame (gaps m n)"
  shows "lg.tame (\<lambda>w. snd (process_each provider publish gaps now ids n w))"
proof (induction ids arbitrary: n)
  case (Cons i ids)
  let ?one = "\<lambda>w. processEvent provider publish (\<lambda>k. gaps (length ids) (Suc k)) now i (gaps (length ids) 0 w)"
  have one: "lg.tame (\<lambda>w. snd (?one w))"
    by (rule tame_comp [OF assms processEvent_tame [OF assms]])
  show ?case
    by (rule tame_bind [OF one, where b = "\<lambda>w. if fst (?one w) then n + 1 else n"
        and g = "\<lambda>x w. snd (process_each provider publish gaps now ids x w)"])
      (auto simp: Cons.IH split: prod.splits)
qed simp

lemma drainInbox_tame:
  assumes "\<And>m n. lg.tame (gaps m n)"
  shows "lg.tame (\<lambda>w. snd (drainInbox provider publish gaps now w))"
  using process_each_tame [where gaps = gaps, OF assms] unfolding drainInbox_def lg.tame_def by blast

lemma receive_tame:
  assumes "\<And>n. lg.tame (gaps n)"
  shows "lg.tame (\<lambda>w. snd (receive provider publish gaps now i body sig w))"
  unfolding lg.tame_def
proof (intro allI impI)
  fix w :: "(json, 'a) world" assume ok: "ledger (tables w)"
  let ?out = "snd (receive provider publish gaps now i body sig w)"
  have "?out = w \<or> (\<exists>ev j d. record_event now i ev (tables w) = (Some j, d) \<and>
      ?out = snd (processEvent provider publish (\<lambda>n. gaps (Suc n)) now j (gaps 0 (w\<lparr>tables := d\<rparr>))))"
    by (auto simp: receive_def split: option.split sum.split prod.split)
  then show "lg.reaches (tables w) (tables ?out)"
  proof (elim disjE exE conjE)
    fix ev j d assume rec: "record_event now i ev (tables w) = (Some j, d)"
      and out: "?out = snd (processEvent provider publish (\<lambda>n. gaps (Suc n)) now j (gaps 0 (w\<lparr>tables := d\<rparr>)))"
    have step: "lg.reaches (tables w) d" using record_reaches [of "tables w" now i ev] rec by simp
    have "lg.tame (\<lambda>w. snd (processEvent provider publish (\<lambda>n. gaps (Suc n)) now j (gaps 0 w)))"
      by (rule tame_comp [OF assms processEvent_tame [OF assms]])
    from lg.tameD [OF this, of "w\<lparr>tables := d\<rparr>"] lg.reaches_ok [OF step ok]
    show ?thesis using lg.reaches_trans [OF step] out by simp
  qed simp
qed

subsection \<open>Taking money and giving it back\<close>

lemma order_kept_trans: "order_kept r r' \<Longrightarrow> order_kept r' r'' \<Longrightarrow> order_kept r r''"
  by (auto simp: order_kept_def)

lemma write_work_reaches:
  assumes "write_work now keyed work d = Inr (v, d', evs)" "ledger d"
    and "\<And>d x d' evs. work d = Inr (x, d', evs) \<Longrightarrow> ledger d \<Longrightarrow> r \<in> set (orders d) \<Longrightarrow> lg.reaches d d'"
    and "r \<in> set (orders d)"
  shows "lg.reaches d d'"
proof (cases keyed)
  case None
  then show ?thesis using assms by (auto simp: write_work_def)
next
  case (Some kh)
  then obtain k h d1 d2 b where k: "reserveKey k h (keyExpiry now) d = Inr d1"
    and w: "work d1 = Inr (v, d2, evs)" "d' = completeKey k 201 b d2"
    using assms(1) by (cases kh) (auto simp: write_work_def sum_bind_iffs)
  have "orders d1 = orders d" using k by (auto simp: reserveKey_Inr)
  then have "lg.reaches d1 d2"
    using assms(3) [OF w(1)] assms(4) lg.reaches_ok [OF reserve_reaches [OF k] assms(2)] by simp
  then show ?thesis
    using reserve_reaches [OF k] complete_reaches w(2) lg.reaches_trans by metis
qed

lemma write_payment_reaches:
  assumes "\<And>n. lg.tame (gaps n)" "ledger (tables w)"
    and "\<And>d x d' evs. work d = Inr (x, d', evs) \<Longrightarrow> ledger d \<Longrightarrow> r \<in> set (orders d) \<Longrightarrow> lg.reaches d d'"
    and "r \<in> set (orders (tables w))"
  shows "lg.reaches (tables w) (tables (snd (write_payment provider publish gaps now keyed work w)))"
proof -
  obtain res w1 where run: "afterCommit_run publish (write_work now keyed work) w = (res, w1)" by fastforce
  have r1: "lg.reaches (tables w) (tables w1)"
    using afterCommit_reaches [of "write_work now keyed work" w publish] run assms write_work_reaches
    by (metis snd_conv)
  note g3 = gap [OF assms(1) lg.reaches_ok [OF r1 assms(2)], of 3]
  note g4 = gap [OF assms(1) g3(2), of 4]
  have "snd (write_payment provider publish gaps now keyed work w) \<in> {w1, gaps 3 w1, gaps 4 (gaps 3 w1)}"
    by (simp add: write_payment_def run Let_def split: sum.split option.split prod.split)
  then show ?thesis
    using r1 lg.reaches_trans [OF r1 g3(1)] lg.reaches_trans [OF r1 lg.reaches_trans [OF g3(1) g4(1)]]
    by auto
qed

lemma takeCash_reaches:
  assumes "\<And>n. lg.tame (gaps n)" "ledger (tables w)" "r' \<in> set (orders (tables w))" "order_kept r r'"
  shows "lg.reaches (tables w) (tables (snd (takeCash provider publish gaps now new who r input keyed w)))"
proof -
  let ?commits = "\<lambda>u t. write_payment provider publish gaps now keyed
      (cash_work now new u r t (map_option fst keyed)) (gaps 2 w)"
  let ?out = "tables (snd (takeCash provider publish gaps now new who r input keyed w))"
  have "?out = tables w \<or> (\<exists>u t. ?out = tables (snd (?commits u t)))"
  proof (cases "\<exists>u ro t. who = StaffPrincipal u ro \<and> cp_cashTenderedMinor input = Some t")
    case True
    then obtain u ro t where "who = StaffPrincipal u ro" "cp_cashTenderedMinor input = Some t" by blast
    then have "?out = tables w \<or> ?out = tables (snd (?commits u t))"
      by (simp add: takeCash_def split: prod.split sum.split bool.split)
    then show ?thesis by blast
  qed (auto simp: takeCash_def split: principal.split option.split)
  moreover have "lg.reaches (tables w) (tables (snd (?commits u t)))" for u t
  proof (rule gap_then [OF assms(1,2)])
    assume ok: "ledger (tables (gaps 2 w))" and gr: "grows (tables w) (tables (gaps 2 w))"
    obtain r2 where r2: "r2 \<in> set (orders (tables (gaps 2 w)))" "order_kept r r2"
      using grown_order [OF gr assms(3)] assms(4) order_kept_trans by metis
    show "lg.reaches (tables (gaps 2 w)) (tables (snd (?commits u t)))"
      by (rule write_payment_reaches [OF assms(1) ok _ r2(1)]) (rule cash_work_reaches [OF _ _ _ r2(2)])
  qed
  ultimately show ?thesis by auto
qed

lemma openGateway_reaches:
  assumes "\<And>n. lg.tame (gaps n)" "ledger (tables w)" "r' \<in> set (orders (tables w))" "order_kept r r'"
  shows "lg.reaches (tables w) (tables (snd (openGatewayPayment provider publish gaps now new r keyed w)))"
proof -
  let ?commits = "\<lambda>x. write_payment provider publish gaps now keyed
      (gateway_work now new r x (map_option fst keyed)) (gaps 2 w)"
  have "lg.reaches (tables w) (tables (snd (?commits x)))" for x
  proof (rule gap_then [OF assms(1,2)])
    assume ok: "ledger (tables (gaps 2 w))" and gr: "grows (tables w) (tables (gaps 2 w))"
    obtain r2 where r2: "r2 \<in> set (orders (tables (gaps 2 w)))" "order_kept r r2"
      using grown_order [OF gr assms(3)] assms(4) order_kept_trans by metis
    show "lg.reaches (tables (gaps 2 w)) (tables (snd (?commits x)))"
      by (rule write_payment_reaches [OF assms(1) ok _ r2(1)]) (rule gateway_work_reaches [OF _ _ r2(2)])
  qed
  then show ?thesis by (simp add: openGatewayPayment_def split: sum.split)
qed

lemma loadPayable_reaches:
  assumes "\<And>n. lg.tame (gaps n)" "ledger (tables w)" "loadPayableOrder who i gaps w = (res, w')"
  shows "lg.reaches (tables w) (tables w')"
    and "res = Inr r \<Longrightarrow> \<exists>r' \<in> set (orders (tables w')). order_kept r r'"
proof -
  note g1 = gap [OF assms(1,2), of 1]
  show "lg.reaches (tables w) (tables w')"
    using assms(3) g1(1) by (auto simp: loadPayableOrder_def Let_def split: sum.splits)
  assume "res = Inr r"
  then have "r \<in> set (orders (tables w))" "w' = gaps 1 w"
    using assms(3) by (auto simp: loadPayableOrder_def payable_order_def Let_def
        split: sum.splits option.splits if_splits dest: row_by_SomeD)
  then show "\<exists>r' \<in> set (orders (tables w')). order_kept r r'"
    using grown_order [OF g1(3)] by metis
qed

lemma create_payment_tame:
  assumes "\<And>n. lg.tame (gaps n)"
  shows "lg.tame (\<lambda>w. snd (create_payment sha provider publish gaps now new who i input key w))"
  unfolding lg.tame_def
proof (intro allI impI)
  fix w :: "'a app" assume ok: "ledger (tables w)"
  let ?out = "snd (create_payment sha provider publish gaps now new who i input key w)"
  define keyed where "keyed = map_option (\<lambda>k. (k, hashRequest sha (scopeOf who @ '':payments:'' @ i)
      (payment_json input))) key"
  note g0 = gap [OF assms ok, of 0]
  obtain res w1 where l: "loadPayableOrder who i gaps (gaps 0 w) = (res, w1)" by fastforce
  note load = loadPayable_reaches [OF assms g0(2) l]
  have ok1: "ledger (tables w1)" by (rule lg.reaches_ok [OF load(1) g0(2)])
  have "?out \<in> {w, gaps 0 w, w1} \<or> (\<exists>r. res = Inr r \<and> ?out \<in>
      {snd (takeCash provider publish gaps now new who r input keyed w1),
       snd (openGatewayPayment provider publish gaps now new r keyed w1)})"
    unfolding create_payment_def Let_def keyed_def [symmetric] l
    by (simp split: option.split prod.split bool.split sum.split)
  then have "?out = w \<or> ?out = gaps 0 w \<or> lg.reaches (tables w1) (tables ?out)"
    using load(2) takeCash_reaches [OF assms ok1] openGateway_reaches [OF assms ok1] by auto
  then show "lg.reaches (tables w) (tables ?out)"
    using g0(1) lg.reaches_trans [OF lg.reaches_trans [OF g0(1) load(1)]] by auto
qed

lemma refund_tame:
  assumes "\<And>n. lg.tame (gaps n)"
  shows "lg.tame (\<lambda>w. snd (refund offset cfg publish gaps now new user i input w))"
  unfolding lg.tame_def
proof (intro allI impI)
  fix w :: "('a, 'b) world" assume ok: "ledger (tables w)"
  let ?out = "snd (refund offset cfg publish gaps now new user i input w)"
  let ?w2 = "gaps 1 (gaps 0 w)"
  note g0 = gap [OF assms ok, of 0]
  note g1 = gap [OF assms g0(2), of 1]
  have "?out = w \<or> ?out = gaps 0 w \<or> (\<exists>p r. p \<in> set (payments (tables w)) \<and>
      pay_status p = PAY_SUCCEEDED \<and> ord_id r = pay_orderId p \<and>
      ?out = snd (afterCommit_run publish (refund_work now new user p r input) ?w2))"
    by (auto simp: refund_def Let_def split: option.split dest: row_by_SomeD)
  then consider "?out = w" | "?out = gaps 0 w"
    | p r where "p \<in> set (payments (tables w))" "pay_status p = PAY_SUCCEEDED" "ord_id r = pay_orderId p"
      "?out = snd (afterCommit_run publish (refund_work now new user p r input) ?w2)"
    by blast
  then show "lg.reaches (tables w) (tables ?out)"
  proof cases
    case 3
    obtain p' where "p' \<in> set (payments (tables ?w2))" "payment_kept p p'"
      using grows_trans [OF g0(3) g1(3)] 3(1) by (auto simp: grows_def)
    then have "lg.reaches (tables ?w2) (tables ?out)"
      unfolding 3(4) by (intro afterCommit_reaches) (rule refund_work_reaches [OF _ g1(2) _ _ 3(2,3)])
    then show ?thesis using lg.reaches_trans [OF g0(1)] lg.reaches_trans [OF g1(1)] by simp
  qed (simp_all add: g0(1))
qed

lemma reconcile_tame:
  assumes "\<And>n. lg.tame (gaps n)"
  shows "lg.tame (\<lambda>w. snd (reconcile provider gaps day w))"
    "lg.tame (\<lambda>w. snd (reconcileYesterday offset cfg provider gaps now w))"
proof -
  have "snd (reconcile provider gaps day w) = w \<or> snd (reconcile provider gaps day w) = gaps 0 w" for w day
    by (simp add: reconcile_def Let_def split: sum.split prod.split)
  then have r: "lg.tame (\<lambda>w. snd (reconcile provider gaps day w))" for day
    using assms [of 0] unfolding lg.tame_def by (metis lg.reaches_refl)
  show "lg.tame (\<lambda>w. snd (reconcile provider gaps day w))" by (rule r)
  have "tables (snd (reconcileYesterday offset cfg provider gaps now w)) =
      tables (snd (reconcile provider gaps (today_of offset cfg (now - 24 * 60 * 60 * 1000)) w))" for w
    by (simp add: reconcileYesterday_def split: prod.split sum.split)
  then show "lg.tame (\<lambda>w. snd (reconcileYesterday offset cfg provider gaps now w))"
    using r unfolding lg.tame_def by simp
qed

section \<open>The system\<close>

text \<open>
  Everything that can happen to the state: a request, a delivery or a tick of a timer runs its
  handler, with any run of the system in each of the handler's gaps; or something outside the order
  and payment tables changes (the catalog, the devices, the housekeeping of keys and events).
\<close>

inductive evolves :: "json app \<Rightarrow> json app \<Rightarrow> bool" where
  idle: "evolves w w"
| elsewhere: "evolves w0 w \<Longrightarrow> same_ledger (tables w) (tables w') \<Longrightarrow> evolves w0 w'"
| creating: "evolves w0 w \<Longrightarrow> (\<And>v. evolves v (meanwhile v)) \<Longrightarrow>
    evolves w0 (snd (create sha offset cfg meanwhile now fresh who input key w))"
| checking_out: "evolves w0 w \<Longrightarrow> evolves w0 (snd (checkout cfg now who i w))"
| serving: "evolves w0 w \<Longrightarrow> evolves w0 (snd (status_transition publish now who i t w))"
| cancelling: "evolves w0 w \<Longrightarrow> (\<And>n v. evolves v (gaps n v)) \<Longrightarrow>
    evolves w0 (snd (cancel provider publish gaps now who i reason w))"
| expiring: "evolves w0 w \<Longrightarrow> (\<And>m n v. evolves v (gaps' m n v)) \<Longrightarrow>
    evolves w0 (snd (expireOverdue provider gaps' now w))"
| paying: "evolves w0 w \<Longrightarrow> (\<And>n v. evolves v (gaps n v)) \<Longrightarrow>
    evolves w0 (snd (create_payment sha provider publish gaps now new who i pinput key w))"
| delivered: "evolves w0 w \<Longrightarrow> (\<And>n v. evolves v (gaps n v)) \<Longrightarrow>
    evolves w0 (snd (receive provider publish gaps now i body sig w))"
| draining: "evolves w0 w \<Longrightarrow> (\<And>m n v. evolves v (gaps' m n v)) \<Longrightarrow>
    evolves w0 (snd (drainInbox provider publish gaps' now w))"
| refunding: "evolves w0 w \<Longrightarrow> (\<And>n v. evolves v (gaps n v)) \<Longrightarrow>
    evolves w0 (snd (refund offset cfg publish gaps now new user i rinput w))"
| reconciling: "evolves w0 w \<Longrightarrow> (\<And>n v. evolves v (gaps n v)) \<Longrightarrow>
    evolves w0 (snd (reconcileYesterday offset cfg provider gaps now w))"

lemma evolves_reaches: "evolves w w' \<Longrightarrow> ledger (tables w) \<longrightarrow> lg.reaches (tables w) (tables w')"
proof (induction rule: evolves.induct)
  case (elsewhere w0 w w')
  then show ?case using frame_reaches lg.reaches_trans by blast
next
  case (creating w0 w meanwhile sha offset cfg now fresh who input key)
  then have "lg.tame meanwhile" by (simp add: lg.tame_def)
  then show ?case using creating.IH(1) by (auto intro: lg.tame_extends [OF create_tame])
next
  case (checking_out w0 w cfg now who i)
  then show ?case by (auto intro: lg.tame_extends [OF checkout_tame])
next
  case (serving w0 w publish now who i t)
  then show ?case by (auto intro: lg.tame_extends [OF status_transition_tame])
next
  case (cancelling w0 w gaps provider publish now who i reason)
  then have "lg.tame (gaps n)" for n by (simp add: lg.tame_def)
  then show ?case using cancelling.IH(1) by (auto intro: lg.tame_extends [OF cancel_tame])
next
  case (expiring w0 w gaps' provider now)
  then have "lg.tame (gaps' m n)" for m n by (simp add: lg.tame_def)
  then show ?case using expiring.IH(1) by (auto intro: lg.tame_extends [OF expireOverdue_tame])
next
  case (paying w0 w gaps sha provider publish now new who i pinput key)
  then have "lg.tame (gaps n)" for n by (simp add: lg.tame_def)
  then show ?case using paying.IH(1) by (auto intro: lg.tame_extends [OF create_payment_tame])
next
  case (delivered w0 w gaps provider publish now i body sig)
  then have "lg.tame (gaps n)" for n by (simp add: lg.tame_def)
  then show ?case using delivered.IH(1) by (auto intro: lg.tame_extends [OF receive_tame])
next
  case (draining w0 w gaps' provider publish now)
  then have "lg.tame (gaps' m n)" for m n by (simp add: lg.tame_def)
  then show ?case using draining.IH(1) by (auto intro: lg.tame_extends [OF drainInbox_tame])
next
  case (refunding w0 w gaps offset cfg publish now new user i rinput)
  then have "lg.tame (gaps n)" for n by (simp add: lg.tame_def)
  then show ?case using refunding.IH(1) by (auto intro: lg.tame_extends [OF refund_tame])
next
  case (reconciling w0 w gaps offset cfg provider now)
  then have "lg.tame (gaps n)" for n by (simp add: lg.tame_def)
  then show ?case using reconciling.IH(1) by (auto intro: lg.tame_extends [OF reconcile_tame(2)])
qed simp

lemma evolves_commits:
  assumes "evolves w w'" "ledger (tables w)"
  shows "commit\<^sup>*\<^sup>* (tables w) (tables w')" "ledger (tables w')" "grows (tables w) (tables w')"
  using evolves_reaches [OF assms(1)] commits_ledger [of "tables w" "tables w'"] assms(2)
  by (auto simp: lg.reaches_def)

text \<open>The state a new shop starts from: nothing ordered, nothing paid.\<close>

definition blank :: "('p, 'b) world \<Rightarrow> bool" where
  "blank w \<longleftrightarrow> orders (tables w) = [] \<and> orderItems (tables w) = [] \<and> orderStatusHistory (tables w) = [] \<and>
     orderNumberCounters (tables w) = [] \<and> payments (tables w) = [] \<and> refunds (tables w) = []"

lemma blank_ledger: "blank w \<Longrightarrow> ledger (tables w)"
  by (simp add: blank_def empty_ledger)

lemmas from_blank = evolves_commits [OF _ blank_ledger]

end
