(* ===== verification/Sample.thy ===== *)
theory Sample
  imports System
begin

text \<open>
  A concrete morning, for the witnesses of the system's properties: a shop with one drink on the
  menu, an order placed at a kiosk, paid in cash at the counter, made, and refunded in two steps.
\<close>

section \<open>Definitions\<close>

definition shop_config :: config where
  "shop_config = \<lparr>VAT_BASIS_POINTS = 700, BUSINESS_TIMEZONE = ''Asia/Bangkok'',
     BUSINESS_DAY_START_HOUR = 5, ORDER_EXPIRY_SECONDS = 600, CURRENCY = ''THB''\<rparr>"

definition bangkok :: "string \<Rightarrow> int \<Rightarrow> int" where
  "bangkok zone instant = 7 * 3600000"

definition morning :: int where "morning = 1709258400000"

definition shop :: "json app" where
  "shop = \<lparr>tables = \<lparr>
     categories = [\<lparr>cat_id = ''coffee'', cat_name = ''Coffee'', cat_sortOrder = 0, cat_isActive = True\<rparr>],
     menuItems = [\<lparr>mi_id = ''latte'', mi_categoryId = ''coffee'', mi_name = ''Latte'',
       mi_description = None, mi_basePriceMinor = 9000, mi_imageUrl = None, mi_isAvailable = True, mi_sortOrder = 0\<rparr>],
     optionGroups = [\<lparr>og_id = ''size'', og_name = ''Size'', og_minSelect = 1, og_maxSelect = 1\<rparr>],
     options = [\<lparr>opt_id = ''large'', opt_groupId = ''size'', opt_name = ''Large'',
       opt_priceDeltaMinor = 2000, opt_isDefault = False, opt_isAvailable = True\<rparr>],
     menuItemOptionGroups = [\<lparr>lnk_menuItemId = ''latte'', lnk_optionGroupId = ''size'', lnk_sortOrder = 0\<rparr>],
     kioskDevices = [\<lparr>dev_id = ''k1'', dev_status = DEV_ACTIVE\<rparr>],
     orders = [], orderItems = [], orderItemOptions = [], orderStatusHistory = [],
     orderNumberCounters = [], payments = [], refunds = [], paymentEvents = [], idempotencyKeys = []\<rparr>,
     announced = [], metrics = []\<rparr>"

definition one_latte :: create_order_input where
  "one_latte = \<lparr>in_channel = KIOSK, in_items = [\<lparr>rq_menuItemId = ''latte'', rq_quantity = 2,
     rq_optionIds = [''large''], rq_notes = None\<rparr>], in_customerName = None,
     in_expectedTotalMinor = Some 22000, in_draft = None\<rparr>"

definition closed_gateway :: payment_provider_port where
  "closed_gateway = \<lparr>createIntent = (\<lambda>_ _ _ _. Inl DependencyUnavailableError),
     cancelIntent = (\<lambda>_. Inl DependencyUnavailableError),
     clientSecretFor = (\<lambda>_. Inl DependencyUnavailableError),
     parseWebhook = (\<lambda>_ _. Inl WebhookSignatureInvalidError),
     interpret_payload = (\<lambda>_. Inr IGNORED),
     capturedTotalFor = (\<lambda>_. Inl DependencyUnavailableError),
     resolveMethod = (\<lambda>_. None)\<rparr>"

definition fresh :: fresh_ids where
  "fresh = \<lparr>fr_orderId = ''o1'', fr_itemIds = (\<lambda>i. CHR ''l'' # string_of_nat i), fr_createdAt = morning * 1000 + 7\<rparr>"

definition ordered :: "json app" where
  "ordered = snd (create id bangkok shop_config id morning fresh
     (DevicePrincipal ''k1'') one_latte None shop)"

definition paid_up :: "json app" where
  "paid_up = snd (create_payment id closed_gateway (\<lambda>_. True) (\<lambda>_. id) (morning + 60000) ''p1''
     (StaffPrincipal ''u1'' CASHIER) ''o1'' \<lparr>cp_method = CASH, cp_cashTenderedMinor = Some 30000\<rparr> None ordered)"

definition part_refunded :: "json app" where
  "part_refunded = snd (refund bangkok shop_config (\<lambda>_. True) (\<lambda>_. id) (morning + 120000) ''r1'' ''m1'' ''p1''
     \<lparr>ri_amountMinor = 11000, ri_reason = ''cold''\<rparr> paid_up)"

definition fully_refunded :: "json app" where
  "fully_refunded = snd (refund bangkok shop_config (\<lambda>_. True) (\<lambda>_. id) (morning + 180000) ''r2'' ''m1'' ''p1''
     \<lparr>ri_amountMinor = 11000, ri_reason = ''both cold''\<rparr> part_refunded)"

definition latte_priced :: priced_order where
  "latte_priced = \<lparr>pr_lines = [\<lparr>pl_menuItemId = ''latte'', pl_nameSnapshot = ''Latte'',
       pl_unitPriceMinorSnapshot = 11000, pl_quantity = 2, pl_lineTotalMinor = 22000, pl_notes = None,
       pl_options = [\<lparr>po_optionId = ''large'', po_groupNameSnapshot = ''Size'',
         po_optionNameSnapshot = ''Large'', po_priceDeltaMinorSnapshot = 2000\<rparr>]\<rparr>],
     pr_subtotalMinor = 22000, pr_vatMinor = 1439, pr_totalMinor = 22000\<rparr>"

definition latte_order :: "order_status \<Rightarrow> int option \<Rightarrow> order_row" where
  "latte_order s t = \<lparr>ord_id = ''o1'', ord_number = Some ''A-001'', ord_businessDay = ''2024-03-01'',
     ord_channel = KIOSK, ord_status = s, ord_kioskDeviceId = Some ''k1'', ord_createdByUserId = None,
     ord_customerName = None, ord_subtotalMinor = 22000, ord_vatMinor = 1439, ord_totalMinor = 22000,
     ord_currency = ''THB'', ord_expiresAt = t, ord_createdAt = morning * 1000 + 7\<rparr>"

definition latte_line :: order_item_row where
  "latte_line = \<lparr>oi_id = ''l0'', oi_orderId = ''o1'', oi_menuItemId = ''latte'', oi_nameSnapshot = ''Latte'',
     oi_unitPriceMinorSnapshot = 11000, oi_quantity = 2, oi_lineTotalMinor = 22000, oi_notes = None\<rparr>"

definition latte_option :: order_item_option_row where
  "latte_option = \<lparr>oio_orderItemId = ''l0'', oio_optionId = ''large'', oio_groupNameSnapshot = ''Size'',
     oio_optionNameSnapshot = ''Large'', oio_priceDeltaMinorSnapshot = 2000\<rparr>"

definition moved ::
  "order_status option \<Rightarrow> order_status \<Rightarrow> actor_type \<Rightarrow> string \<Rightarrow> string option \<Rightarrow> int \<Rightarrow> status_history_row" where
  "moved s t a i reason at = \<lparr>osh_orderId = ''o1'', osh_fromStatus = s, osh_toStatus = t,
     osh_actorType = a, osh_actorId = Some i, osh_reason = reason, osh_createdAt = at\<rparr>"

definition cash_payment :: payment_row where
  "cash_payment = \<lparr>pay_id = ''p1'', pay_orderId = ''o1'', pay_provider = CASH_DRAWER,
     pay_providerIntentId = None, pay_method = Some CASH, pay_status = PAY_SUCCEEDED,
     pay_amountMinor = 22000, pay_currency = ''THB'', pay_idempotencyKey = None,
     pay_cashTenderedMinor = Some 30000, pay_createdAt = morning + 60000\<rparr>"

definition half_back :: "string \<Rightarrow> string \<Rightarrow> refund_row" where
  "half_back i reason = \<lparr>ref_id = i, ref_paymentId = ''p1'', ref_amountMinor = 11000, ref_reason = reason,
     ref_status = REF_SUCCEEDED, ref_initiatedByUserId = ''m1''\<rparr>"

text \<open>The same order paid by card: an intent is opened, and the gateway reports its capture.\<close>

definition open_gateway :: payment_provider_port where
  "open_gateway = closed_gateway
     \<lparr>createIntent := (\<lambda>_ _ _ _. Inr \<lparr>int_intentId = ''pi_1'', int_clientSecret = ''cs_1''\<rparr>),
      cancelIntent := (\<lambda>_. Inr ALREADY_SUCCEEDED),
      clientSecretFor := (\<lambda>_. Inr ''cs_1''),
      parseWebhook := (\<lambda>body sig. Inr \<lparr>ge_eventId = ''evt_1'', ge_type = ''payment_intent.succeeded'',
        ge_createdAt = morning, ge_payload = JStr body, ge_outcome = IGNORED\<rparr>),
      interpret_payload := (\<lambda>_. Inr (SUCCEEDED (Some ''pi_1'') (Some 22000) ''THB'')),
      resolveMethod := (\<lambda>_. Some CARD)\<rparr>"

definition awaiting_card :: "json app" where
  "awaiting_card = snd (create_payment id open_gateway (\<lambda>_. True) (\<lambda>_. id) (morning + 60000) ''p1''
     (DevicePrincipal ''k1'') ''o1'' \<lparr>cp_method = CARD, cp_cashTenderedMinor = None\<rparr> None ordered)"

definition captured :: "json app" where
  "captured = snd (receive open_gateway (\<lambda>_. True) (\<lambda>_. id) (morning + 90000) ''e1''
     (Some ''body'') (Some ''sig'') awaiting_card)"

definition card_payment :: "payment_status \<Rightarrow> payment_method option \<Rightarrow> payment_row" where
  "card_payment s m = \<lparr>pay_id = ''p1'', pay_orderId = ''o1'', pay_provider = STRIPE,
     pay_providerIntentId = Some ''pi_1'', pay_method = m, pay_status = s,
     pay_amountMinor = 22000, pay_currency = ''THB'', pay_idempotencyKey = None,
     pay_cashTenderedMinor = None, pay_createdAt = morning + 60000\<rparr>"

section \<open>Lemmas\<close>

subsection \<open>The runs are runs of the system\<close>

lemma shop_blank: "blank shop"
  by (simp add: blank_def shop_def)

lemma ordered_evolves: "evolves shop ordered"
  unfolding ordered_def by (rule evolves.creating [OF evolves.idle]) (simp add: evolves.idle)

lemma paid_up_evolves: "evolves shop paid_up"
  unfolding paid_up_def by (rule evolves.paying [OF ordered_evolves]) (simp add: evolves.idle)

lemma part_refunded_evolves: "evolves shop part_refunded"
  unfolding part_refunded_def by (rule evolves.refunding [OF paid_up_evolves]) (simp add: evolves.idle)

lemma fully_refunded_evolves: "evolves shop fully_refunded"
  unfolding fully_refunded_def by (rule evolves.refunding [OF part_refunded_evolves]) (simp add: evolves.idle)

lemma awaiting_card_evolves: "evolves shop awaiting_card"
  unfolding awaiting_card_def by (rule evolves.paying [OF ordered_evolves]) (simp add: evolves.idle)

lemma captured_evolves: "evolves shop captured"
  unfolding captured_def by (rule evolves.delivered [OF awaiting_card_evolves]) (simp add: evolves.idle)

subsection \<open>What the tables hold after each\<close>

lemma shop_day: "today_of bangkok shop_config morning = ''2024-03-01''"
  "today_of bangkok shop_config (morning + 120000) = ''2024-03-01''"
  "today_of bangkok shop_config (morning + 180000) = ''2024-03-01''"
proof -
  have l: "day_label 19783 = ''2024-03-01''" by code_simp
  have y: "100 \<le> year_of_day 19783" by (simp add: year_of_day_def dayFromYear_def)
  have "today_of bangkok shop_config t = ''2024-03-01''"
    if "(t + 25200000) div MILLIS_PER_DAY = 19783" "(t + 25200000 - 5 * 3600000) div MILLIS_PER_DAY = 19783" for t
   using businessDayOf_shifted [of 5 t bangkok "''Asia/Bangkok''"] that l y
   by (simp add: today_of_def shop_config_def bangkok_def)
  then show "today_of bangkok shop_config morning = ''2024-03-01''"
  "today_of bangkok shop_config (morning + 120000) = ''2024-03-01''"
  "today_of bangkok shop_config (morning + 180000) = ''2024-03-01''"
  by (simp_all add: morning_def MILLIS_PER_DAY_def)
qed

text \<open>The shop with any idempotency keys stored; the ordering does not depend on them.\<close>

definition shop_with :: "stored_body idempotency_key_row list \<Rightarrow> json tables" where
  "shop_with ks = (tables shop)\<lparr>idempotencyKeys := ks\<rparr>"

lemma shop_with_Nil: "shop_with [] = tables shop"
  by (simp add: shop_with_def shop_def)

lemma shop_menu: "readCatalog [''latte''] (shop_with ks) ''latte'' =
    Some \<lparr>ci_id = ''latte'', ci_name = ''Latte'', ci_basePriceMinor = 9000, ci_isAvailable = True,
      ci_optionGroups = [\<lparr>cg_id = ''size'', cg_name = ''Size'', cg_minSelect = 1, cg_maxSelect = 1,
        cg_options = [\<lparr>co_id = ''large'', co_name = ''Large'', co_priceDeltaMinor = 2000,
          co_isAvailable = True\<rparr>]\<rparr>]\<rparr>"
  by (simp add: readCatalog_def shop_with_def shop_def catalog_item_of_def item_groups_def catalog_group_of_def
      group_options_def row_by_def sql_find_def List.map_filter_def)

lemma latte_price:
  "priceOrder (in_items one_latte) (readCatalog [''latte''] (shop_with ks)) 700 = Inr latte_priced"
  by (simp add: one_latte_def latte_priced_def priceOrder_def resolveLine_def shop_menu attached_def
      attached_pairs_def validateSelections_def bound_violations_def selected_in_def line_groups_def
      priceLine_def extractVat_def round_div_def unavailable_item_def unavailable_options_def
      js_set_def set_add_def Let_def or_null_def)

lemma latte_opening: "opening_status one_latte = PENDING_PAYMENT"
  by (simp add: opening_status_def one_latte_def)

lemma latte_persist:
  "persist bangkok shop_config morning fresh (DevicePrincipal ''k1'') KIOSK one_latte latte_priced (shop_with ks) =
     Inr (toView (latte_order PENDING_PAYMENT (Some 1709259000000)) latte_priced,
       (shop_with ks)\<lparr>orders := [latte_order PENDING_PAYMENT (Some 1709259000000)],
         orderItems := [latte_line], orderItemOptions := [latte_option],
         orderStatusHistory := [moved None PENDING_PAYMENT DEVICE ''k1'' None morning],
         orderNumberCounters := [(''2024-03-01'', 1)]\<rparr>)"
proof -
  have l0: "string_of_nat 0 = ''0''" by code_simp
  have num: "formatOrderNumber 1 = ''A-001''" by code_simp
  have order: "new_order shop_config morning fresh ''2024-03-01'' (Some ''A-001'') (DevicePrincipal ''k1'')
      KIOSK one_latte latte_priced = latte_order PENDING_PAYMENT (Some 1709259000000)"
    by (simp add: new_order_def opening_status_def fresh_def latte_priced_def latte_order_def shop_config_def
        expiry_instant_def morning_def one_latte_def or_null_def)
  have rows: "indexed (line_row fresh) (pr_lines latte_priced) = [latte_line]"
    "concat (indexed (option_rows fresh) (pr_lines latte_priced)) = [latte_option]"
    by (simp_all add: indexed_def line_row_def option_rows_def latte_priced_def fresh_def latte_line_def
        latte_option_def l0)
  have claim: "claim_number PENDING_PAYMENT ''2024-03-01'' (shop_with ks) =
      Inr (Some ''A-001'', (shop_with ks)\<lparr>orderNumberCounters := [(''2024-03-01'', 1)]\<rparr>)"
    by (simp add: claim_number_def nextOrderNumber_def shop_with_def shop_def row_by_def sql_find_def num)
  show ?thesis
    by (simp add: persist_def shop_day latte_opening claim order rows Let_def)
      (simp add: insert_order_def insert_option_rows_def order_item_ok_def int4_ok_def sql_insert_def
        latte_order_def latte_line_def latte_option_def latte_priced_def shop_with_def shop_def throw_if_def
        append_history_def opening_history_def moved_def)
qed

lemma latte_build:
  "build bangkok shop_config morning fresh (DevicePrincipal ''k1'') one_latte (shop_with ks) =
   persist bangkok shop_config morning fresh (DevicePrincipal ''k1'') KIOSK one_latte latte_priced (shop_with ks)"
proof -
  have "map rq_menuItemId (in_items one_latte) = [''latte'']" "in_expectedTotalMinor one_latte = Some 22000"
    "pr_totalMinor latte_priced = 22000" "VAT_BASIS_POINTS shop_config = 700"
    by (simp_all add: one_latte_def latte_priced_def shop_config_def)
  moreover have "resolveChannel (DevicePrincipal ''k1'') one_latte (shop_with ks) = Inr KIOSK"
    by (simp add: resolveChannel_def one_latte_def shop_with_def shop_def row_by_def sql_find_def)
  ultimately show ?thesis using latte_price by (simp add: build_def)
qed

lemma ordered_tables:
  "tables ordered = (tables shop)\<lparr>orders := [latte_order PENDING_PAYMENT (Some 1709259000000)],
     orderItems := [latte_line], orderItemOptions := [latte_option],
     orderStatusHistory := [moved None PENDING_PAYMENT DEVICE ''k1'' None morning],
     orderNumberCounters := [(''2024-03-01'', 1)]\<rparr>"
  using latte_build [of "[]"] latte_persist [of "[]"]
  by (simp add: ordered_def create_def create_work_def db_transaction_def shop_with_Nil)

text \<open>The same request under an idempotency key succeeds as well.\<close>

lemma ordered_with_key:
  "\<exists>b w1. create id bangkok shop_config id morning fresh (DevicePrincipal ''k1'') one_latte
     (Some ''key-00000001'') shop = (Inr (b, False), w1)"
proof -
  have "reserveKey k h t (tables shop) = Inr (shop_with [\<lparr>idk_key = k, idk_requestHash = h,
      idk_responseStatus = None, idk_responseBody = None, idk_expiresAt = t\<rparr>])" for k h t
    by (simp add: reserveKey_def sql_insert_def shop_with_def shop_def)
  then show ?thesis
    by (simp add: create_def create_work_def db_transaction_def latte_build latte_persist del: shop_with_Nil)
qed

lemma paid_up_tables:
  "tables paid_up = (tables ordered)\<lparr>orders := [latte_order PAID None], payments := [cash_payment],
     orderStatusHistory := [moved None PENDING_PAYMENT DEVICE ''k1'' None morning,
       moved (Some PENDING_PAYMENT) PAID USER ''u1'' None (morning + 60000)]\<rparr>"
proof -
  have "cash_row (morning + 60000) ''p1'' (latte_order PENDING_PAYMENT (Some 1709259000000)) 30000 None = cash_payment"
    by (simp add: cash_row_def cash_payment_def latte_order_def)
  moreover have "payments (tables shop) = []" by (simp add: shop_def)
  ultimately show ?thesis
    by (simp add: paid_up_def create_payment_def ordered_tables loadPayableOrder_def payable_order_def
        row_by_def sql_find_def latte_order_def live_payment_def takeCash_def write_payment_def
        write_work_def afterCommit_run_def cash_work_def insertPayment_def insert_payment_row_def
        cash_row_def cash_payment_def int4_ok_def sql_insert_def transitionOrder_def sql_update_def
        moved_order_def history_of_def append_history_def moved_def)
qed

lemma part_refunded_tables:
  "tables part_refunded = (tables paid_up)\<lparr>refunds := [half_back ''r1'' ''cold'']\<rparr>"
proof -
  have "refunds (tables shop) = []" by (simp add: shop_def)
  then show ?thesis
    by (simp add: part_refunded_def refund_def paid_up_tables ordered_tables row_by_def sql_find_def shop_day
        cash_payment_def latte_order_def afterCommit_run_def refund_work_def refunded_def
        insert_refund_row_def refund_row_of_def half_back_def int4_ok_def sql_insert_def)
qed

lemma fully_refunded_tables:
  "tables fully_refunded = (tables paid_up)\<lparr>orders := [latte_order REFUNDED None],
     refunds := [half_back ''r1'' ''cold'', half_back ''r2'' ''both cold''],
     orderStatusHistory := orderStatusHistory (tables paid_up) @
       [moved (Some PAID) REFUNDED USER ''m1'' (Some ''both cold'') (morning + 180000)]\<rparr>"
  by (simp add: fully_refunded_def part_refunded_tables refund_def paid_up_tables ordered_tables row_by_def
      sql_find_def shop_day cash_payment_def latte_order_def afterCommit_run_def refund_work_def refunded_def
      insert_refund_row_def refund_row_of_def half_back_def int4_ok_def sql_insert_def transitionOrder_def
      sql_update_def moved_order_def history_of_def append_history_def moved_def)

lemma awaiting_card_tables:
  "tables awaiting_card = (tables ordered)\<lparr>payments := [card_payment PAY_PENDING None]\<rparr>"
proof -
  have "payments (tables shop) = []" by (simp add: shop_def)
  then show ?thesis
    by (simp add: awaiting_card_def create_payment_def ordered_tables loadPayableOrder_def payable_order_def
        row_by_def sql_find_def latte_order_def live_payment_def openGatewayPayment_def open_gateway_def
        write_payment_def write_work_def afterCommit_run_def gateway_work_def insertPayment_def
        insert_payment_row_def gateway_row_def card_payment_def int4_ok_def sql_insert_def)
qed

lemma captured_tables:
  "orders (tables captured) = [latte_order PAID None]"
  "payments (tables captured) = [card_payment PAY_SUCCEEDED (Some CARD)]"
  and captured_events: "map ev_providerEventId (paymentEvents (tables captured)) = [''evt_1'']"
proof -
  have e: "paymentEvents (tables shop) = []" by (simp add: shop_def)
  show "orders (tables captured) = [latte_order PAID None]"
    "payments (tables captured) = [card_payment PAY_SUCCEEDED (Some CARD)]"
    "map ev_providerEventId (paymentEvents (tables captured)) = [''evt_1'']"
    by (simp_all add: captured_def receive_def open_gateway_def record_event_def sql_insert_def e
        awaiting_card_tables ordered_tables processEvent_def apply_event_def decide_at_def sql_find_def
        load_payment_def load_order_def row_by_def card_payment_def latte_order_def decidePaymentOutcome_def
        decideSuccess_def markPaid_def resolve_rail_def afterCommit_run_def mark_paid_work_def
        transitionOrder_def sql_update_def moved_order_def append_history_def markProcessed_def Let_def)
qed

end
