(* ===== verification/Codec.thy ===== *)
theory Codec
  imports RequestHash
begin

text \<open>
  The text codecs of the platform that the order cursor is built on: \<open>Buffer\<close>'s
  \<open>base64url\<close> and \<open>JSON.parse\<close>. A character is a byte; a \<open>u\<close> escape of a
  JSON string stands for the bytes of its UTF-8 encoding. Reading base64 skips what is in neither
  alphabet, as \<open>Buffer\<close> does. \<open>JSON.parse\<close> keeps the text of a number; its recursion
  is on what is left of the input, and each step checks that something was consumed.
\<close>

section \<open>Definitions\<close>

subsection \<open>\<open>base64url\<close>\<close>

definition sextet_char :: "nat \<Rightarrow> char" where
  "sextet_char n =
     (if n < 26 then char_of (65 + n) else if n < 52 then char_of (71 + n)
      else if n < 62 then char_of (n - 4) else if n = 62 then CHR ''-'' else CHR ''_'')"

definition sextet_value :: "char \<Rightarrow> nat option" where
  "sextet_value c =
     (let n = (of_char c :: nat) in
      if 65 \<le> n \<and> n \<le> 90 then Some (n - 65) else if 97 \<le> n \<and> n \<le> 122 then Some (n - 71)
      else if 48 \<le> n \<and> n \<le> 57 then Some (n + 4)
      else if n = 43 \<or> n = 45 then Some 62 else if n = 47 \<or> n = 95 then Some 63 else None)"

fun sextets :: "nat list \<Rightarrow> nat list" where
  "sextets (a # b # c # bs) =
     [a div 4, a mod 4 * 16 + b div 16, b mod 16 * 4 + c div 64, c mod 64] @ sextets bs"
| "sextets [a, b] = [a div 4, a mod 4 * 16 + b div 16, b mod 16 * 4]"
| "sextets [a] = [a div 4, a mod 4 * 16]"
| "sextets [] = []"

fun octets :: "nat list \<Rightarrow> nat list" where
  "octets (w # x # y # z # ss) =
     [w * 4 + x div 16, x mod 16 * 16 + y div 4, y mod 4 * 64 + z] @ octets ss"
| "octets [w, x, y] = [w * 4 + x div 16, x mod 16 * 16 + y div 4]"
| "octets [w, x] = [w * 4 + x div 16]"
| "octets _ = []"

definition to_base64url :: "string \<Rightarrow> string" where
  "to_base64url s = map sextet_char (sextets (map of_char s))"

definition from_base64url :: "string \<Rightarrow> string" where
  "from_base64url s = map char_of (octets (List.map_filter sextet_value s))"

subsection \<open>\<open>JSON.parse\<close>\<close>

datatype parsed =
    PNull
  | PBool bool
  | PNum string
  | PStr string
  | PArr "parsed list"
  | PObj "(string \<times> parsed) list"

definition json_space :: "char \<Rightarrow> bool" where
  "json_space c \<longleftrightarrow> (of_char c :: nat) \<in> {9, 10, 13, 32}"

definition skip_space :: "string \<Rightarrow> string" where
  "skip_space s = dropWhile json_space s"

definition hex_of :: "char \<Rightarrow> nat option" where
  "hex_of c =
     (let n = (of_char c :: nat) in
      if 48 \<le> n \<and> n \<le> 57 then Some (n - 48) else if 97 \<le> n \<and> n \<le> 102 then Some (n - 87)
      else if 65 \<le> n \<and> n \<le> 70 then Some (n - 55) else None)"

definition utf8 :: "nat \<Rightarrow> string" where
  "utf8 n =
     (if n < 128 then [char_of n]
      else if n < 2048 then [char_of (192 + n div 64), char_of (128 + n mod 64)]
      else [char_of (224 + n div 4096), char_of (128 + n div 64 mod 64), char_of (128 + n mod 64)])"

definition simple_escape :: "char \<Rightarrow> char option" where
  "simple_escape c =
     (let n = (of_char c :: nat) in
      if n = 34 \<or> n = 92 \<or> n = 47 then Some c
      else if n = 98 then Some (char_of (8 :: nat)) else if n = 102 then Some (char_of (12 :: nat))
      else if n = 110 then Some (char_of (10 :: nat)) else if n = 114 then Some (char_of (13 :: nat))
      else if n = 116 then Some (char_of (9 :: nat)) else None)"

text \<open>The rest of a string whose opening quote has been read.\<close>

fun parse_string :: "string \<Rightarrow> (string \<times> string) option" where
  "parse_string [] = None"
| "parse_string (c # cs) =
     (let n = (of_char c :: nat) in
      if n = 34 then Some ([], cs)
      else if n < 32 then None
      else if n \<noteq> 92 then map_option (\<lambda>(s, r). (c # s, r)) (parse_string cs)
      else case cs of
             [] \<Rightarrow> None
           | e # es \<Rightarrow>
               (case simple_escape e of
                  Some x \<Rightarrow> map_option (\<lambda>(s, r). (x # s, r)) (parse_string es)
                | None \<Rightarrow>
                    (case es of
                       h1 # h2 # h3 # h4 # rest \<Rightarrow>
                         (case (of_char e = (117 :: nat), hex_of h1, hex_of h2, hex_of h3, hex_of h4) of
                            (True, Some a, Some b, Some d, Some f) \<Rightarrow>
                              map_option (\<lambda>(s, r). (utf8 (a * 4096 + b * 256 + d * 16 + f) @ s, r)) (parse_string rest)
                          | _ \<Rightarrow> None)
                     | _ \<Rightarrow> None)))"

definition is_digit :: "char \<Rightarrow> bool" where
  "is_digit c \<longleftrightarrow> digit_value c \<noteq> None"

text \<open>A number's text: an optional sign, an integer part, a fraction and an exponent.\<close>

definition digits1 :: "string \<Rightarrow> (string \<times> string) option" where
  "digits1 s = (if takeWhile is_digit s = [] then None else Some (takeWhile is_digit s, dropWhile is_digit s))"

definition parse_int_part :: "string \<Rightarrow> (string \<times> string) option" where
  "parse_int_part s =
     (case s of CHR ''0'' # r \<Rightarrow> Some (''0'', r) | _ \<Rightarrow> digits1 s)"

definition parse_fraction :: "string \<Rightarrow> (string \<times> string) option" where
  "parse_fraction s =
     (case s of CHR ''.'' # r \<Rightarrow> map_option (\<lambda>(t, u). (CHR ''.'' # t, u)) (digits1 r) | _ \<Rightarrow> Some ([], s))"

definition parse_exponent :: "string \<Rightarrow> (string \<times> string) option" where
  "parse_exponent s =
     (case s of
        e # r \<Rightarrow>
          if e \<noteq> CHR ''e'' \<and> e \<noteq> CHR ''E'' then Some ([], s)
          else (case r of
                  c # r' \<Rightarrow>
                    if c = CHR ''+'' \<or> c = CHR ''-'' then map_option (\<lambda>(t, u). (e # c # t, u)) (digits1 r')
                    else map_option (\<lambda>(t, u). (e # t, u)) (digits1 r)
                | [] \<Rightarrow> None)
      | [] \<Rightarrow> Some ([], s))"

definition parse_number :: "string \<Rightarrow> (string \<times> string) option" where
  "parse_number s =
     (let (sign, body) = (case s of CHR ''-'' # r \<Rightarrow> (''-'', r) | _ \<Rightarrow> ([], s)) in
      Option.bind (parse_int_part body) (\<lambda>(i, r1).
      Option.bind (parse_fraction r1) (\<lambda>(f, r2).
      Option.bind (parse_exponent r2) (\<lambda>(e, r3). Some (sign @ i @ f @ e, r3)))))"

fun strip_prefix :: "string \<Rightarrow> string \<Rightarrow> string option" where
  "strip_prefix [] s = Some s"
| "strip_prefix (p # ps) [] = None"
| "strip_prefix (p # ps) (c # cs) = (if p = c then strip_prefix ps cs else None)"

definition parse_literal :: "string \<Rightarrow> (parsed \<times> string) option" where
  "parse_literal s =
     (case strip_prefix ''null'' s of Some r \<Rightarrow> Some (PNull, r) | None \<Rightarrow>
      case strip_prefix ''true'' s of Some r \<Rightarrow> Some (PBool True, r) | None \<Rightarrow>
      case strip_prefix ''false'' s of Some r \<Rightarrow> Some (PBool False, r) | None \<Rightarrow>
      map_option (\<lambda>(t, r). (PNum t, r)) (parse_number s))"

text \<open>
  \<open>parse_elements\<close> and \<open>parse_members\<close> read a non-empty list up to its closing bracket.
\<close>

function parse_value :: "string \<Rightarrow> (parsed \<times> string) option"
  and parse_elements :: "string \<Rightarrow> (parsed list \<times> string) option"
  and parse_members :: "string \<Rightarrow> ((string \<times> parsed) list \<times> string) option" where
  "parse_value s =
     (case skip_space s of
        [] \<Rightarrow> None
      | c # cs \<Rightarrow>
          if of_char c = (34 :: nat) then map_option (\<lambda>(t, r). (PStr t, r)) (parse_string cs)
          else if c = CHR ''['' then
            (case skip_space cs of
               CHR '']'' # r \<Rightarrow> Some (PArr [], r)
             | _ \<Rightarrow> if length cs < length s then map_option (\<lambda>(vs, r). (PArr vs, r)) (parse_elements cs) else None)
          else if c = CHR ''{'' then
            (case skip_space cs of
               CHR ''}'' # r \<Rightarrow> Some (PObj [], r)
             | _ \<Rightarrow> if length cs < length s then map_option (\<lambda>(es, r). (PObj es, r)) (parse_members cs) else None)
          else parse_literal (c # cs))"
| "parse_elements s =
     (case parse_value s of
        None \<Rightarrow> None
      | Some (v, r) \<Rightarrow>
          (case skip_space r of
             CHR '']'' # r' \<Rightarrow> Some ([v], r')
           | CHR '','' # r' \<Rightarrow>
               if length r' < length s then map_option (\<lambda>(vs, t). (v # vs, t)) (parse_elements r') else None
           | _ \<Rightarrow> None))"
| "parse_members s =
     (case skip_space s of
        q # cs \<Rightarrow>
          if of_char q \<noteq> (34 :: nat) then None
          else (case parse_string cs of
            None \<Rightarrow> None
          | Some (k, r) \<Rightarrow>
              (case skip_space r of
                 CHR '':'' # r1 \<Rightarrow>
                   if length r1 < length s then
                     (case parse_value r1 of
                        None \<Rightarrow> None
                      | Some (v, r2) \<Rightarrow>
                          (case skip_space r2 of
                             CHR ''}'' # r3 \<Rightarrow> Some ([(k, v)], r3)
                           | CHR '','' # r3 \<Rightarrow>
                               if length r3 < length s
                               then map_option (\<lambda>(es, t). ((k, v) # es, t)) (parse_members r3) else None
                           | _ \<Rightarrow> None))
                   else None
               | _ \<Rightarrow> None))
      | [] \<Rightarrow> None)"
  by pat_completeness auto
termination
  by (relation "measure (case_sum (\<lambda>s. 2 * length s) (case_sum (\<lambda>s. 2 * length s + 1) (\<lambda>s. 2 * length s + 1)))") auto

declare parse_value.simps [simp del] parse_elements.simps [simp del] parse_members.simps [simp del]

text \<open>\<open>None\<close> is the \<open>SyntaxError\<close> of \<open>JSON.parse\<close>: the whole text must be one value.\<close>

definition json_parse :: "string \<Rightarrow> parsed option" where
  "json_parse s =
     (case parse_value s of
        Some (v, r) \<Rightarrow> if skip_space r = [] then Some v else None
      | None \<Rightarrow> None)"

section \<open>Lemmas\<close>

subsection \<open>Reading back base64\<close>

lemma sextet_roundtrip: "n < 64 \<Longrightarrow> sextet_value (sextet_char n) = Some n"
  by (auto simp: sextet_char_def sextet_value_def Let_def)

lemma unpack [simp]:
  "x < m \<Longrightarrow> (q * m + x) div m = q" "x < m \<Longrightarrow> (q * m + x) mod m = (x :: nat)"
  by simp_all

lemma byte_parts:
  assumes "a < (256 :: nat)"
  shows "a div 4 < 64" "a div 16 < 16" "a div 64 < 4"
  using assms by (simp_all add: less_mult_imp_div_less)

lemma packed_bound: "q < n \<Longrightarrow> x < m \<Longrightarrow> q * m + x < n * (m :: nat)"
proof -
  assume "q < n" "x < m"
  then have "q * m + x < Suc q * m" by simp
  also have "\<dots> \<le> n * m" using \<open>q < n\<close> by (intro mult_le_mono1) simp
  finally show ?thesis .
qed

lemma sextet_bounds:
  assumes "a < (256 :: nat)" "b < 256" "c < 256"
  shows "a div 4 < 64" "a mod 4 * 16 + b div 16 < 64" "b mod 16 * 4 + c div 64 < 64" "c mod 64 < 64"
    "a mod 4 * 16 < 64" "b mod 16 * 4 < 64"
  using packed_bound [of "a mod 4" 4 "b div 16" 16] packed_bound [of "b mod 16" 16 "c div 64" 4]
    packed_bound [of "a mod 4" 4 0 16] packed_bound [of "b mod 16" 16 0 4] byte_parts assms
  by simp_all

lemma sextets_bound: "(\<And>b. b \<in> set bs \<Longrightarrow> b < 256) \<Longrightarrow> s \<in> set (sextets bs) \<Longrightarrow> s < 64"
proof (induction bs rule: sextets.induct)
  case (1 a b c bs)
  then show ?case using sextet_bounds [of a b c] by auto
next
  case (2 a b)
  then show ?case using sextet_bounds [of a b 0] by auto
next
  case (3 a)
  then show ?case using sextet_bounds [of a 0 0] by auto
qed simp

lemma repack [simp]: "a div 4 * 4 + a mod 4 = (a :: nat)" "a div 16 * 16 + a mod 16 = a" "a div 64 * 64 + a mod 64 = a"
  by (simp_all add: div_mult_mod_eq)

lemma octets_sextets: "(\<And>b. b \<in> set bs \<Longrightarrow> b < 256) \<Longrightarrow> octets (sextets bs) = bs"
proof (induction bs rule: sextets.induct)
  case (1 a b c bs)
  then have "b div 16 < 16" "c div 64 < 4" using byte_parts by auto
  with 1 show ?case by simp
next
  case (2 a b)
  then have "b div 16 < 16" using byte_parts by auto
  then show ?case by simp
next
  case (3 a)
  then show ?case using unpack(1) [of 0 16 "a mod 4"] by simp
qed simp

lemma map_filter_sextets:
  "(\<And>s. s \<in> set ss \<Longrightarrow> s < 64) \<Longrightarrow> List.map_filter sextet_value (map sextet_char ss) = ss"
  by (induction ss) (simp_all add: List.map_filter_simps sextet_roundtrip)

lemma base64url_roundtrip: "from_base64url (to_base64url s) = s"
proof -
  have b: "b < 256" if "b \<in> set (map of_char s)" for b :: nat using that by auto
  have "octets (sextets (map of_char s)) = map of_char s" by (rule octets_sextets [OF b])
  moreover have "List.map_filter sextet_value (map sextet_char (sextets (map of_char s))) = sextets (map of_char s)"
    by (rule map_filter_sextets) (rule sextets_bound [OF b])
  ultimately show ?thesis
    unfolding from_base64url_def to_base64url_def by (simp add: comp_def)
qed

subsection \<open>Reading back a printed object\<close>

lemma hex_of_digit: "n < 16 \<Longrightarrow> hex_of (hex_digit n) = Some n"
proof -
  assume "n < 16"
  then have "n \<in> set [0..<16]" by simp
  moreover have "\<forall>k \<in> set [0..<16]. hex_of (hex_digit k) = Some k" by code_simp
  ultimately show ?thesis by blast
qed

lemma parse_escaped:
  "parse_string (escape_char c @ t) = map_option (\<lambda>(s, r). (c # s, r)) (parse_string t)"
proof -
  define n where "n = (of_char c :: nat)"
  have c: "c = char_of n" by (simp add: n_def)
  consider "n \<in> {34, 92, 8, 9, 10, 12, 13}" | "n < 32" "n \<notin> {8, 9, 10, 12, 13}"
    | "n \<ge> 32" "n \<notin> {34, 92}" by force
  then show ?thesis
  proof cases
    case 1
    then show ?thesis
      by (auto simp: escape_char_def n_def [symmetric] Let_def simple_escape_def c)
  next
    case 2
    have h: "hex_of (CHR ''0'') = Some 0" by code_simp
    have hx: "hex_of (hex_digit (n div 16)) = Some (n div 16)" "hex_of (hex_digit (n mod 16)) = Some (n mod 16)"
      using 2 by (simp_all add: hex_of_digit)
    have "n div 16 * 16 + n mod 16 = n" by simp
    with 2 show ?thesis
      by (auto simp: escape_char_def n_def [symmetric] Let_def simple_escape_def h hx utf8_def c)
  next
    case 3
    then show ?thesis by (auto simp: escape_char_def n_def [symmetric] Let_def)
  qed
qed

lemma parse_printed_string:
  "parse_string (concat (map escape_char s) @ CHR 0x22 # r) = Some (s, r)"
  by (induction s) (simp_all add: parse_escaped)

lemma skip_space_id: "\<not> json_space c \<Longrightarrow> skip_space (c # cs) = c # cs"
  by (simp add: skip_space_def)

lemma not_space [simp]:
  "\<not> json_space (CHR 0x22)" "\<not> json_space (CHR ''{'')" "\<not> json_space (CHR ''}'')"
  "\<not> json_space (CHR '','')" "\<not> json_space (CHR '':'')"
  by (simp_all add: json_space_def)

lemmas skip_token = skip_space_id [OF not_space(1)] skip_space_id [OF not_space(2)] skip_space_id [OF not_space(3)]
  skip_space_id [OF not_space(4)] skip_space_id [OF not_space(5)]

lemma parse_printed_value: "parse_value (stringify_string s @ r) = Some (PStr s, r)"
  by (simp add: parse_value.simps stringify_string_def skip_token parse_printed_string)

text \<open>The members of an object of strings, as \<open>JSON.stringify\<close> prints them.\<close>

definition print_members :: "(string \<times> string) list \<Rightarrow> string" where
  "print_members es = join '','' (map (\<lambda>(k, v). stringify_string k @ '':'' @ stringify_string v) es)"

lemma parse_member_last:
  "parse_members (stringify_string k @ '':'' @ stringify_string v @ ''}'' @ r) = Some ([(k, PStr v)], r)"
proof -
  have v: "parse_value (stringify_string v @ CHR ''}'' # r) = Some (PStr v, CHR ''}'' # r)"
    by (rule parse_printed_value)
  show ?thesis
    by (subst parse_members.simps)
      (simp add: stringify_string_def [of k] skip_token parse_printed_string v)
qed

lemma parse_member_more:
  assumes "parse_members t = Some (es, r)"
  shows "parse_members (stringify_string k @ '':'' @ stringify_string v @ '','' @ t) = Some ((k, PStr v) # es, r)"
proof -
  have v: "parse_value (stringify_string v @ CHR '','' # t) = Some (PStr v, CHR '','' # t)"
    by (rule parse_printed_value)
  show ?thesis
    by (subst parse_members.simps)
      (simp add: stringify_string_def [of k] skip_token parse_printed_string v assms)
qed

lemma parse_printed_members:
  "es \<noteq> [] \<Longrightarrow> parse_members (print_members es @ ''}'' @ r) = Some (map (\<lambda>(k, v). (k, PStr v)) es, r)"
proof (induction es)
  case (Cons e es)
  obtain k v where [simp]: "e = (k, v)" by fastforce
  show ?case
  proof (cases es)
    case Nil
    then show ?thesis using parse_member_last [of k v r] by (simp add: print_members_def)
  next
    case (Cons e' es')
    then have "parse_members (print_members es @ ''}'' @ r) = Some (map (\<lambda>(k, v). (k, PStr v)) es, r)"
      using Cons.IH by blast
    from parse_member_more [OF this, of k v] show ?thesis
      by (simp add: print_members_def Cons)
  qed
qed simp

lemma json_parse_printed:
  assumes "es \<noteq> []"
  shows "json_parse (''{'' @ print_members es @ ''}'') = Some (PObj (map (\<lambda>(k, v). (k, PStr v)) es))"
proof -
  have h: "\<exists>t. print_members es = CHR 0x22 # t"
    using assms by (cases es; cases "tl es") (auto simp: print_members_def stringify_string_def split: prod.splits)
  then obtain t where t: "print_members es = CHR 0x22 # t" by blast
  have "parse_value (''{'' @ print_members es @ ''}'') = Some (PObj (map (\<lambda>(k, v). (k, PStr v)) es), [])"
    using parse_printed_members [OF assms, of "[]"]
    by (subst parse_value.simps) (simp add: skip_token t)
  then show ?thesis by (simp add: json_parse_def skip_space_def)
qed

end
