(* ===== verification/Query.thy ===== *)
theory Query
  imports Codec OrderExit "HOL-Library.Product_Lexorder" "HOL-Library.Sublist"
begin

text \<open>
  \<open>orders/query/\<close>: reading orders back. The cursor (\<open>cursor.ts\<close>), the query parameters
  (\<open>orders-query.dto.ts\<close>), and the list and detail reads (\<open>orders-read.service.ts\<close>).

  Identifiers are the lower-case text of a \<open>uuid\<close>, which orders as the column does. A page of
  the list is the filtered rows in the order of (sort column, id), from the cursor on; the database
  compares \<open>created_at\<close> in microseconds, while a cursor carries what \<open>toISOString\<close> prints.
  The parsers of dates and numbers inside the validation library are arguments.
\<close>

section \<open>Definitions\<close>

subsection \<open>\<open>cursor.ts\<close>\<close>

definition ends_with :: "string \<Rightarrow> string \<Rightarrow> bool" where
  "ends_with p s \<longleftrightarrow> suffix p s"

definition encodeCursor :: "string \<Rightarrow> string \<Rightarrow> string \<Rightarrow> string" where
  "encodeCursor sortSpec value rowId =
     to_base64url (''{'' @ print_members [(''s'', sortSpec), (''v'', value), (''i'', rowId)] @ ''}'')"

definition UUID_PATTERN :: "string \<Rightarrow> bool" where
  "UUID_PATTERN s \<longleftrightarrow>
     list_all2 (\<lambda>t c. if t = CHR ''h'' then hex_of c \<noteq> None else c = t)
       ''hhhhhhhh-hhhh-hhhh-hhhh-hhhhhhhhhhhh'' s"

definition MAX_SAFE_INTEGER :: nat where "MAX_SAFE_INTEGER = 2 ^ 53 - 1"

text \<open>\<open>/^-?\d+$/\<close>, and the number a matching text stands for.\<close>

definition signed_digits :: "string \<Rightarrow> int option" where
  "signed_digits s =
     (case s of
        [] \<Rightarrow> None
      | c # ds \<Rightarrow>
          if c \<noteq> CHR ''-'' then map_option int (digits_value 0 s)
          else if ds = [] then None else map_option (\<lambda>n. - int n) (digits_value 0 ds))"

definition iso_shaped :: "string \<Rightarrow> bool" where
  "iso_shaped s \<longleftrightarrow>
     list_all2 (\<lambda>t c. if t = CHR ''d'' then is_digit c else c = t) ''dddd-dd-ddTdd:dd:dd.dddZ'' s"

definition number_at :: "string \<Rightarrow> nat \<Rightarrow> nat \<Rightarrow> int" where
  "number_at s i k = (case digits_value 0 (take k (drop i s)) of None \<Rightarrow> 0 | Some n \<Rightarrow> int n)"

record iso_fields =
  iso_year :: int
  iso_month :: int
  iso_day :: int
  iso_time :: int
  iso_clock :: "int \<times> int \<times> int \<times> int"

definition iso_read :: "string \<Rightarrow> iso_fields" where
  "iso_read s =
     (let h = number_at s 11 2; mi = number_at s 14 2; sec = number_at s 17 2; ms = number_at s 20 3
      in \<lparr>iso_year = number_at s 0 4, iso_month = number_at s 5 2, iso_day = number_at s 8 2,
          iso_time = ((h * 60 + mi) * 60 + sec) * 1000 + ms, iso_clock = (h, mi, sec, ms)\<rparr>)"

text \<open>
  \<open>Date.parse\<close> of such a text: the engine accepts any day up to 31 and carries it over; the
  hour 24 only as midnight.
\<close>

definition date_parse :: "string \<Rightarrow> int option" where
  "date_parse s =
     (let f = iso_read s in
      case iso_clock f of (h, mi, sec, ms) \<Rightarrow>
        if 1 \<le> iso_month f \<and> iso_month f \<le> 12 \<and> 1 \<le> iso_day f \<and> iso_day f \<le> 31 \<and>
           mi < 60 \<and> sec < 60 \<and> (h < 24 \<or> h = 24 \<and> mi = 0 \<and> sec = 0 \<and> ms = 0)
        then Some (makeDay (iso_year f) (iso_month f - 1) (iso_day f) * MILLIS_PER_DAY + iso_time f)
        else None)"

definition isIssuableValue :: "string \<Rightarrow> string \<Rightarrow> bool" where
  "isIssuableValue sortSpec value \<longleftrightarrow>
     (if ends_with ''totalMinor'' sortSpec
      then (case signed_digits value of None \<Rightarrow> False | Some n \<Rightarrow> \<bar>n\<bar> \<le> int MAX_SAFE_INTEGER)
      else iso_shaped value \<and> date_parse value \<noteq> None)"

record cursor =
  cu_value :: string
  cu_id :: string

definition text_field :: "string \<Rightarrow> (string \<times> parsed) list \<Rightarrow> string option" where
  "text_field k es = (case map_of (rev es) k of Some (PStr s) \<Rightarrow> Some s | _ \<Rightarrow> None)"

definition decodeCursor :: "string \<Rightarrow> string \<Rightarrow> cursor result" where
  "decodeCursor raw sortSpec =
     (case json_parse (from_base64url raw) of
        Some (PObj es) \<Rightarrow>
          (case (text_field ''s'' es, text_field ''v'' es, text_field ''i'' es) of
             (Some s, Some v, Some i) \<Rightarrow>
               if s \<noteq> sortSpec then Inl CursorInvalidError
               else if \<not> UUID_PATTERN i then Inl CursorInvalidError
               else if \<not> isIssuableValue sortSpec v then Inl CursorInvalidError
               else Inr \<lparr>cu_value = v, cu_id = i\<rparr>
           | _ \<Rightarrow> Inl CursorInvalidError)
      | _ \<Rightarrow> Inl CursorInvalidError)"

subsection \<open>\<open>orders-query.dto.ts\<close>\<close>

record orders_query =
  oq_status :: "order_status list option"
  oq_channel :: "order_channel list option"
  oq_method :: "payment_method list option"
  oq_from :: "int option"
  oq_to :: "int option"
  oq_businessDay :: "string option"
  oq_q :: "string option"
  oq_sort :: string
  oq_limit :: nat
  oq_cursor :: "string option"

definition orderSorts :: "string list" where
  "orderSorts = [''-createdAt'', ''createdAt'', ''-totalMinor'', ''totalMinor'']"

definition DEFAULT_LIMIT :: nat where "DEFAULT_LIMIT = 25"
definition MAX_LIMIT :: nat where "MAX_LIMIT = 100"
definition MAX_RANGE_MS :: int where "MAX_RANGE_MS = 92 * 24 * 60 * 60 * 1000"
definition MAX_SEARCH_LENGTH :: nat where "MAX_SEARCH_LENGTH = 40"

definition status_named :: "string \<Rightarrow> order_status option" where
  "status_named s = map_of
     [(''DRAFT'', DRAFT), (''PENDING_PAYMENT'', PENDING_PAYMENT), (''PAID'', PAID),
      (''IN_PREPARATION'', IN_PREPARATION), (''READY'', READY), (''COMPLETED'', COMPLETED),
      (''CANCELLED'', CANCELLED), (''EXPIRED'', EXPIRED), (''REFUNDED'', REFUNDED)] s"

definition channel_named :: "string \<Rightarrow> order_channel option" where
  "channel_named s = map_of [(''KIOSK'', KIOSK), (''COUNTER'', COUNTER)] s"

definition method_named :: "string \<Rightarrow> payment_method option" where
  "method_named s = map_of [(''CARD'', CARD), (''PROMPTPAY'', PROMPTPAY), (''CASH'', CASH)] s"

text \<open>A list of alternatives: every part trimmed and named, duplicates dropped.\<close>

definition commaSeparated :: "(string \<Rightarrow> 'a option) \<Rightarrow> string \<Rightarrow> 'a list option" where
  "commaSeparated named raw =
     (let parts = map (named \<circ> js_trim) (split_on (CHR '','') raw)
      in if None \<in> set parts then None else Some (rev (remdups (rev (map the parts)))))"

text \<open>A parameter that is absent, or present and parsed; \<open>None\<close> is a validation failure.\<close>

definition optional_param :: "(string \<Rightarrow> 'a option) \<Rightarrow> string option \<Rightarrow> 'a option option" where
  "optional_param f raw = (case raw of None \<Rightarrow> Some None | Some s \<Rightarrow> map_option Some (f s))"

definition search_text :: "string \<Rightarrow> string option" where
  "search_text s =
     (let t = js_trim s in if 1 \<le> length t \<and> length t \<le> MAX_SEARCH_LENGTH then Some t else None)"

definition limit_of :: "(string \<Rightarrow> int option) \<Rightarrow> string \<Rightarrow> nat option" where
  "limit_of number s =
     (case number s of
        Some n \<Rightarrow> if 1 \<le> n \<and> n \<le> int MAX_LIMIT then Some (nat n) else None
      | None \<Rightarrow> None)"

definition range_ok :: "int option \<Rightarrow> int option \<Rightarrow> bool" where
  "range_ok from until \<longleftrightarrow>
     (case (from, until) of
        (Some a, Some b) \<Rightarrow> a \<le> b \<and> b - a \<le> MAX_RANGE_MS
      | (None, None) \<Rightarrow> True
      | _ \<Rightarrow> False)"

definition query_keys :: "string list" where
  "query_keys = [''status'', ''channel'', ''method'', ''from'', ''to'', ''businessDay'', ''q'',
     ''sort'', ''limit'', ''cursor'']"

text \<open>
  \<open>OrdersQuerySchema\<close>. The raw parameters are the pairs of the query string; a repeated key
  arrives as an array, which no field accepts. \<open>datetime\<close> reads an ISO instant,
  \<open>date\<close> checks a date label, \<open>number\<close> coerces an integer.
\<close>

definition parseOrdersQuery ::
  "(string \<Rightarrow> int option) \<Rightarrow> (string \<Rightarrow> bool) \<Rightarrow> (string \<Rightarrow> int option) \<Rightarrow> (string \<times> string) list \<Rightarrow>
   orders_query option" where
  "parseOrdersQuery datetime date number raw =
     (let param = map_of raw in
      if \<not> distinct (map fst raw) \<or> \<not> set (map fst raw) \<subseteq> set query_keys then None
      else Option.bind (optional_param (commaSeparated status_named) (param ''status'')) (\<lambda>status.
        Option.bind (optional_param (commaSeparated channel_named) (param ''channel'')) (\<lambda>channel.
        Option.bind (optional_param (commaSeparated method_named) (param ''method'')) (\<lambda>method.
        Option.bind (optional_param datetime (param ''from'')) (\<lambda>from.
        Option.bind (optional_param datetime (param ''to'')) (\<lambda>until.
        Option.bind (optional_param (\<lambda>s. if date s then Some s else None) (param ''businessDay'')) (\<lambda>day.
        Option.bind (optional_param search_text (param ''q'')) (\<lambda>q.
        Option.bind (optional_param (\<lambda>s. if List.member orderSorts s then Some s else None) (param ''sort'')) (\<lambda>sortSpec.
        Option.bind (optional_param (limit_of number) (param ''limit'')) (\<lambda>limit.
        Option.bind (optional_param (\<lambda>s. if s = [] then None else Some s) (param ''cursor'')) (\<lambda>cursor.
        if \<not> range_ok from until then None
        else Some \<lparr>oq_status = status, oq_channel = channel, oq_method = method, oq_from = from,
               oq_to = until, oq_businessDay = day, oq_q = q,
               oq_sort = (case sortSpec of None \<Rightarrow> ''-createdAt'' | Some s \<Rightarrow> s),
               oq_limit = (case limit of None \<Rightarrow> DEFAULT_LIMIT | Some n \<Rightarrow> n),
               oq_cursor = cursor\<rparr>)))))))))))"

subsection \<open>\<open>orders-read.service.ts\<close>\<close>

definition escapeLikePrefix :: "string \<Rightarrow> string" where
  "escapeLikePrefix value =
     concat (map (\<lambda>c. if c = CHR 0x5C \<or> c = CHR ''%'' \<or> c = CHR ''_'' then [CHR 0x5C, c] else [c]) value)"

text \<open>Postgres' \<open>LIKE\<close>, with the backslash as escape character; a trailing one matches nothing.\<close>

fun like :: "string \<Rightarrow> string \<Rightarrow> bool" where
  "like [] s \<longleftrightarrow> s = []"
| "like (p # ps) s \<longleftrightarrow>
     (if p = CHR ''%'' then like ps s \<or> (case s of [] \<Rightarrow> False | _ # cs \<Rightarrow> like (p # ps) cs)
      else if p = CHR ''_'' then (case s of [] \<Rightarrow> False | _ # cs \<Rightarrow> like ps cs)
      else if p = CHR 0x5C then
        (case ps of [] \<Rightarrow> False | e # es \<Rightarrow> (case s of [] \<Rightarrow> False | c # cs \<Rightarrow> c = e \<and> like es cs))
      else (case s of [] \<Rightarrow> False | c # cs \<Rightarrow> c = p \<and> like ps cs))"

definition ilike :: "string \<Rightarrow> string \<Rightarrow> bool" where
  "ilike s pattern \<longleftrightarrow> like (toLowerCase pattern) (toLowerCase s)"

definition within :: "'a list option \<Rightarrow> 'a \<Rightarrow> bool" where
  "within choices x \<longleftrightarrow> (case choices of None \<Rightarrow> True | Some xs \<Rightarrow> List.member xs x)"

definition paid_by :: "payment_method list option \<Rightarrow> string \<Rightarrow> ('p, 'b) db \<Rightarrow> bool" where
  "paid_by methods orderId d \<longleftrightarrow>
     (case methods of
        None \<Rightarrow> True
      | Some ms \<Rightarrow>
          list_ex (\<lambda>p. pay_orderId p = orderId \<and> pay_status p = PAY_SUCCEEDED \<and>
            (case pay_method p of None \<Rightarrow> False | Some m \<Rightarrow> List.member ms m)) (payments d))"

definition matches_search :: "string option \<Rightarrow> order_row \<Rightarrow> bool" where
  "matches_search q r \<longleftrightarrow>
     (case q of
        None \<Rightarrow> True
      | Some t \<Rightarrow> ord_number r = Some t \<or>
          (case ord_customerName r of None \<Rightarrow> False | Some name \<Rightarrow> ilike name (escapeLikePrefix t @ ''%'')))"

definition filters :: "orders_query \<Rightarrow> ('p, 'b) db \<Rightarrow> order_row \<Rightarrow> bool" where
  "filters query d r \<longleftrightarrow>
     within (oq_status query) (ord_status r) \<and> within (oq_channel query) (ord_channel r) \<and>
     paid_by (oq_method query) (ord_id r) d \<and>
     (case oq_businessDay query of None \<Rightarrow> True | Some day \<Rightarrow> ord_businessDay r = day) \<and>
     (case (oq_from query, oq_to query) of
        (Some a, Some b) \<Rightarrow> a * 1000 \<le> ord_createdAt r \<and> ord_createdAt r \<le> b * 1000
      | _ \<Rightarrow> True) \<and>
     matches_search (oq_q query) r"

text \<open>\<open>sortColumn\<close>: the column with the id that breaks ties, and the direction.\<close>

definition sortColumn :: "string \<Rightarrow> order_row \<Rightarrow> int \<times> string" where
  "sortColumn sortSpec r =
     (if ends_with ''totalMinor'' sortSpec then ord_totalMinor r else ord_createdAt r, ord_id r)"

definition descending :: "string \<Rightarrow> bool" where
  "descending sortSpec \<longleftrightarrow> (case sortSpec of [] \<Rightarrow> False | c # _ \<Rightarrow> c = CHR ''-'')"

definition sortValueOf :: "string \<Rightarrow> order_row \<Rightarrow> string" where
  "sortValueOf sortSpec r =
     (if ends_with ''totalMinor'' sortSpec then string_of_int (ord_totalMinor r)
      else toISOString (js_date (ord_createdAt r)))"

text \<open>\<open>::timestamptz\<close>, in microseconds: a date that does not exist is the driver's error.\<close>

definition timestamptz :: "string \<Rightarrow> int result" where
  "timestamptz s =
     (let f = iso_read s in
      if iso_year f = 0 \<or> \<not> valid_date (iso_year f) (iso_month f) (iso_day f) then Inl (OtherError ''22008'')
      else Inr ((makeDay (iso_year f) (iso_month f - 1) (iso_day f) * MILLIS_PER_DAY + iso_time f) * 1000))"

text \<open>\<open>::integer\<close>.\<close>

definition integer_cast :: "string \<Rightarrow> int result" where
  "integer_cast s =
     (case signed_digits s of
        Some n \<Rightarrow> if int4_ok n then Inr n else Inl NumericOutOfRange
      | None \<Rightarrow> Inl NumericOutOfRange)"

definition cursorPredicate :: "string \<Rightarrow> string \<Rightarrow> (order_row \<Rightarrow> bool) result" where
  "cursorPredicate raw sortSpec =
     sum_bind (decodeCursor raw sortSpec) (\<lambda>cur.
     sum_bind (if ends_with ''totalMinor'' sortSpec then integer_cast (cu_value cur) else timestamptz (cu_value cur))
       (\<lambda>typed. let at = (typed, toLowerCase (cu_id cur))
                in Inr (\<lambda>r. if descending sortSpec then sortColumn sortSpec r < at else at < sortColumn sortSpec r)))"

definition ordered_rows :: "string \<Rightarrow> order_row list \<Rightarrow> order_row list" where
  "ordered_rows sortSpec rows =
     (let up = sort_key (sortColumn sortSpec) rows in if descending sortSpec then rev up else up)"

record order_page =
  op_orders :: "order_summary list"
  op_nextCursor :: "string option"

definition list_orders :: "orders_query \<Rightarrow> ('p, 'b) db \<Rightarrow> order_page result" where
  "list_orders query d =
     sum_bind (case oq_cursor query of
                 None \<Rightarrow> Inr (\<lambda>_. True) | Some raw \<Rightarrow> cursorPredicate raw (oq_sort query)) (\<lambda>after.
     let rows = take (oq_limit query + 1)
           (ordered_rows (oq_sort query) (filter (\<lambda>r. filters query d r \<and> after r) (orders d)));
         page = take (oq_limit query) rows
     in Inr \<lparr>op_orders = map toOrderSummary page,
             op_nextCursor =
               (if oq_limit query < length rows \<and> page \<noteq> []
                then Some (encodeCursor (oq_sort query) (sortValueOf (oq_sort query) (last page)) (ord_id (last page)))
                else None)\<rparr>)"

record order_status_change =
  sc_fromStatus :: "order_status option"
  sc_toStatus :: order_status
  sc_actorType :: actor_type
  sc_actorId :: "string option"
  sc_createdAt :: string

record order_detail =
  od_summary :: order_summary
  od_items :: "order_line list"
  od_statusHistory :: "order_status_change list"

definition status_change :: "status_history_row \<Rightarrow> order_status_change" where
  "status_change h =
     \<lparr>sc_fromStatus = osh_fromStatus h, sc_toStatus = osh_toStatus h, sc_actorType = osh_actorType h,
      sc_actorId = osh_actorId h, sc_createdAt = toISOString (osh_createdAt h)\<rparr>"

definition detail :: "principal \<Rightarrow> string \<Rightarrow> ('p, 'b) db \<Rightarrow> order_detail result" where
  "detail who orderId d =
     (case visible_order who orderId d of
        None \<Rightarrow> Inl (ResourceNotFoundError ''order'' orderId)
      | Some row \<Rightarrow>
          Inr \<lparr>od_summary = toOrderSummary row,
               od_items = toOrderLines (map (\<lambda>item. (item,
                   filter (\<lambda>o'. oio_orderItemId o' = oi_id item) (orderItemOptions d)))
                 (filter (\<lambda>item. oi_orderId item = ord_id row) (orderItems d))),
               od_statusHistory = map status_change
                 (sort_key osh_createdAt (filter (\<lambda>h. osh_orderId h = ord_id row) (orderStatusHistory d)))\<rparr>)"

section \<open>Lemmas\<close>

subsection \<open>The cursor's two fields\<close>

lemma decode_encode:
  "decodeCursor (encodeCursor s v i) s' =
     (if s' = s \<and> UUID_PATTERN i \<and> isIssuableValue s v then Inr \<lparr>cu_value = v, cu_id = i\<rparr>
      else Inl CursorInvalidError)"
proof -
  have "json_parse (from_base64url (encodeCursor s v i)) =
      Some (PObj [(''s'', PStr s), (''v'', PStr v), (''i'', PStr i)])"
    using json_parse_printed [of "[(''s'', s), (''v'', v), (''i'', i)]"]
    by (simp add: encodeCursor_def base64url_roundtrip)
  then show ?thesis by (auto simp: decodeCursor_def text_field_def)
qed

lemma signed_string_of_int: "signed_digits (string_of_int n) = Some n"
proof (cases "n < 0")
  case True
  then show ?thesis by (simp add: signed_digits_def string_of_int_def decimal_simps string_of_nat_ne)
next
  case False
  then obtain c ds where cs: "string_of_int n = c # ds" and digits: "digits_value 0 (c # ds) = Some (nat n)"
    using string_of_nat_ne [of "nat n"] digits_value_string_of_nat [of "nat n"]
    by (cases "string_of_nat (nat n)") (auto simp: string_of_int_def simp del: digits_value.simps)
  moreover have "c \<noteq> CHR ''-''"
    using no_dash_string_of_int [of n] False cs by auto
  ultimately show ?thesis using False by (simp add: signed_digits_def del: digits_value.simps)
qed

lemma digits_value_all: "digits_value acc s = Some n \<Longrightarrow> list_all is_digit s"
  by (induction s arbitrary: acc) (auto simp: is_digit_def split: option.splits)

lemma string_of_nat_length_le: "n < 10 ^ Suc k \<Longrightarrow> length (string_of_nat n) \<le> Suc k"
proof (induction k arbitrary: n)
  case 0
  then show ?case by (simp add: string_of_nat_small)
next
  case (Suc k)
  show ?case
  proof (cases "n < 10")
    case False
    have "length (string_of_nat (n div 10)) \<le> Suc k"
      by (rule Suc.IH) (use Suc.prems in \<open>simp add: less_mult_imp_div_less\<close>)
    with False show ?thesis by (simp add: string_of_nat_step)
  qed (simp add: string_of_nat_small)
qed

lemma pad_to_digits:
  assumes "0 \<le> v" "v < 10 ^ Suc k"
  shows "length (pad_to (Suc k) v) = Suc k" "digits_value 0 (pad_to (Suc k) v) = Some (nat v)"
    "list_all is_digit (pad_to (Suc k) v)"
proof -
  have "nat v < 10 ^ Suc k" using assms by (simp add: nat_less_iff)
  then have "length (string_of_nat (nat v)) \<le> Suc k" by (rule string_of_nat_length_le)
  then show "length (pad_to (Suc k) v) = Suc k" using assms(1) by (simp add: pad_to_def padStart_def string_of_int_def)
  show d: "digits_value 0 (pad_to (Suc k) v) = Some (nat v)"
    using assms(1) by (simp add: pad_to_def string_of_int_def decimal_simps)
  show "list_all is_digit (pad_to (Suc k) v)" by (rule digits_value_all [OF d])
qed

lemma pad_to_chars:
  "0 \<le> v \<Longrightarrow> v < 100 \<Longrightarrow> \<exists>a b. pad_to 2 v = [a, b] \<and> is_digit a \<and> is_digit b \<and> digits_value 0 [a, b] = Some (nat v)"
  "0 \<le> v \<Longrightarrow> v < 1000 \<Longrightarrow> \<exists>a b c. pad_to 3 v = [a, b, c] \<and> is_digit a \<and> is_digit b \<and> is_digit c \<and>
     digits_value 0 [a, b, c] = Some (nat v)"
  "0 \<le> v \<Longrightarrow> v < 10000 \<Longrightarrow> \<exists>a b c d. pad_to 4 v = [a, b, c, d] \<and> is_digit a \<and> is_digit b \<and> is_digit c \<and>
     is_digit d \<and> digits_value 0 [a, b, c, d] = Some (nat v)"
  using pad_to_digits [of v 1] pad_to_digits [of v 2] pad_to_digits [of v 3]
  by (auto simp: numeral_eq_Suc length_Suc_conv simp del: digits_value.simps)

text \<open>What \<open>toISOString\<close> prints is read back as the instant it came from.\<close>

definition iso_range :: "int \<Rightarrow> bool" where
  "iso_range t \<longleftrightarrow> 1 \<le> year_of_day (t div MILLIS_PER_DAY) \<and> year_of_day (t div MILLIS_PER_DAY) \<le> 9999"

lemma iso_read_back:
  assumes "iso_range t"
  shows "iso_shaped (toISOString t)"
    and "iso_read (toISOString t) = (let n = t div MILLIS_PER_DAY; ms = t mod MILLIS_PER_DAY in
      \<lparr>iso_year = year_of_day n, iso_month = month_of_day n + 1, iso_day = date_of_day n, iso_time = ms,
       iso_clock = (ms div 3600000, ms div 60000 mod 60, ms div 1000 mod 60, ms mod 1000)\<rparr>)"
proof -
  define n ms where "n = t div MILLIS_PER_DAY" and "ms = t mod MILLIS_PER_DAY"
  obtain y m d where c: "civil_of_day n = (y, m, d)" by (cases "civil_of_day n") auto
  have ymd: "y = year_of_day n" "m = month_of_day n + 1" "d = date_of_day n"
    using c by (simp_all add: civil_of_day_def)
  have v: "valid_date y m d" by (rule civil_of_day_valid [OF c])
  have yr: "0 \<le> y" "y < 10000" using assms by (simp_all add: iso_range_def ymd n_def)
  have mr: "0 \<le> m" "m < 100" "0 \<le> d" "d < 100"
    using v days_in_month_le [of m y] by (auto simp: valid_date_def)
  have ms: "0 \<le> ms" "ms < 86400000" by (simp_all add: ms_def MILLIS_PER_DAY_def)
  have hr: "0 \<le> ms div 3600000" "ms div 3600000 < 100" "0 \<le> ms div 60000 mod 60" "ms div 60000 mod 60 < 100"
    "0 \<le> ms div 1000 mod 60" "ms div 1000 mod 60 < 100" "0 \<le> ms mod 1000" "ms mod 1000 < 1000"
    using ms by (auto intro: order_less_trans [OF pos_mod_bound])
  obtain y1 y2 y3 y4 where Y: "pad_to 4 y = [y1, y2, y3, y4]" "is_digit y1" "is_digit y2" "is_digit y3" "is_digit y4"
    "digits_value 0 [y1, y2, y3, y4] = Some (nat y)" using pad_to_chars(3) [OF yr] by blast
  obtain m1 m2 where M: "pad_to 2 m = [m1, m2]" "is_digit m1" "is_digit m2" "digits_value 0 [m1, m2] = Some (nat m)"
    using pad_to_chars(1) [OF mr(1,2)] by blast
  obtain d1 d2 where D: "pad_to 2 d = [d1, d2]" "is_digit d1" "is_digit d2" "digits_value 0 [d1, d2] = Some (nat d)"
    using pad_to_chars(1) [OF mr(3,4)] by blast
  obtain h1 h2 where H: "pad_to 2 (ms div 3600000) = [h1, h2]" "is_digit h1" "is_digit h2"
    "digits_value 0 [h1, h2] = Some (nat (ms div 3600000))" using pad_to_chars(1) [OF hr(1,2)] by blast
  obtain i1 i2 where I: "pad_to 2 (ms div 60000 mod 60) = [i1, i2]" "is_digit i1" "is_digit i2"
    "digits_value 0 [i1, i2] = Some (nat (ms div 60000 mod 60))" using pad_to_chars(1) [OF hr(3,4)] by blast
  obtain s1 s2 where S: "pad_to 2 (ms div 1000 mod 60) = [s1, s2]" "is_digit s1" "is_digit s2"
    "digits_value 0 [s1, s2] = Some (nat (ms div 1000 mod 60))" using pad_to_chars(1) [OF hr(5,6)] by blast
  obtain f1 f2 f3 where F: "pad_to 3 (ms mod 1000) = [f1, f2, f3]" "is_digit f1" "is_digit f2" "is_digit f3"
    "digits_value 0 [f1, f2, f3] = Some (nat (ms mod 1000))" using pad_to_chars(2) [OF hr(7,8)] by blast
  have printed: "toISOString t = [y1, y2, y3, y4, CHR ''-'', m1, m2, CHR ''-'', d1, d2, CHR ''T'', h1, h2, CHR '':'',
      i1, i2, CHR '':'', s1, s2, CHR ''.'', f1, f2, f3, CHR ''Z'']"
    using yr by (simp add: toISOString_def n_def [symmetric] ms_def [symmetric] c Let_def Y(1) M(1) D(1) H(1) I(1) S(1) F(1))
  show "iso_shaped (toISOString t)"
    using Y M D H I S F by (simp add: printed iso_shaped_def del: digits_value.simps)
  have time: "((ms div 3600000 * 60 + ms div 60000 mod 60) * 60 + ms div 1000 mod 60) * 1000 + ms mod 1000 = ms"
  proof -
    have "ms div 60000 = ms div 3600000 * 60 + ms div 60000 mod 60"
      using div_mult_mod_eq [of "ms div 60000" 60] zdiv_zmult2_eq [of 60 ms 60000] by simp
    moreover have "ms div 1000 = ms div 60000 * 60 + ms div 1000 mod 60"
      using div_mult_mod_eq [of "ms div 1000" 60] zdiv_zmult2_eq [of 60 ms 1000] by simp
    ultimately show ?thesis using div_mult_mod_eq [of ms 1000] by simp
  qed
  have fields: "number_at (toISOString t) 0 4 = y" "number_at (toISOString t) 5 2 = m"
    "number_at (toISOString t) 8 2 = d" "number_at (toISOString t) 11 2 = ms div 3600000"
    "number_at (toISOString t) 14 2 = ms div 60000 mod 60" "number_at (toISOString t) 17 2 = ms div 1000 mod 60"
    "number_at (toISOString t) 20 3 = ms mod 1000"
    unfolding number_at_def printed
    using yr(1) mr(1,3) hr(1,3,5,7) Y(6) M(4) D(4) H(4) I(4) S(4) F(5) by (simp_all del: digits_value.simps)
  show "iso_read (toISOString t) = (let n = t div MILLIS_PER_DAY; ms = t mod MILLIS_PER_DAY in
      \<lparr>iso_year = year_of_day n, iso_month = month_of_day n + 1, iso_day = date_of_day n, iso_time = ms,
       iso_clock = (ms div 3600000, ms div 60000 mod 60, ms div 1000 mod 60, ms mod 1000)\<rparr>)"
    unfolding n_def [symmetric] ms_def [symmetric] Let_def iso_read_def fields time
    by (simp add: ymd)
qed

lemma iso_typed:
  assumes "iso_range t"
  shows "timestamptz (toISOString t) = Inr (t * 1000)" "date_parse (toISOString t) \<noteq> None"
proof -
  let ?n = "t div MILLIS_PER_DAY" and ?ms = "t mod MILLIS_PER_DAY"
  have c: "civil_of_day ?n = (year_of_day ?n, month_of_day ?n + 1, date_of_day ?n)" by (simp add: civil_of_day_def)
  note v = civil_of_day_valid [OF c]
  have t: "?n * MILLIS_PER_DAY + ?ms = t" by simp
  show "timestamptz (toISOString t) = Inr (t * 1000)"
    using assms v t by (simp add: timestamptz_def iso_read_back(2) [OF assms] Let_def iso_range_def)
  have "0 \<le> ?ms" "?ms < 86400000" by (simp_all add: MILLIS_PER_DAY_def)
  then have "?ms div 3600000 < 24" "?ms div 60000 mod 60 < 60" "?ms div 1000 mod 60 < 60" by auto
  moreover have "date_of_day ?n \<le> 31"
    using v(1) days_in_month_le [of "month_of_day ?n + 1" "year_of_day ?n"] by (auto simp: valid_date_def)
  ultimately show "date_parse (toISOString t) \<noteq> None"
    using v(1) by (simp add: date_parse_def iso_read_back(2) [OF assms] Let_def valid_date_def)
qed

subsection \<open>Searching by prefix\<close>

lemma like_any: "like ''%'' s"
  by (induction s) auto

lemma like_escaped: "like (escapeLikePrefix q @ ''%'') s \<longleftrightarrow> prefix q s"
proof (induction q arbitrary: s)
  case Nil
  then show ?case using like_any by (simp add: escapeLikePrefix_def)
next
  case (Cons c q)
  then show ?case by (cases s) (auto simp: escapeLikePrefix_def)
qed

definition lower_char :: "char \<Rightarrow> char" where
  "lower_char c = (let n = (of_char c :: nat) in if 65 \<le> n \<and> n \<le> 90 then char_of (n + 32) else c)"

definition wildcard :: "char \<Rightarrow> bool" where
  "wildcard c \<longleftrightarrow> c = CHR 0x5C \<or> c = CHR ''%'' \<or> c = CHR ''_''"

lemma wildcard_code: "wildcard c \<longleftrightarrow> (of_char c :: nat) \<in> {92, 37, 95}"
proof -
  have "of_char (CHR 0x5C) = (92 :: nat)" "of_char (CHR ''%'') = (37 :: nat)" "of_char (CHR ''_'') = (95 :: nat)"
    by simp_all
  then show ?thesis unfolding wildcard_def by (metis char_of_char empty_iff insert_iff)
qed

lemma lower_wildcard: "wildcard (lower_char c) \<longleftrightarrow> wildcard c" "wildcard c \<Longrightarrow> lower_char c = c"
  by (auto simp: wildcard_code lower_char_def Let_def)

lemma lower_escaped: "toLowerCase (escapeLikePrefix q @ ''%'') = escapeLikePrefix (toLowerCase q) @ ''%''"
proof -
  have lower: "toLowerCase xs = map lower_char xs" for xs by (simp add: toLowerCase_def lower_char_def)
  have escape: "escapeLikePrefix xs = concat (map (\<lambda>c. if wildcard c then [CHR 0x5C, c] else [c]) xs)" for xs
    by (simp add: escapeLikePrefix_def wildcard_def)
  have "lower_char (CHR 0x5C) = CHR 0x5C" "lower_char (CHR ''%'') = CHR ''%''"
    by (rule lower_wildcard(2), simp add: wildcard_def)+
  then show ?thesis
    unfolding lower escape by (induction q) (simp_all add: lower_wildcard)
qed

lemma ilike_prefix: "ilike name (escapeLikePrefix q @ ''%'') \<longleftrightarrow> prefix (toLowerCase q) (toLowerCase name)"
  by (simp only: ilike_def lower_escaped like_escaped)

subsection \<open>Pages\<close>

lemma filter_after:
  assumes "sorted_wrt R xs" "\<And>x y. R x y \<Longrightarrow> \<not> R y x" "k < length xs"
  shows "filter (R (xs ! k)) xs = drop (Suc k) xs"
  using assms(1,3)
proof (induction xs arbitrary: k)
  case (Cons a xs)
  have irr: "\<not> R x x" for x using assms(2) by blast
  show ?case
  proof (cases k)
    case 0
    then show ?thesis using Cons.prems(1) irr by (simp add: filter_id_conv)
  next
    case (Suc j)
    then have "R a (xs ! j)" using Cons.prems by simp
    then show ?thesis using Suc Cons.IH [of j] Cons.prems assms(2) by simp
  qed
qed simp

definition precedes :: "string \<Rightarrow> order_row \<Rightarrow> order_row \<Rightarrow> bool" where
  "precedes s x y \<longleftrightarrow> (if descending s then sortColumn s y < sortColumn s x else sortColumn s x < sortColumn s y)"

lemma ordered_rows_sorted:
  assumes "distinct (map ord_id rows)"
  shows "sorted_wrt (precedes s) (ordered_rows s rows)"
proof -
  let ?up = "sort_key (sortColumn s) rows"
  have "distinct (map snd (map (sortColumn s) rows))" using assms by (simp add: sortColumn_def comp_def)
  then have "distinct (map (sortColumn s) rows)" by (metis distinct_map)
  then have "distinct (map (sortColumn s) ?up)"
    by (metis distinct_map distinct_sort set_sort)
  moreover have "sorted (map (sortColumn s) ?up)" by (rule sorted_sort_key)
  ultimately have "sorted_wrt (<) (map (sortColumn s) ?up)"
    by (simp only: strict_sorted_iff simp_thms)
  then have up: "sorted_wrt (\<lambda>x y. sortColumn s x < sortColumn s y) ?up"
    by (simp only: sorted_wrt_map)
  then show ?thesis
    by (simp add: ordered_rows_def precedes_def [abs_def] Let_def sorted_wrt_rev)
qed

lemma ordered_rows_filter: "ordered_rows s (filter P rows) = filter P (ordered_rows s rows)"
  by (simp add: ordered_rows_def Let_def filter_sort [symmetric] rev_filter)

lemma rows_after:
  assumes "distinct (map ord_id rows)" "k < length (ordered_rows s (filter P rows))"
  shows "ordered_rows s (filter (\<lambda>r. P r \<and> precedes s (ordered_rows s (filter P rows) ! k) r) rows) =
    drop (Suc k) (ordered_rows s (filter P rows))"
proof -
  let ?L = "ordered_rows s (filter P rows)"
  have "sorted_wrt (precedes s) ?L" by (rule ordered_rows_sorted) (rule distinct_map_filter [OF assms(1)])
  then have "filter (precedes s (?L ! k)) ?L = drop (Suc k) ?L"
    by (rule filter_after [OF _ _ assms(2)]) (auto simp: precedes_def split: if_splits)
  then show ?thesis
    by (simp add: ordered_rows_filter [symmetric] conj_commute)
qed

text \<open>
  What the tables guarantee of the rows a cursor is issued for: canonical ids, totals that fit
  their column, and instants the platform prints with a four-digit year and without loss.
\<close>

definition listable :: "('p, 'b) db \<Rightarrow> bool" where
  "listable d \<longleftrightarrow> distinct (map ord_id (orders d)) \<and>
     (\<forall>r \<in> set (orders d). UUID_PATTERN (ord_id r) \<and> toLowerCase (ord_id r) = ord_id r \<and>
        int4_ok (ord_totalMinor r) \<and> iso_range (js_date (ord_createdAt r)))"

text \<open>
  Where a cursor names the place of its row. The columns hold microseconds and a cursor only
  milliseconds, so a sort by instant asks for more: no finer instants, or, newest first, no two orders
  within a millisecond.
\<close>

definition cursor_exact :: "string \<Rightarrow> ('p, 'b) db \<Rightarrow> bool" where
  "cursor_exact s d \<longleftrightarrow> ends_with ''totalMinor'' s \<or> (\<forall>r \<in> set (orders d). ord_createdAt r mod 1000 = 0) \<or>
     (descending s \<and> (\<forall>r \<in> set (orders d). \<forall>r' \<in> set (orders d).
        js_date (ord_createdAt r) = js_date (ord_createdAt r') \<longrightarrow> r = r'))"

definition cursor_of :: "string \<Rightarrow> order_row \<Rightarrow> string" where
  "cursor_of s r = encodeCursor s (sortValueOf s r) (ord_id r)"

lemma same_side_of_milli:
  fixes c x :: int
  assumes "x div 1000 \<noteq> c div 1000"
  shows "(x < c div 1000 * 1000 \<longleftrightarrow> x < c) \<and> x \<noteq> c div 1000 * 1000 \<and> x \<noteq> c"
proof -
  have parts: "c div 1000 * 1000 + c mod 1000 = c" "0 \<le> c mod 1000" "c mod 1000 < 1000"
    "x div 1000 * 1000 + x mod 1000 = x" "0 \<le> x mod 1000" "x mod 1000 < 1000"
    by simp_all
  show ?thesis
  proof (cases "x div 1000 < c div 1000")
    case True
    then have "x < c div 1000 * 1000" "x < c" using parts by linarith+
    then show ?thesis by simp
  next
    case False
    then have "c div 1000 + 1 \<le> x div 1000" using assms by simp
    then have "c div 1000 * 1000 < x" "c < x" using parts by linarith+
    then show ?thesis by simp
  qed
qed

lemma cursor_after:
  assumes "listable d" "cursor_exact s d" "r \<in> set (orders d)"
  obtains P where "cursorPredicate (cursor_of s r) s = Inr P" "\<And>x. x \<in> set (orders d) \<Longrightarrow> P x \<longleftrightarrow> precedes s r x"
proof -
  have r: "UUID_PATTERN (ord_id r)" "toLowerCase (ord_id r) = ord_id r" "int4_ok (ord_totalMinor r)"
    "iso_range (js_date (ord_createdAt r))"
    using assms(1,3) by (auto simp: listable_def)
  have iss: "isIssuableValue s (sortValueOf s r)"
    using r(3) iso_typed(2) [OF r(4)] iso_read_back(1) [OF r(4)]
    by (auto simp: isIssuableValue_def sortValueOf_def signed_string_of_int int4_ok_def MAX_SAFE_INTEGER_def)
  define v where "v = (if ends_with ''totalMinor'' s then ord_totalMinor r else js_date (ord_createdAt r) * 1000)"
  define P where "P x \<longleftrightarrow> (if descending s then sortColumn s x < (v, ord_id r) else (v, ord_id r) < sortColumn s x)" for x
  have "(if ends_with ''totalMinor'' s then integer_cast (sortValueOf s r) else timestamptz (sortValueOf s r)) = Inr v" (is "?cast = _")
    using r by (simp add: v_def sortValueOf_def integer_cast_def signed_string_of_int iso_typed(1))
  moreover have "cursorPredicate (cursor_of s r) s =
      sum_bind ?cast (\<lambda>typed. let at = (typed, ord_id r) in
        Inr (\<lambda>x. if descending s then sortColumn s x < at else at < sortColumn s x))"
    using iss r(1,2) by (simp add: cursorPredicate_def cursor_of_def decode_encode)
  ultimately have P: "cursorPredicate (cursor_of s r) s = Inr P" by (simp add: P_def [abs_def] Let_def)
  have "P x \<longleftrightarrow> precedes s r x" if x: "x \<in> set (orders d)" for x
  proof (cases "(v, ord_id r) = sortColumn s r")
    case True
    then show ?thesis by (simp add: P_def precedes_def)
  next
    case False
    then have s: "\<not> ends_with ''totalMinor'' s" "ord_createdAt r mod 1000 \<noteq> 0"
      by (auto simp: v_def sortColumn_def js_date_def split: if_splits)
    then have desc: "descending s" "js_date (ord_createdAt r) = js_date (ord_createdAt x) \<Longrightarrow> r = x"
      using assms(2,3) x by (auto simp: cursor_exact_def)
    have v: "v = ord_createdAt r div 1000 * 1000" using s(1) by (simp add: v_def js_date_def)
    have "v + ord_createdAt r mod 1000 = ord_createdAt r" "0 < ord_createdAt r mod 1000"
      using s(2) by (simp_all add: v less_le)
    then have before: "v < ord_createdAt r" by linarith
    show ?thesis
    proof (cases "x = r")
      case True
      then show ?thesis using before s(1) desc(1) by (simp add: P_def precedes_def sortColumn_def)
    next
      case False
      then have "ord_createdAt x div 1000 \<noteq> ord_createdAt r div 1000" using desc(2) by (auto simp: js_date_def)
      from same_side_of_milli [OF this] show ?thesis
        using s(1) desc(1) by (auto simp: P_def precedes_def sortColumn_def v le_less)
    qed
  qed
  with P show ?thesis by (rule that)
qed

lemma filters_cursor [simp]: "filters (q\<lparr>oq_cursor := c\<rparr>) d = filters q d"
  by (rule ext) (simp add: filters_def split: option.split)

definition page_of :: "orders_query \<Rightarrow> order_row list \<Rightarrow> order_page" where
  "page_of q rows =
     \<lparr>op_orders = map toOrderSummary (take (oq_limit q) rows),
      op_nextCursor = (if oq_limit q < length rows then Some (cursor_of (oq_sort q) (rows ! (oq_limit q - 1))) else None)\<rparr>"

lemma list_orders_page:
  assumes "0 < oq_limit q" "(case oq_cursor q of None \<Rightarrow> Inr (\<lambda>_. True) | Some raw \<Rightarrow> cursorPredicate raw (oq_sort q)) = Inr P"
  shows "list_orders q d = Inr (page_of q (ordered_rows (oq_sort q) (filter (\<lambda>r. filters q d r \<and> P r) (orders d))))"
proof -
  let ?n = "oq_limit q" and ?R = "ordered_rows (oq_sort q) (filter (\<lambda>r. filters q d r \<and> P r) (orders d))"
  have l: "last (take ?n ?R) = ?R ! (?n - 1)" if "?n < length ?R"
  proof -
    have "take ?n ?R \<noteq> []" using that assms(1) by auto
    then show ?thesis using that assms(1) by (simp add: last_conv_nth del: take_eq_Nil)
  qed
  have "min ?n (?n + 1) = ?n" by simp
  then show ?thesis
    using assms l by (auto simp: list_orders_def page_of_def Let_def cursor_of_def)
qed

lemma list_first_page:
  "0 < oq_limit q \<Longrightarrow> list_orders (q\<lparr>oq_cursor := None\<rparr>) d =
     Inr (page_of q (ordered_rows (oq_sort q) (filter (filters q d) (orders d))))"
  using list_orders_page [of "q\<lparr>oq_cursor := None\<rparr>" "\<lambda>_. True" d] by (simp add: page_of_def)

lemma list_next_page:
  assumes "listable d" "cursor_exact (oq_sort q) d" "0 < oq_limit q"
    and "L = ordered_rows (oq_sort q) (filter (filters q d) (orders d))" "k < length L"
  shows "list_orders (q\<lparr>oq_cursor := Some (cursor_of (oq_sort q) (L ! k))\<rparr>) d = Inr (page_of q (drop (Suc k) L))"
proof -
  have "set L \<subseteq> set (orders d)" by (auto simp: assms(4) ordered_rows_def Let_def)
  then have "L ! k \<in> set (orders d)" using assms(5) by auto
  from cursor_after [OF assms(1,2) this] obtain P where
    P: "cursorPredicate (cursor_of (oq_sort q) (L ! k)) (oq_sort q) = Inr P"
      "\<And>x. x \<in> set (orders d) \<Longrightarrow> P x \<longleftrightarrow> precedes (oq_sort q) (L ! k) x"
    by blast
  have "filter (\<lambda>r. filters q d r \<and> P r) (orders d) = filter (\<lambda>r. filters q d r \<and> precedes (oq_sort q) (L ! k) r) (orders d)"
    using P(2) by (intro filter_cong) auto
  moreover have "distinct (map ord_id (orders d))" using assms(1) by (simp add: listable_def)
  ultimately show ?thesis
    using list_orders_page [of "q\<lparr>oq_cursor := Some (cursor_of (oq_sort q) (L ! k))\<rparr>" P d] P(1)
      rows_after [of "orders d" k "oq_sort q" "filters q d"] assms(3-)
    by (simp add: page_of_def)
qed

text \<open>A client that follows the cursors, for at most so many pages.\<close>

fun walk :: "nat \<Rightarrow> orders_query \<Rightarrow> ('p, 'b) db \<Rightarrow> order_summary list result" where
  "walk 0 q d = Inr []"
| "walk (Suc n) q d =
     sum_bind (list_orders q d) (\<lambda>page.
       case op_nextCursor page of
         None \<Rightarrow> Inr (op_orders page)
       | Some c \<Rightarrow> sum_bind (walk n (q\<lparr>oq_cursor := Some c\<rparr>) d) (\<lambda>rest. Inr (op_orders page @ rest)))"

lemma walk_from:
  assumes "listable d" "cursor_exact (oq_sort q) d" "0 < oq_limit q"
    and "L = ordered_rows (oq_sort q) (filter (filters q d) (orders d))"
  shows "length L - j < n \<Longrightarrow> j \<le> length L \<Longrightarrow>
    list_orders (q\<lparr>oq_cursor := c\<rparr>) d = Inr (page_of q (drop j L)) \<Longrightarrow>
    walk n (q\<lparr>oq_cursor := c\<rparr>) d = Inr (map toOrderSummary (drop j L))"
proof (induction n arbitrary: j c)
  case (Suc n)
  let ?m = "oq_limit q"
  show ?case
  proof (cases "j + ?m < length L")
    case False
    then have "\<not> ?m < length (drop j L)" "take ?m (drop j L) = drop j L" by simp_all
    then show ?thesis using Suc.prems(3) by (simp add: page_of_def)
  next
    case True
    define k where "k = j + ?m - 1"
    have k: "k < length L" "Suc k = j + ?m" "drop j L ! (?m - 1) = L ! k"
      using True assms(3) by (simp_all add: k_def)
    let ?c = "Some (cursor_of (oq_sort q) (L ! k))"
    have next_page: "list_orders (q\<lparr>oq_cursor := ?c\<rparr>) d = Inr (page_of q (drop (j + ?m) L))"
      using list_next_page [OF assms k(1)] k(2) by simp
    have "walk n (q\<lparr>oq_cursor := ?c\<rparr>) d = Inr (map toOrderSummary (drop (j + ?m) L))"
      by (rule Suc.IH [OF _ _ next_page]) (use Suc.prems(1) True assms(3) in auto)
    moreover have "op_nextCursor (page_of q (drop j L)) = ?c"
      using True k(3) by (simp add: page_of_def)
    moreover have "op_orders (page_of q (drop j L)) @ map toOrderSummary (drop (j + ?m) L) = map toOrderSummary (drop j L)"
      by (simp add: page_of_def flip: map_append) (metis add.commute append_take_drop_id drop_drop)
    ultimately show ?thesis using Suc.prems(3) by simp
  qed
qed simp

section \<open>Properties\<close>

definition page_row :: "int \<Rightarrow> order_row" where
  "page_row n = sample_order\<lparr>ord_id := ''00000000-0000-7000-8000-00000000000'' @ string_of_int n,
     ord_totalMinor := n, ord_createdAt := 1000 * n + 7\<rparr>"

text \<open>
  C21. The pages tile the list wherever a cursor names the place of its row: whatever the filters and
  page size, a client that follows the cursors from the first page receives exactly the matching
  orders, each once and in the order of the sort with the id breaking ties, and after finitely many
  pages is handed no further cursor. That holds for the sorts by total without reservation, newest
  first as long as no two orders were created within one millisecond, and oldest first only when
  all instants are whole milliseconds (\<open>cursor_exact\<close>). Otherwise it fails, as the two theorems below show:
  newest first an order can be skipped, oldest first the last row of every page is repeated.
\<close>

theorem pages_tile_the_list:
  assumes "listable d" "cursor_exact (oq_sort q) d" "0 < oq_limit q" "length (orders d) < n"
  shows "walk n (q\<lparr>oq_cursor := None\<rparr>) d =
    Inr (map toOrderSummary (ordered_rows (oq_sort q) (filter (filters q d) (orders d))))"
proof -
  let ?L = "ordered_rows (oq_sort q) (filter (filters q d) (orders d))"
  have "length ?L \<le> length (orders d)" by (simp add: ordered_rows_def Let_def)
  then have "length ?L - 0 < n" using assms(4) by simp
  moreover have "list_orders (q\<lparr>oq_cursor := None\<rparr>) d = Inr (page_of q (drop 0 ?L))"
    using list_first_page [OF assms(3)] by simp
  ultimately show ?thesis
    using walk_from [OF assms(1-3) refl, of 0 n None] by simp
qed

lemma sample_ids:
  "UUID_PATTERN (ord_id (page_row 1))" "toLowerCase (ord_id (page_row 1)) = ord_id (page_row 1)"
  "UUID_PATTERN (ord_id (page_row 2))" "toLowerCase (ord_id (page_row 2)) = ord_id (page_row 2)"
proof -
  have "list_all (\<lambda>i. UUID_PATTERN i \<and> toLowerCase i = i) [ord_id (page_row 1), ord_id (page_row 2)]"
    unfolding page_row_def by code_simp
  then show "UUID_PATTERN (ord_id (page_row 1))" "toLowerCase (ord_id (page_row 1)) = ord_id (page_row 1)"
    "UUID_PATTERN (ord_id (page_row 2))" "toLowerCase (ord_id (page_row 2)) = ord_id (page_row 2)"
    by simp_all
qed

lemma sample_iso_range: "0 \<le> n \<Longrightarrow> n < 1000 \<Longrightarrow> iso_range n"
  by (simp add: iso_range_def MILLIS_PER_DAY_def year_of_day_def dayFromYear_def)

lemma page_row_key: "\<not> ends_with ''totalMinor'' s \<Longrightarrow> sortColumn s (page_row n) = (1000 * n + 7, ord_id (page_row n))"
  by (simp add: sortColumn_def page_row_def)

definition paged :: "string \<Rightarrow> orders_query" where
  "paged column = \<lparr>oq_status = None, oq_channel = None, oq_method = None, oq_from = None, oq_to = None,
      oq_businessDay = None, oq_q = None, oq_sort = column, oq_limit = 1, oq_cursor = None\<rparr>"

lemma paged_simps [simp]:
  "oq_limit (paged s) = 1" "oq_sort (paged s) = s" "oq_cursor (paged s) = None" "(paged s)\<lparr>oq_cursor := None\<rparr> = paged s"
  "filters (paged s) d = (\<lambda>r. True)"
  by (auto simp: paged_def filters_def within_def paid_by_def matches_search_def)

definition two_orders :: "(unit, unit) db" where
  "two_orders = sample_db\<lparr>orders := [page_row 1, page_row 2]\<rparr>"

lemma two_orders_listable: "listable two_orders"
  using sample_ids sample_iso_range [of 1] sample_iso_range [of 2]
  by (simp add: listable_def two_orders_def page_row_def int4_ok_def js_date_def string_of_int_def string_of_nat_small digit_char_def)

theorem pages_tile_the_list_witness:
  "walk 3 (paged ''-createdAt'') two_orders = Inr [toOrderSummary (page_row 2), toOrderSummary (page_row 1)]"
proof -
  have s: "descending ''-createdAt''" "\<not> ends_with ''totalMinor'' ''-createdAt''"
    by (simp_all add: descending_def ends_with_def suffix_def)
  have "cursor_exact (oq_sort (paged ''-createdAt'')) two_orders"
    by (simp add: cursor_exact_def s two_orders_def page_row_def js_date_def)
  from pages_tile_the_list [OF two_orders_listable this, of 3]
  have "walk 3 (paged ''-createdAt'') two_orders =
      Inr (map toOrderSummary (ordered_rows ''-createdAt'' (orders two_orders)))"
    by (simp add: two_orders_def)
  moreover have "ordered_rows ''-createdAt'' (orders two_orders) = [page_row 2, page_row 1]"
    by (simp add: two_orders_def ordered_rows_def s page_row_key Let_def)
  ultimately show ?thesis by simp
qed

text \<open>
  Oldest first the cursor points just before its own row whenever that row's instant is not a whole
  millisecond, so the next page begins with the row the last one ended with; with one row to a page
  the client never gets past the first order.
\<close>

theorem pages_repeat_their_boundary:
  "walk n (paged ''createdAt'') two_orders = Inr (replicate n (toOrderSummary (page_row 1)))"
proof -
  let ?q = "paged ''createdAt''" and ?d = two_orders and ?c = "Some (cursor_of ''createdAt'' (page_row 1))"
  have s: "\<not> descending ''createdAt''" "\<not> ends_with ''totalMinor'' ''createdAt''"
    by (simp_all add: descending_def ends_with_def suffix_def)
  have rows: "ordered_rows ''createdAt'' [page_row 1, page_row 2] = [page_row 1, page_row 2]"
    by (simp add: ordered_rows_def s page_row_key Let_def)
  have v: "sortValueOf ''createdAt'' (page_row 1) = toISOString 1"
    by (simp add: sortValueOf_def s page_row_def js_date_def)
  have "cursorPredicate (cursor_of ''createdAt'' (page_row 1)) ''createdAt'' =
      Inr (\<lambda>r. (1000, ord_id (page_row 1)) < sortColumn ''createdAt'' r)"
    using sample_ids iso_typed [OF sample_iso_range [of 1]] iso_read_back(1) [OF sample_iso_range [of 1]]
    by (simp add: cursorPredicate_def cursor_of_def v decode_encode isIssuableValue_def s)
  then have again: "list_orders (?q\<lparr>oq_cursor := ?c\<rparr>) ?d = Inr (page_of ?q [page_row 1, page_row 2])"
    using list_orders_page [of "?q\<lparr>oq_cursor := ?c\<rparr>" _ ?d]
    by (simp add: two_orders_def page_row_key s rows page_of_def)
  have first: "list_orders ?q ?d = Inr (page_of ?q [page_row 1, page_row 2])"
    using list_first_page [of ?q ?d] by (simp add: two_orders_def rows)
  have stuck: "walk n (?q\<lparr>oq_cursor := ?c\<rparr>) ?d = Inr (replicate n (toOrderSummary (page_row 1)))" for n
    by (induction n) (simp_all add: again page_of_def)
  show ?thesis by (cases n) (simp_all add: first stuck page_of_def)
qed

definition same_milli :: "int \<Rightarrow> order_row" where
  "same_milli micros = sample_order\<lparr>ord_id := ''00000000-0000-7000-8000-00000000000'' @ string_of_int micros,
     ord_createdAt := micros\<rparr>"

text \<open>
  The same walk loses an order when two were created within one millisecond: \<open>created_at\<close>
  has microseconds, the cursor only milliseconds, so the page after the later of the two starts
  before both.
\<close>

theorem pages_skip_within_a_millisecond:
  "let d = (sample_db :: (unit, unit) db)\<lparr>orders := [same_milli 5, same_milli 7]\<rparr>;
       q = \<lparr>oq_status = None, oq_channel = None, oq_method = None, oq_from = None, oq_to = None,
            oq_businessDay = None, oq_q = None, oq_sort = ''-createdAt'', oq_limit = 1, oq_cursor = None\<rparr>
   in walk 3 q d = Inr [toOrderSummary (same_milli 7)] \<and> filter (filters q d) (orders d) = orders d"
proof -
  define d where "d = (sample_db :: (unit, unit) db)\<lparr>orders := [same_milli 5, same_milli 7]\<rparr>"
  define q where "q = \<lparr>oq_status = None, oq_channel = None, oq_method = None, oq_from = None, oq_to = None,
      oq_businessDay = None, oq_q = None, oq_sort = ''-createdAt'', oq_limit = 1, oq_cursor = None\<rparr>"
  have q: "oq_limit q = 1" "oq_sort q = ''-createdAt''" "oq_cursor q = None" "q\<lparr>oq_cursor := None\<rparr> = q"
    and all: "filters q d = (\<lambda>r. True)"
    by (auto simp: q_def filters_def within_def paid_by_def matches_search_def)
  have s: "descending ''-createdAt''" "\<not> ends_with ''totalMinor'' ''-createdAt''"
    by (simp_all add: descending_def ends_with_def suffix_def)
  have rows: "orders d = [same_milli 5, same_milli 7]" by (simp add: d_def)
  have key: "sortColumn ''-createdAt'' (same_milli n) = (n, ord_id (same_milli n))" for n
    by (simp add: sortColumn_def s same_milli_def)
  have L: "ordered_rows ''-createdAt'' [same_milli 5, same_milli 7] = [same_milli 7, same_milli 5]"
    by (simp add: ordered_rows_def s key Let_def)
  have first: "list_orders q d = Inr (page_of q [same_milli 7, same_milli 5])"
    using list_first_page [of q d] by (simp add: q all rows L)
  have r0: "iso_range 0" by (simp add: iso_range_def MILLIS_PER_DAY_def year_of_day_def dayFromYear_def)
  have v: "sortValueOf ''-createdAt'' (same_milli 7) = toISOString 0"
    by (simp add: sortValueOf_def s same_milli_def js_date_def)
  have u: "UUID_PATTERN (ord_id (same_milli 7))"
    unfolding same_milli_def by code_simp
  have "cursorPredicate (cursor_of ''-createdAt'' (same_milli 7)) ''-createdAt'' =
      Inr (\<lambda>r. sortColumn ''-createdAt'' r < (0, toLowerCase (ord_id (same_milli 7))))"
    using u iso_typed [OF r0] iso_read_back(1) [OF r0]
    by (simp add: cursorPredicate_def cursor_of_def v decode_encode isIssuableValue_def s)
  then have second: "list_orders (q\<lparr>oq_cursor := Some (cursor_of ''-createdAt'' (same_milli 7))\<rparr>) d = Inr (page_of q [])"
    using list_orders_page [of "q\<lparr>oq_cursor := Some (cursor_of ''-createdAt'' (same_milli 7))\<rparr>" _ d]
    by (simp add: q all rows key page_of_def ordered_rows_def)
  have "walk 3 q d = Inr [toOrderSummary (same_milli 7)]"
    using first second by (simp add: numeral_3_eq_3 page_of_def q)
  then show ?thesis unfolding d_def [symmetric] q_def [symmetric] by (simp add: all)
qed

text \<open>
  C22. A cursor is accepted exactly where it was issued: decoding what was encoded gives the value
  and id back, under the same sort; under another sort, or with an id or a value this endpoint never
  issues, it is refused as invalid.
\<close>

theorem cursor_roundtrip:
  "decodeCursor (encodeCursor s v i) s' =
     (if s' = s \<and> UUID_PATTERN i \<and> isIssuableValue s v then Inr \<lparr>cu_value = v, cu_id = i\<rparr>
      else Inl CursorInvalidError)"
  by (rule decode_encode)

text \<open>
  The customer search is a literal prefix search: with the wildcards escaped, an order matches
  exactly when its number is the text, or its customer's name starts with the text, letter case
  aside, whatever characters the text contains.
\<close>

theorem search_is_literal_prefix:
  "matches_search (Some t) r \<longleftrightarrow> ord_number r = Some t \<or>
     (\<exists>name. ord_customerName r = Some name \<and> prefix (toLowerCase t) (toLowerCase name))"
  by (auto simp: matches_search_def ilike_prefix split: option.splits)

text \<open>
  A well-formed cursor can still be refused by the database: a total between the range of the
  column and the range of exact numbers is accepted by the check on the cursor and fails in the
  cast, which the client sees as a server error rather than as an invalid cursor.
\<close>

theorem oversized_cursor_is_server_error:
  "decodeCursor (encodeCursor ''totalMinor'' ''3000000000'' ''00000000-0000-7000-8000-000000000001'') ''totalMinor'' =
     Inr \<lparr>cu_value = ''3000000000'', cu_id = ''00000000-0000-7000-8000-000000000001''\<rparr> \<and>
   list_orders (q\<lparr>oq_sort := ''totalMinor'', oq_cursor := Some (encodeCursor ''totalMinor'' ''3000000000''
     ''00000000-0000-7000-8000-000000000001'')\<rparr>) d = Inl NumericOutOfRange \<and>
   http_status NumericOutOfRange = 500"
proof -
  have u: "UUID_PATTERN ''00000000-0000-7000-8000-000000000001''" by code_simp
  have n: "signed_digits ''3000000000'' = Some 3000000000"
    by (simp add: signed_digits_def digit_value_def)
  have e: "ends_with ''totalMinor'' ''totalMinor''" by (simp add: ends_with_def)
  show ?thesis
    by (simp add: decode_encode u isIssuableValue_def n e MAX_SAFE_INTEGER_def list_orders_def cursorPredicate_def
        integer_cast_def int4_ok_def)
qed

end
