(* ===== verification/Guarantees.thy ===== *)
theory Guarantees
  imports Sample Query
begin

text \<open>
  What the single handlers promise whoever calls them: a retried request is answered from the store
  and changes nothing, a redelivered or forged event changes nothing, a gateway that has the money
  stops a cancellation or an expiry, a device learns nothing of another device's orders, the sweep
  reaps every overdue order, and the nightly comparison finds the delta there is.
\<close>

section \<open>Lemmas\<close>

subsection \<open>Retried requests\<close>

lemma persist_keys:
  "persist offset cfg now fr who ch input priced d = Inr (v, d') \<Longrightarrow> idempotencyKeys d' = idempotencyKeys d"
proof -
  assume "persist offset cfg now fr who ch input priced d = Inr (v, d')"
  then obtain num d1 d2 d3 d4 where "claim_number (opening_status input) (today_of offset cfg now) d = Inr (num, d1)"
    and "insert_order (new_order cfg now fr (today_of offset cfg now) num who ch input priced) d1 = Inr d2"
    and "insert_order_items (indexed (line_row fr) (pr_lines priced)) d2 = Inr d3"
    and "insert_option_rows (concat (indexed (option_rows fr) (pr_lines priced))) d3 = Inr d4"
    and "idempotencyKeys d' = idempotencyKeys d4"
    by (auto simp: persist_def Let_def sum_bind_iffs append_history_def throw_if_def split: if_splits)
  moreover obtain cs where "d1 = d\<lparr>orderNumberCounters := cs\<rparr>"
    using claim_number_Inr(1) calculation(1) by blast
  ultimately show ?thesis
    by (auto simp: insert_order_Inr insert_option_rows_def dest!: insert_order_items_Inr split: if_splits)
qed

lemma build_keys: "build offset cfg now fr who input d = Inr (v, d') \<Longrightarrow> idempotencyKeys d' = idempotencyKeys d"
  by (auto simp: build_def sum_bind_iffs split: option.splits if_splits dest: persist_keys)

text \<open>The body of a keyed creation is the store's keyed transaction around \<open>build\<close>.\<close>

definition build_body ::
  "(string \<Rightarrow> int \<Rightarrow> int) \<Rightarrow> config \<Rightarrow> int \<Rightarrow> fresh_ids \<Rightarrow> principal \<Rightarrow> create_order_input \<Rightarrow>
   'p tables \<Rightarrow> (stored_body \<times> 'p tables) result" where
  "build_body offset cfg now fr who input d =
     sum_bind (build offset cfg now fr who input d) (\<lambda>(v, d'). Inr (OrderBody v, d'))"

lemma build_body_keeps: "keys.keeps_answers (build_body offset cfg now fr who input)"
  by (auto simp: keys.keeps_answers_def build_body_def sum_bind_iffs answers_def fun_eq_iff dest: build_keys)

lemma create_work_keyed:
  "create_work offset cfg now fr who input (Some (k, h)) d = Inr (v, d') \<Longrightarrow>
     keys.keyed_tx k h (keyExpiry now) 201 (build_body offset cfg now fr who input) d = Inr (OrderBody v, d')"
  by (auto simp: create_work_def keys.keyed_tx_def build_body_def sum_bind_iffs)

lemma create_work_taken:
  "answers d k = Some a \<Longrightarrow> create_work offset cfg now fr who input (Some (k, h)) d = Inl KeyAlreadyReserved"
  by (simp add: create_work_def keys.reserve_taken)

lemma create_answered:
  assumes "create sha offset cfg meanwhile now fr who input (Some k) w = (Inr (b, False), w1)"
  shows "answers (tables w1) k = Some (hashRequest sha (scopeOf who) (input_json input), Some b)"
proof -
  let ?h = "hashRequest sha (scopeOf who) (input_json input)"
  obtain v d' where work: "create_work offset cfg now fr who input (Some (k, ?h)) (tables w) = Inr (v, d')"
    and b: "b = OrderBody v" and w1: "tables w1 = d'"
    using assms by (auto simp: create_def db_transaction_def Let_def sum_bind_iffs split: sum.splits if_splits)
  show ?thesis
    using keys.keyed_tx_fresh(2) [OF build_body_keeps create_work_keyed [OF work]] b w1 by simp
qed

lemma transitionOrder_keys: "transitionOrder now q d = Inr (u, d') \<Longrightarrow> idempotencyKeys d' = idempotencyKeys d"
  by (auto simp: transitionOrder_def append_history_def split: prod.splits list.splits)

lemma insertPayment_keys: "insertPayment row d = Inr (i, d') \<Longrightarrow> idempotencyKeys d' = idempotencyKeys d"
  by (drule insertPayment_Inr(2)) simp

lemma payment_work_keys:
  "cash_work now new user r t key d = Inr (v, d', evs) \<Longrightarrow> idempotencyKeys d' = idempotencyKeys d"
  "gateway_work now new r intent key d = Inr (v, d', evs) \<Longrightarrow> idempotencyKeys d' = idempotencyKeys d"
  by (auto simp: cash_work_def gateway_work_def sum_bind_iffs dest!: insertPayment_keys transitionOrder_keys)

lemma takeCash_first:
  assumes "takeCash provider publish gaps now new who r input keyed w = (Inr (b, False), w1)"
  obtains u t w2 where "tables w1 = tables w2"
    "write_payment provider publish gaps now keyed (cash_work now new u r t (map_option fst keyed)) (gaps 2 w) =
      (Inr (b, False), w2)"
proof -
  obtain u ro t where who: "who = StaffPrincipal u ro" and t: "cp_cashTenderedMinor input = Some t"
    "\<not> t < ord_totalMinor r"
    using assms by (auto simp: takeCash_def split: principal.splits option.splits if_splits)
  obtain res w2 where run: "write_payment provider publish gaps now keyed
      (cash_work now new u r t (map_option fst keyed)) (gaps 2 w) = (res, w2)" by fastforce
  have "res = Inr (b, False) \<and> tables w1 = tables w2"
    using assms by (simp add: takeCash_def who t run split: sum.splits prod.splits bool.splits) auto
  then show thesis using that run by blast
qed

lemma write_payment_answered:
  assumes "write_payment provider publish gaps now (Some (k, h)) work w = (Inr (b, False), w1)"
    and "\<And>d x d' evs. work d = Inr (x, d', evs) \<Longrightarrow> idempotencyKeys d' = idempotencyKeys d"
  shows "\<exists>v. b = PaymentBody v \<and>
    answers (tables w1) k = Some (h, Some (PaymentBody (v\<lparr>pv_clientSecret := None\<rparr>)))"
proof -
  obtain v d' evs where b: "b = PaymentBody v" and t: "tables w1 = d'"
    and work: "write_work now (Some (k, h)) work (tables w) = Inr (v, d', evs)"
    using assms(1) by (auto simp: write_payment_def afterCommit_run_def Let_def sum_bind_iffs split: sum.splits if_splits)
  obtain d1 d2 where "reserveKey k h (keyExpiry now) (tables w) = Inr d1" "work d1 = Inr (v, d2, evs)"
    and d': "d' = completeKey k 201 (PaymentBody (v\<lparr>pv_clientSecret := None\<rparr>)) d2"
    using work by (auto simp: write_work_def sum_bind_iffs)
  then have "answers d2 k = Some (h, None)"
    using assms(2) by (auto simp: reserveKey_Inr answers_def row_by_append_new row_by_None)
  then show ?thesis using b t d' by (simp add: answers_completed)
qed

lemma create_payment_answered:
  assumes "create_payment sha provider publish gaps now new who i input (Some k) w = (Inr (b, False), w1)"
  shows "\<exists>v. b = PaymentBody v \<and> answers (tables w1) k =
    Some (hashRequest sha (scopeOf who @ '':payments:'' @ i) (payment_json input),
      Some (PaymentBody (v\<lparr>pv_clientSecret := None\<rparr>)))"
proof -
  define h where "h = hashRequest sha (scopeOf who @ '':payments:'' @ i) (payment_json input)"
  have "\<exists>r w0. takeCash provider publish gaps now new who r input (Some (k, h)) w0 = (Inr (b, False), w1) \<or>
      openGatewayPayment provider publish gaps now new r (Some (k, h)) w0 = (Inr (b, False), w1)"
    using assms unfolding create_payment_def Let_def option.map h_def [symmetric]
    by (auto simp: sum_bind_iffs split: option.splits bool.splits prod.splits sum.splits if_splits)
  then obtain r w0 where "takeCash provider publish gaps now new who r input (Some (k, h)) w0 = (Inr (b, False), w1) \<or>
      openGatewayPayment provider publish gaps now new r (Some (k, h)) w0 = (Inr (b, False), w1)" by blast
  then show ?thesis
  proof
    assume "takeCash provider publish gaps now new who r input (Some (k, h)) w0 = (Inr (b, False), w1)"
    then obtain u t w2 where t: "tables w1 = tables w2"
      and run: "write_payment provider publish gaps now (Some (k, h)) (cash_work now new u r t (Some k)) (gaps 2 w0) =
        (Inr (b, False), w2)"
      by (rule takeCash_first) (simp only: option.map fst_conv)
    show ?thesis unfolding h_def [symmetric] t by (rule write_payment_answered [OF run payment_work_keys(1)])
  next
    assume "openGatewayPayment provider publish gaps now new r (Some (k, h)) w0 = (Inr (b, False), w1)"
    then obtain intent where
      run: "write_payment provider publish gaps now (Some (k, h)) (gateway_work now new r intent (Some k)) (gaps 2 w0) =
        (Inr (b, False), w1)"
      by (auto simp: openGatewayPayment_def split: sum.splits)
    show ?thesis unfolding h_def [symmetric] by (rule write_payment_answered [OF run payment_work_keys(2)])
  qed
qed

subsection \<open>The sweep\<close>

definition expired_row :: "order_row \<Rightarrow> order_row" where
  "expired_row r = r\<lparr>ord_status := EXPIRED, ord_expiresAt := None\<rparr>"

lemma expireOne_alone:
  assumes "ledger (tables w)" "\<And>i. cancelIntent provider i = Inr INTENT_CANCELLED"
    and "r \<in> set (orders (tables w))" "ord_id r = i" "ord_status r = PENDING_PAYMENT"
  shows "fst (expireOne provider (\<lambda>_ w. w) now i w)"
    and "orders (tables (snd (expireOne provider (\<lambda>_ w. w) now i w))) =
      map (\<lambda>x. if ord_id x = i then expired_row x else x) (orders (tables w))"
proof -
  let ?q = "\<lparr>tr_orderId = i, tr_from = PENDING_PAYMENT, tr_to = EXPIRED,
    tr_actorType = SYSTEM, tr_actorId = None, tr_reason = None\<rparr>"
  have ids: "distinct (map ord_id (orders (tables w)))" by (rule ledger_ids [OF assms(1)])
  have "row_by ord_id i (orders (tables w)) = Some r" using row_by_mem [OF ids assms(3)] assms(4) by simp
  then have t: "transitionOrder now ?q (tables w) = Inr (moved_order ?q r, moved_tables now ?q (tables w))"
    using assms(5) by (simp add: transitionOrder_Inr [OF ids])
  have same: "(if ord_id x = i \<and> ord_status x = PENDING_PAYMENT then moved_order ?q x else x) =
      (if ord_id x = i then expired_row x else x)" if "x \<in> set (orders (tables w))" for x
    using same_key [OF ids that assms(3)] assms(4,5) by (auto simp: moved_order_def expired_row_def)
  have "(case Option.bind (live_payment i (tables w)) pay_providerIntentId of
      None \<Rightarrow> Inr INTENT_CANCELLED | Some x \<Rightarrow> cancelIntent provider x) = Inr INTENT_CANCELLED"
    by (simp add: assms(2) split: option.split)
  moreover obtain d where "expire_work now i (live_payment i (tables w)) (tables w) = Inr ((), d)"
    "orders d = orders (moved_tables now ?q (tables w))"
    by (cases "live_payment i (tables w)") (simp_all add: expire_work_def t)
  ultimately have "fst (expireOne provider (\<lambda>_ w. w) now i w)"
    "orders (tables (snd (expireOne provider (\<lambda>_ w. w) now i w))) = orders (moved_tables now ?q (tables w))"
    by (simp_all add: expireOne_def Let_def db_transaction_def)
  moreover have "orders (moved_tables now ?q (tables w)) =
      map (\<lambda>x. if ord_id x = i then expired_row x else x) (orders (tables w))"
    using same by (simp add: moved_tables_orders)
  ultimately show "fst (expireOne provider (\<lambda>_ w. w) now i w)"
    and "orders (tables (snd (expireOne provider (\<lambda>_ w. w) now i w))) =
      map (\<lambda>x. if ord_id x = i then expired_row x else x) (orders (tables w))"
    by simp_all
qed

lemma expire_each_alone:
  assumes "\<And>i. cancelIntent provider i = Inr INTENT_CANCELLED"
  shows "ledger (tables w) \<Longrightarrow> distinct ids \<Longrightarrow>
    (\<forall>i \<in> set ids. \<exists>r \<in> set (orders (tables w)). ord_id r = i \<and> ord_status r = PENDING_PAYMENT) \<Longrightarrow>
    fst (expire_each provider (\<lambda>_ _ w. w) now ids n w) = n + length ids \<and>
    orders (tables (snd (expire_each provider (\<lambda>_ _ w. w) now ids n w))) =
      map (\<lambda>x. if ord_id x \<in> set ids then expired_row x else x) (orders (tables w))"
proof (induction ids arbitrary: n w)
  case (Cons i ids)
  let ?one = "expireOne provider (\<lambda>_ w. w) now i w"
  obtain r where r: "r \<in> set (orders (tables w))" "ord_id r = i" "ord_status r = PENDING_PAYMENT"
    using Cons.prems(3) by auto
  note one = expireOne_alone [OF Cons.prems(1) assms r, of now]
  have ok: "ledger (tables (snd ?one))"
    using lg.tameD [OF expireOne_tame [of "\<lambda>_ w. w"] Cons.prems(1)] by simp
  have pend: "\<forall>j \<in> set ids. \<exists>r \<in> set (orders (tables (snd ?one))). ord_id r = j \<and> ord_status r = PENDING_PAYMENT"
    using Cons.prems(2,3) unfolding one(2) by fastforce
  have "expire_each provider (\<lambda>_ _ w. w) now (i # ids) n w = expire_each provider (\<lambda>_ _ w. w) now ids (n + 1) (snd ?one)"
    using one(1) by (simp add: prod.case_eq_if)
  then show ?case
    using Cons.IH [OF ok _ pend, of "n + 1"] Cons.prems(2) unfolding one(2)
    by (auto simp: expired_row_def)
qed simp

section \<open>Properties\<close>

text \<open>
  C14. A retried \<open>POST /orders\<close>: once a key has been answered, and for as long as its row is
  kept, the same request from the same principal gets the very same order back, marked as a replay,
  and any other request under that key gets a conflict. Neither creates an order or changes a table.
\<close>

theorem order_retry_replays:
  assumes "create sha offset cfg meanwhile now fr who input (Some k) w = (Inr (b, False), w1)"
    and "answers (tables w2) k = answers (tables w1) k"
  shows "create sha offset' cfg' (\<lambda>w. w) now' fr' who' input' (Some k) w2 =
    (if hashRequest sha (scopeOf who') (input_json input') = hashRequest sha (scopeOf who) (input_json input)
     then Inr (b, True) else Inl IdempotencyConflictError, w2)"
  using create_answered [OF assms(1)] assms(2)
  by (simp add: create_def db_transaction_def create_work_taken keys.replay_eq)

theorem order_retry_replays_witness:
  "\<exists>b w1. create id bangkok shop_config id morning fresh (DevicePrincipal ''k1'') one_latte
       (Some ''key-00000001'') shop = (Inr (b, False), w1) \<and>
     create id bangkok shop_config (\<lambda>w. w) (morning + 5000) fresh (DevicePrincipal ''k1'') one_latte
       (Some ''key-00000001'') w1 = (Inr (b, True), w1)"
proof -
  obtain b w1 where c: "create id bangkok shop_config id morning fresh (DevicePrincipal ''k1'') one_latte
      (Some ''key-00000001'') shop = (Inr (b, False), w1)"
    using ordered_with_key by blast
  from order_retry_replays [OF c refl] show ?thesis using c by (intro exI conjI) (assumption, simp)
qed

text \<open>
  C15. A retried payment: the stored answer, without its client secret, comes back with no second
  charge, no second row and no change to the tables; a pending gateway payment has its secret
  fetched again. Another request under the key is a conflict.
\<close>

theorem payment_retry_replays:
  assumes "create_payment sha provider publish gaps now new who i input (Some k) w = (Inr (b, False), w1)"
    and "answers (tables w2) k = answers (tables w1) k"
  shows "\<exists>v. b = PaymentBody v \<and>
    create_payment sha provider' publish' (\<lambda>_ w. w) now' new' who' i' input' (Some k) w2 =
    (if hashRequest sha (scopeOf who' @ '':payments:'' @ i') (payment_json input') =
        hashRequest sha (scopeOf who @ '':payments:'' @ i) (payment_json input)
     then sum_bind (rehydrate provider' (PaymentBody (v\<lparr>pv_clientSecret := None\<rparr>)) (tables w2)) (\<lambda>x. Inr (x, True))
     else Inl IdempotencyConflictError, w2)"
proof -
  define h where "h = hashRequest sha (scopeOf who @ '':payments:'' @ i) (payment_json input)"
  define h' where "h' = hashRequest sha (scopeOf who' @ '':payments:'' @ i') (payment_json input')"
  obtain v where v: "b = PaymentBody v"
    "answers (tables w2) k = Some (h, Some (PaymentBody (v\<lparr>pv_clientSecret := None\<rparr>)))"
    using create_payment_answered [OF assms(1)] assms(2) unfolding h_def by auto
  have "create_payment sha provider' publish' (\<lambda>_ w. w) now' new' who' i' input' (Some k) w2 =
    (if h' = h
     then sum_bind (rehydrate provider' (PaymentBody (v\<lparr>pv_clientSecret := None\<rparr>)) (tables w2)) (\<lambda>x. Inr (x, True))
     else Inl IdempotencyConflictError, w2)"
    unfolding create_payment_def Let_def option.map h'_def [symmetric]
    by (simp add: completedResponseFor_answers v(2))
  then show ?thesis unfolding h_def h'_def using v(1) by blast
qed

theorem payment_retry_replays_witness:
  "\<exists>b w1. create_payment id open_gateway (\<lambda>_. True) (\<lambda>_. id) (morning + 60000) ''p1'' (DevicePrincipal ''k1'')
       ''o1'' \<lparr>cp_method = CARD, cp_cashTenderedMinor = None\<rparr> (Some ''key-00000002'') ordered = (Inr (b, False), w1) \<and>
     (\<exists>v. b = PaymentBody v \<and> create_payment id closed_gateway (\<lambda>_. True) (\<lambda>_ w. w) (morning + 61000) ''p2''
       (DevicePrincipal ''k2'') ''o1'' \<lparr>cp_method = CARD, cp_cashTenderedMinor = None\<rparr> (Some ''key-00000002'') w1 =
       (Inl IdempotencyConflictError, w1))"
proof -
  have p: "payments (tables shop) = []" "idempotencyKeys (tables shop) = []" by (simp_all add: shop_def)
  obtain b w1 where c: "create_payment id open_gateway (\<lambda>_. True) (\<lambda>_. id) (morning + 60000) ''p1''
      (DevicePrincipal ''k1'') ''o1'' \<lparr>cp_method = CARD, cp_cashTenderedMinor = None\<rparr> (Some ''key-00000002'') ordered =
      (Inr (b, False), w1)"
    by (simp add: create_payment_def ordered_tables loadPayableOrder_def payable_order_def p
        row_by_def sql_find_def latte_order_def live_payment_def openGatewayPayment_def open_gateway_def
        write_payment_def write_work_def afterCommit_run_def gateway_work_def insertPayment_def
        insert_payment_row_def gateway_row_def int4_ok_def sql_insert_def completedResponseFor_def reserveKey_def)
  have "hashRequest id (scopeOf (DevicePrincipal ''k2'') @ '':payments:'' @ ''o1'') x \<noteq>
      hashRequest id (scopeOf (DevicePrincipal ''k1'') @ '':payments:'' @ ''o1'') y" for x y
    using request_preimage_eq [of "scopeOf (DevicePrincipal ''k2'') @ '':payments:'' @ ''o1''" x
        "scopeOf (DevicePrincipal ''k1'') @ '':payments:'' @ ''o1''" y]
    by (simp add: hashRequest_def)
  then obtain v where "b = PaymentBody v" "create_payment id closed_gateway (\<lambda>_. True) (\<lambda>_ w. w) (morning + 61000) ''p2''
      (DevicePrincipal ''k2'') ''o1'' \<lparr>cp_method = CARD, cp_cashTenderedMinor = None\<rparr> (Some ''key-00000002'') w1 =
      (Inl IdempotencyConflictError, w1)"
    using payment_retry_replays [OF c refl, of closed_gateway "\<lambda>_. True" "morning + 61000" "''p2''"
        "DevicePrincipal ''k2''" "''o1''" "\<lparr>cp_method = CARD, cp_cashTenderedMinor = None\<rparr>"]
    by auto
  with c show ?thesis by blast
qed

text \<open>
  C16. What an event may do: an order is marked paid only on a success event whose payment row exists,
  whose amount and currency are exactly the row's, and whose order awaits payment; a payment is
  marked failed or cancelled only while it has not succeeded; everything the gateway reports that
  contradicts the rows is refused and left for review.
\<close>

theorem event_decisions:
  "(decidePaymentOutcome outcome payment order = MARK_PAID pid oid \<longleftrightarrow>
      (\<exists>i p r. outcome = SUCCEEDED i (Some (pay_amountMinor p)) (pay_currency p) \<and> payment = Some p \<and>
         order = Some r \<and> ord_status r = PENDING_PAYMENT \<and> pid = pay_id p \<and> oid = ord_id r)) \<and>
   (decidePaymentOutcome outcome payment order = MARK_PAYMENT pid st \<longleftrightarrow>
      (\<exists>p. payment = Some p \<and> pid = pay_id p \<and> pay_status p \<noteq> st \<and> pay_status p \<noteq> PAY_SUCCEEDED \<and>
         (st = PAY_FAILED \<and> (\<exists>i why. outcome = FAILED i why) \<or>
          st = PAY_CANCELLED \<and> (\<exists>i. outcome = CANCELLED_OUTCOME i)))) \<and>
   ((\<exists>why. decidePaymentOutcome outcome payment order = REFUSE why) \<longleftrightarrow>
      outcome \<noteq> IGNORED \<and> payment = None \<or>
      (\<exists>i a c p. outcome = SUCCEEDED i a c \<and> payment = Some p \<and>
         (a \<noteq> Some (pay_amountMinor p) \<or> c \<noteq> pay_currency p \<or> order = None \<or>
          (\<exists>r. order = Some r \<and> ord_status r \<notin> {PAID, PENDING_PAYMENT}))) \<or>
      (\<exists>p. payment = Some p \<and> pay_status p = PAY_SUCCEEDED \<and>
         ((\<exists>i why. outcome = FAILED i why) \<or> (\<exists>i. outcome = CANCELLED_OUTCOME i))))"
  by (intro conjI; cases outcome; cases payment; cases order)
    (auto simp: decidePaymentOutcome_def decideSuccess_def decideOther_def SETTLED_def)

theorem event_decisions_witness:
  "(\<exists>why. decidePaymentOutcome (SUCCEEDED (Some ''pi_1'') (Some 5400) ''THB'') None None = REFUSE why) \<and>
   (\<forall>pid oid. decidePaymentOutcome (SUCCEEDED (Some ''pi_1'') (Some 5400) ''THB'') None None \<noteq> MARK_PAID pid oid)"
  using event_decisions [of "SUCCEEDED (Some ''pi_1'') (Some 5400) ''THB''" None None] by simp

text \<open>
  C17. An event is applied once: a redelivery of an event already in the inbox is acknowledged and
  changes nothing, and processing an inbox row that is stamped changes nothing, so at-least-once
  delivery cannot pay an order, or count a payment, twice.
\<close>

theorem redelivery_changes_nothing:
  assumes "parseWebhook provider body sig = Inr ev"
    and "ge_eventId ev \<in> ev_providerEventId ` set (paymentEvents (tables w))"
  shows "receive provider publish gaps now i (Some body) (Some sig) w = (Inr (), w) \<and>
    (\<forall>e. (\<forall>x \<in> set (paymentEvents (tables w)). ev_id x = e \<longrightarrow> ev_processedAt x \<noteq> None) \<longrightarrow>
      processEvent provider publish gaps now e w = (False, w))"
proof (intro conjI allI impI)
  show "receive provider publish gaps now i (Some body) (Some sig) w = (Inr (), w)"
    using assms by (auto simp: receive_def record_event_def sql_insert_def list_ex_iff)
  fix e assume "\<forall>x \<in> set (paymentEvents (tables w)). ev_id x = e \<longrightarrow> ev_processedAt x \<noteq> None"
  then have "sql_find (\<lambda>x. ev_id x = e \<and> ev_processedAt x = None) (paymentEvents (tables w)) = None"
    by (auto simp: sql_find_def find_None_iff)
  then show "processEvent provider publish gaps now e w = (False, w)"
    by (simp add: processEvent_def apply_event_def)
qed

theorem redelivery_changes_nothing_witness:
  "paymentEvents (tables captured) \<noteq> [] \<and>
   receive open_gateway (\<lambda>_. True) (\<lambda>_. id) (morning + 95000) ''e2'' (Some ''body'') (Some ''sig'') captured =
     (Inr (), captured)"
proof -
  have ev: "map ev_providerEventId (paymentEvents (tables captured)) = [''evt_1'']"
    by (rule captured_events)
  then have "ge_eventId (\<lparr>ge_eventId = ''evt_1'', ge_type = ''payment_intent.succeeded'',
        ge_createdAt = morning, ge_payload = JStr ''body'', ge_outcome = IGNORED\<rparr>) \<in>
      ev_providerEventId ` set (paymentEvents (tables captured))"
    by (metis gateway_event.select_convs(1) list.set_intros(1) list.set_map)
  from redelivery_changes_nothing [OF _ this, of open_gateway "''body''" "''sig''"]
  show ?thesis using ev by (auto simp: open_gateway_def)
qed

text \<open>
  A webhook nobody signed changes nothing: with the Stripe adapter, a delivery whose signature
  none of the configured secrets verifies is refused as such, whatever its body, and a delivery
  without a signature is refused the same way.
\<close>

theorem unsigned_delivery_changes_nothing:
  assumes "\<And>s secret. sig = Some s \<Longrightarrow> secret \<in> set secrets \<Longrightarrow> sdk_constructEvent stripe body s secret = None"
  shows "receive (stripe_provider stripe secrets) publish gaps now i (Some body) sig w =
    (Inl WebhookSignatureInvalidError, w)"
proof (cases sig)
  case (Some s')
  then have "verify stripe secrets body s' = Inl WebhookSignatureInvalidError"
    using assms by (simp add: verify_Inl)
  then show ?thesis by (simp add: receive_def stripe_provider_def stripe_parseWebhook_def Some)
qed (simp add: receive_def)

theorem unsigned_delivery_changes_nothing_witness:
  "receive (stripe_provider \<lparr>sdk_create = (\<lambda>_ _ _ _. Inl StripeAPIError), sdk_cancel = (\<lambda>_. Inl StripeAPIError),
       sdk_retrieve = (\<lambda>_. Inl StripeAPIError),
       sdk_constructEvent = (\<lambda>body s secret. if s = secret then
         Some \<lparr>se_id = ''evt_1'', se_type = ''t'', se_created = 0, se_json = JNull\<rparr> else None)\<rparr> [''whsec_1''])
     (\<lambda>_. True) (\<lambda>_. id) morning ''e1'' (Some ''body'') (Some ''forged'') awaiting_card =
   (Inl WebhookSignatureInvalidError, awaiting_card)"
  by (rule unsigned_delivery_changes_nothing) auto

text \<open>
  C18. A live intent the gateway does not give up is not thrown away: when, at the moment a
  cancellation or the expiry reads the payments, the order's live payment carries an intent and the
  gateway does not confirm that it cancelled it, because it has captured it or because it cannot be
  reached, then the expiry gives up and the cancellation fails, whatever other requests commit
  meanwhile, and neither adds a change of its own to the world. It speaks of live payments only:
  one already marked failed is not asked about (\<open>failed_payment_is_not_asked_about\<close> below).
\<close>

theorem captured_order_not_dropped:
  assumes "cancelIntent provider intent \<noteq> Inr INTENT_CANCELLED"
  shows "(\<forall>p. live_payment i (tables w) = Some p \<longrightarrow> pay_providerIntentId p = Some intent \<longrightarrow>
      expireOne provider gaps now' i w = (False, w)) \<and>
    (\<forall>p. live_payment i (tables (gaps 0 w)) = Some p \<longrightarrow> pay_providerIntentId p = Some intent \<longrightarrow>
      (\<exists>e. cancel provider publish gaps now who i reason w = (Inl e, w) \<or>
           cancel provider publish gaps now who i reason w = (Inl e, gaps 0 w)))"
proof -
  have "\<exists>e. cancel_at_gateway provider (Some p) = Inl e" if "pay_providerIntentId p = Some intent" for p
    using that assms by (auto simp: cancel_at_gateway_def split: sum.split cancel_intent_outcome.split)
  then show ?thesis
    using assms by (fastforce simp: expireOne_def cancel_def Let_def split: sum.split)
qed

theorem captured_order_not_dropped_witness:
  "expireOne open_gateway (\<lambda>_. id) (morning + 700000) ''o1'' awaiting_card = (False, awaiting_card) \<and>
   (\<exists>e. cancel open_gateway (\<lambda>_. True) (\<lambda>_. id) morning (DevicePrincipal ''k1'') ''o1'' None awaiting_card =
     (Inl e, awaiting_card))"
proof -
  have live: "live_payment ''o1'' (tables awaiting_card) = Some (card_payment PAY_PENDING None)"
    by (simp add: live_payment_def sql_find_def awaiting_card_tables card_payment_def)
  obtain intent where i: "pay_providerIntentId (card_payment PAY_PENDING None) = Some intent"
    "cancelIntent open_gateway intent \<noteq> Inr INTENT_CANCELLED"
    by (simp add: card_payment_def open_gateway_def)
  show ?thesis
    using captured_order_not_dropped [OF i(2), of "''o1''" awaiting_card "\<lambda>_. id"] live i(1) by simp
qed

text \<open>
  Why the payment has to be live. Once a payment is marked failed the order has no live payment, and
  a cancellation or an expiry no longer consults the gateway: it runs the same whatever the gateway
  would say of the old intent, which the customer can still confirm.
\<close>

lemma failed_payment_is_not_asked_about:
  assumes "\<forall>p \<in> set (payments (tables w)). pay_orderId p = i \<longrightarrow> pay_status p = PAY_FAILED"
  shows "expireOne provider gaps now i w = expireOne provider' gaps now i w"
    and "cancel provider publish (\<lambda>_. id) now who i reason w = cancel provider' publish (\<lambda>_. id) now who i reason w"
proof -
  have "live_payment i (tables w) = None"
    using assms by (auto simp: live_payment_def sql_find_None live_status_def)
  then show "expireOne provider gaps now i w = expireOne provider' gaps now i w"
    and "cancel provider publish (\<lambda>_. id) now who i reason w = cancel provider' publish (\<lambda>_. id) now who i reason w"
    by (simp_all add: expireOne_def cancel_def cancel_at_gateway_def split: sum.split)
qed

text \<open>
  C19. The sweep clears the queue: run alone over a gateway that confirms its cancellations, one tick
  expires every order whose payment window has closed, up to its limit of 200, reports how many, and
  leaves none overdue.
\<close>

theorem sweep_expires_overdue:
  assumes "ledger (tables w)" "\<And>i. cancelIntent provider i = Inr INTENT_CANCELLED"
    and "length (filter (\<lambda>r. ord_status r = PENDING_PAYMENT \<and>
      (case ord_expiresAt r of None \<Rightarrow> False | Some t \<Rightarrow> t < now)) (orders (tables w))) \<le> 200"
  shows "fst (expireOverdue provider (\<lambda>_ _ w. w) now w) = length (overdue_orders now (tables w)) \<and>
    overdue_orders now (tables (snd (expireOverdue provider (\<lambda>_ _ w. w) now w))) = [] \<and>
    (\<forall>r \<in> set (orders (tables w)). ord_id r \<in> set (overdue_orders now (tables w)) \<longrightarrow>
      (\<exists>r' \<in> set (orders (tables (snd (expireOverdue provider (\<lambda>_ _ w. w) now w)))).
         ord_id r' = ord_id r \<and> ord_status r' = EXPIRED))"
proof -
  let ?od = "\<lambda>r. ord_status r = PENDING_PAYMENT \<and> (case ord_expiresAt r of None \<Rightarrow> False | Some t \<Rightarrow> t < now)"
  let ?ids = "overdue_orders now (tables w)"
  let ?w' = "snd (expireOverdue provider (\<lambda>_ _ w. w) now w)"
  have all: "?ids = map ord_id (filter ?od (orders (tables w)))"
    using assms(3) by (simp add: overdue_orders_def MAX_PER_TICK_def)
  have d: "distinct ?ids"
    unfolding all using ledger_ids [OF assms(1)] by (rule distinct_map_filter)
  have pend: "\<forall>i \<in> set ?ids. \<exists>r \<in> set (orders (tables w)). ord_id r = i \<and> ord_status r = PENDING_PAYMENT"
    unfolding all by auto
  note run = expire_each_alone [OF assms(2,1) d pend, of now 0, folded expireOverdue_def]
  have rows: "orders (tables ?w') = map (\<lambda>x. if ord_id x \<in> set ?ids then expired_row x else x) (orders (tables w))"
    using run by simp
  have "\<not> ?od r'" if "r' \<in> set (orders (tables ?w'))" for r'
    using that unfolding rows by (auto simp: all expired_row_def)
  then have "overdue_orders now (tables ?w') = []"
    by (auto simp: overdue_orders_def filter_empty_conv)
  moreover have "\<forall>r \<in> set (orders (tables w)). ord_id r \<in> set ?ids \<longrightarrow>
      (\<exists>r' \<in> set (orders (tables ?w')). ord_id r' = ord_id r \<and> ord_status r' = EXPIRED)"
  proof (intro ballI impI)
    fix r assume r: "r \<in> set (orders (tables w))" "ord_id r \<in> set ?ids"
    then have "expired_row r \<in> set (orders (tables ?w'))" unfolding rows by force
    then show "\<exists>r' \<in> set (orders (tables ?w')). ord_id r' = ord_id r \<and> ord_status r' = EXPIRED"
      by (rule bexI [rotated]) (simp add: expired_row_def)
  qed
  ultimately show ?thesis using run by simp
qed

theorem sweep_expires_overdue_witness:
  "overdue_orders (morning + 700000) (tables ordered) = [''o1''] \<and>
   fst (expireOverdue (closed_gateway\<lparr>cancelIntent := (\<lambda>_. Inr INTENT_CANCELLED)\<rparr>) (\<lambda>_ _ w. w) (morning + 700000) ordered) = 1"
proof -
  have o: "overdue_orders (morning + 700000) (tables ordered) = [''o1'']"
    by (simp add: overdue_orders_def MAX_PER_TICK_def ordered_tables latte_order_def morning_def)
  have "ledger (tables ordered)" by (rule from_blank(2) [OF ordered_evolves shop_blank])
  then show ?thesis
    using sweep_expires_overdue [of ordered "closed_gateway\<lparr>cancelIntent := (\<lambda>_. Inr INTENT_CANCELLED)\<rparr>" "morning + 700000"] o
    by (simp add: ordered_tables)
qed

text \<open>
  The nightly comparison over the Stripe adapter: when every intent can be read, the report's
  gateway figure is what the captured intents received, the intents listed are exactly those not
  captured, and when each recorded payment was captured for its own amount the delta is zero and
  the list empty.
\<close>

theorem reconciliation_finds_delta:
  assumes "\<And>i. sdk_retrieve stripe i = Inr (intent i)"
    and "reconcile (stripe_provider stripe secrets) gaps day w = (Inr report, w')"
  shows "let rows = recorded_payments day (tables w); ids = List.map_filter pay_providerIntentId rows in
    rc_gatewayCapturedMinor report =
      sum_list (map (si_amount_received \<circ> intent) (filter (\<lambda>i. si_status (intent i) = ''succeeded'') ids)) \<and>
    rc_notCaptured report = filter (\<lambda>i. si_status (intent i) \<noteq> ''succeeded'') ids \<and>
    rc_deltaMinor report = rc_gatewayCapturedMinor report - sum_list (map pay_amountMinor rows) \<and>
    ((\<forall>p \<in> set rows. \<exists>i. pay_providerIntentId p = Some i \<and> si_status (intent i) = ''succeeded'' \<and>
        si_amount_received (intent i) = pay_amountMinor p) \<longrightarrow>
      rc_deltaMinor report = 0 \<and> rc_notCaptured report = [])"
proof -
  let ?rows = "recorded_payments day (tables w)"
  let ?ids = "List.map_filter pay_providerIntentId ?rows"
  have total: "stripe_capturedTotalFor stripe t nc ids =
      Inr (t + sum_list (map (si_amount_received \<circ> intent) (filter (\<lambda>i. si_status (intent i) = ''succeeded'') ids)),
           nc @ filter (\<lambda>i. si_status (intent i) \<noteq> ''succeeded'') ids)" for t nc ids
    by (induction ids arbitrary: t nc) (auto simp: assms(1))
  have rep: "rc_gatewayCapturedMinor report =
      sum_list (map (si_amount_received \<circ> intent) (filter (\<lambda>i. si_status (intent i) = ''succeeded'') ?ids))"
    "rc_notCaptured report = filter (\<lambda>i. si_status (intent i) \<noteq> ''succeeded'') ?ids"
    "rc_deltaMinor report = rc_gatewayCapturedMinor report - sum_list (map pay_amountMinor ?rows)"
    using assms(2) by (auto simp: reconcile_def stripe_provider_def total Let_def)
  have "sum_list (map (si_amount_received \<circ> intent) (filter (\<lambda>i. si_status (intent i) = ''succeeded'')
        (List.map_filter pay_providerIntentId rows))) = sum_list (map pay_amountMinor rows) \<and>
      filter (\<lambda>i. si_status (intent i) \<noteq> ''succeeded'') (List.map_filter pay_providerIntentId rows) = []"
    if "\<forall>p \<in> set rows. \<exists>i. pay_providerIntentId p = Some i \<and> si_status (intent i) = ''succeeded'' \<and>
        si_amount_received (intent i) = pay_amountMinor p" for rows
    using that by (induction rows) (auto simp: List.map_filter_def)
  from this [of ?rows] show ?thesis unfolding Let_def using rep by auto
qed

theorem reconciliation_finds_delta_witness:
  "\<exists>report w'. reconcile (stripe_provider \<lparr>sdk_create = (\<lambda>_ _ _ _. Inl StripeAPIError),
       sdk_cancel = (\<lambda>_. Inl StripeAPIError),
       sdk_retrieve = (\<lambda>i. Inr \<lparr>si_id = i, si_status = ''succeeded'', si_client_secret = None,
         si_amount_received = 22000, si_latest_charge = NoCharge\<rparr>),
       sdk_constructEvent = (\<lambda>_ _ _. None)\<rparr> []) (\<lambda>_. id) ''2024-03-01'' captured = (Inr report, w') \<and>
     rc_deltaMinor report = 0"
proof -
  let ?intent = "\<lambda>i. \<lparr>si_id = i, si_status = ''succeeded'', si_client_secret = None,
         si_amount_received = 22000, si_latest_charge = NoCharge\<rparr>"
  let ?sdk = "\<lparr>sdk_create = (\<lambda>_ _ _ _. Inl StripeAPIError), sdk_cancel = (\<lambda>_. Inl StripeAPIError),
       sdk_retrieve = (\<lambda>i. Inr (?intent i)), sdk_constructEvent = (\<lambda>_ _ _. None)\<rparr>"
  have rows: "recorded_payments ''2024-03-01'' (tables captured) = [card_payment PAY_SUCCEEDED (Some CARD)]"
    by (simp add: recorded_payments_def captured_tables card_payment_def latte_order_def row_by_def sql_find_def)
  obtain report w' where r: "reconcile (stripe_provider ?sdk []) (\<lambda>_. id) ''2024-03-01'' captured = (Inr report, w')"
    by (simp add: reconcile_def rows card_payment_def List.map_filter_def stripe_provider_def Let_def)
  from reconciliation_finds_delta [of ?sdk ?intent, OF _ r] show ?thesis
    using r by (auto simp: rows card_payment_def Let_def)
qed

text \<open>
  C20. A kiosk sees only its own orders: for an order that belongs to another device or to nobody,
  reading it, listing its payments, cancelling it and paying for it all give the answer they give
  for an order that does not exist, and change nothing.
\<close>

theorem device_sees_only_its_own:
  assumes "\<And>r. r \<in> set (orders (tables w)) \<Longrightarrow> ord_id r = i \<Longrightarrow> ord_kioskDeviceId r \<noteq> Some dev"
  shows "detail (DevicePrincipal dev) i (tables w) = Inl (ResourceNotFoundError ''order'' i) \<and>
    listFor (DevicePrincipal dev) i (tables w) = Inl (ResourceNotFoundError ''order'' i) \<and>
    cancel provider publish gaps now (DevicePrincipal dev) i reason w = (Inl (ResourceNotFoundError ''order'' i), w) \<and>
    create_payment sha provider publish (\<lambda>_ w. w) now new (DevicePrincipal dev) i input None w =
      (Inl (ResourceNotFoundError ''order'' i), w)"
proof -
  have hidden: "visible_order (DevicePrincipal dev) i (tables w) = None"
    using assms by (auto simp: visible_order_def sql_find_def find_None_iff)
  have foreign: "row_by ord_id i (orders (tables w)) = Some r \<Longrightarrow> ord_kioskDeviceId r \<noteq> Some dev" for r
    using assms row_by_SomeD by fastforce
  have "payable_order (DevicePrincipal dev) i (tables w) = Inl (ResourceNotFoundError ''order'' i)"
    using foreign by (auto simp: payable_order_def split: option.split)
  then show ?thesis
    using hidden foreign
    by (auto simp: detail_def listFor_def cancel_def cancel_precheck_def create_payment_def loadPayableOrder_def
        split: option.split)
qed

theorem device_sees_only_its_own_witness:
  "latte_order PAID None \<in> set (orders (tables paid_up)) \<and>
   detail (DevicePrincipal ''k2'') ''o1'' (tables paid_up) = Inl (ResourceNotFoundError ''order'' ''o1'')"
proof -
  have "orders (tables paid_up) = [latte_order PAID None]" by (simp add: paid_up_tables)
  then show ?thesis
    using device_sees_only_its_own [of paid_up "''o1''" "''k2''"] by (simp add: latte_order_def)
qed

end
