(* ===== verification/Rollup.thy ===== *)
theory Rollup
  imports "HOL-Library.AList" "HOL-Library.Sorting_Algorithms" Sample
begin

text \<open>
  \<open>reporting/rollup/\<close>: what one business day totalled (\<open>aggregate-day.ts\<close>,
  \<open>build-rollup-row.ts\<close>), the nightly job that stores it (\<open>daily-rollup.service.ts\<close>) and
  the line that reports a correction (\<open>describe-correction.ts\<close>).

  The five queries run in one repeatable-read transaction, so they read one value of the tables. The
  rows of a \<open>GROUP BY\<close> come back in an order the database chooses: a \<open>query_plan\<close> holds
  that choice, and the theorems ask only that it is a permutation. \<open>localeCompare\<close> is the
  argument \<open>collate\<close>. The table \<open>daily_sales_rollups\<close> is a list of its own, since no other
  component reads or writes it. Sums of money are exact: they stay far below \<open>2^53\<close>.
\<close>

section \<open>Definitions\<close>

subsection \<open>Grouping\<close>

text \<open>\<open>GROUP BY\<close>: one group per key that occurs, with its rows.\<close>

definition group_rows :: "('r \<Rightarrow> 'k) \<Rightarrow> 'r list \<Rightarrow> ('k \<times> 'r list) list" where
  "group_rows f rows = map (\<lambda>k. (k, filter (\<lambda>r. f r = k) rows)) (remdups (map f rows))"

subsection \<open>\<open>build-rollup-row.ts\<close>: the data\<close>

definition UNKNOWN_METHOD :: string where "UNKNOWN_METHOD = ''UNKNOWN''"

record rollup_item =
  ri_menuItemId :: string
  ri_name :: string
  ri_quantity :: int
  ri_revenueMinor :: int

record rollup_parts =
  rp_statusCounts :: "(order_status \<times> int) list"
  rp_revenueByMethod :: "(payment_method option \<times> int) list"
  rp_refundsMinor :: int
  rp_vatMinor :: int
  rp_ordersSettled :: int
  rp_items :: "rollup_item list"

record rollup_row =
  rr_businessDay :: string
  rr_ordersCompleted :: int
  rr_ordersRefunded :: int
  rr_ordersCancelled :: int
  rr_ordersExpired :: int
  rr_ordersSettled :: int
  rr_revenueMinor :: int
  rr_revenueByMethod :: "(string \<times> int) list"
  rr_refundsMinor :: int
  rr_vatMinor :: int
  rr_topItems :: "rollup_item list"

subsection \<open>\<open>aggregate-day.ts\<close>\<close>

record query_plan =
  qp_statuses :: "(order_status \<times> int) list \<Rightarrow> (order_status \<times> int) list"
  qp_methods :: "(payment_method option \<times> int) list \<Rightarrow> (payment_method option \<times> int) list"
  qp_items :: "rollup_item list \<Rightarrow> rollup_item list"

definition plan_ok :: "query_plan \<Rightarrow> bool" where
  "plan_ok plan \<longleftrightarrow> (\<forall>xs. mset (qp_statuses plan xs) = mset xs) \<and>
     (\<forall>xs. mset (qp_methods plan xs) = mset xs) \<and> (\<forall>xs. mset (qp_items plan xs) = mset xs)"

definition settled :: "('p, 'b) db \<Rightarrow> order_row \<Rightarrow> bool" where
  "settled d r \<longleftrightarrow> list_ex (\<lambda>p. pay_orderId p = ord_id r \<and> pay_status p = PAY_SUCCEEDED) (payments d)"

definition orders_on :: "string \<Rightarrow> ('p, 'b) db \<Rightarrow> order_row list" where
  "orders_on day d = filter (\<lambda>r. ord_businessDay r = day) (orders d)"

text \<open>The inner join of a payment, or of an order line, with its order, restricted to one day.\<close>

definition order_day :: "string \<Rightarrow> ('p, 'b) db \<Rightarrow> string option" where
  "order_day orderId d = map_option ord_businessDay (row_by ord_id orderId (orders d))"

definition status_counts :: "string \<Rightarrow> ('p, 'b) db \<Rightarrow> (order_status \<times> int) list" where
  "status_counts day d = map (\<lambda>(s, rows). (s, int (length rows))) (group_rows ord_status (orders_on day d))"

definition captured_on :: "string \<Rightarrow> ('p, 'b) db \<Rightarrow> payment_row list" where
  "captured_on day d =
     filter (\<lambda>p. order_day (pay_orderId p) d = Some day \<and> pay_status p = PAY_SUCCEEDED) (payments d)"

definition revenue_by_method :: "string \<Rightarrow> ('p, 'b) db \<Rightarrow> (payment_method option \<times> int) list" where
  "revenue_by_method day d =
     map (\<lambda>(m, rows). (m, sum_list (map pay_amountMinor rows))) (group_rows pay_method (captured_on day d))"

definition refunded_on :: "string \<Rightarrow> ('p, 'b) db \<Rightarrow> refund_row list" where
  "refunded_on day d =
     filter (\<lambda>x. ref_status x = REF_SUCCEEDED \<and>
       (case row_by pay_id (ref_paymentId x) (payments d) of
          None \<Rightarrow> False | Some p \<Rightarrow> order_day (pay_orderId p) d = Some day)) (refunds d)"

definition sold_lines :: "string \<Rightarrow> ('p, 'b) db \<Rightarrow> order_item_row list" where
  "sold_lines day d =
     filter (\<lambda>l. case row_by ord_id (oi_orderId l) (orders d) of
                   None \<Rightarrow> False | Some r \<Rightarrow> ord_businessDay r = day \<and> settled d r) (orderItems d)"

definition item_total :: "(string \<times> string) \<times> order_item_row list \<Rightarrow> rollup_item" where
  "item_total g =
     (case g of ((menuItemId, name), rows) \<Rightarrow>
        \<lparr>ri_menuItemId = menuItemId, ri_name = name, ri_quantity = sum_list (map oi_quantity rows),
         ri_revenueMinor = sum_list (map oi_lineTotalMinor rows)\<rparr>)"

definition items_sold :: "string \<Rightarrow> ('p, 'b) db \<Rightarrow> rollup_item list" where
  "items_sold day d =
     map item_total (group_rows (\<lambda>l. (oi_menuItemId l, oi_nameSnapshot l)) (sold_lines day d))"

definition settled_on :: "string \<Rightarrow> ('p, 'b) db \<Rightarrow> order_row list" where
  "settled_on day d = filter (settled d) (orders_on day d)"

text \<open>The casts \<open>::int\<close> on the counts and on the sum of quantities fail beyond 32 bits.\<close>

definition casts_fit :: "string \<Rightarrow> ('p, 'b) db \<Rightarrow> bool" where
  "casts_fit day d \<longleftrightarrow> list_all (\<lambda>c. int4_ok (snd c)) (status_counts day d) \<and>
     int4_ok (int (length (settled_on day d))) \<and> list_all (\<lambda>i. int4_ok (ri_quantity i)) (items_sold day d)"

definition aggregateDay :: "query_plan \<Rightarrow> ('p, 'b) db \<Rightarrow> string \<Rightarrow> rollup_parts result" where
  "aggregateDay plan d day =
     (if \<not> casts_fit day d then Inl NumericOutOfRange
      else Inr \<lparr>rp_statusCounts = qp_statuses plan (status_counts day d),
                rp_revenueByMethod = qp_methods plan (revenue_by_method day d),
                rp_refundsMinor = sum_list (map ref_amountMinor (refunded_on day d)),
                rp_vatMinor = sum_list (map ord_vatMinor (settled_on day d)),
                rp_ordersSettled = int (length (settled_on day d)),
                rp_items = qp_items plan (items_sold day d)\<rparr>)"

subsection \<open>\<open>build-rollup-row.ts\<close>: the row\<close>

fun method_key :: "payment_method option \<Rightarrow> string" where
  "method_key None = UNKNOWN_METHOD"
| "method_key (Some CARD) = ''CARD''"
| "method_key (Some PROMPTPAY) = ''PROMPTPAY''"
| "method_key (Some CASH) = ''CASH''"

text \<open>\<open>o[key] = (o[key] ?? 0) + amount\<close> on an object, kept as its entries.\<close>

definition add_to_entry :: "string \<Rightarrow> int \<Rightarrow> (string \<times> int) list \<Rightarrow> (string \<times> int) list" where
  "add_to_entry k amount entries =
     AList.update k ((case map_of entries k of None \<Rightarrow> 0 | Some v \<Rightarrow> v) + amount) entries"

definition method_totals :: "(payment_method option \<times> int) list \<Rightarrow> (string \<times> int) list" where
  "method_totals rows = foldl (\<lambda>acc (m, t). add_to_entry (method_key m) t acc) [] rows"

text \<open>\<open>b.quantity - a.quantity || a.name.localeCompare(b.name)\<close>; sorting is stable.\<close>

definition by_rank :: "string comparator \<Rightarrow> rollup_item comparator" where
  "by_rank collate = key (\<lambda>i. (ri_quantity i, ri_name i)) (prod_lex (reversed default) collate)"

definition count_of :: "order_status \<Rightarrow> (order_status \<times> int) list \<Rightarrow> int" where
  "count_of s counts = (case map_of (rev counts) s of None \<Rightarrow> 0 | Some n \<Rightarrow> n)"

definition buildRollupRow :: "string comparator \<Rightarrow> string \<Rightarrow> rollup_parts \<Rightarrow> rollup_row" where
  "buildRollupRow collate day parts =
     (let counts = rp_statusCounts parts; byMethod = method_totals (rp_revenueByMethod parts) in
      \<lparr>rr_businessDay = day,
       rr_ordersCompleted = count_of COMPLETED counts,
       rr_ordersRefunded = count_of REFUNDED counts,
       rr_ordersCancelled = count_of CANCELLED counts,
       rr_ordersExpired = count_of EXPIRED counts,
       rr_ordersSettled = rp_ordersSettled parts,
       rr_revenueMinor = sum_list (map snd byMethod),
       rr_revenueByMethod = byMethod,
       rr_refundsMinor = rp_refundsMinor parts,
       rr_vatMinor = rp_vatMinor parts,
       rr_topItems = Sorting_Algorithms.sort (by_rank collate) (rp_items parts)\<rparr>)"

definition live_row :: "string comparator \<Rightarrow> query_plan \<Rightarrow> ('p, 'b) db \<Rightarrow> string \<Rightarrow> rollup_row result" where
  "live_row collate plan d day = sum_bind (aggregateDay plan d day) (\<lambda>parts. Inr (buildRollupRow collate day parts))"

subsection \<open>\<open>describe-correction.ts\<close>\<close>

definition COMPARED_FIELDS :: "(string \<times> (rollup_row \<Rightarrow> int)) list" where
  "COMPARED_FIELDS =
     [(''ordersCompleted'', rr_ordersCompleted), (''ordersRefunded'', rr_ordersRefunded),
      (''ordersCancelled'', rr_ordersCancelled), (''ordersExpired'', rr_ordersExpired),
      (''ordersSettled'', rr_ordersSettled), (''revenueMinor'', rr_revenueMinor),
      (''refundsMinor'', rr_refundsMinor), (''vatMinor'', rr_vatMinor)]"

fun comma_join :: "string list \<Rightarrow> string" where
  "comma_join [] = []"
| "comma_join [s] = s"
| "comma_join (s # t # ss) = s @ '', '' @ comma_join (t # ss)"

definition correction_line :: "rollup_row \<Rightarrow> rollup_row \<Rightarrow> string \<times> (rollup_row \<Rightarrow> int) \<Rightarrow> string" where
  "correction_line before after f =
     fst f @ '' '' @ string_of_int (snd f before) @ [CHR '' '', CHR 0xE2, CHR 0x86, CHR 0x92, CHR '' ''] @
     string_of_int (snd f after)"

definition describeCorrection :: "rollup_row \<Rightarrow> rollup_row \<Rightarrow> string option" where
  "describeCorrection before after =
     (let moved = map (correction_line before after)
                    (filter (\<lambda>f. snd f before \<noteq> snd f after) COMPARED_FIELDS)
      in if moved = [] then None else Some (comma_join moved))"

subsection \<open>\<open>daily-rollup.service.ts\<close>\<close>

record stored_rollup =
  sr_row :: rollup_row
  sr_finalizedAt :: "int option"

definition sr_day :: "stored_rollup \<Rightarrow> string" where "sr_day s = rr_businessDay (sr_row s)"

definition CATCH_UP_DAYS :: int where "CATCH_UP_DAYS = 30"
definition REROLL_DAYS :: int where "REROLL_DAYS = 3"

text \<open>\<open>INSERT .. ON CONFLICT (business_day) DO UPDATE\<close>.\<close>

definition upsert_rollup :: "stored_rollup \<Rightarrow> stored_rollup list \<Rightarrow> stored_rollup list" where
  "upsert_rollup s rolls =
     (if list_ex (\<lambda>x. sr_day x = sr_day s) rolls
      then map (\<lambda>x. if sr_day x = sr_day s then s else x) rolls else rolls @ [s])"

definition correction_of :: "stored_rollup option \<Rightarrow> rollup_row \<Rightarrow> string option" where
  "correction_of previous row =
     (case previous of
        Some s \<Rightarrow> if sr_finalizedAt s = None then None else describeCorrection (sr_row s) row
      | None \<Rightarrow> None)"

text \<open>The second component of a success is the correction that is logged, if there is one.\<close>

definition rollDay ::
  "string comparator \<Rightarrow> query_plan \<Rightarrow> (string \<Rightarrow> int \<Rightarrow> int) \<Rightarrow> config \<Rightarrow> int \<Rightarrow> ('p, 'b) db \<Rightarrow> string \<Rightarrow>
   stored_rollup list \<Rightarrow> (rollup_row \<times> string option) result \<times> stored_rollup list" where
  "rollDay collate plan offset cfg now d businessDay rolls =
     (let currentBusinessDay = today_of offset cfg now in
      if currentBusinessDay \<le> businessDay
      then (Inl (BusinessDayNotClosedError businessDay currentBusinessDay), rolls)
      else let previous = row_by sr_day businessDay rolls in
        case live_row collate plan d businessDay of
          Inl e \<Rightarrow> (Inl e, rolls)
        | Inr row \<Rightarrow>
            (Inr (row, correction_of previous row),
             upsert_rollup \<lparr>sr_row = row, sr_finalizedAt = Some now\<rparr> rolls))"

record rollup_summary =
  rs_rolled :: nat
  rs_failed :: nat

text \<open>The loop of \<open>rollDays\<close>: a day that fails is counted, and the rest goes on.\<close>

fun rollDays ::
  "string comparator \<Rightarrow> query_plan \<Rightarrow> (string \<Rightarrow> int \<Rightarrow> int) \<Rightarrow> config \<Rightarrow> int \<Rightarrow> ('p, 'b) db \<Rightarrow> string list \<Rightarrow>
   rollup_summary \<Rightarrow> stored_rollup list \<Rightarrow> rollup_summary \<times> stored_rollup list" where
  "rollDays collate plan offset cfg now d [] acc rolls = (acc, rolls)"
| "rollDays collate plan offset cfg now d (day # days) acc rolls =
     (case rollDay collate plan offset cfg now d day rolls of
        (Inr _, rolls') \<Rightarrow>
          rollDays collate plan offset cfg now d days (acc\<lparr>rs_rolled := rs_rolled acc + 1\<rparr>) rolls'
      | (Inl _, rolls') \<Rightarrow>
          rollDays collate plan offset cfg now d days (acc\<lparr>rs_failed := rs_failed acc + 1\<rparr>) rolls')"

definition finalized :: "stored_rollup list \<Rightarrow> string \<Rightarrow> bool" where
  "finalized rolls day \<longleftrightarrow> list_ex (\<lambda>s. sr_day s = day \<and> sr_finalizedAt s \<noteq> None) rolls"

definition needs_roll :: "string \<Rightarrow> stored_rollup list \<Rightarrow> string \<Rightarrow> bool" where
  "needs_roll target rolls day \<longleftrightarrow>
     minusDays target CATCH_UP_DAYS \<le> day \<and> day < target \<and>
     (minusDays target REROLL_DAYS \<le> day \<or> \<not> finalized rolls day)"

definition daysNeedingRoll :: "string \<Rightarrow> ('p, 'b) db \<Rightarrow> stored_rollup list \<Rightarrow> string list" where
  "daysNeedingRoll target d rolls =
     linorder_class.sort (remdups (filter (needs_roll target rolls) (map ord_businessDay (orders d))))"

definition rollUpYesterday ::
  "string comparator \<Rightarrow> query_plan \<Rightarrow> (string \<Rightarrow> int \<Rightarrow> int) \<Rightarrow> config \<Rightarrow> int \<Rightarrow> ('p, 'b) db \<Rightarrow>
   stored_rollup list \<Rightarrow> rollup_summary \<times> stored_rollup list" where
  "rollUpYesterday collate plan offset cfg now d rolls =
     (let target = today_of offset cfg (now - 24 * 60 * 60 * 1000)
      in rollDays collate plan offset cfg now d (target # daysNeedingRoll target d rolls)
           \<lparr>rs_rolled = 0, rs_failed = 0\<rparr> rolls)"

section \<open>Lemmas\<close>

subsection \<open>Groups and sums\<close>

lemma sum_list_filter_split:
  "sum_list (map f (filter P xs)) + sum_list (map f (filter (\<lambda>x. \<not> P x) xs)) = (sum_list (map f xs) :: int)"
  by (induction xs) auto

text \<open>
  Rows that belong to one of several owners, summed owner by owner. It is the lemma behind every
  join of the aggregation.
\<close>

lemma sum_list_by_owner:
  fixes f :: "'r \<Rightarrow> int"
  assumes "distinct (map g owners)"
  shows "sum_list (map f (filter (\<lambda>x. k x \<in> g ` set owners) rows)) =
    sum_list (map (\<lambda>r. sum_list (map f (filter (\<lambda>x. k x = g r) rows))) owners)"
  using assms
proof (induction owners)
  case (Cons r owners)
  let ?all = "filter (\<lambda>x. k x \<in> g ` set (r # owners)) rows"
  have "filter (\<lambda>x. k x = g r) ?all = filter (\<lambda>x. k x = g r) rows"
    by (auto intro: filter_cong)
  moreover have "filter (\<lambda>x. k x \<noteq> g r) ?all = filter (\<lambda>x. k x \<in> g ` set owners) rows"
    using Cons.prems by (auto intro!: filter_cong)
  ultimately show ?case
    using sum_list_filter_split [of f "\<lambda>x. k x = g r" ?all] Cons by simp
qed simp

lemma group_rows_sum:
  fixes f :: "'r \<Rightarrow> int"
  shows "sum_list (map (\<lambda>gr. sum_list (map f (snd gr))) (group_rows g xs)) = sum_list (map f xs)"
proof -
  have "filter (\<lambda>x. g x \<in> id ` set (remdups (map g xs))) xs = xs" by (simp add: filter_id_conv)
  with sum_list_by_owner [of id "remdups (map g xs)" f g xs] show ?thesis
    by (simp add: group_rows_def comp_def)
qed

lemma group_rows_keys: "distinct (map fst (group_rows g xs))" "set (map fst (group_rows g xs)) = g ` set xs"
  by (simp_all add: group_rows_def comp_def)

lemma map_of_group_rows:
  "map_of (group_rows g xs) k = (if k \<in> g ` set xs then Some (filter (\<lambda>x. g x = k) xs) else None)"
  by (simp add: group_rows_def map_of_map_restrict restrict_map_def)

lemma sum_list_mset: "mset xs = mset ys \<Longrightarrow> sum_list (map f xs) = (sum_list (map f ys) :: int)"
  by (metis mset_map sum_mset_sum_list)

lemma add_to_entry_sum:
  assumes "distinct (map fst es)"
  shows "sum_list (map snd (add_to_entry k a es)) = sum_list (map snd es) + a"
proof -
  have "sum_list (map snd (AList.update k (v + a) es)) = sum_list (map snd es) + a"
    if "map_of es k = Some v" "distinct (map fst es)" for v es
    using that by (induction es) (auto simp: dest: map_of_SomeD split: if_splits)
  moreover have "sum_list (map snd (AList.update k a es)) = sum_list (map snd es) + a"
    if "map_of es k = None" for es
    using that by (induction es) (auto split: if_splits)
  ultimately show ?thesis using assms by (auto simp: add_to_entry_def split: option.splits)
qed

lemma add_to_entry_distinct: "distinct (map fst es) \<Longrightarrow> distinct (map fst (add_to_entry k a es))"
  by (simp add: add_to_entry_def distinct_update)

lemma method_totals_sum: "sum_list (map snd (method_totals rows)) = sum_list (map snd rows)"
proof -
  have "sum_list (map snd (foldl (\<lambda>acc (m, t). add_to_entry (method_key m) t acc) es rows)) =
      sum_list (map snd es) + sum_list (map snd rows)" if "distinct (map fst es)" for es
    using that by (induction rows arbitrary: es) (auto simp: add_to_entry_sum add_to_entry_distinct)
  then show ?thesis by (simp add: method_totals_def)
qed

subsection \<open>A day of a consistent ledger\<close>

lemma settled_iff_paid:
  assumes "ledger d" "r \<in> set (orders d)"
  shows "settled d r \<longleftrightarrow> was_paid (ord_status r)"
proof -
  have "settled_ok d" using assms(1) by (simp add: ledger_def)
  with assms(2) show ?thesis by (auto simp: settled_def settled_ok_def settles_def list_ex_iff)
qed

lemma settled_on_paid:
  "ledger d \<Longrightarrow> settled_on day d = filter (\<lambda>r. was_paid (ord_status r)) (orders_on day d)"
  by (auto simp: settled_on_def orders_on_def settled_iff_paid intro: filter_cong)

lemma order_day_iff:
  assumes "keys_ok d"
  shows "order_day i d = Some day \<longleftrightarrow> i \<in> ord_id ` set (orders_on day d)"
proof -
  have "distinct (map ord_id (orders d))" using assms by (simp add: keys_ok_def)
  from row_by_iff [OF this] show ?thesis
    by (auto simp: order_day_def orders_on_def)
qed

lemma settled_on_ids: "keys_ok d \<Longrightarrow> distinct (map ord_id (settled_on day d))"
  by (auto simp: keys_ok_def settled_on_def orders_on_def distinct_map intro: inj_on_subset)

text \<open>The money captured on a day is what its paid orders cost.\<close>

lemma captured_of_settled:
  assumes "ledger d" "r \<in> set (settled_on day d)"
  shows "sum_list (map pay_amountMinor
    (filter (\<lambda>p. pay_orderId p = ord_id r) (filter (\<lambda>p. pay_status p = PAY_SUCCEEDED) (payments d)))) =
    ord_totalMinor r"
proof -
  have k: "keys_ok d" and p: "payments_ok d" and s: "settled_ok d" using assms(1) by (simp_all add: ledger_def)
  have r: "r \<in> set (orders d)" "settled d r" using assms(2) by (auto simp: settled_on_def orders_on_def)
  let ?ps = "filter (\<lambda>p. settles p r) (payments d)"
  obtain q where q: "q \<in> set (payments d)" "settles q r"
    using r by (auto simp: settled_def settles_def list_ex_iff)
  have "set ?ps = {q}" using s r(1) q unfolding settled_ok_def by auto
  moreover have "distinct (payments d)" using k by (simp add: keys_ok_def distinct_map)
  ultimately have "?ps = [q]" by (metis distinct_filter distinct_singleton list.set(1) list.simps(15) set_eq_iff_mset_eq_distinct mset_single_iff_right mset.simps)
  moreover have "pay_amountMinor q = ord_totalMinor r"
  proof -
    obtain r' where "r' \<in> set (orders d)" "ord_id r' = pay_orderId q" "pay_amountMinor q = ord_totalMinor r'"
      using p q(1) unfolding payments_ok_def by blast
    with same_key [of ord_id "orders d" r' r] k r(1) q(2) show ?thesis by (simp add: keys_ok_def settles_def)
  qed
  ultimately show ?thesis by (simp add: settles_def conj_commute)
qed

lemma captured_on_settled:
  assumes "ledger d"
  shows "captured_on day d =
    filter (\<lambda>p. pay_orderId p \<in> ord_id ` set (settled_on day d)) (filter (\<lambda>p. pay_status p = PAY_SUCCEEDED) (payments d))"
proof -
  have k: "keys_ok d" using assms by (simp add: ledger_def)
  have "settled d r" if "r \<in> set (orders d)" "p \<in> set (payments d)" "pay_status p = PAY_SUCCEEDED" "pay_orderId p = ord_id r" for r p
    using that by (auto simp: settled_def list_ex_iff)
  then show ?thesis
    by (auto simp: captured_on_def order_day_iff [OF k] settled_on_def orders_on_def intro!: filter_cong)
qed

lemma captured_total:
  assumes "ledger d"
  shows "sum_list (map pay_amountMinor (captured_on day d)) = sum_list (map ord_totalMinor (settled_on day d))"
proof -
  have k: "keys_ok d" using assms by (simp add: ledger_def)
  have "map (\<lambda>r. sum_list (map pay_amountMinor (filter (\<lambda>p. pay_orderId p = ord_id r)
      (filter (\<lambda>p. pay_status p = PAY_SUCCEEDED) (payments d))))) (settled_on day d) =
      map ord_totalMinor (settled_on day d)"
    using captured_of_settled [OF assms] by (intro map_cong refl)
  then show ?thesis
    by (simp only: captured_on_settled [OF assms] sum_list_by_owner [OF settled_on_ids [OF k]])
qed

lemma sold_lines_settled:
  assumes "keys_ok d"
  shows "sold_lines day d = filter (\<lambda>l. oi_orderId l \<in> ord_id ` set (settled_on day d)) (orderItems d)"
proof -
  have dist: "distinct (map ord_id (orders d))" using assms by (simp add: keys_ok_def)
  have "(case row_by ord_id i (orders d) of None \<Rightarrow> False | Some r \<Rightarrow> ord_businessDay r = day \<and> settled d r) \<longleftrightarrow>
      i \<in> ord_id ` set (settled_on day d)" for i
  proof (cases "row_by ord_id i (orders d)")
    case None
    then show ?thesis using row_by_None [of ord_id i "orders d"] by (auto simp: settled_on_def orders_on_def)
  next
    case (Some r)
    note r = row_by_SomeD [OF Some]
    show ?thesis using Some r by (auto simp: settled_on_def orders_on_def dest: same_key [OF dist r(2)])
  qed
  then show ?thesis by (simp add: sold_lines_def)
qed


lemma sold_total:
  assumes "ledger d"
  shows "sum_list (map oi_lineTotalMinor (sold_lines day d)) = sum_list (map ord_totalMinor (settled_on day d))"
proof -
  have k: "keys_ok d" and l: "lines_ok d" using assms by (simp_all add: ledger_def)
  have "map (\<lambda>r. sum_list (map oi_lineTotalMinor (filter (\<lambda>l. oi_orderId l = ord_id r) (orderItems d)))) (settled_on day d) =
      map ord_totalMinor (settled_on day d)"
    using l by (intro map_cong refl) (auto simp: lines_ok_def lines_of_def settled_on_def orders_on_def)
  then show ?thesis
    by (simp only: sold_lines_settled [OF k] sum_list_by_owner [OF settled_on_ids [OF k]])
qed

lemma items_sold_total: "sum_list (map ri_revenueMinor (items_sold day d)) = sum_list (map oi_lineTotalMinor (sold_lines day d))"
  using group_rows_sum [of oi_lineTotalMinor "\<lambda>l. (oi_menuItemId l, oi_nameSnapshot l)" "sold_lines day d"]
  by (simp add: items_sold_def item_total_def comp_def case_prod_beta)

lemma revenue_by_method_total:
  "sum_list (map snd (revenue_by_method day d)) = sum_list (map pay_amountMinor (captured_on day d))"
  using group_rows_sum [of pay_amountMinor pay_method "captured_on day d"]
  by (simp add: revenue_by_method_def comp_def case_prod_beta)

text \<open>What went back out of the till is at most what came in.\<close>

lemma refunded_on_captured:
  assumes "ledger d"
  shows "refunded_on day d = filter (\<lambda>x. ref_paymentId x \<in> pay_id ` set (captured_on day d))
    (filter (\<lambda>x. ref_status x = REF_SUCCEEDED) (refunds d))"
proof -
  have f: "refunds_ok d" and d: "distinct (map pay_id (payments d))"
    using assms by (simp_all add: ledger_def keys_ok_def)
  have "(case row_by pay_id (ref_paymentId x) (payments d) of
        None \<Rightarrow> False | Some p \<Rightarrow> order_day (pay_orderId p) d = Some day) \<longleftrightarrow>
      ref_paymentId x \<in> pay_id ` set (captured_on day d)" if x: "x \<in> set (refunds d)" for x
  proof -
    obtain p where p: "p \<in> set (payments d)" "pay_id p = ref_paymentId x" "pay_status p = PAY_SUCCEEDED"
      using f x unfolding refunds_ok_def by blast
    then have "row_by pay_id (ref_paymentId x) (payments d) = Some p" using row_by_mem [OF d] by metis
    then show ?thesis using p
      by (auto simp: captured_on_def dest: same_key [OF d p(1)] intro!: image_eqI [where x = p])
  qed
  then show ?thesis by (auto simp: refunded_on_def intro!: filter_cong)
qed

lemma refunded_le_captured:
  assumes "ledger d"
  shows "0 \<le> sum_list (map ref_amountMinor (refunded_on day d))"
    and "sum_list (map ref_amountMinor (refunded_on day d)) \<le> sum_list (map pay_amountMinor (captured_on day d))"
proof -
  have k: "keys_ok d" and f: "refunds_ok d" using assms by (simp_all add: ledger_def)
  let ?good = "filter (\<lambda>x. ref_status x = REF_SUCCEEDED) (refunds d)"
  have pos: "0 < ref_amountMinor x" if "x \<in> set (refunds d)" for x
    using f that by (simp add: refunds_ok_def)
  then show "0 \<le> sum_list (map ref_amountMinor (refunded_on day d))"
    by (intro sum_list_nonneg) (auto simp: refunded_on_def less_imp_le)
  have ids: "distinct (map pay_id (captured_on day d))"
    using k by (auto simp: keys_ok_def captured_on_def distinct_map intro: inj_on_subset)
  have "sum_list (map ref_amountMinor (refunded_on day d)) =
      sum_list (map (\<lambda>p. sum_list (map ref_amountMinor (filter (\<lambda>x. ref_paymentId x = pay_id p) ?good))) (captured_on day d))"
    by (simp only: refunded_on_captured [OF assms] sum_list_by_owner [OF ids])
  also have "\<dots> \<le> sum_list (map pay_amountMinor (captured_on day d))"
  proof (rule sum_list_mono)
    fix p assume p: "p \<in> set (captured_on day d)"
    let ?xs = "filter (\<lambda>x. ref_paymentId x = pay_id p) (refunds d)"
    have "0 \<le> sum_list (map ref_amountMinor (filter (\<lambda>x. ref_status x \<noteq> REF_SUCCEEDED) ?xs))"
      using pos by (intro sum_list_nonneg) (auto simp: less_imp_le)
    then have "sum_list (map ref_amountMinor (filter (\<lambda>x. ref_paymentId x = pay_id p) ?good)) \<le> refunded (pay_id p) d"
      using sum_list_filter_split [of ref_amountMinor "\<lambda>x. ref_status x = REF_SUCCEEDED" ?xs]
      by (simp add: refunded_def conj_commute)
    also have "\<dots> \<le> pay_amountMinor p" using f p by (auto simp: refunds_ok_def captured_on_def)
    finally show "sum_list (map ref_amountMinor (filter (\<lambda>x. ref_paymentId x = pay_id p) ?good)) \<le> pay_amountMinor p" .
  qed
  finally show "sum_list (map ref_amountMinor (refunded_on day d)) \<le> sum_list (map pay_amountMinor (captured_on day d))" .
qed

lemma live_row_Inr:
  "live_row collate plan d day = Inr row \<longleftrightarrow>
     casts_fit day d \<and> row = buildRollupRow collate day
       \<lparr>rp_statusCounts = qp_statuses plan (status_counts day d),
        rp_revenueByMethod = qp_methods plan (revenue_by_method day d),
        rp_refundsMinor = sum_list (map ref_amountMinor (refunded_on day d)),
        rp_vatMinor = sum_list (map ord_vatMinor (settled_on day d)),
        rp_ordersSettled = int (length (settled_on day d)),
        rp_items = qp_items plan (items_sold day d)\<rparr>"
  by (auto simp: live_row_def aggregateDay_def)

lemma map_of_permuted:
  assumes "mset ys = mset xs" "distinct (map fst xs)"
  shows "map_of ys = map_of xs"
proof -
  have "distinct (map fst ys)" using assms mset_eq_imp_distinct_iff [of "map fst ys" "map fst xs"] by simp
  moreover have "set ys = set xs" using assms(1) by (rule mset_eq_setD)
  ultimately show ?thesis using assms(2) map_of_inject_set by metis
qed

lemma count_of_status:
  assumes "plan_ok plan"
  shows "count_of s (qp_statuses plan (status_counts day d)) = int (length (filter (\<lambda>r. ord_status r = s) (orders_on day d)))"
proof -
  have "distinct (map fst (status_counts day d))"
    using group_rows_keys(1) [of ord_status "orders_on day d"]
    by (simp add: status_counts_def comp_def case_prod_beta)
  moreover have "mset (rev (qp_statuses plan (status_counts day d))) = mset (status_counts day d)"
    using assms by (simp add: plan_ok_def)
  ultimately have "map_of (rev (qp_statuses plan (status_counts day d))) = map_of (status_counts day d)"
    by (intro map_of_permuted)
  moreover have "map_of (status_counts day d) s = map_option (\<lambda>rows. int (length rows)) (map_of (group_rows ord_status (orders_on day d)) s)"
    by (simp add: status_counts_def map_of_map)
  ultimately show ?thesis
    by (auto simp: count_of_def map_of_group_rows filter_empty_conv)
qed

lemma live_row_fields:
  assumes "plan_ok plan" "live_row collate plan d day = Inr row"
  shows "rr_businessDay row = day"
    and "sum_list (map snd (rr_revenueByMethod row)) = rr_revenueMinor row"
    and "rr_revenueMinor row = sum_list (map pay_amountMinor (captured_on day d))"
    and "rr_refundsMinor row = sum_list (map ref_amountMinor (refunded_on day d))"
    and "rr_vatMinor row = sum_list (map ord_vatMinor (settled_on day d))"
    and "rr_ordersSettled row = int (length (settled_on day d))"
    and "sum_list (map ri_revenueMinor (rr_topItems row)) = sum_list (map oi_lineTotalMinor (sold_lines day d))"
    and "rr_ordersCompleted row = int (length (filter (\<lambda>r. ord_status r = COMPLETED) (orders_on day d)))"
    and "rr_ordersRefunded row = int (length (filter (\<lambda>r. ord_status r = REFUNDED) (orders_on day d)))"
    and "rr_ordersCancelled row = int (length (filter (\<lambda>r. ord_status r = CANCELLED) (orders_on day d)))"
    and "rr_ordersExpired row = int (length (filter (\<lambda>r. ord_status r = EXPIRED) (orders_on day d)))"
proof -
  note row = assms(2) [unfolded live_row_Inr, THEN conjunct2]
  have "sum_list (map snd (qp_methods plan (revenue_by_method day d))) = sum_list (map snd (revenue_by_method day d))"
    using assms(1) by (intro sum_list_mset) (simp add: plan_ok_def)
  then show "rr_revenueMinor row = sum_list (map pay_amountMinor (captured_on day d))"
    by (simp add: row buildRollupRow_def Let_def method_totals_sum revenue_by_method_total)
  have "sum_list (map ri_revenueMinor (rr_topItems row)) = sum_list (map ri_revenueMinor (items_sold day d))"
    using assms(1) by (intro sum_list_mset) (simp add: row buildRollupRow_def Let_def plan_ok_def)
  then show "sum_list (map ri_revenueMinor (rr_topItems row)) = sum_list (map oi_lineTotalMinor (sold_lines day d))"
    by (simp add: items_sold_total)
qed (simp_all add: assms(2) [unfolded live_row_Inr, THEN conjunct2] buildRollupRow_def Let_def count_of_status [OF assms(1)])

subsection \<open>The nightly job\<close>

definition rollable :: "(string \<Rightarrow> int \<Rightarrow> int) \<Rightarrow> config \<Rightarrow> int \<Rightarrow> ('p, 'b) db \<Rightarrow> string \<Rightarrow> bool" where
  "rollable offset cfg now d day \<longleftrightarrow> day < today_of offset cfg now \<and> casts_fit day d"

definition rolled_row :: "string comparator \<Rightarrow> query_plan \<Rightarrow> int \<Rightarrow> ('p, 'b) db \<Rightarrow> string \<Rightarrow> stored_rollup" where
  "rolled_row collate plan now d day =
     \<lparr>sr_row = projr (live_row collate plan d day), sr_finalizedAt = Some now\<rparr>"

lemma live_row_total: "casts_fit day d \<Longrightarrow> live_row collate plan d day = Inr (projr (live_row collate plan d day))"
  by (simp add: live_row_def aggregateDay_def)

lemma rolled_row_day [simp]: "casts_fit day d \<Longrightarrow> sr_day (rolled_row collate plan now d day) = day"
  by (simp add: rolled_row_def sr_day_def live_row_def aggregateDay_def buildRollupRow_def Let_def)

lemma rolled_row_live:
  "sr_finalizedAt (rolled_row collate plan now d day) = Some now"
  "casts_fit day d \<Longrightarrow> live_row collate plan d day = Inr (sr_row (rolled_row collate plan now d day))"
  using live_row_total by (auto simp: rolled_row_def)

lemma rollDay_cases:
  "rollable offset cfg now d day \<Longrightarrow>
     \<exists>r. rollDay collate plan offset cfg now d day rolls = (Inr r, upsert_rollup (rolled_row collate plan now d day) rolls)"
  "\<not> rollable offset cfg now d day \<Longrightarrow> \<exists>e. rollDay collate plan offset cfg now d day rolls = (Inl e, rolls)"
  using live_row_total [of day d collate plan]
  by (auto simp: rollDay_def rollable_def rolled_row_def Let_def live_row_def aggregateDay_def)

lemma set_upsert:
  "set (upsert_rollup s rolls) = {x \<in> set rolls. sr_day x \<noteq> sr_day s} \<union> {s}"
  by (auto simp: upsert_rollup_def list_ex_iff)

lemma rollDays_failed:
  "rollDays collate plan offset cfg now d days acc rolls = (summary, rolls') \<Longrightarrow>
     rs_failed summary = rs_failed acc + length (filter (\<lambda>day. \<not> rollable offset cfg now d day) days)"
proof (induction days arbitrary: acc rolls)
  case (Cons day days)
  then show ?case
    using rollDay_cases [of offset cfg now d day collate plan rolls]
    by (cases "rollable offset cfg now d day") fastforce+
qed simp

lemma rollDays_rows:
  "rollDays collate plan offset cfg now d days acc rolls = (summary, rolls') \<Longrightarrow>
     set rolls' = {x \<in> set rolls. \<not> (sr_day x \<in> set days \<and> rollable offset cfg now d (sr_day x))} \<union>
       rolled_row collate plan now d ` {day \<in> set days. rollable offset cfg now d day}"
proof (induction days arbitrary: acc rolls)
  case (Cons day days)
  show ?case
  proof (cases "rollable offset cfg now d day")
    case True
    then obtain r where "rollDay collate plan offset cfg now d day rolls =
        (Inr r, upsert_rollup (rolled_row collate plan now d day) rolls)"
      using rollDay_cases(1) by blast
    with Cons.prems have "rollDays collate plan offset cfg now d days (acc\<lparr>rs_rolled := rs_rolled acc + 1\<rparr>)
        (upsert_rollup (rolled_row collate plan now d day) rolls) = (summary, rolls')" by simp
    moreover have "sr_day (rolled_row collate plan now d day) = day" using True by (simp add: rollable_def)
    ultimately show ?thesis using Cons.IH True by (auto simp: set_upsert)
  next
    case False
    then obtain e where "rollDay collate plan offset cfg now d day rolls = (Inl e, rolls)"
      using rollDay_cases(2) by blast
    with Cons.prems have "rollDays collate plan offset cfg now d days (acc\<lparr>rs_failed := rs_failed acc + 1\<rparr>) rolls = (summary, rolls')"
      by simp
    from Cons.IH [OF this] False show ?thesis by auto
  qed
qed simp

text \<open>The days a nightly run visits.\<close>

definition nightly_days :: "string \<Rightarrow> ('p, 'b) db \<Rightarrow> stored_rollup list \<Rightarrow> string set" where
  "nightly_days target d rolls = insert target {day \<in> ord_businessDay ` set (orders d). needs_roll target rolls day}"

lemma set_daysNeedingRoll: "set (target # daysNeedingRoll target d rolls) = nightly_days target d rolls"
  by (auto simp: daysNeedingRoll_def nightly_days_def)

lemma nightly_rows:
  assumes "today_of offset cfg (now - 24 * 60 * 60 * 1000) < today_of offset cfg now" "\<And>day. casts_fit day d"
    and "rollUpYesterday collate plan offset cfg now d rolls = (summary, rolls')"
  shows "rs_failed summary = 0"
    and "set rolls' = {x \<in> set rolls. sr_day x \<notin> nightly_days (today_of offset cfg (now - 24 * 60 * 60 * 1000)) d rolls} \<union>
      rolled_row collate plan now d ` nightly_days (today_of offset cfg (now - 24 * 60 * 60 * 1000)) d rolls"
proof -
  let ?t = "today_of offset cfg (now - 24 * 60 * 60 * 1000)"
  have run: "rollDays collate plan offset cfg now d (?t # daysNeedingRoll ?t d rolls)
      \<lparr>rs_rolled = 0, rs_failed = 0\<rparr> rolls = (summary, rolls')"
    using assms(3) by (simp add: rollUpYesterday_def Let_def)
  have good: "rollable offset cfg now d day" if "day \<in> nightly_days ?t d rolls" for day
    using that assms(1,2) by (auto simp: rollable_def nightly_days_def needs_roll_def)
  then have "filter (\<lambda>day. \<not> rollable offset cfg now d day) (?t # daysNeedingRoll ?t d rolls) = []"
    using set_daysNeedingRoll [of ?t d rolls] by (simp only: filter_empty_conv) blast
  with rollDays_failed [OF run] show "rs_failed summary = 0" by simp
  show "set rolls' = {x \<in> set rolls. sr_day x \<notin> nightly_days ?t d rolls} \<union> rolled_row collate plan now d ` nightly_days ?t d rolls"
    using rollDays_rows [OF run] good by (simp only: set_daysNeedingRoll) blast
qed

section \<open>Properties\<close>

definition plain_plan :: query_plan where
  "plain_plan = \<lparr>qp_statuses = id, qp_methods = id, qp_items = id\<rparr>"

text \<open>
  C23. The day's figures agree with each other and with the orders. After any run of the shop, and in
  whatever order the database returns its groups, the revenue of a day is the sum of its breakdown by
  method, the sum of the totals of the day's paid orders, and the sum of what its items sold for; the
  settled count and the VAT are over the same orders; and what was refunded is between nothing and
  the revenue.
\<close>

theorem day_figures_agree:
  assumes "blank w" "evolves w w'" "plan_ok plan"
    and "live_row collate plan (tables w') day = Inr row"
    and "paid = filter (\<lambda>r. ord_status r \<in> {PAID, IN_PREPARATION, READY, COMPLETED, REFUNDED})
      (orders_on day (tables w'))"
  shows "rr_revenueMinor row = sum_list (map snd (rr_revenueByMethod row)) \<and>
    rr_revenueMinor row = sum_list (map ord_totalMinor paid) \<and>
    rr_revenueMinor row = sum_list (map ri_revenueMinor (rr_topItems row)) \<and>
    rr_vatMinor row = sum_list (map ord_vatMinor paid) \<and> rr_ordersSettled row = int (length paid) \<and>
    0 \<le> rr_refundsMinor row \<and> rr_refundsMinor row \<le> rr_revenueMinor row"
proof -
  have l: "ledger (tables w')" using from_blank [OF assms(2,1)] by simp
  have "paid = settled_on day (tables w')"
    by (simp add: assms(5) settled_on_paid [OF l] was_paid_def)
  then show ?thesis
    using live_row_fields [OF assms(3,4)] refunded_le_captured [OF l] captured_total [OF l] sold_total [OF l]
    by simp
qed

lemma part_refunded_fits: "casts_fit day (tables part_refunded)"
  by (cases "day = ''2024-03-01''")
    (simp_all add: casts_fit_def status_counts_def group_rows_def orders_on_def settled_on_def settled_def
      items_sold_def item_total_def sold_lines_def row_by_def sql_find_def int4_ok_def
      part_refunded_tables paid_up_tables ordered_tables latte_order_def latte_line_def cash_payment_def)

theorem day_figures_agree_witness:
  "\<exists>row. live_row default plain_plan (tables part_refunded) ''2024-03-01'' = Inr row \<and>
     rr_revenueMinor row = 22000 \<and> rr_refundsMinor row \<le> 22000"
proof -
  obtain row where row: "live_row default plain_plan (tables part_refunded) ''2024-03-01'' = Inr row"
    using live_row_total [OF part_refunded_fits] by blast
  have "plan_ok plain_plan" by (simp add: plan_ok_def plain_plan_def)
  from day_figures_agree [OF shop_blank part_refunded_evolves this row refl] row show ?thesis
    by (simp add: orders_on_def part_refunded_tables paid_up_tables ordered_tables latte_order_def)
qed

text \<open>
  C24. The nightly run closes the books: every day that traded in the thirty days up to the target
  day is finalized afterwards; the target and the three days before it hold exactly what the live
  tables total now; every row the run wrote is of a day that has closed; a finalized day older than
  that, and any day after the target, is left alone; nothing fails; and running again changes
  nothing. (No count exceeds its column, and yesterday's business day is not today's.)
\<close>

theorem nightly_run_closes_books:
  assumes "target = today_of offset cfg (now - 24 * 60 * 60 * 1000)" "target < today_of offset cfg now"
    and "\<And>day. casts_fit day d" "traded = insert target (ord_businessDay ` set (orders d))"
    and "rollUpYesterday collate plan offset cfg now d rolls = (summary, rolls')"
  shows "rs_failed summary = 0 \<and>
    (\<forall>day \<in> traded. minusDays target CATCH_UP_DAYS \<le> day \<longrightarrow> day < target \<or> day = target \<longrightarrow> finalized rolls' day) \<and>
    (\<forall>day \<in> traded. minusDays target CATCH_UP_DAYS \<le> day \<and> minusDays target REROLL_DAYS \<le> day \<and> day < target \<or> day = target \<longrightarrow>
       (\<exists>s \<in> set rolls'. sr_day s = day \<and> live_row collate plan d day = Inr (sr_row s))) \<and>
    (\<forall>s \<in> set rolls'. s \<in> set rolls \<or>
       sr_day s < today_of offset cfg now \<and> live_row collate plan d (sr_day s) = Inr (sr_row s)) \<and>
    (\<forall>s \<in> set rolls. target < sr_day s \<or> sr_day s < minusDays target REROLL_DAYS \<and> sr_day s \<noteq> target \<and> sr_finalizedAt s \<noteq> None \<longrightarrow>
       s \<in> set rolls') \<and>
    set (snd (rollUpYesterday collate plan offset cfg now d rolls')) = set rolls'"
proof -
  let ?R = "nightly_days target d rolls" and ?R' = "nightly_days target d rolls'"
  let ?new = "rolled_row collate plan now d"
  note run = nightly_rows [of offset cfg now d collate plan, folded assms(1), OF assms(2,3)]
  have ok: "rs_failed summary = 0" and rows: "set rolls' = {x \<in> set rolls. sr_day x \<notin> ?R} \<union> ?new ` ?R"
    using run [OF assms(5)] by simp_all
  have new: "sr_day (?new day) = day" "sr_finalizedAt (?new day) = Some now"
    "live_row collate plan d day = Inr (sr_row (?new day))" for day
    using assms(3) by (simp_all add: rolled_row_live)
  have closed: "day < today_of offset cfg now" if "day \<in> ?R" for day
    using that assms(2) by (auto simp: nightly_days_def needs_roll_def)
  have fin: "finalized rolls' day" if "day \<in> traded" "minusDays target CATCH_UP_DAYS \<le> day" "day < target \<or> day = target" for day
  proof (cases "day \<in> ?R")
    case True
    then have "?new day \<in> set rolls'" using rows by blast
    then show ?thesis using new by (fastforce simp: finalized_def list_ex_iff)
  next
    case False
    with that assms(4) have "finalized rolls day" by (auto simp: nightly_days_def needs_roll_def)
    with False rows show ?thesis by (auto simp: finalized_def list_ex_iff)
  qed
  have sub: "?R' \<subseteq> ?R"
    using fin assms(4) by (fastforce simp: nightly_days_def needs_roll_def)
  obtain summary2 rolls2 where run2: "rollUpYesterday collate plan offset cfg now d rolls' = (summary2, rolls2)"
    by fastforce
  have "set rolls2 = {x \<in> set rolls'. sr_day x \<notin> ?R'} \<union> ?new ` ?R'" using run [OF run2] by simp
  also have "\<dots> = set rolls'" using sub rows new(1) by auto
  finally have "set (snd (rollUpYesterday collate plan offset cfg now d rolls')) = set rolls'" by (simp add: run2)
  moreover have "\<exists>s \<in> set rolls'. sr_day s = day \<and> live_row collate plan d day = Inr (sr_row s)"
    if "day \<in> traded" "minusDays target CATCH_UP_DAYS \<le> day \<and> minusDays target REROLL_DAYS \<le> day \<and> day < target \<or> day = target" for day
  proof -
    have "day \<in> ?R" using that assms(4) by (auto simp: nightly_days_def needs_roll_def)
    with rows new show ?thesis by blast
  qed
  moreover have "s \<in> set rolls'" if "s \<in> set rolls"
    "target < sr_day s \<or> sr_day s < minusDays target REROLL_DAYS \<and> sr_day s \<noteq> target \<and> sr_finalizedAt s \<noteq> None" for s
    using that rows by (auto simp: nightly_days_def needs_roll_def finalized_def list_ex_iff)
  moreover have "s \<in> set rolls \<or> sr_day s < today_of offset cfg now \<and> live_row collate plan d (sr_day s) = Inr (sr_row s)"
    if "s \<in> set rolls'" for s
    using that rows closed new by auto
  ultimately show ?thesis using ok fin by blast
qed

lemma next_day: "today_of bangkok shop_config (morning + 86400000) = ''2024-03-02''"
proof -
  have "day_label 19784 = ''2024-03-02''" by code_simp
  then show ?thesis
    using businessDayOf_shifted [of 5 "morning + 86400000" bangkok "''Asia/Bangkok''"]
    by (simp add: today_of_def shop_config_def bangkok_def morning_def MILLIS_PER_DAY_def year_of_day_def dayFromYear_def)
qed

theorem nightly_run_closes_books_witness:
  "\<exists>summary rolls'. rollUpYesterday default plain_plan bangkok shop_config (morning + 86400000) (tables part_refunded) [] =
     (summary, rolls') \<and> rs_failed summary = 0 \<and>
     (\<exists>s \<in> set rolls'. sr_day s = ''2024-03-01'' \<and>
        live_row default plain_plan (tables part_refunded) ''2024-03-01'' = Inr (sr_row s))"
proof -
  obtain summary rolls' where run: "rollUpYesterday default plain_plan bangkok shop_config (morning + 86400000)
      (tables part_refunded) [] = (summary, rolls')" by fastforce
  have t: "''2024-03-01'' = today_of bangkok shop_config (morning + 86400000 - 24 * 60 * 60 * 1000)"
    by (simp add: shop_day)
  have "''2024-03-01'' < today_of bangkok shop_config (morning + 86400000)"
    by (simp add: next_day less_char_def)
  from nightly_run_closes_books [OF t this part_refunded_fits refl run] run show ?thesis by blast
qed

end
