(* ===== verification/Reports.thy ===== *)
theory Reports
  imports Rollup Query
begin

text \<open>
  \<open>reporting/reports/\<close>: the sales, top-items and Z-reports (\<open>reports.service.ts\<close>), the pure
  shaping of their rows (\<open>shape-reports.ts\<close>) and their parameters (\<open>reports.dto.ts\<close>).

  A range is stitched together from finalized rollups and days aggregated live. The reports read the
  tables once. Whether the gateway misses the deadline and whether the scoping query fails are
  arguments of the Z-report; a \<open>hour_order\<close> is the order the database gives equal sort keys.
\<close>

section \<open>Definitions\<close>

subsection \<open>\<open>shape-reports.ts\<close>\<close>




text \<open>A running total is the item so far and the day its name was taken from.\<close>

type_synonym running = "rollup_item \<times> string"

definition merge_into :: "string \<Rightarrow> rollup_item \<Rightarrow> running \<Rightarrow> running" where
  "merge_into day item running =
     (let (r, nameFrom) = running;
          r1 = r\<lparr>ri_quantity := ri_quantity r + ri_quantity item,
                 ri_revenueMinor := ri_revenueMinor r + ri_revenueMinor item\<rparr>
      in if nameFrom \<le> day then (r1\<lparr>ri_name := ri_name item\<rparr>, day) else (r1, nameFrom))"

definition merge_item :: "string \<Rightarrow> rollup_item \<Rightarrow> (string \<times> running) list \<Rightarrow> (string \<times> running) list" where
  "merge_item day item totals =
     AList.update (ri_menuItemId item)
       (case map_of totals (ri_menuItemId item) of
          None \<Rightarrow> (item, day)
        | Some running \<Rightarrow> merge_into day item running) totals"

definition day_entries :: "(string \<times> rollup_item list) list \<Rightarrow> (string \<times> rollup_item) list" where
  "day_entries days = concat (map (\<lambda>(day, items). map (Pair day) items) days)"

definition merged_items :: "(string \<times> rollup_item list) list \<Rightarrow> (string \<times> running) list" where
  "merged_items days = foldl (\<lambda>totals (day, item). merge_item day item totals) [] (day_entries days)"

definition mergeTopItems :: "string comparator \<Rightarrow> (string \<times> rollup_item list) list \<Rightarrow> nat \<Rightarrow> rollup_item list" where
  "mergeTopItems collate days limit =
     take limit (Sorting_Algorithms.sort (by_rank collate) (map (\<lambda>(_, r, _). r) (merged_items days)))"

subsection \<open>\<open>reports.dto.ts\<close>\<close>

datatype group_by_unit = BY_DAY | BY_HOUR

definition MAX_DAY_RANGE_DAYS :: int where "MAX_DAY_RANGE_DAYS = 366"
definition MAX_HOUR_RANGE_DAYS :: int where "MAX_HOUR_RANGE_DAYS = 31"
definition DEFAULT_TOP_ITEMS_LIMIT :: nat where "DEFAULT_TOP_ITEMS_LIMIT = 10"
definition MAX_TOP_ITEMS_LIMIT :: nat where "MAX_TOP_ITEMS_LIMIT = 50"

text \<open>\<open>None\<close> is \<open>NaN\<close>, which is at most nothing.\<close>

definition spanInDays :: "string \<Rightarrow> string \<Rightarrow> int option" where
  "spanInDays from until =
     (case (date_parse (from @ ''T00:00:00Z''), date_parse (until @ ''T00:00:00Z'')) of
        (Some a, Some b) \<Rightarrow> Some ((b - a) div MILLIS_PER_DAY + 1)
      | _ \<Rightarrow> None)"

definition span_at_most :: "int \<Rightarrow> string \<Rightarrow> string \<Rightarrow> bool" where
  "span_at_most n from until = (case spanInDays from until of None \<Rightarrow> False | Some k \<Rightarrow> k \<le> n)"

record sales_query =
  sq_from :: string
  sq_to :: string
  sq_groupBy :: group_by_unit

definition group_by_named :: "string \<Rightarrow> group_by_unit option" where
  "group_by_named s = map_of [(''day'', BY_DAY), (''hour'', BY_HOUR)] s"

text \<open>A repeated key arrives as an array, which no field accepts; unknown keys are dropped.\<close>

definition sole_param :: "(string \<times> string) list \<Rightarrow> string \<Rightarrow> string option option" where
  "sole_param raw k =
     (case filter (\<lambda>e. fst e = k) raw of
        [] \<Rightarrow> Some None | [(_, v)] \<Rightarrow> Some (Some v) | _ \<Rightarrow> None)"

definition date_param :: "(string \<Rightarrow> bool) \<Rightarrow> (string \<times> string) list \<Rightarrow> string \<Rightarrow> string option" where
  "date_param date raw k =
     (case sole_param raw k of Some (Some v) \<Rightarrow> if date v then Some v else None | _ \<Rightarrow> None)"

definition SalesQuerySchema :: "(string \<Rightarrow> bool) \<Rightarrow> (string \<times> string) list \<Rightarrow> sales_query option" where
  "SalesQuerySchema date raw =
     Option.bind (date_param date raw ''from'') (\<lambda>from.
     Option.bind (date_param date raw ''to'') (\<lambda>until.
     Option.bind (Option.bind (sole_param raw ''groupBy'') (optional_param group_by_named)) (\<lambda>unit.
     let groupBy = (case unit of None \<Rightarrow> BY_DAY | Some u \<Rightarrow> u) in
     if \<not> from \<le> until then None
     else if \<not> span_at_most (if groupBy = BY_HOUR then MAX_HOUR_RANGE_DAYS else MAX_DAY_RANGE_DAYS) from until
     then None
     else Some \<lparr>sq_from = from, sq_to = until, sq_groupBy = groupBy\<rparr>)))"

definition TopItemsQuerySchema ::
  "(string \<Rightarrow> bool) \<Rightarrow> (string \<Rightarrow> int option) \<Rightarrow> (string \<times> string) list \<Rightarrow> (string \<times> string \<times> nat) option" where
  "TopItemsQuerySchema date number raw =
     Option.bind (date_param date raw ''from'') (\<lambda>from.
     Option.bind (date_param date raw ''to'') (\<lambda>until.
     Option.bind (Option.bind (sole_param raw ''limit'') (optional_param (\<lambda>s.
       case number s of
         Some n \<Rightarrow> if 1 \<le> n \<and> n \<le> int MAX_TOP_ITEMS_LIMIT then Some (nat n) else None
       | None \<Rightarrow> None))) (\<lambda>limit.
     if \<not> from \<le> until then None
     else if \<not> span_at_most MAX_DAY_RANGE_DAYS from until then None
     else Some (from, until, (case limit of None \<Rightarrow> DEFAULT_TOP_ITEMS_LIMIT | Some n \<Rightarrow> n)))))"

definition ZReportQuerySchema :: "(string \<Rightarrow> bool) \<Rightarrow> (string \<times> string) list \<Rightarrow> string option" where
  "ZReportQuerySchema date raw = date_param date raw ''businessDay''"

subsection \<open>\<open>reports.service.ts\<close>\<close>

definition MAX_LIVE_DAYS :: nat where "MAX_LIVE_DAYS = 31"


record top_items_report =
  tp_from :: string
  tp_to :: string
  tp_provisional :: bool
  tp_items :: "rollup_item list"

definition refuseIfAfterCurrent :: "string \<Rightarrow> string \<Rightarrow> unit result" where
  "refuseIfAfterCurrent value current = throw_if (current < value) UnprocessableRangeError"

text \<open>The finalized rows between the first and the last day asked for.\<close>

definition stored_between :: "string \<Rightarrow> string \<Rightarrow> stored_rollup list \<Rightarrow> stored_rollup list" where
  "stored_between from until rolls =
     filter (\<lambda>s. from \<le> sr_day s \<and> sr_day s \<le> until \<and> sr_finalizedAt s \<noteq> None) rolls"

definition dayTotals ::
  "string comparator \<Rightarrow> query_plan \<Rightarrow> ('p, 'b) db \<Rightarrow> stored_rollup list \<Rightarrow> string list \<Rightarrow>
   (string \<times> rollup_row) list result" where
  "dayTotals collate plan d rolls days =
     (if days = [] then Inr []
      else
        let totals = map (\<lambda>s. (sr_day s, sr_row s)) (stored_between (hd days) (last days) rolls);
            missing = filter (\<lambda>day. map_of totals day = None) days
        in if MAX_LIVE_DAYS < length missing then Inl DependencyUnavailableError
           else sum_bind (sum_map_list (\<lambda>day. sum_bind (live_row collate plan d day) (\<lambda>row. Inr (day, row))) missing)
                  (\<lambda>computed. Inr (totals @ computed)))"

text \<open>\<open>totals.get(day)!\<close>: every day asked for is in the map, stored or computed.\<close>

definition total_for :: "(string \<times> rollup_row) list \<Rightarrow> string \<Rightarrow> rollup_row" where
  "total_for totals day = the (map_of totals day)"





definition topItemsReport ::
  "string comparator \<Rightarrow> query_plan \<Rightarrow> (string \<Rightarrow> int \<Rightarrow> int) \<Rightarrow> config \<Rightarrow> int \<Rightarrow> ('p, 'b) db \<Rightarrow> stored_rollup list \<Rightarrow>
   string \<Rightarrow> string \<Rightarrow> nat \<Rightarrow> top_items_report result" where
  "topItemsReport collate plan offset cfg now d rolls from until limit =
     (let current = today_of offset cfg now in
      sum_bind (refuseIfAfterCurrent until current) (\<lambda>_.
      let days = eachBusinessDay from until in
      sum_bind (dayTotals collate plan d rolls days) (\<lambda>totals.
      Inr \<lparr>tp_from = from, tp_to = until, tp_provisional = List.member days current,
           tp_items = mergeTopItems collate
             (map (\<lambda>day. (day, rr_topItems (total_for totals day))) days) limit\<rparr>)))"

datatype reconciliation_unavailable = DAY_STILL_TRADING | GATEWAY_UNREACHABLE | DATABASE_UNAVAILABLE

record z_report =
  zr_businessDay :: string
  zr_provisional :: bool
  zr_completed :: int
  zr_refunded :: int
  zr_cancelled :: int
  zr_expired :: int
  zr_revenueTotal :: int
  zr_revenueByMethod :: "(string \<times> int) list"
  zr_refundsMinor :: int
  zr_vatMinor :: int
  zr_reconciliation :: "reconciliation_report option"
  zr_reconciliationUnavailable :: "reconciliation_unavailable option"

definition unmatchedEventsForDay :: "string \<Rightarrow> string list \<Rightarrow> ('p, 'b) db \<Rightarrow> string list" where
  "unmatchedEventsForDay day candidates d =
     (if candidates = [] then []
      else map ev_providerEventId
        (filter (\<lambda>e. List.member candidates (ev_providerEventId e) \<and>
           (case ev_paymentId e of
              None \<Rightarrow> False
            | Some pid \<Rightarrow>
                (case row_by pay_id pid (payments d) of
                   None \<Rightarrow> False | Some p \<Rightarrow> order_day (pay_orderId p) d = Some day))) (paymentEvents d)))"

text \<open>The race with the deadline: a run that is too slow counts as one that failed.\<close>

definition reconcileWithDeadline ::
  "payment_provider_port \<Rightarrow> ('p, 'b) gaps \<Rightarrow> bool \<Rightarrow> string \<Rightarrow> ('p, 'b) world \<Rightarrow>
   reconciliation_report result \<times> ('p, 'b) world" where
  "reconcileWithDeadline provider gaps late day w =
     (case reconcile provider gaps day w of
        (r, w1) \<Rightarrow> (if late then Inl (OtherError ''deadline'') else r, w1))"

definition reconciliation_block ::
  "payment_provider_port \<Rightarrow> ('p, 'b) gaps \<Rightarrow> bool \<Rightarrow> bool \<Rightarrow> bool \<Rightarrow> string \<Rightarrow> ('p, 'b) world \<Rightarrow>
   (reconciliation_report option \<times> reconciliation_unavailable option) \<times> ('p, 'b) world" where
  "reconciliation_block provider gaps late scoping_fails provisional day w =
     (if provisional then ((None, Some DAY_STILL_TRADING), w)
      else case reconcileWithDeadline provider gaps late day w of
             (Inl _, w1) \<Rightarrow> ((None, Some GATEWAY_UNREACHABLE), w1)
           | (Inr report, w1) \<Rightarrow>
               if scoping_fails then ((None, Some DATABASE_UNAVAILABLE), w1)
               else ((Some (report\<lparr>rc_unmatchedEvents :=
                        unmatchedEventsForDay day (rc_unmatchedEvents report) (tables w1)\<rparr>), None), w1))"

definition zReport ::
  "string comparator \<Rightarrow> query_plan \<Rightarrow> (string \<Rightarrow> int \<Rightarrow> int) \<Rightarrow> config \<Rightarrow> payment_provider_port \<Rightarrow> ('p, 'b) gaps \<Rightarrow>
   bool \<Rightarrow> bool \<Rightarrow> int \<Rightarrow> stored_rollup list \<Rightarrow> string \<Rightarrow> ('p, 'b) world \<Rightarrow> z_report result \<times> ('p, 'b) world" where
  "zReport collate plan offset cfg provider gaps late scoping_fails now rolls businessDay w =
     (let current = today_of offset cfg now; provisional = (businessDay = current) in
      case sum_bind (refuseIfAfterCurrent businessDay current)
             (\<lambda>_. dayTotals collate plan (tables w) rolls [businessDay]) of
        Inl e \<Rightarrow> (Inl e, w)
      | Inr totals \<Rightarrow>
          let row = total_for totals businessDay in
          (case reconciliation_block provider gaps late scoping_fails provisional businessDay w of
             ((reconciliation, unavailable), w1) \<Rightarrow>
               (Inr \<lparr>zr_businessDay = businessDay, zr_provisional = provisional,
                     zr_completed = rr_ordersCompleted row, zr_refunded = rr_ordersRefunded row,
                     zr_cancelled = rr_ordersCancelled row, zr_expired = rr_ordersExpired row,
                     zr_revenueTotal = rr_revenueMinor row, zr_revenueByMethod = rr_revenueByMethod row,
                     zr_refundsMinor = rr_refundsMinor row, zr_vatMinor = rr_vatMinor row,
                     zr_reconciliation = reconciliation,
                     zr_reconciliationUnavailable = unavailable\<rparr>, w1)))"

section \<open>Lemmas\<close>

subsection \<open>Merging\<close>

definition entries_of :: "string \<Rightarrow> (string \<times> rollup_item) list \<Rightarrow> (string \<times> rollup_item) list" where
  "entries_of k es = filter (\<lambda>e. ri_menuItemId (snd e) = k) es"

text \<open>What the running total of an item says about the entries seen so far.\<close>

definition tallies :: "string \<Rightarrow> running \<Rightarrow> (string \<times> rollup_item) list \<Rightarrow> bool" where
  "tallies k running es \<longleftrightarrow>
     (case running of (r, nameFrom) \<Rightarrow>
        ri_menuItemId r = k \<and>
        ri_quantity r = sum_list (map (ri_quantity \<circ> snd) (entries_of k es)) \<and>
        ri_revenueMinor r = sum_list (map (ri_revenueMinor \<circ> snd) (entries_of k es)) \<and>
        (\<exists>item. (nameFrom, item) \<in> set (entries_of k es) \<and> ri_name r = ri_name item) \<and>
        (\<forall>e \<in> set (entries_of k es). fst e \<le> nameFrom))"

definition merge_all :: "(string \<times> rollup_item) list \<Rightarrow> (string \<times> running) list" where
  "merge_all es = foldl (\<lambda>totals (day, item). merge_item day item totals) [] es"

lemma entries_of_snoc:
  "entries_of k (es @ [(day, item)]) = entries_of k es @ (if ri_menuItemId item = k then [(day, item)] else [])"
  by (simp add: entries_of_def)

lemma merge_all_snoc: "merge_all (es @ [(day, item)]) = merge_item day item (merge_all es)"
  by (simp add: merge_all_def)

lemma tallies_merge:
  assumes "tallies (ri_menuItemId item) running es"
  shows "tallies (ri_menuItemId item) (merge_into day item running) (es @ [(day, item)])"
  using assms by (cases running) (force simp: tallies_def merge_into_def entries_of_snoc Let_def)

lemma merge_all_spec:
  "distinct (map fst (merge_all es)) \<and>
   (case map_of (merge_all es) k of
      None \<Rightarrow> entries_of k es = [] | Some running \<Rightarrow> tallies k running es)"
proof (induction es arbitrary: k rule: rev_induct)
  case Nil
  show ?case by (simp add: merge_all_def entries_of_def)
next
  case (snoc e es)
  obtain day item where e: "e = (day, item)" by (cases e)
  let ?k = "ri_menuItemId item"
  have d: "distinct (map fst (merge_all (es @ [e])))"
    using snoc.IH by (simp add: e merge_all_snoc merge_item_def distinct_update)
  show ?case
  proof (cases "k = ?k")
    case True
    have "tallies ?k (case map_of (merge_all es) ?k of None \<Rightarrow> (item, day) | Some running \<Rightarrow> merge_into day item running)
        (es @ [(day, item)])"
    proof (cases "map_of (merge_all es) ?k")
      case None
      with snoc.IH [of ?k] show ?thesis by (simp add: tallies_def entries_of_snoc)
    next
      case (Some running)
      with snoc.IH [of ?k] tallies_merge show ?thesis by simp
    qed
    with d True show ?thesis by (simp add: e merge_all_snoc merge_item_def update_conv)
  next
    case False
    then have same: "entries_of k (es @ [e]) = entries_of k es" by (simp add: e entries_of_snoc)
    then have "tallies k running (es @ [e]) \<longleftrightarrow> tallies k running es" for running
      by (simp add: tallies_def)
    moreover have "map_of (merge_all (es @ [e])) k = map_of (merge_all es) k"
      using False by (simp add: e merge_all_snoc merge_item_def update_conv)
    ultimately show ?thesis using snoc.IH [of k] d same by (simp cong: option.case_cong)
  qed
qed

lemma merged_items_all: "merged_items days = merge_all (day_entries days)"
  by (simp add: merged_items_def merge_all_def)

definition leaderboard :: "string comparator \<Rightarrow> (string \<times> rollup_item list) list \<Rightarrow> rollup_item list" where
  "leaderboard collate days = Sorting_Algorithms.sort (by_rank collate) (map (\<lambda>(_, r, _). r) (merged_items days))"

lemma merged_entry:
  assumes "(k, running) \<in> set (merge_all es)"
  shows "tallies k running es"
proof -
  have m: "map_of (merge_all es) k = Some running" by (rule map_of_is_SomeI) (use merge_all_spec assms in simp_all)
  show ?thesis using merge_all_spec [of es k, unfolded m] by simp
qed

lemma merged_ids:
  "map (\<lambda>(_, r, _). ri_menuItemId r) (merge_all es) = map fst (merge_all es)"
  "fst ` set (merge_all es) = (ri_menuItemId \<circ> snd) ` set es"
proof -
  show "map (\<lambda>(_, r, _). ri_menuItemId r) (merge_all es) = map fst (merge_all es)"
    using merged_entry by (auto simp: tallies_def)
  have "k \<in> fst ` set (merge_all es) \<longleftrightarrow> k \<in> (ri_menuItemId \<circ> snd) ` set es" for k
  proof (cases "map_of (merge_all es) k")
    case None
    then have "entries_of k es = []" using merge_all_spec [of es k] by simp
    with None show ?thesis by (auto simp: map_of_eq_None_iff entries_of_def filter_empty_conv)
  next
    case (Some running)
    then have "tallies k running es" by (rule merged_entry [OF map_of_SomeD])
    then have "entries_of k es \<noteq> []" by (auto simp: tallies_def)
    with Some show ?thesis by (force simp: entries_of_def filter_empty_conv dest: map_of_SomeD)
  qed
  then show "fst ` set (merge_all es) = (ri_menuItemId \<circ> snd) ` set es" by blast
qed

lemma leaderboard_props:
  assumes "es = day_entries days"
  shows "Sorting_Algorithms.sorted (by_rank collate) (leaderboard collate days)"
    and "distinct (map ri_menuItemId (leaderboard collate days))"
    and "ri_menuItemId ` set (leaderboard collate days) = (ri_menuItemId \<circ> snd) ` set es"
    and "r \<in> set (leaderboard collate days) \<Longrightarrow> \<exists>nameFrom. tallies (ri_menuItemId r) (r, nameFrom) es"
proof -
  have m: "mset (leaderboard collate days) = mset (map (\<lambda>(_, r, _). r) (merge_all es))"
    by (simp add: leaderboard_def merged_items_all assms)
  have "mset (map ri_menuItemId (leaderboard collate days)) =
      mset (map ri_menuItemId (map (\<lambda>(_, r, _). r) (merge_all es)))"
    by (simp only: mset_map m)
  also have "map ri_menuItemId (map (\<lambda>(_, r, _). r) (merge_all es)) = map fst (merge_all es)"
    using merged_ids(1) [of es] by (simp add: comp_def case_prod_beta)
  finally have "mset (map ri_menuItemId (leaderboard collate days)) = mset (map fst (merge_all es))" .
  then show "distinct (map ri_menuItemId (leaderboard collate days))"
    and "ri_menuItemId ` set (leaderboard collate days) = (ri_menuItemId \<circ> snd) ` set es"
    using merge_all_spec merged_ids(2) mset_eq_imp_distinct_iff mset_eq_setD by (metis, metis image_set)
  show "\<exists>nameFrom. tallies (ri_menuItemId r) (r, nameFrom) es" if r: "r \<in> set (leaderboard collate days)"
  proof -
    obtain k nf where "(k, r, nf) \<in> set (merge_all es)" using r mset_eq_setD [OF m] by auto
    from merged_entry [OF this] show ?thesis by (auto simp: tallies_def)
  qed
qed (simp add: leaderboard_def)

subsection \<open>Stitching\<close>












section \<open>Properties\<close>



text \<open>
  The leaderboard of a range is exact: it lists the items sold on any of the days, each once
  whatever it was called, with the quantity and revenue summed over all its entries and the name of
  the latest day that sold it, by falling quantity and then by name; the limit cuts this list and
  nothing before it, so no item above the cut is missing.
\<close>

theorem leaderboard_is_exact:
  assumes "sold = day_entries days"
  shows "\<exists>board. mergeTopItems collate days limit = take limit board \<and>
    Sorting_Algorithms.sorted (by_rank collate) board \<and> distinct (map ri_menuItemId board) \<and>
    ri_menuItemId ` set board = (ri_menuItemId \<circ> snd) ` set sold \<and>
    (\<forall>r \<in> set board.
       ri_quantity r = sum_list (map (ri_quantity \<circ> snd) (entries_of (ri_menuItemId r) sold)) \<and>
       ri_revenueMinor r = sum_list (map (ri_revenueMinor \<circ> snd) (entries_of (ri_menuItemId r) sold)) \<and>
       (\<exists>e \<in> set (entries_of (ri_menuItemId r) sold). ri_name (snd e) = ri_name r \<and>
          (\<forall>e' \<in> set (entries_of (ri_menuItemId r) sold). fst e' \<le> fst e)))"
proof (intro exI [of _ "leaderboard collate days"] conjI ballI)
  fix r assume "r \<in> set (leaderboard collate days)"
  then obtain nf where "tallies (ri_menuItemId r) (r, nf) sold" using leaderboard_props(4) [OF assms] by blast
  then show "ri_quantity r = sum_list (map (ri_quantity \<circ> snd) (entries_of (ri_menuItemId r) sold))"
    "ri_revenueMinor r = sum_list (map (ri_revenueMinor \<circ> snd) (entries_of (ri_menuItemId r) sold))"
    "\<exists>e \<in> set (entries_of (ri_menuItemId r) sold). ri_name (snd e) = ri_name r \<and>
       (\<forall>e' \<in> set (entries_of (ri_menuItemId r) sold). fst e' \<le> fst e)"
    by (force simp: tallies_def)+
qed (simp_all add: mergeTopItems_def leaderboard_props(1-3) [OF assms] flip: leaderboard_def)

theorem leaderboard_is_exact_witness:
  "\<exists>board. mergeTopItems default
       [(''2024-03-01'', [\<lparr>ri_menuItemId = ''a'', ri_name = ''Latte'', ri_quantity = 2, ri_revenueMinor = 20\<rparr>]),
        (''2024-03-02'', [\<lparr>ri_menuItemId = ''a'', ri_name = ''Cafe latte'', ri_quantity = 3, ri_revenueMinor = 30\<rparr>])] 1 =
     take 1 board \<and> ri_menuItemId ` set board = {''a''}"
proof -
  let ?days = "[(''2024-03-01'', [\<lparr>ri_menuItemId = ''a'', ri_name = ''Latte'', ri_quantity = 2, ri_revenueMinor = 20\<rparr>]),
        (''2024-03-02'', [\<lparr>ri_menuItemId = ''a'', ri_name = ''Cafe latte'', ri_quantity = 3, ri_revenueMinor = 30\<rparr>])]"
  have "(ri_menuItemId \<circ> snd) ` set (day_entries ?days) = {''a''}" by (simp add: day_entries_def)
  with leaderboard_is_exact [OF refl, of default ?days 1] show ?thesis by metis
qed

end
