(* ===== verification/RateLimit.thy ===== *)
theory RateLimit
  imports Gateway
begin

text \<open>
  \<open>identity/rate-limit/\<close>: the per-account lockout (\<open>login-attempt.limiter.ts\<close>), the
  shared counters of the throttler (\<open>redis-throttler.storage.ts\<close>), the table of rules
  (\<open>rate-limits.ts\<close>) and what an unreachable counter means for a route
  (\<open>identity-throttler.guard.ts\<close>).

  The scripts run inside Redis, one at a time. Its keyspace is a map from keys to a counter with an
  optional deadline in epoch milliseconds; the commands the scripts call are defined on it as Redis
  documents them. \<open>reachable\<close> says whether Redis answers. The base class of the guard belongs to
  the throttler library and is an argument. Metrics and log lines are left out.
\<close>

section \<open>Definitions\<close>

subsection \<open>The keyspace\<close>

record redis_entry =
  re_count :: int
  re_expireAt :: "int option"

type_synonym redis = "string \<Rightarrow> redis_entry option"

definition redis_live :: "int \<Rightarrow> string \<Rightarrow> redis \<Rightarrow> redis_entry option" where
  "redis_live now k r =
     (case r k of
        None \<Rightarrow> None
      | Some e \<Rightarrow> (case re_expireAt e of None \<Rightarrow> Some e | Some t \<Rightarrow> if now < t then Some e else None))"

definition redis_incr :: "int \<Rightarrow> string \<Rightarrow> redis \<Rightarrow> int \<times> redis" where
  "redis_incr now k r =
     (case redis_live now k r of
        None \<Rightarrow> (1, r(k \<mapsto> \<lparr>re_count = 1, re_expireAt = None\<rparr>))
      | Some e \<Rightarrow> (re_count e + 1, r(k \<mapsto> e\<lparr>re_count := re_count e + 1\<rparr>)))"

definition redis_pexpire :: "int \<Rightarrow> string \<Rightarrow> int \<Rightarrow> redis \<Rightarrow> redis" where
  "redis_pexpire now k ms r =
     (case redis_live now k r of None \<Rightarrow> r | Some e \<Rightarrow> r(k \<mapsto> e\<lparr>re_expireAt := Some (now + ms)\<rparr>))"

definition redis_pttl :: "int \<Rightarrow> string \<Rightarrow> redis \<Rightarrow> int" where
  "redis_pttl now k r =
     (case redis_live now k r of
        None \<Rightarrow> -2 | Some e \<Rightarrow> (case re_expireAt e of None \<Rightarrow> -1 | Some t \<Rightarrow> t - now))"

text \<open>\<open>TTL\<close> rounds the milliseconds to the nearest second.\<close>

definition redis_ttl :: "int \<Rightarrow> string \<Rightarrow> redis \<Rightarrow> int" where
  "redis_ttl now k r = (let ms = redis_pttl now k r in if ms < 0 then ms else (ms + 500) div 1000)"

definition redis_del :: "string \<Rightarrow> redis \<Rightarrow> redis" where
  "redis_del k r = r(k := None)"

definition redis_down :: app_error where "redis_down = OtherError ''redis''"

subsection \<open>\<open>login-attempt.limiter.ts\<close>\<close>

definition MAX_FAILURES :: int where "MAX_FAILURES = 5"
definition WINDOW_SECONDS :: int where "WINDOW_SECONDS = 15 * 60"

definition keyFor :: "string \<Rightarrow> string" where
  "keyFor email = ''login-failures:'' @ toLowerCase (js_trim email)"

text \<open>\<open>RateLimitedError\<close> never says to retry at once.\<close>

definition rate_limited :: "int \<Rightarrow> app_error" where
  "rate_limited seconds = RateLimitedError (max 1 seconds)"

definition READ_LOCKOUT_SCRIPT :: "int \<Rightarrow> string \<Rightarrow> redis \<Rightarrow> int \<times> int" where
  "READ_LOCKOUT_SCRIPT now k r =
     ((case redis_live now k r of None \<Rightarrow> 0 | Some e \<Rightarrow> re_count e), redis_ttl now k r)"

definition RECORD_FAILURE_SCRIPT :: "int \<Rightarrow> string \<Rightarrow> int \<Rightarrow> redis \<Rightarrow> int \<times> redis" where
  "RECORD_FAILURE_SCRIPT now k window r =
     (case redis_incr now k r of
        (failures, r1) \<Rightarrow> (failures, if failures = 1 then redis_pexpire now k (window * 1000) r1 else r1))"

definition assertNotLockedOut :: "bool \<Rightarrow> int \<Rightarrow> string \<Rightarrow> redis \<Rightarrow> unit result \<times> redis" where
  "assertNotLockedOut reachable now email r =
     (if \<not> reachable then (Inl redis_down, r)
      else case READ_LOCKOUT_SCRIPT now (keyFor email) r of
        (failures, ttl) \<Rightarrow>
          if failures < MAX_FAILURES then (Inr (), r)
          else if ttl < 0
          then (Inl (rate_limited WINDOW_SECONDS), redis_pexpire now (keyFor email) (WINDOW_SECONDS * 1000) r)
          else (Inl (rate_limited ttl), r))"

definition recordFailure :: "bool \<Rightarrow> int \<Rightarrow> string \<Rightarrow> redis \<Rightarrow> unit result \<times> redis" where
  "recordFailure reachable now email r =
     (if \<not> reachable then (Inl redis_down, r)
      else (Inr (), snd (RECORD_FAILURE_SCRIPT now (keyFor email) WINDOW_SECONDS r)))"

definition clear_failures :: "bool \<Rightarrow> string \<Rightarrow> redis \<Rightarrow> unit result \<times> redis" where
  "clear_failures reachable email r =
     (if \<not> reachable then (Inl redis_down, r) else (Inr (), redis_del (keyFor email) r))"

subsection \<open>\<open>redis-throttler.storage.ts\<close>\<close>

record throttle_record =
  tr_totalHits :: int
  tr_timeToExpire :: int
  tr_isBlocked :: bool
  tr_timeToBlockExpire :: int

definition toSeconds :: "int \<Rightarrow> int" where
  "toSeconds milliseconds = max 0 ((milliseconds + 999) div 1000)"

definition INCREMENT_SCRIPT :: "int \<Rightarrow> string \<Rightarrow> int \<Rightarrow> int \<Rightarrow> int \<Rightarrow> redis \<Rightarrow> (int \<times> int \<times> bool) \<times> redis" where
  "INCREMENT_SCRIPT now k ttl limit blockDuration r =
     (case redis_incr now k r of
        (hits, r1) \<Rightarrow>
          let r2 = (if hits = 1 then redis_pexpire now k ttl r1 else r1);
              remaining = redis_pttl now k r2
          in if limit < hits
             then if 0 < blockDuration \<and> remaining < blockDuration
                  then ((hits, blockDuration, True), redis_pexpire now k blockDuration r2)
                  else ((hits, remaining, True), r2)
             else ((hits, remaining, False), r2))"

text \<open>\<open>None\<close> is \<open>RateLimitBackendUnavailableError\<close>.\<close>

definition increment ::
  "bool \<Rightarrow> int \<Rightarrow> string \<Rightarrow> int \<Rightarrow> int \<Rightarrow> int \<Rightarrow> string \<Rightarrow> redis \<Rightarrow> throttle_record option \<times> redis" where
  "increment reachable now k ttl limit blockDuration throttlerName r =
     (if \<not> reachable then (None, r)
      else case INCREMENT_SCRIPT now (''throttle:'' @ throttlerName @ '':'' @ k) ttl limit blockDuration r of
        ((hits, remainingMs, isBlocked), r1) \<Rightarrow>
          (Some \<lparr>tr_totalHits = hits, tr_timeToExpire = toSeconds remainingMs, tr_isBlocked = isBlocked,
                 tr_timeToBlockExpire = (if isBlocked then toSeconds remainingMs else 0)\<rparr>, r1))"

subsection \<open>\<open>rate-limits.ts\<close>\<close>

datatype backend_failure_policy = ALLOW | REFUSE_REQUEST

record rate_limit_rule =
  rl_limit :: int
  rl_ttl :: int
  rl_blockDuration :: int
  rl_onBackendFailure :: backend_failure_policy

datatype rate_limit_name = STAFF_GENERAL | LOGIN | DEVICE_ACTIVATION

definition in_minutes :: "int \<Rightarrow> int" where "in_minutes n = n * 60000"
definition in_hours :: "int \<Rightarrow> int" where "in_hours n = in_minutes (60 * n)"

fun RATE_LIMITS :: "rate_limit_name \<Rightarrow> rate_limit_rule" where
  "RATE_LIMITS STAFF_GENERAL = \<lparr>rl_limit = 600, rl_ttl = in_minutes 1, rl_blockDuration = in_minutes 1,
     rl_onBackendFailure = ALLOW\<rparr>"
| "RATE_LIMITS LOGIN = \<lparr>rl_limit = 20, rl_ttl = in_minutes 15, rl_blockDuration = in_minutes 15,
     rl_onBackendFailure = REFUSE_REQUEST\<rparr>"
| "RATE_LIMITS DEVICE_ACTIVATION = \<lparr>rl_limit = 5, rl_ttl = in_hours 1, rl_blockDuration = in_hours 1,
     rl_onBackendFailure = REFUSE_REQUEST\<rparr>"

subsection \<open>\<open>identity-throttler.guard.ts\<close>\<close>

definition getTracker :: "principal option \<Rightarrow> string option \<Rightarrow> string" where
  "getTracker who ip =
     (case who of
        Some (StaffPrincipal userId _) \<Rightarrow> ''user:'' @ userId
      | Some (DevicePrincipal deviceId) \<Rightarrow> ''device:'' @ deviceId
      | None \<Rightarrow> ''ip:'' @ (case ip of Some a \<Rightarrow> a | None \<Rightarrow> ''unknown''))"

text \<open>The routes that carry no rule of their own run on the general one.\<close>

definition ruleOf :: "rate_limit_name option \<Rightarrow> rate_limit_name" where
  "ruleOf rule = (case rule of None \<Rightarrow> STAFF_GENERAL | Some n \<Rightarrow> n)"

definition throwThrottlingException :: "throttle_record \<Rightarrow> app_error" where
  "throwThrottlingException detail =
     rate_limited (if tr_timeToBlockExpire detail \<noteq> 0 then tr_timeToBlockExpire detail else tr_timeToExpire detail)"

definition withoutABackend :: "rate_limit_name option \<Rightarrow> bool result" where
  "withoutABackend rule =
     (case rl_onBackendFailure (RATE_LIMITS (ruleOf rule)) of
        REFUSE_REQUEST \<Rightarrow> Inl DependencyUnavailableError
      | ALLOW \<Rightarrow> Inr True)"

text \<open>
  \<open>super\<close> is the library's \<open>handleRequest\<close>: given what the storage answered and the hook that
  throws, it decides the request; \<open>None\<close> is the storage's exception passing through. The key
  \<open>k\<close> is the one the library derives from the route and the tracker.
\<close>

type_synonym base_guard = "throttle_record \<Rightarrow> (throttle_record \<Rightarrow> app_error) \<Rightarrow> bool result"

definition handleRequest ::
  "base_guard \<Rightarrow> bool \<Rightarrow> int \<Rightarrow> rate_limit_name option \<Rightarrow> string \<Rightarrow> redis \<Rightarrow> bool result \<times> redis" where
  "handleRequest super reachable now rule k r =
     (let cfg = RATE_LIMITS (ruleOf rule) in
      case increment reachable now k (rl_ttl cfg) (rl_limit cfg) (rl_blockDuration cfg) ''default'' r of
        (None, r1) \<Rightarrow> (withoutABackend rule, r1)
      | (Some seen, r1) \<Rightarrow> (super seen throwThrottlingException, r1))"

text \<open>What the library documents: a blocked record is thrown on, any other lets the request pass.\<close>

definition blocks_when_told :: "base_guard \<Rightarrow> bool" where
  "blocks_when_told super \<longleftrightarrow>
     (\<forall>seen hook. super seen hook = (if tr_isBlocked seen then Inl (hook seen) else Inr True))"

section \<open>Lemmas\<close>

subsection \<open>The lockout\<close>

definition failures_at :: "string \<Rightarrow> int list \<Rightarrow> redis \<Rightarrow> redis" where
  "failures_at email ts r = foldl (\<lambda>r t. snd (recordFailure True t email r)) r ts"

lemma recordFailure_first:
  "redis_live now (keyFor email) r = None \<Longrightarrow>
     snd (recordFailure True now email r) =
       r(keyFor email \<mapsto> \<lparr>re_count = 1, re_expireAt = Some (now + WINDOW_SECONDS * 1000)\<rparr>)"
  by (simp add: recordFailure_def RECORD_FAILURE_SCRIPT_def redis_incr_def redis_pexpire_def redis_live_def)

lemma recordFailure_more:
  "r (keyFor email) = Some \<lparr>re_count = n, re_expireAt = Some e\<rparr> \<Longrightarrow> now < e \<Longrightarrow> 0 < n \<Longrightarrow>
     snd (recordFailure True now email r) = r(keyFor email \<mapsto> \<lparr>re_count = n + 1, re_expireAt = Some e\<rparr>)"
  by (simp add: recordFailure_def RECORD_FAILURE_SCRIPT_def redis_incr_def redis_live_def)

lemma failures_count:
  assumes "r (keyFor email) = Some \<lparr>re_count = n, re_expireAt = Some e\<rparr>" "0 < n" "\<forall>t \<in> set ts. t < e"
  shows "failures_at email ts r =
    r(keyFor email \<mapsto> \<lparr>re_count = n + int (length ts), re_expireAt = Some e\<rparr>)"
  using assms
proof (induction ts arbitrary: r n)
  case Nil
  then show ?case by (simp add: failures_at_def map_upd_triv)
next
  case (Cons t ts)
  let ?r = "r(keyFor email \<mapsto> \<lparr>re_count = n + 1, re_expireAt = Some e\<rparr>)"
  have "failures_at email (t # ts) r = failures_at email ts ?r"
    using Cons.prems recordFailure_more [of r email n e t] by (simp add: failures_at_def)
  also have "\<dots> = ?r(keyFor email \<mapsto> \<lparr>re_count = n + 1 + int (length ts), re_expireAt = Some e\<rparr>)"
    using Cons.prems by (intro Cons.IH) auto
  finally show ?case by (simp add: algebra_simps)
qed

lemma failures_in_window:
  assumes "redis_live t (keyFor email) r = None" "\<forall>u \<in> set ts. u < t + WINDOW_SECONDS * 1000"
  shows "failures_at email (t # ts) r =
    r(keyFor email \<mapsto> \<lparr>re_count = 1 + int (length ts), re_expireAt = Some (t + WINDOW_SECONDS * 1000)\<rparr>)"
proof -
  let ?r = "r(keyFor email \<mapsto> \<lparr>re_count = 1, re_expireAt = Some (t + WINDOW_SECONDS * 1000)\<rparr>)"
  have "failures_at email (t # ts) r = failures_at email ts ?r"
    using recordFailure_first [OF assms(1)] by (simp add: failures_at_def)
  with failures_count [of ?r email 1 "t + WINDOW_SECONDS * 1000" ts] assms(2) show ?thesis by simp
qed

subsection \<open>The throttle\<close>

text \<open>Requests of one client to one route, at the given times: which of them pass.\<close>

fun requests_at :: "base_guard \<Rightarrow> rate_limit_name option \<Rightarrow> string \<Rightarrow> int list \<Rightarrow> redis \<Rightarrow> bool list" where
  "requests_at super rule k [] r = []"
| "requests_at super rule k (t # ts) r =
     (case handleRequest super True t rule k r of
        (verdict, r1) \<Rightarrow> (case verdict of Inr _ \<Rightarrow> True | Inl _ \<Rightarrow> False) # requests_at super rule k ts r1)"

definition counted :: "string \<Rightarrow> int \<Rightarrow> int \<Rightarrow> redis \<Rightarrow> bool" where
  "counted k n e r \<longleftrightarrow>
     (\<exists>e' \<ge> e. r (''throttle:default:'' @ k) = Some \<lparr>re_count = n, re_expireAt = Some e'\<rparr>)"

lemma rule_positive: "0 < rl_limit (RATE_LIMITS n)" "0 < rl_ttl (RATE_LIMITS n)" "0 < rl_blockDuration (RATE_LIMITS n)"
  by (cases n; simp add: in_minutes_def in_hours_def)+

lemma handleRequest_more:
  assumes "blocks_when_told super" "counted k n e r" "0 < n" "t < e"
  shows "\<exists>verdict r1. handleRequest super True t rule k r = (verdict, r1) \<and> counted k (n + 1) e r1 \<and>
    ((\<exists>b. verdict = Inr b) \<longleftrightarrow> n + 1 \<le> rl_limit (RATE_LIMITS (ruleOf rule)))"
proof -
  obtain e' where e': "e \<le> e'" "r (''throttle:default:'' @ k) = Some \<lparr>re_count = n, re_expireAt = Some e'\<rparr>"
    using assms(2) by (auto simp: counted_def)
  have "n + 1 \<noteq> 1" "t < e'" using assms(3,4) e'(1) by auto
  with e' assms(1) show ?thesis
    by (auto simp: handleRequest_def increment_def INCREMENT_SCRIPT_def redis_incr_def redis_live_def
        redis_pttl_def redis_pexpire_def Let_def blocks_when_told_def counted_def)
qed

lemma handleRequest_first:
  assumes "blocks_when_told super" "redis_live t (''throttle:default:'' @ k) r = None"
  shows "\<exists>b r1. handleRequest super True t rule k r = (Inr b, r1) \<and>
    counted k 1 (t + rl_ttl (RATE_LIMITS (ruleOf rule))) r1"
proof -
  have "\<not> rl_limit (RATE_LIMITS (ruleOf rule)) < 1" "0 < rl_ttl (RATE_LIMITS (ruleOf rule))"
    using rule_positive [of "ruleOf rule"] by simp_all
  with assms show ?thesis
    by (auto simp: handleRequest_def increment_def INCREMENT_SCRIPT_def redis_incr_def redis_live_def
        redis_pttl_def redis_pexpire_def Let_def blocks_when_told_def counted_def)
qed

lemma requests_counted:
  assumes "blocks_when_told super" "counted k n e r" "0 < n" "\<forall>t \<in> set ts. t < e"
  shows "requests_at super rule k ts r =
    map (\<lambda>i. n + int i < rl_limit (RATE_LIMITS (ruleOf rule))) [0..<length ts]"
  using assms(2-4)
proof (induction ts arbitrary: n r)
  case (Cons t ts)
  then obtain verdict r1 where h: "handleRequest super True t rule k r = (verdict, r1)" "counted k (n + 1) e r1"
    "(\<exists>b. verdict = Inr b) \<longleftrightarrow> n + 1 \<le> rl_limit (RATE_LIMITS (ruleOf rule))"
    using handleRequest_more [OF assms(1), of k n e r t rule] by auto
  have "map (\<lambda>i. n + int i < c) [0..<Suc m] = (n < c) # map (\<lambda>i. n + 1 + int i < c) [0..<m]" for c m
    by (simp add: upt_conv_Cons map_Suc_upt [symmetric] comp_def algebra_simps del: upt_Suc)
  moreover have "(case verdict of Inr _ \<Rightarrow> True | Inl _ \<Rightarrow> False) \<longleftrightarrow> n < rl_limit (RATE_LIMITS (ruleOf rule))"
    using h(3) by (auto split: sum.splits)
  ultimately show ?case using h Cons by simp
qed simp

section \<open>Properties\<close>

text \<open>
  C26. Guessing is bounded, per account and per client. Five failures within fifteen minutes of the
  first, however the address is written, lock the account until those fifteen minutes are over and
  no longer; the answer then says to retry within them and never at once; fewer failures lock nothing,
  no other account is touched, and a success clears the count. On a rate-limited route exactly the
  first requests of a window, up to the limit, pass; and when the counters cannot be reached the
  login and pairing routes refuse while every other route serves.
\<close>

theorem guessing_is_bounded:
  assumes "redis_live t (keyFor email) r = None" "\<forall>u \<in> set ts. u < t + 900000"
    and "r' = failures_at email (t # ts) r" "keyFor email' = keyFor email" "t \<le> now"
    and "blocks_when_told super" "redis_live t (''throttle:default:'' @ k) r = None"
    and "\<forall>u \<in> set us. u < t + rl_ttl (RATE_LIMITS (ruleOf rule))"
  shows "(if 5 \<le> length (t # ts) \<and> now < t + 900000
      then \<exists>s. assertNotLockedOut True now email' r' = (Inl (RateLimitedError s), r') \<and> 1 \<le> s \<and> s \<le> 900
      else assertNotLockedOut True now email' r' = (Inr (), r')) \<and>
    (\<forall>k'. k' \<noteq> keyFor email \<longrightarrow> r' k' = r k') \<and>
    fst (assertNotLockedOut True now email' (snd (clear_failures True email r'))) = Inr () \<and>
    requests_at super rule k (t # us) r =
      map (\<lambda>i. int i < rl_limit (RATE_LIMITS (ruleOf rule))) [0..<length (t # us)] \<and>
    fst (handleRequest super False now rule k r) =
      (if ruleOf rule = STAFF_GENERAL then Inr True else Inl DependencyUnavailableError)"
proof (intro conjI)
  have r': "r' = r(keyFor email \<mapsto> \<lparr>re_count = 1 + int (length ts), re_expireAt = Some (t + 900000)\<rparr>)"
    using failures_in_window [OF assms(1), of ts] assms(2,3) by (simp add: WINDOW_SECONDS_def)
  show "if 5 \<le> length (t # ts) \<and> now < t + 900000
      then \<exists>s. assertNotLockedOut True now email' r' = (Inl (RateLimitedError s), r') \<and> 1 \<le> s \<and> s \<le> 900
      else assertNotLockedOut True now email' r' = (Inr (), r')"
    using assms(4,5)
    by (auto simp: r' assertNotLockedOut_def READ_LOCKOUT_SCRIPT_def redis_live_def redis_ttl_def redis_pttl_def
        MAX_FAILURES_def rate_limited_def Let_def)
  show "\<forall>k'. k' \<noteq> keyFor email \<longrightarrow> r' k' = r k'" by (simp add: r')
  show "fst (assertNotLockedOut True now email' (snd (clear_failures True email r'))) = Inr ()"
    using assms(4) by (simp add: clear_failures_def redis_del_def assertNotLockedOut_def READ_LOCKOUT_SCRIPT_def
        redis_live_def redis_ttl_def redis_pttl_def MAX_FAILURES_def)
  obtain b r1 where first: "handleRequest super True t rule k r = (Inr b, r1)"
    "counted k 1 (t + rl_ttl (RATE_LIMITS (ruleOf rule))) r1"
    using handleRequest_first [OF assms(6,7)] by blast
  have "map (\<lambda>i. int i < c) [0..<Suc m] = (0 < c) # map (\<lambda>i. 1 + int i < c) [0..<m]" for c m
    by (simp add: upt_conv_Cons map_Suc_upt [symmetric] comp_def algebra_simps del: upt_Suc)
  then show "requests_at super rule k (t # us) r =
      map (\<lambda>i. int i < rl_limit (RATE_LIMITS (ruleOf rule))) [0..<length (t # us)]"
    using first requests_counted [OF assms(6) first(2), of us rule] assms(8) rule_positive(1) [of "ruleOf rule"]
    by (simp del: upt_Suc)
  show "fst (handleRequest super False now rule k r) =
      (if ruleOf rule = STAFF_GENERAL then Inr True else Inl DependencyUnavailableError)"
    by (cases "ruleOf rule") (simp_all add: handleRequest_def increment_def withoutABackend_def Let_def)
qed

theorem guessing_is_bounded_witness:
  "\<exists>s. assertNotLockedOut True 60000 '' Ann@cafe.test '' (failures_at ''ann@cafe.test'' [0, 1, 2, 3, 4] (\<lambda>_. None)) =
     (Inl (RateLimitedError s), failures_at ''ann@cafe.test'' [0, 1, 2, 3, 4] (\<lambda>_. None)) \<and> s \<le> 900"
proof -
  have b: "blocks_when_told (\<lambda>seen hook. if tr_isBlocked seen then Inl (hook seen) else Inr True)"
    by (simp add: blocks_when_told_def)
  have k: "keyFor '' Ann@cafe.test '' = keyFor ''ann@cafe.test''" by code_simp
  have l: "redis_live 0 x (\<lambda>_. None) = None" for x by (simp add: redis_live_def)
  have u: "\<forall>u \<in> set [1, 2, 3, 4 :: int]. u < 0 + 900000" "\<forall>u \<in> set []. u < (0 :: int) + rl_ttl (RATE_LIMITS (ruleOf None))"
    "(0 :: int) \<le> 60000" by simp_all
  show ?thesis using guessing_is_bounded [OF l u(1) refl k u(3) b l u(2), THEN conjunct1] by auto
qed

end
