(* ===== verification/Identity.thy ===== *)
theory Identity
  imports RateLimit Codec
begin

text \<open>
  \<open>identity/\<close>: signing staff in and keeping their sessions (\<open>auth/\<close>), the accounts
  (\<open>users/\<close>), pairing and retiring tablets (\<open>devices/\<close>), and the revocation channel
  (\<open>revocation/\<close>).

  The state is the record \<open>id_world\<close>: the three tables, the keyspace of Redis and what has
  been published on the revocation channel. Every statement is its own transaction unless the code
  opens one. Cryptography is the record \<open>crypto\<close> of arguments: the digest, the password hash and
  the token library. Fresh secrets and identifiers are arguments. \<open>link\<close> says, for each attempt to
  reach Redis, how many of its commands get through. \<open>users.email\<close> is a case-insensitive column.
\<close>

section \<open>Definitions\<close>

subsection \<open>Rows and state\<close>

record user_row =
  u_id :: string
  u_email :: string
  u_passwordHash :: string
  u_displayName :: string
  u_role :: user_role
  u_isActive :: bool

record refresh_token_row =
  rt_userId :: string
  rt_tokenHash :: string
  rt_familyId :: string
  rt_expiresAt :: int
  rt_revokedAt :: "int option"

record device_row =
  kd_id :: string
  kd_name :: string
  kd_tokenHash :: "string option"
  kd_pairingCodeHash :: "string option"
  kd_pairingExpiresAt :: "int option"
  kd_status :: device_status
  kd_lastSeenAt :: "int option"
  kd_registeredBy :: "string option"
  kd_createdAt :: int

record id_world =
  users :: "user_row list"
  refreshTokens :: "refresh_token_row list"
  devices :: "device_row list"
  keyspace :: redis
  channel :: "string list"

interpretation usr: keyed_table users "\<lambda>rs s. s\<lparr>users := rs\<rparr>" u_id
  by unfold_locales simp_all

interpretation rft: keyed_table refreshTokens "\<lambda>rs s. s\<lparr>refreshTokens := rs\<rparr>" rt_tokenHash
  by unfold_locales simp_all

interpretation kdv: keyed_table devices "\<lambda>rs s. s\<lparr>devices := rs\<rparr>" kd_id
  by unfold_locales simp_all

subsection \<open>Cryptography\<close>

record staff_claims =
  cl_sub :: string
  cl_role :: string
  cl_type :: string
  cl_jti :: string
  cl_iat :: int
  cl_exp :: int

datatype jwt_failure = JwtExpired | JwtRejected

record crypto =
  hashSecret :: "string \<Rightarrow> string"
  argon_hash :: "string \<Rightarrow> string"
  argon_verify :: "string \<Rightarrow> string \<Rightarrow> bool option"
  jwt_sign :: "string \<Rightarrow> string \<Rightarrow> string \<Rightarrow> string \<Rightarrow> string"
  jwt_decode :: "string \<Rightarrow> staff_claims"
  jwt_verify :: "string \<Rightarrow> jwt_failure + staff_claims"

definition PAIRING_CODE_ALPHABET :: string where
  "PAIRING_CODE_ALPHABET = ''23456789ABCDEFGHJKMNPQRSTUVWXYZ''"

definition PAIRING_CODE_LENGTH :: nat where "PAIRING_CODE_LENGTH = 8"

text \<open>The draws of \<open>randomInt\<close> are the argument.\<close>

definition generatePairingCode :: "nat list \<Rightarrow> string" where
  "generatePairingCode draws = map (\<lambda>n. PAIRING_CODE_ALPHABET ! n) (take PAIRING_CODE_LENGTH draws)"

text \<open>A stored hash the library cannot read verifies nothing.\<close>

definition password_verify :: "crypto \<Rightarrow> string \<Rightarrow> string \<Rightarrow> bool" where
  "password_verify c stored password = (case argon_verify c stored password of Some b \<Rightarrow> b | None \<Rightarrow> False)"

subsection \<open>\<open>access-token.service.ts\<close>\<close>

datatype session =
    StaffSession (ss_userId: string) (ss_role: user_role) (ss_tokenId: string)
  | DeviceSession (ds_deviceId: string)

fun principal_of :: "session \<Rightarrow> principal" where
  "principal_of (StaffSession userId role _) = StaffPrincipal userId role"
| "principal_of (DeviceSession deviceId) = DevicePrincipal deviceId"

fun role_name :: "user_role \<Rightarrow> string" where
  "role_name ADMIN = ''ADMIN''"
| "role_name MANAGER = ''MANAGER''"
| "role_name CASHIER = ''CASHIER''"
| "role_name BARISTA = ''BARISTA''"

definition isUserRole :: "string \<Rightarrow> user_role option" where
  "isUserRole s = map_of [(role_name ADMIN, ADMIN), (role_name MANAGER, MANAGER), (role_name CASHIER, CASHIER),
     (role_name BARISTA, BARISTA)] s"

definition STAFF_TOKEN_TYPE :: string where "STAFF_TOKEN_TYPE = ''staff''"

definition access_issue :: "crypto \<Rightarrow> string \<Rightarrow> string \<Rightarrow> user_role \<Rightarrow> string \<times> int" where
  "access_issue c jti userId role =
     (let accessToken = jwt_sign c userId (role_name role) STAFF_TOKEN_TYPE jti;
          claims = jwt_decode c accessToken
      in (accessToken, cl_exp claims - cl_iat claims))"

definition access_verify :: "crypto \<Rightarrow> string \<Rightarrow> session result" where
  "access_verify c token =
     (case jwt_verify c token of
        Inl JwtExpired \<Rightarrow> Inl TokenExpiredError
      | Inl JwtRejected \<Rightarrow> Inl TokenInvalidError
      | Inr claims \<Rightarrow>
          if cl_type claims \<noteq> STAFF_TOKEN_TYPE then Inl TokenInvalidError
          else (case isUserRole (cl_role claims) of
                  None \<Rightarrow> Inl TokenInvalidError
                | Some role \<Rightarrow> Inr (StaffSession (cl_sub claims) role (cl_jti claims))))"

subsection \<open>\<open>revocation.service.ts\<close>\<close>

datatype revocation = RevokeUser string | RevokeToken string | RevokeDevice string

definition userKey :: "string \<Rightarrow> string" where "userKey userId = ''ws:revoked:user:'' @ userId"
definition tokenKey :: "string \<Rightarrow> string" where "tokenKey jti = ''ws:revoked:jti:'' @ jti"

fun revocation_field :: "revocation \<Rightarrow> string \<times> string" where
  "revocation_field (RevokeUser i) = (''userId'', i)"
| "revocation_field (RevokeToken i) = (''jti'', i)"
| "revocation_field (RevokeDevice i) = (''deviceId'', i)"

definition revocation_message :: "revocation \<Rightarrow> string" where
  "revocation_message v = ''{'' @ print_members [revocation_field v] @ ''}''"

definition RETRY_LIMIT :: nat where "RETRY_LIMIT = 3"

text \<open>\<open>withRetry\<close>: \<open>remaining\<close> further attempts after the \<open>i\<close>-th.\<close>

fun withRetry :: "nat \<Rightarrow> (nat \<Rightarrow> 's \<Rightarrow> bool \<times> 's) \<Rightarrow> nat \<Rightarrow> 's \<Rightarrow> bool \<times> 's" where
  "withRetry 0 attempt i s = attempt i s"
| "withRetry (Suc remaining) attempt i s =
     (case attempt i s of (True, s') \<Rightarrow> (True, s') | (False, s') \<Rightarrow> withRetry remaining attempt (Suc i) s')"

definition redis_set_ex :: "int \<Rightarrow> string \<Rightarrow> int \<Rightarrow> redis \<Rightarrow> redis" where
  "redis_set_ex now k seconds r = r(k \<mapsto> \<lparr>re_count = 1, re_expireAt = Some (now + seconds * 1000)\<rparr>)"

definition publish_revocation :: "revocation \<Rightarrow> id_world \<Rightarrow> id_world" where
  "publish_revocation v s = s\<lparr>channel := channel s @ [revocation_message v]\<rparr>"

definition announce_once :: "(nat \<Rightarrow> nat) \<Rightarrow> int \<Rightarrow> int \<Rightarrow> string \<Rightarrow> revocation \<Rightarrow> nat \<Rightarrow> id_world \<Rightarrow> bool \<times> id_world" where
  "announce_once link ttl now k v i s =
     (if link i = 0 then (False, s)
      else let s1 = s\<lparr>keyspace := redis_set_ex now k ttl (keyspace s)\<rparr>
           in if link i = 1 then (False, s1) else (True, publish_revocation v s1))"

definition announce :: "(nat \<Rightarrow> nat) \<Rightarrow> int \<Rightarrow> int \<Rightarrow> string \<Rightarrow> revocation \<Rightarrow> id_world \<Rightarrow> bool \<times> id_world" where
  "announce link ttl now k v s = withRetry RETRY_LIMIT (announce_once link ttl now k v) 0 s"

definition revokeUser :: "(nat \<Rightarrow> nat) \<Rightarrow> int \<Rightarrow> int \<Rightarrow> string \<Rightarrow> id_world \<Rightarrow> bool \<times> id_world" where
  "revokeUser link ttl now userId = announce link ttl now (userKey userId) (RevokeUser userId)"

definition revokeToken :: "(nat \<Rightarrow> nat) \<Rightarrow> int \<Rightarrow> int \<Rightarrow> string \<Rightarrow> id_world \<Rightarrow> bool \<times> id_world" where
  "revokeToken link ttl now jti = announce link ttl now (tokenKey jti) (RevokeToken jti)"

definition revokeDevice :: "(nat \<Rightarrow> nat) \<Rightarrow> string \<Rightarrow> id_world \<Rightarrow> bool \<times> id_world" where
  "revokeDevice link deviceId s =
     withRetry RETRY_LIMIT
       (\<lambda>i s. if link i = 0 then (False, s) else (True, publish_revocation (RevokeDevice deviceId) s)) 0 s"

definition isRevoked :: "bool \<Rightarrow> int \<Rightarrow> string \<Rightarrow> string \<Rightarrow> redis \<Rightarrow> bool result" where
  "isRevoked reachable now userId tokenId r =
     (if \<not> reachable then Inl redis_down
      else Inr (redis_live now (userKey userId) r \<noteq> None \<or> redis_live now (tokenKey tokenId) r \<noteq> None))"

definition member_text :: "string \<Rightarrow> (string \<times> parsed) list \<Rightarrow> string option" where
  "member_text k es = (case map_of (rev es) k of Some (PStr (c # cs)) \<Rightarrow> Some (c # cs) | _ \<Rightarrow> None)"

definition parseRevocation :: "string \<Rightarrow> revocation option" where
  "parseRevocation raw =
     (case json_parse raw of
        Some (PObj es) \<Rightarrow>
          (case (member_text ''userId'' es, member_text ''jti'' es, member_text ''deviceId'' es) of
             (Some i, None, None) \<Rightarrow> Some (RevokeUser i)
           | (None, Some i, None) \<Rightarrow> Some (RevokeToken i)
           | (None, None, Some i) \<Rightarrow> Some (RevokeDevice i)
           | _ \<Rightarrow> None)
      | _ \<Rightarrow> None)"

subsection \<open>\<open>auth.service.ts\<close>\<close>

record auth_config =
  REFRESH_TOKEN_TTL_SECONDS :: int
  ACCESS_TOKEN_TTL_SECONDS :: int
  PAIRING_CODE_TTL_SECONDS :: int

record token_pair =
  tp_accessToken :: string
  tp_refreshToken :: string
  tp_expiresInSeconds :: int

record authenticated_user =
  au_id :: string
  au_email :: string
  au_displayName :: string
  au_role :: user_role

definition ABSENT_USER_HASH :: string where
  "ABSENT_USER_HASH = ''$argon2id$v=19$m=19456,t=2,p=1$Ny54wUL1ahJTvTP1ZEvIvw$ehB8O7J0xPlug57LlgrVykj2qEctN0YI6uZtPIyo6V8''"

definition user_by_email :: "string \<Rightarrow> id_world \<Rightarrow> user_row option" where
  "user_by_email email s = sql_find (\<lambda>u. toLowerCase (u_email u) = toLowerCase email) (users s)"

text \<open>The fresh values an issue draws: the access token's id and the refresh secret.\<close>

definition issuePair ::
  "crypto \<Rightarrow> auth_config \<Rightarrow> int \<Rightarrow> string \<times> string \<Rightarrow> string \<Rightarrow> user_role \<Rightarrow> string \<Rightarrow> id_world \<Rightarrow>
   token_pair result \<times> id_world" where
  "issuePair c cfg now fresh userId role familyId s =
     (let (accessToken, expiresInSeconds) = access_issue c (fst fresh) userId role;
          refreshToken = snd fresh;
          row = \<lparr>rt_userId = userId, rt_tokenHash = hashSecret c refreshToken, rt_familyId = familyId,
                 rt_expiresAt = now + REFRESH_TOKEN_TTL_SECONDS cfg * 1000, rt_revokedAt = None\<rparr>
      in case sql_insert (\<lambda>x y. rt_tokenHash x = rt_tokenHash y) row (refreshTokens s) of
           None \<Rightarrow> (Inl UniqueViolation, s)
         | Some rows \<Rightarrow>
             (Inr \<lparr>tp_accessToken = accessToken, tp_refreshToken = refreshToken,
                   tp_expiresInSeconds = expiresInSeconds\<rparr>, s\<lparr>refreshTokens := rows\<rparr>))"

definition login ::
  "crypto \<Rightarrow> auth_config \<Rightarrow> bool \<Rightarrow> int \<Rightarrow> string \<times> string \<Rightarrow> string \<Rightarrow> string \<Rightarrow> string \<Rightarrow> id_world \<Rightarrow>
   (token_pair \<times> authenticated_user) result \<times> id_world" where
  "login c cfg reachable now fresh familyId email password s =
     (case assertNotLockedOut reachable now email (keyspace s) of
        (Inl e, r) \<Rightarrow> (Inl e, s\<lparr>keyspace := r\<rparr>)
      | (Inr _, r) \<Rightarrow>
          let s1 = s\<lparr>keyspace := r\<rparr>;
              user = user_by_email email s1;
              passwordMatches = password_verify c
                (case user of Some u \<Rightarrow> u_passwordHash u | None \<Rightarrow> ABSENT_USER_HASH) password;
              failed = (case recordFailure reachable now email (keyspace s1) of
                  (Inl e, r1) \<Rightarrow> (Inl e, s1\<lparr>keyspace := r1\<rparr>)
                | (Inr _, r1) \<Rightarrow> (Inl InvalidCredentialsError, s1\<lparr>keyspace := r1\<rparr>))
          in case user of
               None \<Rightarrow> failed
             | Some u \<Rightarrow>
                 if \<not> u_isActive u \<or> \<not> passwordMatches then failed
                 else (case clear_failures reachable email (keyspace s1) of
                   (Inl e, r2) \<Rightarrow> (Inl e, s1\<lparr>keyspace := r2\<rparr>)
                 | (Inr _, r2) \<Rightarrow>
                     (case issuePair c cfg now fresh (u_id u) (u_role u) familyId (s1\<lparr>keyspace := r2\<rparr>) of
                        (Inl e, s2) \<Rightarrow> (Inl e, s2)
                      | (Inr pair, s2) \<Rightarrow>
                          (Inr (pair, \<lparr>au_id = u_id u, au_email = u_email u, au_displayName = u_displayName u,
                                       au_role = u_role u\<rparr>), s2))))"

definition revokeFamily :: "int \<Rightarrow> string \<Rightarrow> id_world \<Rightarrow> id_world" where
  "revokeFamily now familyId s =
     s\<lparr>refreshTokens := snd (sql_update (\<lambda>t. rt_familyId t = familyId \<and> rt_revokedAt t = None)
       (\<lambda>t. t\<lparr>rt_revokedAt := Some now\<rparr>) (refreshTokens s))\<rparr>"

definition revokeFamilyOfReplayedToken :: "int \<Rightarrow> string \<Rightarrow> id_world \<Rightarrow> app_error \<times> id_world" where
  "revokeFamilyOfReplayedToken now tokenHash s =
     (case row_by rt_tokenHash tokenHash (refreshTokens s) of
        None \<Rightarrow> (TokenInvalidError, s)
      | Some replayed \<Rightarrow> (RefreshTokenReusedError, revokeFamily now (rt_familyId replayed) s))"

definition retire_token :: "int \<Rightarrow> string \<Rightarrow> id_world \<Rightarrow> refresh_token_row list \<times> id_world" where
  "retire_token now tokenHash s =
     (case sql_update (\<lambda>t. rt_tokenHash t = tokenHash \<and> rt_revokedAt t = None)
             (\<lambda>t. t\<lparr>rt_revokedAt := Some now\<rparr>) (refreshTokens s) of
        (retired, rows) \<Rightarrow> (retired, s\<lparr>refreshTokens := rows\<rparr>))"

text \<open>What \<open>refresh\<close> does once it has retired the token: every request may get in before it.\<close>

definition finish_refresh ::
  "crypto \<Rightarrow> auth_config \<Rightarrow> int \<Rightarrow> string \<times> string \<Rightarrow> refresh_token_row \<Rightarrow> id_world \<Rightarrow>
   token_pair result \<times> id_world" where
  "finish_refresh c cfg now fresh retired s =
     (if rt_expiresAt retired \<le> now then (Inl TokenExpiredError, s)
      else (case row_by u_id (rt_userId retired) (users s) of
              None \<Rightarrow> (Inl InvalidCredentialsError, s)
            | Some user \<Rightarrow>
                if \<not> u_isActive user then (Inl InvalidCredentialsError, s)
                else issuePair c cfg now fresh (u_id user) (u_role user) (rt_familyId retired) s))"

text \<open>\<open>gap\<close> is what other requests do between the retirement and the rest.\<close>

definition refresh ::
  "crypto \<Rightarrow> auth_config \<Rightarrow> (id_world \<Rightarrow> id_world) \<Rightarrow> int \<Rightarrow> string \<times> string \<Rightarrow> string \<Rightarrow> id_world \<Rightarrow>
   token_pair result \<times> id_world" where
  "refresh c cfg gap now fresh token s =
     (case retire_token now (hashSecret c token) s of
        ([], s1) \<Rightarrow> (case revokeFamilyOfReplayedToken now (hashSecret c token) s1 of (e, s2) \<Rightarrow> (Inl e, s2))
      | (retired # _, s1) \<Rightarrow> finish_refresh c cfg now fresh retired (gap s1))"

definition logout ::
  "crypto \<Rightarrow> auth_config \<Rightarrow> (nat \<Rightarrow> nat) \<Rightarrow> int \<Rightarrow> string \<Rightarrow> string \<Rightarrow> string \<Rightarrow> id_world \<Rightarrow> unit result \<times> id_world" where
  "logout c cfg link now userId tokenId token s =
     (case row_by rt_tokenHash (hashSecret c token) (refreshTokens s) of
        None \<Rightarrow> (Inl TokenInvalidError, s)
      | Some row \<Rightarrow>
          if rt_userId row \<noteq> userId then (Inl TokenInvalidError, s)
          else (Inr (), snd (revokeToken link (ACCESS_TOKEN_TTL_SECONDS cfg) now tokenId
                              (revokeFamily now (rt_familyId row) s))))"

datatype principal_description =
    StaffDescription authenticated_user
  | DeviceDescription string string device_status

fun describe_principal :: "session \<Rightarrow> id_world \<Rightarrow> principal_description result" where
  "describe_principal (StaffSession userId _ _) s =
     (case row_by u_id userId (users s) of
        None \<Rightarrow> Inl InvalidCredentialsError
      | Some u \<Rightarrow>
          if \<not> u_isActive u then Inl InvalidCredentialsError
          else Inr (StaffDescription \<lparr>au_id = u_id u, au_email = u_email u, au_displayName = u_displayName u,
                                      au_role = u_role u\<rparr>))"
| "describe_principal (DeviceSession deviceId) s =
     (case row_by kd_id deviceId (devices s) of
        None \<Rightarrow> Inl TokenInvalidError
      | Some d \<Rightarrow> Inr (DeviceDescription (kd_id d) (kd_name d) (kd_status d)))"

subsection \<open>\<open>users.service.ts\<close>\<close>

record staff_account =
  sa_id :: string
  sa_email :: string
  sa_displayName :: string
  sa_role :: user_role
  sa_isActive :: bool

record create_user_input =
  cu_email :: string
  cu_displayName :: string
  cu_role :: user_role
  cu_password :: string

record update_user_input =
  uu_displayName :: "string option"
  uu_role :: "user_role option"
  uu_isActive :: "bool option"

definition account_of :: "user_row \<Rightarrow> staff_account" where
  "account_of u = \<lparr>sa_id = u_id u, sa_email = u_email u, sa_displayName = u_displayName u,
     sa_role = u_role u, sa_isActive = u_isActive u\<rparr>"

definition create_user :: "crypto \<Rightarrow> string \<Rightarrow> create_user_input \<Rightarrow> id_world \<Rightarrow> staff_account result \<times> id_world" where
  "create_user c newId input s =
     (let row = \<lparr>u_id = newId, u_email = cu_email input, u_passwordHash = argon_hash c (cu_password input),
                 u_displayName = cu_displayName input, u_role = cu_role input, u_isActive = True\<rparr>
      in case sql_insert (\<lambda>x y. u_id x = u_id y \<or> toLowerCase (u_email x) = toLowerCase (u_email y)) row (users s) of
           None \<Rightarrow> (Inl (UserEmailExistsError (cu_email input)), s)
         | Some rows \<Rightarrow> (Inr (account_of row), s\<lparr>users := rows\<rparr>))"

definition list_users :: "id_world \<Rightarrow> staff_account list" where
  "list_users s = map account_of (sort_key (\<lambda>u. toLowerCase (u_email u)) (users s))"

definition with_changes :: "update_user_input \<Rightarrow> user_row \<Rightarrow> user_row" where
  "with_changes ch u =
     u\<lparr>u_displayName := (case uu_displayName ch of None \<Rightarrow> u_displayName u | Some x \<Rightarrow> x),
       u_role := (case uu_role ch of None \<Rightarrow> u_role u | Some x \<Rightarrow> x),
       u_isActive := (case uu_isActive ch of None \<Rightarrow> u_isActive u | Some x \<Rightarrow> x)\<rparr>"

definition active_admin :: "user_row \<Rightarrow> bool" where
  "active_admin u \<longleftrightarrow> u_role u = ADMIN \<and> u_isActive u"

definition guardLastAdmin :: "string \<Rightarrow> user_row \<Rightarrow> update_user_input \<Rightarrow> id_world \<Rightarrow> unit result" where
  "guardLastAdmin i current ch s =
     (if \<not> active_admin current then Inr ()
      else if (case uu_role ch of None \<Rightarrow> u_role current | Some r \<Rightarrow> r) = ADMIN \<and>
              (case uu_isActive ch of None \<Rightarrow> u_isActive current | Some a \<Rightarrow> a)
      then Inr ()
      else if filter (\<lambda>u. active_admin u \<and> u_id u \<noteq> i) (users s) = [] then Inl LastAdminError
      else Inr ())"

definition set_user :: "string \<Rightarrow> update_user_input \<Rightarrow> id_world \<Rightarrow> staff_account result \<times> id_world" where
  "set_user i ch s =
     (case sql_update (\<lambda>u. u_id u = i) (with_changes ch) (users s) of
        ([], _) \<Rightarrow> (Inl (ResourceNotFoundError ''user'' i), s)
      | (u # _, rows) \<Rightarrow> (Inr (account_of u), s\<lparr>users := rows\<rparr>))"

text \<open>The guarded path is one transaction that holds the admin rows.\<close>

definition update_user_work :: "string \<Rightarrow> update_user_input \<Rightarrow> id_world \<Rightarrow> staff_account result \<times> id_world" where
  "update_user_work i ch s =
     (case row_by u_id i (users s) of
        None \<Rightarrow> (Inl (ResourceNotFoundError ''user'' i), s)
      | Some current \<Rightarrow>
          (case guardLastAdmin i current ch s of Inl e \<Rightarrow> (Inl e, s) | Inr _ \<Rightarrow> set_user i ch s))"

definition update_user ::
  "auth_config \<Rightarrow> (nat \<Rightarrow> nat) \<Rightarrow> int \<Rightarrow> string \<Rightarrow> update_user_input \<Rightarrow> id_world \<Rightarrow> staff_account result \<times> id_world" where
  "update_user cfg link now i ch s =
     (if uu_role ch = None \<and> uu_isActive ch = None then set_user i ch s
      else case update_user_work i ch s of
             (Inl e, s1) \<Rightarrow> (Inl e, s1)
           | (Inr account, s1) \<Rightarrow> (Inr account, snd (revokeUser link (ACCESS_TOKEN_TTL_SECONDS cfg) now i s1)))"

subsection \<open>\<open>devices.service.ts\<close> and \<open>device-token.service.ts\<close>\<close>

record device_summary =
  dsum_id :: string
  dsum_name :: string
  dsum_status :: device_status
  dsum_lastSeenAt :: "int option"
  dsum_createdAt :: int

definition summary_of :: "device_row \<Rightarrow> device_summary" where
  "summary_of d = \<lparr>dsum_id = kd_id d, dsum_name = kd_name d, dsum_status = kd_status d,
     dsum_lastSeenAt = kd_lastSeenAt d, dsum_createdAt = kd_createdAt d\<rparr>"

definition create_device ::
  "crypto \<Rightarrow> auth_config \<Rightarrow> int \<Rightarrow> string \<Rightarrow> string \<Rightarrow> string \<Rightarrow> string \<Rightarrow> id_world \<Rightarrow>
   (device_summary \<times> string) result \<times> id_world" where
  "create_device c cfg now newId pairingCode name registeredBy s =
     (let row = \<lparr>kd_id = newId, kd_name = name, kd_tokenHash = None,
                 kd_pairingCodeHash = Some (hashSecret c pairingCode),
                 kd_pairingExpiresAt = Some (now + PAIRING_CODE_TTL_SECONDS cfg * 1000),
                 kd_status = DEV_PENDING, kd_lastSeenAt = None, kd_registeredBy = Some registeredBy,
                 kd_createdAt = now\<rparr>
      in case sql_insert (\<lambda>x y. kd_id x = kd_id y) row (devices s) of
           None \<Rightarrow> (Inl UniqueViolation, s)
         | Some rows \<Rightarrow> (Inr (summary_of row, pairingCode), s\<lparr>devices := rows\<rparr>))"

definition pairable :: "string \<Rightarrow> int \<Rightarrow> device_row \<Rightarrow> bool" where
  "pairable codeHash now d \<longleftrightarrow> kd_pairingCodeHash d = Some codeHash \<and> kd_status d = DEV_PENDING \<and>
     (case kd_pairingExpiresAt d of None \<Rightarrow> False | Some t \<Rightarrow> now < t)"

definition paired :: "string \<Rightarrow> device_row \<Rightarrow> device_row" where
  "paired tokenHash d = d\<lparr>kd_status := DEV_ACTIVE, kd_tokenHash := Some tokenHash,
     kd_pairingCodeHash := None, kd_pairingExpiresAt := None\<rparr>"

definition explainFailedPairing :: "string \<Rightarrow> int \<Rightarrow> id_world \<Rightarrow> app_error" where
  "explainFailedPairing codeHash now s =
     (case sql_find (\<lambda>d. kd_pairingCodeHash d = Some codeHash) (devices s) of
        Some d \<Rightarrow>
          if kd_status d = DEV_PENDING \<and> (case kd_pairingExpiresAt d of None \<Rightarrow> False | Some t \<Rightarrow> t \<le> now)
          then PairingCodeExpiredError else PairingCodeInvalidError
      | None \<Rightarrow> PairingCodeInvalidError)"

text \<open>Two rows that match would get the same token, which its unique column refuses.\<close>

definition activate ::
  "crypto \<Rightarrow> int \<Rightarrow> string \<Rightarrow> string \<Rightarrow> id_world \<Rightarrow> (string \<times> string \<times> string) result \<times> id_world" where
  "activate c now deviceToken pairingCode s =
     (let codeHash = hashSecret c pairingCode; tokenHash = hashSecret c deviceToken in
      case sql_update (pairable codeHash now) (paired tokenHash) (devices s) of
        ([], _) \<Rightarrow> (Inl (explainFailedPairing codeHash now s), s)
      | (d # others, rows) \<Rightarrow>
          if others \<noteq> [] \<or> list_ex (\<lambda>x. kd_tokenHash x = Some tokenHash) (devices s)
          then (Inl UniqueViolation, s)
          else (Inr (kd_id d, kd_name d, deviceToken), s\<lparr>devices := rows\<rparr>))"

definition list_devices :: "id_world \<Rightarrow> device_summary list" where
  "list_devices s = map summary_of (sort_key kd_createdAt (devices s))"

record update_device_input =
  ud_name :: "string option"
  ud_paused :: "bool option"

definition changed_device :: "update_device_input \<Rightarrow> device_row \<Rightarrow> device_row" where
  "changed_device ch d =
     d\<lparr>kd_name := (case ud_name ch of None \<Rightarrow> kd_name d | Some n \<Rightarrow> n),
       kd_status := (case ud_paused ch of None \<Rightarrow> kd_status d | Some p \<Rightarrow> if p then DEV_PAUSED else DEV_ACTIVE)\<rparr>"

text \<open>The check of a change of status, and the update: two statements, and the second does not repeat
  the first. \<open>gap\<close> is what happens in between.\<close>

definition check_restatus :: "string \<Rightarrow> update_device_input \<Rightarrow> id_world \<Rightarrow> unit result" where
  "check_restatus i ch s =
     (if ud_paused ch = None then Inr ()
      else case row_by kd_id i (devices s) of
             None \<Rightarrow> Inl (ResourceNotFoundError ''device'' i)
           | Some current \<Rightarrow>
               throw_if (kd_status current \<noteq> DEV_ACTIVE \<and> kd_status current \<noteq> DEV_PAUSED) DeviceNotPairedError)"

definition set_device :: "string \<Rightarrow> update_device_input \<Rightarrow> id_world \<Rightarrow> device_summary result \<times> id_world" where
  "set_device i ch s =
     (case sql_update (\<lambda>d. kd_id d = i) (changed_device ch) (devices s) of
        ([], _) \<Rightarrow> (Inl (ResourceNotFoundError ''device'' i), s)
      | (d # _, rows) \<Rightarrow> (Inr (summary_of d), s\<lparr>devices := rows\<rparr>))"

definition update_device ::
  "(id_world \<Rightarrow> id_world) \<Rightarrow> string \<Rightarrow> update_device_input \<Rightarrow> id_world \<Rightarrow> device_summary result \<times> id_world" where
  "update_device gap i ch s =
     (case check_restatus i ch s of Inl e \<Rightarrow> (Inl e, s) | Inr _ \<Rightarrow> set_device i ch (gap s))"

definition revoke_device :: "(nat \<Rightarrow> nat) \<Rightarrow> string \<Rightarrow> id_world \<Rightarrow> unit result \<times> id_world" where
  "revoke_device link i s =
     (case sql_update (\<lambda>d. kd_id d = i) (\<lambda>d. d\<lparr>kd_status := DEV_REVOKED\<rparr>) (devices s) of
        ([], _) \<Rightarrow> (Inl (ResourceNotFoundError ''device'' i), s)
      | (_ # _, rows) \<Rightarrow> (Inr (), snd (revokeDevice link i (s\<lparr>devices := rows\<rparr>))))"

definition LAST_SEEN_REFRESH_MS :: int where "LAST_SEEN_REFRESH_MS = 60000"

definition markSeen :: "int \<Rightarrow> string list \<Rightarrow> id_world \<Rightarrow> id_world" where
  "markSeen now deviceIds s =
     (if deviceIds = [] then s
      else s\<lparr>devices := snd (sql_update (\<lambda>d. List.member deviceIds (kd_id d)) (\<lambda>d. d\<lparr>kd_lastSeenAt := Some now\<rparr>) (devices s))\<rparr>)"

definition touchLastSeen :: "int \<Rightarrow> device_row \<Rightarrow> id_world \<Rightarrow> id_world" where
  "touchLastSeen now d s =
     (if (case kd_lastSeenAt d of None \<Rightarrow> False | Some t \<Rightarrow> now - t < LAST_SEEN_REFRESH_MS) then s
      else s\<lparr>devices := snd (sql_update (\<lambda>x. kd_id x = kd_id d) (\<lambda>x. x\<lparr>kd_lastSeenAt := Some now\<rparr>) (devices s))\<rparr>)"

definition resolve_device :: "crypto \<Rightarrow> int \<Rightarrow> string \<Rightarrow> id_world \<Rightarrow> session result \<times> id_world" where
  "resolve_device c now token s =
     (case sql_find (\<lambda>d. kd_tokenHash d = Some (hashSecret c token)) (devices s) of
        None \<Rightarrow> (Inl TokenInvalidError, s)
      | Some d \<Rightarrow>
          if kd_status d = DEV_REVOKED then (Inl DeviceRevokedError, s)
          else (Inr (DeviceSession (kd_id d)), touchLastSeen now d s))"

end
