(* ===== verification/Sessions.thy ===== *)
theory Sessions
  imports Identity
begin

text \<open>
  Everything the identity endpoints may do to their tables, in any order and from any number of
  clients, and what holds after every run: a refresh token works once and a family of them has one
  live member, an active administrator remains, and a tablet's credential dies with its revocation.

  Two requests are more than one statement on rows that others write: a refresh retires the token and
  later issues its successor, an update of a tablet checks its status and later writes it. They are
  two steps each (\<open>retire\<close> and \<open>rotate\<close>, \<open>check\<close> and \<open>restatus\<close>), and between them the request is in
  flight while any number of other steps, of other requests in flight too, get in; it may also die
  there (\<open>crash\<close>). The properties say what they need of the requests in flight, and
  \<open>replay_misses_token_in_flight\<close> and \<open>resume_undoes_revocation\<close> show that they need it.
\<close>

section \<open>Runs\<close>

datatype request_in_flight =
    Rotation refresh_token_row
  | Restatus string update_device_input

text \<open>The secrets and family ids drawn so far are kept, because a fresh one differs from all of them,
  those whose rows are gone included.\<close>

record id_system =
  identity :: id_world
  in_flight :: "request_in_flight list"
  drawn_hashes :: "string set"
  drawn_families :: "string set"

inductive account_step :: "crypto \<Rightarrow> auth_config \<Rightarrow> id_world \<Rightarrow> id_world \<Rightarrow> bool" for c cfg where
  create: "create_user c newId input s = (r, s') \<Longrightarrow> account_step c cfg s s'"
| update: "update_user cfg link now i ch s = (r, s') \<Longrightarrow> account_step c cfg s s'"

inductive device_step :: "crypto \<Rightarrow> auth_config \<Rightarrow> id_world \<Rightarrow> id_world \<Rightarrow> bool" for c cfg where
  create: "create_device c cfg now newId code name who s = (dr, s') \<Longrightarrow> device_step c cfg s s'"
| activate: "activate c now token code s = (tr, s') \<Longrightarrow> device_step c cfg s s'"
| revoke: "revoke_device link i s = (ur, s') \<Longrightarrow> device_step c cfg s s'"
| resolve: "resolve_device c now token s = (er, s') \<Longrightarrow> device_step c cfg s s'"
| seen: "device_step c cfg s (markSeen now ids s)"

text \<open>\<open>forget\<close> is the housekeeping, which deletes rows of tokens; here it may delete any.\<close>

inductive id_step :: "crypto \<Rightarrow> auth_config \<Rightarrow> id_system \<Rightarrow> id_system \<Rightarrow> bool" for c cfg where
  login: "familyId \<notin> drawn_families x \<Longrightarrow> hashSecret c (snd fresh) \<notin> drawn_hashes x \<Longrightarrow>
    login c cfg reachable now fresh familyId email password (identity x) = (r, s) \<Longrightarrow>
    id_step c cfg x (x\<lparr>identity := s, drawn_hashes := insert (hashSecret c (snd fresh)) (drawn_hashes x),
      drawn_families := insert familyId (drawn_families x)\<rparr>)"
| retire: "retire_token now (hashSecret c token) (identity x) = (t # ts, s) \<Longrightarrow>
    id_step c cfg x (x\<lparr>identity := s, in_flight := Rotation t # in_flight x\<rparr>)"
| rotate: "in_flight x = ps @ Rotation t # qs \<Longrightarrow> hashSecret c (snd fresh) \<notin> drawn_hashes x \<Longrightarrow>
    finish_refresh c cfg now fresh t (identity x) = (p, s) \<Longrightarrow>
    id_step c cfg x (x\<lparr>identity := s, in_flight := ps @ qs,
      drawn_hashes := insert (hashSecret c (snd fresh)) (drawn_hashes x)\<rparr>)"
| replay: "retire_token now (hashSecret c token) (identity x) = ([], s1) \<Longrightarrow>
    revokeFamilyOfReplayedToken now (hashSecret c token) s1 = (e, s) \<Longrightarrow> id_step c cfg x (x\<lparr>identity := s\<rparr>)"
| logout: "logout c cfg link now userId tokenId token (identity x) = (u, s) \<Longrightarrow> id_step c cfg x (x\<lparr>identity := s\<rparr>)"
| forget: "id_step c cfg x (x\<lparr>identity := (identity x)\<lparr>refreshTokens := filter keep (refreshTokens (identity x))\<rparr>\<rparr>)"
| account: "account_step c cfg (identity x) s \<Longrightarrow> id_step c cfg x (x\<lparr>identity := s\<rparr>)"
| device: "device_step c cfg (identity x) s \<Longrightarrow> id_step c cfg x (x\<lparr>identity := s\<rparr>)"
| check: "check_restatus i ch (identity x) = Inr () \<Longrightarrow>
    id_step c cfg x (x\<lparr>in_flight := Restatus i ch # in_flight x\<rparr>)"
| restatus: "in_flight x = ps @ Restatus i ch # qs \<Longrightarrow> set_device i ch (identity x) = (d, s) \<Longrightarrow>
    id_step c cfg x (x\<lparr>identity := s, in_flight := ps @ qs\<rparr>)"
| crash: "in_flight x = ps @ q # qs \<Longrightarrow> id_step c cfg x (x\<lparr>in_flight := ps @ qs\<rparr>)"

abbreviation identity_run :: "crypto \<Rightarrow> auth_config \<Rightarrow> id_system \<Rightarrow> id_system \<Rightarrow> bool" where
  "identity_run c cfg \<equiv> (id_step c cfg)\<^sup>*\<^sup>*"

text \<open>The live tokens of a family, the families a refresh in flight is about to issue a token of, and the
  tablets whose status a request in flight is about to write.\<close>

definition live_in :: "string \<Rightarrow> id_world \<Rightarrow> refresh_token_row list" where
  "live_in f s = filter (\<lambda>t. rt_familyId t = f \<and> rt_revokedAt t = None) (refreshTokens s)"

fun rotating :: "request_in_flight list \<Rightarrow> string list" where
  "rotating [] = []"
| "rotating (Rotation t # ps) = rt_familyId t # rotating ps"
| "rotating (Restatus i ch # ps) = rotating ps"

fun restatusing :: "request_in_flight list \<Rightarrow> string list" where
  "restatusing [] = []"
| "restatusing (Rotation t # ps) = restatusing ps"
| "restatusing (Restatus i ch # ps) = (if ud_paused ch = None then restatusing ps else i # restatusing ps)"

lemma in_flight_append [simp]:
  "rotating (ps @ qs) = rotating ps @ rotating qs"
  "restatusing (ps @ qs) = restatusing ps @ restatusing qs"
  by (induction ps rule: rotating.induct) simp_all

section \<open>Lemmas\<close>

text \<open>A whole refresh and a whole update of a tablet, with a run in their gap, are runs.\<close>

lemma refresh_is_run:
  assumes "retire_token now (hashSecret c token) (identity x) = (t # ts, s1)"
    and "identity_run c cfg (x\<lparr>identity := s1, in_flight := Rotation t # in_flight x\<rparr>) y"
    and "gap s1 = identity y" "in_flight y = ps @ Rotation t # qs" "hashSecret c (snd fresh) \<notin> drawn_hashes y"
  shows "identity_run c cfg x (y\<lparr>identity := snd (refresh c cfg gap now fresh token (identity x)), in_flight := ps @ qs,
    drawn_hashes := insert (hashSecret c (snd fresh)) (drawn_hashes y)\<rparr>)"
proof -
  have "refresh c cfg gap now fresh token (identity x) = finish_refresh c cfg now fresh t (identity y)"
    using assms(1,3) by (simp add: refresh_def)
  then have "id_step c cfg y (y\<lparr>identity := snd (refresh c cfg gap now fresh token (identity x)), in_flight := ps @ qs,
      drawn_hashes := insert (hashSecret c (snd fresh)) (drawn_hashes y)\<rparr>)"
    by (intro id_step.rotate [OF assms(4,5)]) (simp add: prod_eq_iff)
  with id_step.retire [OF assms(1)] assms(2) show ?thesis by (meson converse_rtranclp_into_rtranclp rtranclp.rtrancl_into_rtrancl)
qed

lemma update_device_is_run:
  assumes "check_restatus i ch (identity x) = Inr ()"
    and "identity_run c cfg (x\<lparr>in_flight := Restatus i ch # in_flight x\<rparr>) y"
    and "gap (identity x) = identity y" "in_flight y = ps @ Restatus i ch # qs"
  shows "identity_run c cfg x (y\<lparr>identity := snd (update_device gap i ch (identity x)), in_flight := ps @ qs\<rparr>)"
proof -
  have "update_device gap i ch (identity x) = set_device i ch (identity y)"
    using assms(1,3) by (simp add: update_device_def)
  then have "id_step c cfg y (y\<lparr>identity := snd (update_device gap i ch (identity x)), in_flight := ps @ qs\<rparr>)"
    by (intro id_step.restatus [OF assms(4)]) (simp add: prod_eq_iff)
  with id_step.check [OF assms(1)] assms(2) show ?thesis by (meson converse_rtranclp_into_rtranclp rtranclp.rtrancl_into_rtrancl)
qed

subsection \<open>Frames\<close>

lemma withRetry_invariant:
  assumes "\<And>i s. I s \<Longrightarrow> I (snd (attempt i s))" "I s"
  shows "I (snd (withRetry n attempt i s))"
  using assms(2)
proof (induction n arbitrary: i s)
  case 0
  then show ?case using assms(1) by simp
next
  case (Suc n)
  then show ?case using assms(1) [of s i] by (auto split: prod.splits bool.splits)
qed

definition tables_of :: "id_world \<Rightarrow> user_row list \<times> refresh_token_row list \<times> device_row list" where
  "tables_of s = (users s, refreshTokens s, devices s)"

lemma announce_frame: "tables_of (snd (announce link ttl now k v s)) = tables_of s"
  unfolding announce_def
  by (rule withRetry_invariant [where I = "\<lambda>x. tables_of x = tables_of s"])
    (simp_all add: announce_once_def publish_revocation_def Let_def tables_of_def)

lemma revokeDevice_frame: "tables_of (snd (revokeDevice link i s)) = tables_of s"
  unfolding revokeDevice_def
  by (rule withRetry_invariant [where I = "\<lambda>x. tables_of x = tables_of s"])
    (simp_all add: publish_revocation_def tables_of_def)

lemma announced_tables [simp]:
  "users (snd (announce link ttl now k v s)) = users s"
  "refreshTokens (snd (announce link ttl now k v s)) = refreshTokens s"
  "devices (snd (announce link ttl now k v s)) = devices s"
  "users (snd (revokeDevice link i s)) = users s"
  "refreshTokens (snd (revokeDevice link i s)) = refreshTokens s"
  "devices (snd (revokeDevice link i s)) = devices s"
  using announce_frame [of link ttl now k v s] revokeDevice_frame [of link i s] by (simp_all add: tables_of_def)

text \<open>What each operation leaves of the tables it does not own.\<close>

definition issued_row :: "crypto \<Rightarrow> auth_config \<Rightarrow> int \<Rightarrow> string \<Rightarrow> string \<Rightarrow> string \<Rightarrow> refresh_token_row" where
  "issued_row c cfg now secret userId f =
     \<lparr>rt_userId = userId, rt_tokenHash = hashSecret c secret, rt_familyId = f,
      rt_expiresAt = now + REFRESH_TOKEN_TTL_SECONDS cfg * 1000, rt_revokedAt = None\<rparr>"

lemma issued_row_simps [simp]:
  "rt_userId (issued_row c cfg now secret userId f) = userId"
  "rt_tokenHash (issued_row c cfg now secret userId f) = hashSecret c secret"
  "rt_familyId (issued_row c cfg now secret userId f) = f"
  "rt_revokedAt (issued_row c cfg now secret userId f) = None"
  by (simp_all add: issued_row_def)

lemma issuePair_eq:
  "issuePair c cfg now fresh userId role f s =
     (if hashSecret c (snd fresh) \<in> rt_tokenHash ` set (refreshTokens s) then (Inl UniqueViolation, s)
      else (Inr \<lparr>tp_accessToken = fst (access_issue c (fst fresh) userId role), tp_refreshToken = snd fresh,
                 tp_expiresInSeconds = snd (access_issue c (fst fresh) userId role)\<rparr>,
            s\<lparr>refreshTokens := refreshTokens s @ [issued_row c cfg now (snd fresh) userId f]\<rparr>))"
  by (force simp: issuePair_def Let_def sql_insert_def list_ex_iff issued_row_def image_iff split: prod.splits)

lemma login_cases:
  assumes "login c cfg reachable now fresh f email password s = (r, s')"
  shows "users s' = users s" "devices s' = devices s"
    and "refreshTokens s' = refreshTokens s \<or>
      (\<exists>t. rt_familyId t = f \<and> rt_revokedAt t = None \<and> rt_tokenHash t = hashSecret c (snd fresh) \<and>
         refreshTokens s' = refreshTokens s @ [t])"
proof -
  have "users s' = users s \<and> devices s' = devices s \<and>
      (refreshTokens s' = refreshTokens s \<or>
       (\<exists>u. hashSecret c (snd fresh) \<notin> rt_tokenHash ` set (refreshTokens s) \<and>
         refreshTokens s' = refreshTokens s @ [issued_row c cfg now (snd fresh) u f]))"
    using assms unfolding login_def Let_def issuePair_eq
    by (auto split: prod.splits sum.splits option.splits if_splits)
  then show "users s' = users s" "devices s' = devices s"
    and "refreshTokens s' = refreshTokens s \<or>
      (\<exists>t. rt_familyId t = f \<and> rt_revokedAt t = None \<and> rt_tokenHash t = hashSecret c (snd fresh) \<and>
         refreshTokens s' = refreshTokens s @ [t])"
    by fastforce+
qed

lemma finish_refresh_cases:
  assumes "finish_refresh c cfg now fresh t s = (r, s')"
  shows "s' = s \<and> (\<exists>e. r = Inl e) \<or>
    (\<exists>u. hashSecret c (snd fresh) \<notin> rt_tokenHash ` set (refreshTokens s) \<and>
      s' = s\<lparr>refreshTokens := refreshTokens s @ [issued_row c cfg now (snd fresh) u (rt_familyId t)]\<rparr>)"
  using assms unfolding finish_refresh_def issuePair_eq by (auto split: if_splits option.splits)

text \<open>Marking rows as revoked, the only change a token row ever sees.\<close>

definition revoked_where :: "(refresh_token_row \<Rightarrow> bool) \<Rightarrow> int \<Rightarrow> refresh_token_row list \<Rightarrow> refresh_token_row list" where
  "revoked_where p now ts = map (\<lambda>t. if p t \<and> rt_revokedAt t = None then t\<lparr>rt_revokedAt := Some now\<rparr> else t) ts"

lemma revokeFamily_eq: "revokeFamily now f s = s\<lparr>refreshTokens := revoked_where (\<lambda>t. rt_familyId t = f) now (refreshTokens s)\<rparr>"
  by (simp add: revokeFamily_def sql_update_def revoked_where_def)

lemma retire_token_eq:
  "snd (retire_token now h s) = s\<lparr>refreshTokens := revoked_where (\<lambda>t. rt_tokenHash t = h) now (refreshTokens s)\<rparr>"
  "fst (retire_token now h s) = map (\<lambda>t. t\<lparr>rt_revokedAt := Some now\<rparr>)
     (filter (\<lambda>t. rt_tokenHash t = h \<and> rt_revokedAt t = None) (refreshTokens s))"
  by (simp_all add: retire_token_def sql_update_def revoked_where_def)

lemma logout_cases:
  assumes "logout c cfg link now userId tokenId token s = (r, s')"
  shows "users s' = users s" "devices s' = devices s"
    and "\<exists>p. refreshTokens s' = revoked_where p now (refreshTokens s)"
proof -
  have "refreshTokens s = revoked_where (\<lambda>_. False) now (refreshTokens s)" by (simp add: revoked_where_def)
  with assms show "users s' = users s" "devices s' = devices s"
    and "\<exists>p. refreshTokens s' = revoked_where p now (refreshTokens s)"
    by (auto simp: logout_def revokeToken_def revokeFamily_eq split: option.splits if_splits)
qed

lemma account_step_frame:
  "account_step c cfg s s' \<Longrightarrow> refreshTokens s' = refreshTokens s"
  "account_step c cfg s s' \<Longrightarrow> devices s' = devices s"
  by (auto elim!: account_step.cases simp: create_user_def update_user_def update_user_work_def set_user_def revokeUser_def Let_def
      split: option.splits if_splits prod.splits sum.splits list.splits)

lemma device_step_frame:
  "device_step c cfg s s' \<Longrightarrow> refreshTokens s' = refreshTokens s"
  "device_step c cfg s s' \<Longrightarrow> users s' = users s"
  by (auto elim!: device_step.cases simp: create_device_def activate_def revoke_device_def
      resolve_device_def markSeen_def touchLastSeen_def Let_def
      split: option.splits if_splits prod.splits sum.splits list.splits)

lemma set_device_frame:
  "set_device i ch s = (r, s') \<Longrightarrow> refreshTokens s' = refreshTokens s"
  "set_device i ch s = (r, s') \<Longrightarrow> users s' = users s"
  "set_device i ch s = (r, s') \<Longrightarrow> devices s' = map (\<lambda>d. if kd_id d = i then changed_device ch d else d) (devices s)"
  by (auto simp: set_device_def sql_update_def filter_empty_conv split: list.splits intro!: map_idI [symmetric])

lemma revoked_where_maps [simp]:
  "map rt_tokenHash (revoked_where p now ts) = map rt_tokenHash ts"
  "map rt_familyId (revoked_where p now ts) = map rt_familyId ts"
  by (simp_all add: revoked_where_def)

lemma revoked_where_keys [simp]:
  "rt_tokenHash ` set (revoked_where p now ts) = rt_tokenHash ` set ts"
  "rt_familyId ` set (revoked_where p now ts) = rt_familyId ` set ts"
  by (metis list.set_map revoked_where_maps(1)) (metis list.set_map revoked_where_maps(2))

lemma revoked_where_live:
  "filter (\<lambda>t. rt_familyId t = f \<and> rt_revokedAt t = None) (revoked_where p now ts) =
     filter (\<lambda>t. (rt_familyId t = f \<and> rt_revokedAt t = None) \<and> \<not> p t) ts"
  by (induction ts) (auto simp: revoked_where_def)

lemma revoked_where_filter:
  "length (filter (\<lambda>t. rt_familyId t = f \<and> rt_revokedAt t = None) (revoked_where p now ts)) \<le>
     length (filter (\<lambda>t. rt_familyId t = f \<and> rt_revokedAt t = None) ts)"
  by (induction ts) (auto simp: revoked_where_def)

subsection \<open>Families of refresh tokens\<close>

text \<open>
  All that a step does to the tokens: it revokes and deletes rows; it opens a family; it retires a
  live token, which puts a rotation in flight; or it ends a rotation with a new row of its family.
\<close>

inductive token_move :: "id_system \<Rightarrow> id_system \<Rightarrow> bool" where
  settle: "refreshTokens (identity y) = filter keep (revoked_where p now (refreshTokens (identity x))) \<Longrightarrow>
    (\<And>f. count_list (rotating (in_flight y)) f \<le> count_list (rotating (in_flight x)) f) \<Longrightarrow>
    drawn_hashes x \<subseteq> drawn_hashes y \<Longrightarrow> drawn_families x \<subseteq> drawn_families y \<Longrightarrow> token_move x y"
| started: "refreshTokens (identity y) = refreshTokens (identity x) @ [t] \<Longrightarrow> rt_revokedAt t = None \<Longrightarrow>
    rt_familyId t \<notin> drawn_families x \<Longrightarrow> rt_tokenHash t \<notin> drawn_hashes x \<Longrightarrow>
    rotating (in_flight y) = rotating (in_flight x) \<Longrightarrow>
    drawn_hashes y = insert (rt_tokenHash t) (drawn_hashes x) \<Longrightarrow>
    drawn_families y = insert (rt_familyId t) (drawn_families x) \<Longrightarrow> token_move x y"
| retire: "t \<in> set (refreshTokens (identity x)) \<Longrightarrow> rt_revokedAt t = None \<Longrightarrow>
    refreshTokens (identity y) = revoked_where (\<lambda>u. rt_tokenHash u = rt_tokenHash t) now (refreshTokens (identity x)) \<Longrightarrow>
    rotating (in_flight y) = rt_familyId t # rotating (in_flight x) \<Longrightarrow>
    drawn_hashes y = drawn_hashes x \<Longrightarrow> drawn_families y = drawn_families x \<Longrightarrow> token_move x y"
| rotate: "refreshTokens (identity y) = refreshTokens (identity x) @ [t] \<Longrightarrow> rt_revokedAt t = None \<Longrightarrow>
    rt_tokenHash t \<notin> drawn_hashes x \<Longrightarrow> rotating (in_flight x) = a @ rt_familyId t # b \<Longrightarrow>
    rotating (in_flight y) = a @ b \<Longrightarrow> drawn_hashes y = insert (rt_tokenHash t) (drawn_hashes x) \<Longrightarrow>
    drawn_families y = drawn_families x \<Longrightarrow> token_move x y"

lemma settle_same:
  assumes "refreshTokens (identity y) = refreshTokens (identity x)"
    and "\<And>f. count_list (rotating (in_flight y)) f \<le> count_list (rotating (in_flight x)) f"
    and "drawn_hashes x \<subseteq> drawn_hashes y" "drawn_families x \<subseteq> drawn_families y"
  shows "token_move x y"
  by (rule token_move.settle [where keep = "\<lambda>_. True" and p = "\<lambda>_. False" and now = 0])
    (use assms in \<open>simp_all add: revoked_where_def\<close>)

lemma settle_revoked:
  assumes "refreshTokens (identity y) = revoked_where p now (refreshTokens (identity x))"
    and "in_flight y = in_flight x" "drawn_hashes y = drawn_hashes x" "drawn_families y = drawn_families x"
  shows "token_move x y"
  by (rule token_move.settle [where keep = "\<lambda>_. True" and p = p and now = now]) (use assms in simp_all)

lemma retire_token_Nil:
  assumes "retire_token now h s = ([], s')"
  shows "s' = s"
proof -
  have "\<forall>t \<in> set (refreshTokens s). \<not> (rt_tokenHash t = h \<and> rt_revokedAt t = None)"
    using assms retire_token_eq(2) [of now h s] by (simp add: filter_empty_conv)
  then have "revoked_where (\<lambda>t. rt_tokenHash t = h) now (refreshTokens s) = refreshTokens s"
    by (auto simp: revoked_where_def intro!: map_idI)
  then show ?thesis using assms retire_token_eq(1) [of now h s] by simp
qed

lemma retire_token_Cons:
  assumes "retire_token now h s = (t # ts, s')"
  obtains t0 where "t0 \<in> set (refreshTokens s)" "rt_tokenHash t0 = h" "rt_revokedAt t0 = None"
    "t = t0\<lparr>rt_revokedAt := Some now\<rparr>"
    "s' = s\<lparr>refreshTokens := revoked_where (\<lambda>u. rt_tokenHash u = h) now (refreshTokens s)\<rparr>"
proof -
  let ?live = "filter (\<lambda>t. rt_tokenHash t = h \<and> rt_revokedAt t = None) (refreshTokens s)"
  have m: "map (\<lambda>t. t\<lparr>rt_revokedAt := Some now\<rparr>) ?live = t # ts"
    using retire_token_eq(2) [of now h s] assms by simp
  then have "t \<in> set (map (\<lambda>t. t\<lparr>rt_revokedAt := Some now\<rparr>) ?live)" by simp
  then obtain t0 where "t0 \<in> set ?live" "t = t0\<lparr>rt_revokedAt := Some now\<rparr>" unfolding set_map by blast
  moreover have "s' = s\<lparr>refreshTokens := revoked_where (\<lambda>u. rt_tokenHash u = h) now (refreshTokens s)\<rparr>"
    using retire_token_eq(1) [of now h s] assms by simp
  ultimately show ?thesis using that [of t0] by auto
qed

lemma replayed_revokes:
  assumes "revokeFamilyOfReplayedToken now h s = (e, s')"
  shows "\<exists>p. s' = s\<lparr>refreshTokens := revoked_where p now (refreshTokens s)\<rparr>"
proof (cases "row_by rt_tokenHash h (refreshTokens s)")
  case None
  have "s = s\<lparr>refreshTokens := revoked_where (\<lambda>_. False) now (refreshTokens s)\<rparr>" by (simp add: revoked_where_def)
  with assms None show ?thesis by (auto simp: revokeFamilyOfReplayedToken_def)
next
  case (Some u)
  with assms show ?thesis by (auto simp: revokeFamilyOfReplayedToken_def revokeFamily_eq)
qed

lemma id_step_token_move:
  assumes "id_step c cfg x y"
  shows "token_move x y"
  using assms
proof cases
  case (login familyId fresh reachable now email password r s)
  from login_cases(3) [OF login(4)] show ?thesis
  proof (elim disjE exE conjE)
    assume "refreshTokens s = refreshTokens (identity x)"
    then show ?thesis using login(1) by (intro settle_same) auto
  next
    fix t
    assume t: "rt_familyId t = familyId" "rt_revokedAt t = None" "rt_tokenHash t = hashSecret c (snd fresh)"
      "refreshTokens s = refreshTokens (identity x) @ [t]"
    then show ?thesis using login(1-3) by (intro token_move.started [of _ _ t]) simp_all
  qed
next
  case (retire now token t ts s)
  obtain t0 where "t0 \<in> set (refreshTokens (identity x))" "rt_tokenHash t0 = hashSecret c token" "rt_revokedAt t0 = None"
    "t = t0\<lparr>rt_revokedAt := Some now\<rparr>"
    "s = (identity x)\<lparr>refreshTokens := revoked_where (\<lambda>u. rt_tokenHash u = hashSecret c token) now (refreshTokens (identity x))\<rparr>"
    by (rule retire_token_Cons [OF retire(2)])
  then show ?thesis using retire(1) by (intro token_move.retire [of t0]) simp_all
next
  case (rotate ps t qs fresh now p s)
  from finish_refresh_cases [OF rotate(4)] show ?thesis
  proof (elim disjE exE conjE)
    assume "s = identity x"
    then show ?thesis using rotate(1,2) by (intro settle_same) auto
  next
    fix u
    assume "s = (identity x)\<lparr>refreshTokens := refreshTokens (identity x) @
      [issued_row c cfg now (snd fresh) u (rt_familyId t)]\<rparr>"
    then show ?thesis
      using rotate(1-3) by (intro token_move.rotate [of _ _ "issued_row c cfg now (snd fresh) u (rt_familyId t)"]) simp_all
  qed
next
  case (replay now token s1 e s)
  obtain p where "s = s1\<lparr>refreshTokens := revoked_where p now (refreshTokens s1)\<rparr>"
    using replayed_revokes [OF replay(3)] ..
  then show ?thesis using replay(1) retire_token_Nil [OF replay(2)] by (intro settle_revoked) simp_all
next
  case (logout link now userId tokenId token u s)
  obtain p where "refreshTokens s = revoked_where p now (refreshTokens (identity x))"
    using logout_cases(3) [OF logout(2)] ..
  then show ?thesis using logout(1) by (intro settle_revoked) simp_all
next
  case (forget keep)
  then show ?thesis
    by (intro token_move.settle [where keep = keep and p = "\<lambda>_. False" and now = 0]) (simp_all add: revoked_where_def)
next
  case (account s)
  then show ?thesis using account_step_frame(1) by (intro settle_same) auto
next
  case (device s)
  then show ?thesis using device_step_frame(1) by (intro settle_same) auto
next
  case (restatus ps i ch qs d s)
  then show ?thesis using set_device_frame(1) by (intro settle_same) auto
next
  case (crash ps q qs)
  then show ?thesis by (cases q) (intro settle_same, auto)+
qed (intro settle_same, auto)

definition tokens_ok :: "id_system \<Rightarrow> bool" where
  "tokens_ok x \<longleftrightarrow> distinct (map rt_tokenHash (refreshTokens (identity x))) \<and>
     rt_tokenHash ` set (refreshTokens (identity x)) \<subseteq> drawn_hashes x \<and>
     rt_familyId ` set (refreshTokens (identity x)) \<union> set (rotating (in_flight x)) \<subseteq> drawn_families x \<and>
     (\<forall>f. length (live_in f (identity x)) + count_list (rotating (in_flight x)) f \<le> 1)"

lemma tokens_okD:
  assumes "tokens_ok x"
  shows "distinct (map rt_tokenHash (refreshTokens (identity x)))"
    and "t \<in> set (refreshTokens (identity x)) \<Longrightarrow> rt_tokenHash t \<in> drawn_hashes x"
    and "t \<in> set (refreshTokens (identity x)) \<Longrightarrow> rt_familyId t \<in> drawn_families x"
    and "f \<in> set (rotating (in_flight x)) \<Longrightarrow> f \<in> drawn_families x"
    and "length (live_in f (identity x)) + count_list (rotating (in_flight x)) f \<le> 1"
  using assms by (auto simp: tokens_ok_def)

lemma count_list_pos: "f \<in> set xs \<longleftrightarrow> 0 < count_list xs f"
  using count_list_0_iff [of xs f] by auto

lemma length_live_settled:
  "length (filter P (filter keep ts)) \<le> length (filter P ts)"
  by (induction ts) auto

lemma settled_live:
  assumes "refreshTokens s' = filter keep (revoked_where p now (refreshTokens s))"
  shows "length (live_in f s') \<le> length (live_in f s)"
  unfolding live_in_def assms using length_live_settled revoked_where_filter by (rule le_trans)

lemma settled_row:
  assumes "u \<in> set (filter keep (revoked_where p now ts))"
  obtains t where "t \<in> set ts" "rt_tokenHash u = rt_tokenHash t" "rt_familyId u = rt_familyId t"
    "rt_revokedAt u = None \<longrightarrow> rt_revokedAt t = None"
  using assms by (auto simp: revoked_where_def split: if_splits)

lemma retired_leaves_none:
  assumes "length (live_in (rt_familyId t) s) \<le> 1" "t \<in> set (refreshTokens s)" "rt_revokedAt t = None"
    and "refreshTokens s' = revoked_where (\<lambda>u. rt_tokenHash u = rt_tokenHash t) now (refreshTokens s)"
  shows "live_in (rt_familyId t) s = [t] \<and> live_in (rt_familyId t) s' = []"
proof -
  have "t \<in> set (live_in (rt_familyId t) s)" using assms by (simp add: live_in_def)
  with assms(1) have t: "live_in (rt_familyId t) s = [t]" by (cases "live_in (rt_familyId t) s") auto
  have "u = t" if "u \<in> set (refreshTokens s)" "rt_familyId u = rt_familyId t" "rt_revokedAt u = None" for u
  proof -
    have "u \<in> set (live_in (rt_familyId t) s)" using that by (simp add: live_in_def)
    with t show ?thesis by simp
  qed
  then have "live_in (rt_familyId t) s' = []" unfolding live_in_def assms(4) revoked_where_live filter_empty_conv by blast
  with t show ?thesis ..
qed

lemma token_move_ok:
  assumes "token_move x y" "tokens_ok x"
  shows "tokens_ok y"
  using assms(1)
proof cases
  case (settle keep p now)
  have "length (live_in f (identity y)) + count_list (rotating (in_flight y)) f \<le> 1" for f
    using settled_live [OF settle(1), of f] settle(2) [of f] tokens_okD(5) [OF assms(2), of f] by linarith
  moreover have "distinct (map rt_tokenHash (refreshTokens (identity y)))"
    unfolding settle(1) using tokens_okD(1) [OF assms(2)] by (intro distinct_map_filter) simp
  moreover have "set (rotating (in_flight y)) \<subseteq> drawn_families y"
    using tokens_okD(4) [OF assms(2)] settle(2,4) by (metis count_list_pos less_le_trans subset_iff)
  moreover have "rt_tokenHash u \<in> drawn_hashes y \<and> rt_familyId u \<in> drawn_families y"
    if "u \<in> set (refreshTokens (identity y))" for u
    using settled_row [OF that [unfolded settle(1)]] tokens_okD(2,3) [OF assms(2)] settle(3,4) by (metis subsetD)
  ultimately show ?thesis unfolding tokens_ok_def by blast
next
  case (started t)
  have "live_in (rt_familyId t) (identity x) = []"
    unfolding live_in_def filter_empty_conv using tokens_okD(3) [OF assms(2)] started(3) by metis
  moreover have "rt_familyId t \<notin> set (rotating (in_flight x))" using tokens_okD(4) [OF assms(2)] started(3) by blast
  ultimately have "length (live_in f (identity y)) + count_list (rotating (in_flight y)) f \<le> 1" for f
    using tokens_okD(5) [OF assms(2), of f] started(1,5) by (auto simp: live_in_def count_list_0_iff)
  then show ?thesis
    using assms(2) started by (auto simp: tokens_ok_def)
next
  case (retire t now)
  have t: "live_in (rt_familyId t) (identity x) = [t]" "live_in (rt_familyId t) (identity y) = []"
    using retired_leaves_none [OF _ retire(1,2,3)] tokens_okD(5) [OF assms(2), of "rt_familyId t"] by auto
  have "length (live_in f (identity y)) + count_list (rotating (in_flight y)) f \<le> 1" for f
    using settled_live [of "identity y" "\<lambda>_. True", of _ now "identity x" f] retire(3,4) t tokens_okD(5) [OF assms(2), of f]
    by (cases "f = rt_familyId t") (fastforce+)
  then show ?thesis
    using assms(2) retire tokens_okD(3) [OF assms(2)] by (auto simp: tokens_ok_def)
next
  case (rotate t a b)
  have "length (live_in f (identity y)) + count_list (rotating (in_flight y)) f \<le> 1" for f
    using tokens_okD(5) [OF assms(2), of f] rotate(1,2,4,5) by (auto simp: live_in_def split: if_splits)
  then show ?thesis
    using assms(2) rotate by (auto simp: tokens_ok_def)
qed

lemma run_tokens_ok: "identity_run c cfg x y \<Longrightarrow> tokens_ok x \<Longrightarrow> tokens_ok y"
  by (induction rule: rtranclp_induct) (blast intro: token_move_ok id_step_token_move)+

text \<open>A family with no live token and no rotation in flight never gets a token again.\<close>

definition dead_family :: "string \<Rightarrow> id_system \<Rightarrow> bool" where
  "dead_family f x \<longleftrightarrow> f \<in> drawn_families x \<and> live_in f (identity x) = [] \<and> f \<notin> set (rotating (in_flight x))"

lemma token_move_dead:
  assumes "token_move x y" "dead_family f x"
  shows "dead_family f y"
  using assms(1)
proof cases
  case (settle keep p now)
  then show ?thesis
    using assms(2) settled_live [OF settle(1), of f] settle(2) [of f] by (auto simp: dead_family_def count_list_pos)
next
  case (retire t now)
  then have "rt_familyId t \<noteq> f" using assms(2) by (auto simp: dead_family_def live_in_def filter_empty_conv)
  then show ?thesis
    using assms(2) settled_live [of "identity y" "\<lambda>_. True", of _ now "identity x" f] retire by (fastforce simp: dead_family_def)
qed (use assms(2) in \<open>auto simp: dead_family_def live_in_def\<close>)

lemma dead_stays_dead: "identity_run c cfg x y \<Longrightarrow> dead_family f x \<Longrightarrow> dead_family f y"
  by (induction rule: rtranclp_induct) (blast intro: token_move_dead id_step_token_move)+

text \<open>A token that has been retired has no live row again, and its row, while it is there, names its family.\<close>

definition retired_token :: "string \<Rightarrow> string \<Rightarrow> id_system \<Rightarrow> bool" where
  "retired_token h f x \<longleftrightarrow> h \<in> drawn_hashes x \<and>
     (\<forall>t \<in> set (refreshTokens (identity x)). rt_tokenHash t = h \<longrightarrow> rt_familyId t = f \<and> rt_revokedAt t \<noteq> None)"

lemma retired_settled:
  assumes "retired_token h f x" "u \<in> set (filter keep (revoked_where p now (refreshTokens (identity x))))" "rt_tokenHash u = h"
  shows "rt_familyId u = f \<and> rt_revokedAt u \<noteq> None"
proof -
  obtain t where t: "t \<in> set (refreshTokens (identity x))" "rt_tokenHash u = rt_tokenHash t" "rt_familyId u = rt_familyId t"
    "rt_revokedAt u = None \<longrightarrow> rt_revokedAt t = None"
    by (rule settled_row [OF assms(2)])
  have "rt_familyId t = f" "rt_revokedAt t \<noteq> None" using assms(1,3) t(1,2) by (simp_all add: retired_token_def)
  with t(3,4) show ?thesis by blast
qed

lemma token_move_retired:
  assumes "token_move x y" "retired_token h f x"
  shows "retired_token h f y"
  using assms(1)
proof cases
  case (settle keep p now)
  have "h \<in> drawn_hashes y" using assms(2) settle(3) by (auto simp: retired_token_def)
  then show ?thesis unfolding retired_token_def settle(1) using retired_settled [OF assms(2)] by blast
next
  case (retire t now)
  have "h \<in> drawn_hashes y" using assms(2) retire(5) by (simp add: retired_token_def)
  then show ?thesis
    unfolding retired_token_def retire(3) using retired_settled [OF assms(2), where keep = "\<lambda>_. True"] by auto
next
  case (started t)
  then have "rt_tokenHash t \<noteq> h" using assms(2) by (auto simp: retired_token_def)
  then show ?thesis using assms(2) started(1,6) by (simp add: retired_token_def)
next
  case (rotate t a b)
  then have "rt_tokenHash t \<noteq> h" using assms(2) by (auto simp: retired_token_def)
  then show ?thesis using assms(2) rotate(1,6) by (simp add: retired_token_def)
qed

lemma retired_stays_retired: "identity_run c cfg x y \<Longrightarrow> retired_token h f x \<Longrightarrow> retired_token h f y"
  by (induction rule: rtranclp_induct) (blast intro: token_move_retired id_step_token_move)+

lemma retire_is_final:
  assumes "tokens_ok x" "retire_token now h (identity x) = (t # ts, s)"
  shows "retired_token h (rt_familyId t) (x\<lparr>identity := s, in_flight := Rotation t # in_flight x\<rparr>)"
proof -
  obtain t0 where t0: "t0 \<in> set (refreshTokens (identity x))" "rt_tokenHash t0 = h" "rt_revokedAt t0 = None"
    "t = t0\<lparr>rt_revokedAt := Some now\<rparr>"
    "s = (identity x)\<lparr>refreshTokens := revoked_where (\<lambda>u. rt_tokenHash u = h) now (refreshTokens (identity x))\<rparr>"
    by (rule retire_token_Cons [OF assms(2)])
  have only: "u = t0" if "u \<in> set (refreshTokens (identity x))" "rt_tokenHash u = h" for u
    using tokens_okD(1) [OF assms(1)] that t0(1,2) by (metis distinct_map inj_onD)
  have h: "h \<in> drawn_hashes x" using tokens_okD(2) [OF assms(1) t0(1)] t0(2) by simp
  have "rt_familyId u = rt_familyId t \<and> rt_revokedAt u \<noteq> None"
    if u: "u \<in> set (revoked_where (\<lambda>u. rt_tokenHash u = h) now (refreshTokens (identity x)))" "rt_tokenHash u = h" for u
  proof -
    obtain v where v: "v \<in> set (refreshTokens (identity x))"
      "u = (if rt_tokenHash v = h \<and> rt_revokedAt v = None then v\<lparr>rt_revokedAt := Some now\<rparr> else v)"
      using u(1) unfolding revoked_where_def set_map by blast
    then have "rt_tokenHash v = h" using u(2) by (simp split: if_splits)
    with v only [of v] t0(3,4) show ?thesis by simp
  qed
  with h show ?thesis by (simp add: retired_token_def t0(5))
qed

text \<open>What a retired token is answered with, and what a replay leaves behind.\<close>

lemma retired_is_refused:
  assumes "retired_token (hashSecret c token) f x"
  shows "refresh c cfg gap now fresh token (identity x) =
    (if hashSecret c token \<in> rt_tokenHash ` set (refreshTokens (identity x))
     then (Inl RefreshTokenReusedError, revokeFamily now f (identity x)) else (Inl TokenInvalidError, identity x))"
proof -
  let ?h = "hashSecret c token" and ?s = "identity x"
  have "fst (retire_token now ?h ?s) = []"
    using assms by (auto simp: retire_token_eq(2) filter_empty_conv retired_token_def)
  then have "retire_token now ?h ?s = ([], ?s)" using retire_token_Nil by (metis prod.collapse)
  then have run: "refresh c cfg gap now fresh token ?s = (case revokeFamilyOfReplayedToken now ?h ?s of (e, s) \<Rightarrow> (Inl e, s))"
    by (simp add: refresh_def)
  show ?thesis
  proof (cases "row_by rt_tokenHash ?h (refreshTokens ?s)")
    case None
    then have "?h \<notin> rt_tokenHash ` set (refreshTokens ?s)" by (simp add: row_by_None)
    then show ?thesis using run None by (simp add: revokeFamilyOfReplayedToken_def)
  next
    case (Some u)
    note u = row_by_SomeD [OF Some]
    then have "rt_familyId u = f" using assms by (simp add: retired_token_def)
    moreover have "?h \<in> rt_tokenHash ` set (refreshTokens ?s)" using u by (metis imageI)
    ultimately show ?thesis using run Some by (simp add: revokeFamilyOfReplayedToken_def)
  qed
qed

lemma revokeFamily_live: "live_in f (revokeFamily now f s) = []"
  by (auto simp: revokeFamily_eq live_in_def revoked_where_live filter_empty_conv)

lemma dead_is_retired:
  assumes "tokens_ok x" "dead_family f x" "u \<in> set (refreshTokens (identity x))" "rt_familyId u = f"
  shows "retired_token (rt_tokenHash u) f x"
proof -
  have "rt_revokedAt u \<noteq> None" using assms(2-4) by (auto simp: dead_family_def live_in_def filter_empty_conv)
  moreover have "v = u" if "v \<in> set (refreshTokens (identity x))" "rt_tokenHash v = rt_tokenHash u" for v
    using tokens_okD(1) [OF assms(1)] that assms(3) by (metis distinct_map inj_onD)
  ultimately show ?thesis using tokens_okD(2) [OF assms(1,3)] assms(4) by (auto simp: retired_token_def)
qed

section \<open>A concrete counter\<close>

definition plain_crypto :: crypto where
  "plain_crypto = \<lparr>hashSecret = id, argon_hash = id, argon_verify = (\<lambda>h p. Some (h = p)),
     jwt_sign = (\<lambda>sub role type jti. ''jwt.'' @ jti), jwt_decode = (\<lambda>_. \<lparr>cl_sub = ''u1'', cl_role = ''ADMIN'',
       cl_type = ''staff'', cl_jti = ''j1'', cl_iat = 0, cl_exp = 900\<rparr>), jwt_verify = (\<lambda>_. Inl JwtRejected)\<rparr>"

definition plain_auth :: auth_config where
  "plain_auth = \<lparr>REFRESH_TOKEN_TTL_SECONDS = 1209600, ACCESS_TOKEN_TTL_SECONDS = 900, PAIRING_CODE_TTL_SECONDS = 600\<rparr>"

definition ann :: user_row where
  "ann = \<lparr>u_id = ''u1'', u_email = ''ann@cafe.test'', u_passwordHash = ''secret-word'', u_displayName = ''Ann'',
     u_role = ADMIN, u_isActive = True\<rparr>"

definition back_office :: id_world where
  "back_office = \<lparr>users = [ann], refreshTokens = [], devices = [], keyspace = (\<lambda>_. None), channel = []\<rparr>"

definition signed_in :: id_world where
  "signed_in = back_office\<lparr>refreshTokens := [issued_row plain_crypto plain_auth 0 ''first'' ''u1'' ''f1'']\<rparr>"

text \<open>A system at rest, with nothing drawn but what the rows hold.\<close>

definition at_rest :: "id_world \<Rightarrow> id_system" where
  "at_rest s = \<lparr>identity = s, in_flight = [], drawn_hashes = rt_tokenHash ` set (refreshTokens s),
     drawn_families = rt_familyId ` set (refreshTokens s)\<rparr>"

lemma signed_in_run: "identity_run plain_crypto plain_auth (at_rest back_office) (at_rest signed_in)"
proof -
  have "snd (login plain_crypto plain_auth True 0 (''j1'', ''first'') ''f1'' ''ann@cafe.test'' ''secret-word'' back_office) = signed_in"
    by (simp add: login_def assertNotLockedOut_def READ_LOCKOUT_SCRIPT_def redis_live_def MAX_FAILURES_def
        user_by_email_def sql_find_def back_office_def ann_def password_verify_def plain_crypto_def clear_failures_def
        redis_del_def issuePair_eq signed_in_def fun_eq_iff split: prod.splits)
  then obtain r where run: "login plain_crypto plain_auth True 0 (''j1'', ''first'') ''f1'' ''ann@cafe.test'' ''secret-word'' back_office = (r, signed_in)"
    by (metis prod.collapse)
  have "id_step plain_crypto plain_auth (at_rest back_office) (at_rest signed_in)"
    using id_step.login [of "''f1''" "at_rest back_office" plain_crypto "(''j1'', ''first'')" plain_auth True 0
        "''ann@cafe.test''" "''secret-word''" r signed_in] run
    by (simp add: at_rest_def signed_in_def back_office_def)
  then show ?thesis ..
qed

definition rotated_once :: id_world where
  "rotated_once = back_office\<lparr>refreshTokens :=
     [(issued_row plain_crypto plain_auth 0 ''first'' ''u1'' ''f1'')\<lparr>rt_revokedAt := Some 1000\<rparr>,
      issued_row plain_crypto plain_auth 1000 ''second'' ''u1'' ''f1'']\<rparr>"

text \<open>The first exchange of the morning, between its two statements and after them.\<close>

definition first_retired :: refresh_token_row where
  "first_retired = (issued_row plain_crypto plain_auth 0 ''first'' ''u1'' ''f1'')\<lparr>rt_revokedAt := Some 1000\<rparr>"

definition rotating_once :: id_system where
  "rotating_once = (at_rest signed_in)\<lparr>identity := back_office\<lparr>refreshTokens := [first_retired]\<rparr>, in_flight := [Rotation first_retired]\<rparr>"

lemma first_retirement:
  "retire_token 1000 (hashSecret plain_crypto ''first'') signed_in = ([first_retired], identity rotating_once)"
  by (simp add: retire_token_def sql_update_def signed_in_def back_office_def rotating_once_def first_retired_def
      plain_crypto_def issued_row_def)

lemma first_rotation:
  "finish_refresh plain_crypto plain_auth 1000 (''j2'', ''second'') first_retired (identity rotating_once) =
     (Inr \<lparr>tp_accessToken = ''jwt.j2'', tp_refreshToken = ''second'', tp_expiresInSeconds = 900\<rparr>, rotated_once)"
  by (simp add: finish_refresh_def rotating_once_def first_retired_def back_office_def issuePair_eq rotated_once_def
      plain_crypto_def issued_row_def plain_auth_def row_by_def sql_find_def ann_def access_issue_def)

lemma rotated_once_run: "identity_run plain_crypto plain_auth rotating_once (at_rest rotated_once)"
proof -
  have "id_step plain_crypto plain_auth rotating_once (at_rest rotated_once)"
    using id_step.rotate [of rotating_once "[]" first_retired "[]" plain_crypto, OF _ _ first_rotation]
    by (auto simp: rotating_once_def at_rest_def rotated_once_def signed_in_def back_office_def first_retired_def
        plain_crypto_def issued_row_def insert_commute)
  then show ?thesis ..
qed

section \<open>Properties\<close>

text \<open>
  C27. Stolen refresh tokens give themselves away. Logins, refreshes, logouts, account and device
  changes and the housekeeping interleave statement by statement. A family never has more than
  one token that is live or about to be issued. From the moment a token is exchanged, presenting it
  again is never accepted: it is answered as a replay, which leaves no live token in its family, or, once
  the housekeeping has deleted its row, as an invalid token. A replay that is handled while no
  exchange of the family is between its two statements ends the family for good: no later run has a
  live token of it, and every token of it is refused. (With an exchange in flight the token it is
  about to issue survives: \<open>replay_misses_token_in_flight\<close>.)
\<close>

theorem refresh_token_single_use:
  assumes "identity_run c cfg x0 x" "refreshTokens (identity x0) = []" "in_flight x0 = []"
    and "retire_token now (hashSecret c token) (identity x) = (t # ts, s1)"
    and "identity_run c cfg (x\<lparr>identity := s1, in_flight := Rotation t # in_flight x\<rparr>) y"
    and "refresh c cfg gap now' fresh token (identity y) = (r, s3)"
  shows "(\<forall>f. length (live_in f (identity y)) + count_list (rotating (in_flight y)) f \<le> 1) \<and>
    (if hashSecret c token \<in> rt_tokenHash ` set (refreshTokens (identity y))
     then r = Inl RefreshTokenReusedError \<and> live_in (rt_familyId t) s3 = [] \<and>
       (rt_familyId t \<notin> set (rotating (in_flight y)) \<longrightarrow>
         (\<forall>z. identity_run c cfg (y\<lparr>identity := s3\<rparr>) z \<longrightarrow> live_in (rt_familyId t) (identity z) = [] \<and>
           (\<forall>u \<in> set (refreshTokens (identity z)). \<forall>token' gap' now'' fresh'.
             rt_familyId u = rt_familyId t \<longrightarrow> rt_tokenHash u = hashSecret c token' \<longrightarrow>
             fst (refresh c cfg gap' now'' fresh' token' (identity z)) = Inl RefreshTokenReusedError)))
     else r = Inl TokenInvalidError \<and> s3 = identity y)"
proof -
  let ?h = "hashSecret c token" and ?f = "rt_familyId t"
  have ok: "tokens_ok x" by (rule run_tokens_ok [OF assms(1)]) (simp add: assms(2,3) tokens_ok_def live_in_def)
  have step: "id_step c cfg x (x\<lparr>identity := s1, in_flight := Rotation t # in_flight x\<rparr>)"
    by (rule id_step.retire [OF assms(4)])
  have oky: "tokens_ok y" by (rule run_tokens_ok [OF assms(5) token_move_ok [OF id_step_token_move [OF step] ok]])
  have ry: "retired_token ?h ?f y" by (rule retired_stays_retired [OF assms(5) retire_is_final [OF ok assms(4)]])
  note answer = retired_is_refused [OF ry, of cfg gap now' fresh]
  show ?thesis
  proof (cases "?h \<in> rt_tokenHash ` set (refreshTokens (identity y))")
    case False
    then show ?thesis using answer assms(6) tokens_okD(5) [OF oky] by simp
  next
    case True
    then have r: "r = Inl RefreshTokenReusedError" "s3 = revokeFamily now' ?f (identity y)" using answer assms(6) by simp_all
    have live: "live_in ?f s3 = []" by (simp add: r(2) revokeFamily_live)
    have move: "token_move y (y\<lparr>identity := s3\<rparr>)" by (rule settle_revoked) (simp_all add: r(2) revokeFamily_eq)
    have "live_in ?f (identity z) = [] \<and> (\<forall>u \<in> set (refreshTokens (identity z)). \<forall>token' gap' now'' fresh'.
        rt_familyId u = ?f \<longrightarrow> rt_tokenHash u = hashSecret c token' \<longrightarrow>
        fst (refresh c cfg gap' now'' fresh' token' (identity z)) = Inl RefreshTokenReusedError)"
      if "?f \<notin> set (rotating (in_flight y))" "identity_run c cfg (y\<lparr>identity := s3\<rparr>) z" for z
    proof -
      have "?f \<in> drawn_families y" using True ry tokens_okD(3) [OF oky] unfolding retired_token_def by (metis imageE)
      then have "dead_family ?f (y\<lparr>identity := s3\<rparr>)" using live that(1) by (simp add: dead_family_def)
      then have dz: "dead_family ?f z" and okz: "tokens_ok z"
        using dead_stays_dead run_tokens_ok that(2) token_move_ok [OF move oky] by blast+
      have "fst (refresh c cfg gap' now'' fresh' token' (identity z)) = Inl RefreshTokenReusedError"
        if "u \<in> set (refreshTokens (identity z))" "rt_familyId u = ?f" "rt_tokenHash u = hashSecret c token'"
        for u token' gap' now'' fresh'
        using retired_is_refused [of c token' ?f z] dead_is_retired [OF okz dz that(1,2)] that(1,3) by (auto intro: rev_image_eqI)
      then show ?thesis using dz unfolding dead_family_def by blast
    qed
    then show ?thesis using True r(1) live tokens_okD(5) [OF oky] by simp
  qed
qed

theorem refresh_token_single_use_witness:
  "\<exists>s3. refresh plain_crypto plain_auth id 2000 (''j3'', ''third'') ''first'' rotated_once = (Inl RefreshTokenReusedError, s3) \<and>
     live_in ''f1'' s3 = [] \<and>
     fst (refresh plain_crypto plain_auth id 3000 (''j4'', ''fourth'') ''second'' s3) = Inl RefreshTokenReusedError"
proof -
  let ?s3 = "revokeFamily 2000 ''f1'' rotated_once"
  have run: "refresh plain_crypto plain_auth id 2000 (''j3'', ''third'') ''first'' (identity (at_rest rotated_once)) =
      (Inl RefreshTokenReusedError, ?s3)"
    by (simp add: refresh_def retire_token_def sql_update_def at_rest_def rotated_once_def back_office_def
        plain_crypto_def issued_row_def row_by_def sql_find_def revokeFamilyOfReplayedToken_def)
  have "retire_token 1000 (hashSecret plain_crypto ''first'') (identity (at_rest signed_in)) = (first_retired # [], identity rotating_once)"
    by (simp add: at_rest_def first_retirement)
  note use = refresh_token_single_use [OF signed_in_run _ _ this _ run]
  have "(at_rest signed_in)\<lparr>identity := identity rotating_once, in_flight := Rotation first_retired # in_flight (at_rest signed_in)\<rparr> =
      rotating_once"
    by (simp add: rotating_once_def at_rest_def)
  note told = use [unfolded this, OF _ _ rotated_once_run]
  have "rt_familyId first_retired = ''f1''" "''first'' \<in> rt_tokenHash ` set (refreshTokens rotated_once)"
    by (simp_all add: first_retired_def rotated_once_def plain_crypto_def issued_row_def)
  then have "live_in ''f1'' ?s3 = [] \<and> (\<forall>u \<in> set (refreshTokens ?s3). \<forall>token' gap' now'' fresh'.
      rt_familyId u = ''f1'' \<longrightarrow> rt_tokenHash u = hashSecret plain_crypto token' \<longrightarrow>
      fst (refresh plain_crypto plain_auth gap' now'' fresh' token' ?s3) = Inl RefreshTokenReusedError)"
    using told by (force simp: at_rest_def back_office_def plain_crypto_def)
  moreover have "\<exists>u \<in> set (refreshTokens ?s3). rt_familyId u = ''f1'' \<and> rt_tokenHash u = hashSecret plain_crypto ''second''"
    by (simp add: revokeFamily_def sql_update_def rotated_once_def plain_crypto_def)
  ultimately show ?thesis using run by (simp add: at_rest_def) blast
qed

text \<open>
  The proviso is needed: a replay that is handled between the two statements of the refresh it
  races finds no live token to revoke, and the token issued afterwards survives it.
\<close>

lemma replay_misses_token_in_flight:
  defines "thief \<equiv> refresh plain_crypto plain_auth id 1500 (''j9'', ''ninth'') ''first''"
  shows "fst (thief (snd (retire_token 1000 ''first'' signed_in))) = Inl RefreshTokenReusedError"
    and "live_in ''f1'' (snd (refresh plain_crypto plain_auth (snd \<circ> thief) 1000 (''j2'', ''second'') ''first'' signed_in)) \<noteq> []"
  by (simp_all add: thief_def refresh_def finish_refresh_def retire_token_def sql_update_def signed_in_def back_office_def issuePair_eq
      plain_crypto_def issued_row_def plain_auth_def row_by_def sql_find_def ann_def access_issue_def Let_def
      revokeFamilyOfReplayedToken_def revokeFamily_def live_in_def)

subsection \<open>Accounts\<close>

definition admins_ok :: "id_world \<Rightarrow> bool" where
  "admins_ok s \<longleftrightarrow> distinct (map u_id (users s)) \<and> (\<exists>u \<in> set (users s). active_admin u)"

lemma with_changes_id [simp]: "u_id (with_changes ch u) = u_id u"
  by (simp add: with_changes_def)

lemma with_changes_admin:
  "active_admin (with_changes ch u) \<longleftrightarrow>
     (case uu_role ch of None \<Rightarrow> u_role u | Some r \<Rightarrow> r) = ADMIN \<and> (case uu_isActive ch of None \<Rightarrow> u_isActive u | Some a \<Rightarrow> a)"
  by (simp add: with_changes_def active_admin_def)

lemma set_user_users:
  "set_user i ch s = (r, s') \<Longrightarrow> users s' = map (\<lambda>u. if u_id u = i then with_changes ch u else u) (users s)"
  by (auto simp: set_user_def sql_update_def filter_empty_conv split: list.splits intro!: map_idI [symmetric])

lemma set_user_admins:
  assumes "admins_ok s" "set_user i ch s = (r, s')"
    and "\<And>u. u \<in> set (users s) \<Longrightarrow> u_id u = i \<Longrightarrow> active_admin u \<Longrightarrow>
      active_admin (with_changes ch u) \<or> (\<exists>v \<in> set (users s). active_admin v \<and> u_id v \<noteq> i)"
  shows "admins_ok s'"
proof -
  let ?g = "\<lambda>u. if u_id u = i then with_changes ch u else u"
  have eq: "users s' = map ?g (users s)" using set_user_users [OF assms(2)] .
  have "map u_id (users s') = map u_id (users s)" by (auto simp: eq)
  moreover obtain u where u: "u \<in> set (users s)" "active_admin u" using assms(1) by (auto simp: admins_ok_def)
  moreover have "\<exists>v \<in> set (users s). active_admin (?g v)"
  proof (cases "u_id u = i")
    case True
    with assms(3) [OF u(1) True u(2)] u(1) show ?thesis by auto
  next
    case False
    with u show ?thesis by auto
  qed
  ultimately obtain v where ids: "map u_id (users s') = map u_id (users s)" and v: "v \<in> set (users s)" "active_admin (?g v)"
    by blast
  have "?g v \<in> set (users s')" unfolding eq set_map using v(1) by (rule imageI)
  with v(2) have "\<exists>x \<in> set (users s'). active_admin x" by blast
  with ids assms(1) show ?thesis by (simp only: admins_ok_def)
qed

lemma guardLastAdmin_eq:
  "guardLastAdmin i u ch s =
     (if active_admin u \<and> \<not> active_admin (with_changes ch u) \<and> (\<forall>v \<in> set (users s). active_admin v \<longrightarrow> u_id v = i)
      then Inl LastAdminError else Inr ())"
  by (auto simp: guardLastAdmin_def with_changes_admin filter_empty_conv)

lemma last_admin_iff:
  assumes "distinct (map u_id (users s))"
  shows "fst (update_user_work i ch s) = Inl LastAdminError \<longleftrightarrow>
    (\<exists>u \<in> set (users s). u_id u = i \<and> active_admin u \<and> \<not> active_admin (with_changes ch u)) \<and>
    (\<forall>v \<in> set (users s). active_admin v \<longrightarrow> u_id v = i)"
proof (cases "row_by u_id i (users s)")
  case None
  moreover have "i \<notin> u_id ` set (users s)" using None by (simp add: row_by_None)
  ultimately show ?thesis by (auto simp: update_user_work_def)
next
  case (Some u)
  note u = row_by_SomeD [OF Some]
  have only: "(\<exists>v \<in> set (users s). u_id v = i \<and> P v) \<longleftrightarrow> P u" for P
    using assms u by (metis distinct_map inj_onD)
  have "fst (set_user i ch s) \<noteq> Inl LastAdminError"
    by (auto simp: set_user_def split: prod.splits list.splits)
  then have "fst (update_user_work i ch s) = Inl LastAdminError \<longleftrightarrow> guardLastAdmin i u ch s = Inl LastAdminError"
    using Some by (auto simp: update_user_work_def guardLastAdmin_eq)
  then show ?thesis unfolding only guardLastAdmin_eq by simp
qed

lemma account_step_admins:
  assumes "account_step c cfg s s'" "admins_ok s"
  shows "admins_ok s'"
  using assms(1)
proof cases
  case (create newId input r)
  then show ?thesis using assms(2)
    by (auto simp: create_user_def Let_def admins_ok_def sql_insert_Some image_iff split: option.splits)
next
  case (update link now i ch r)
  show ?thesis
  proof (cases "uu_role ch = None \<and> uu_isActive ch = None")
    case True
    then have "active_admin (with_changes ch u) = active_admin u" for u
      by (simp add: with_changes_admin) (simp add: active_admin_def)
    moreover have "set_user i ch s = (r, s')" using update True by (simp add: update_user_def)
    ultimately show ?thesis by (intro set_user_admins [OF assms(2)]) auto
  next
    case False
    then obtain r1 s1 where w: "update_user_work i ch s = (r1, s1)" "users s' = users s1"
      using update by (cases "update_user_work i ch s") (auto simp: update_user_def revokeUser_def split: sum.splits)
    have d: "distinct (map u_id (users s))" using assms(2) by (simp add: admins_ok_def)
    have "admins_ok s1"
    proof (cases "s1 = s")
      case False
      then have set: "set_user i ch s = (r1, s1)" "r1 \<noteq> Inl LastAdminError"
        using w(1) by (auto simp: update_user_work_def set_user_def split: option.splits sum.splits prod.splits list.splits)
      with last_admin_iff [OF d, of i ch] w(1) show ?thesis by (intro set_user_admins [OF assms(2) set(1)]) auto
    qed (use assms(2) in simp)
    with w(2) show ?thesis by (simp add: admins_ok_def)
  qed
qed

lemma id_step_admins: "id_step c cfg x y \<Longrightarrow> admins_ok (identity x) \<Longrightarrow> admins_ok (identity y)"
proof (induction rule: id_step.induct)
  case (login familyId x fresh reachable now email password r s)
  with login_cases(1) [OF login.hyps(3)] show ?case by (simp add: admins_ok_def)
next
  case (retire now token x t ts s)
  then have "users s = users (identity x)" by (elim retire_token_Cons) simp
  with retire show ?case by (simp add: admins_ok_def)
next
  case (rotate x ps t qs fresh now p s)
  with finish_refresh_cases [OF rotate.hyps(3)] have "users s = users (identity x)" by auto
  with rotate show ?case by (simp add: admins_ok_def)
next
  case (replay now token x s1 e s)
  with replayed_revokes [OF replay.hyps(2)] retire_token_Nil [OF replay.hyps(1)] have "users s = users (identity x)" by auto
  with replay show ?case by (simp add: admins_ok_def)
next
  case (logout link now userId tokenId token x u s)
  with logout_cases(1) [OF logout.hyps] show ?case by (simp add: admins_ok_def)
next
  case (account x s)
  then show ?case using account_step_admins by simp
next
  case (device x s)
  with device_step_frame(2) [OF device.hyps] show ?case by (simp add: admins_ok_def)
next
  case (restatus x ps i ch qs d s)
  with set_device_frame(2) [OF restatus.hyps(2)] show ?case by (simp add: admins_ok_def)
qed (simp_all add: admins_ok_def)

lemma run_admins: "identity_run c cfg x y \<Longrightarrow> admins_ok (identity x) \<Longrightarrow> admins_ok (identity y)"
  by (induction rule: rtranclp_induct) (blast intro: id_step_admins)+

text \<open>
  C28. Nobody locks everybody out: with an active administrator to begin with, there is one after
  every run, however the account changes interleave; and a change is refused for this reason
  exactly when it takes the role or the account from the last active administrator.
\<close>

theorem an_admin_remains:
  assumes "identity_run c cfg x y" "distinct (map u_id (users (identity x)))" "\<exists>u \<in> set (users (identity x)). active_admin u"
  shows "(\<exists>u \<in> set (users (identity y)). u_role u = ADMIN \<and> u_isActive u) \<and>
    (fst (update_user cfg link now i ch (identity y)) = Inl LastAdminError \<longleftrightarrow>
      (\<exists>u \<in> set (users (identity y)). u_id u = i \<and> active_admin u \<and> \<not> active_admin (with_changes ch u)) \<and>
      (\<forall>v \<in> set (users (identity y)). active_admin v \<longrightarrow> u_id v = i))"
proof -
  let ?s = "identity y"
  have ok: "admins_ok ?s" using run_admins [OF assms(1)] assms(2,3) by (simp add: admins_ok_def)
  then have d: "distinct (map u_id (users ?s))" by (simp add: admins_ok_def)
  have "fst (update_user cfg link now i ch ?s) = Inl LastAdminError \<longleftrightarrow> fst (update_user_work i ch ?s) = Inl LastAdminError"
  proof (cases "uu_role ch = None \<and> uu_isActive ch = None")
    case True
    then have "active_admin (with_changes ch u) = active_admin u" for u
      by (simp add: with_changes_admin) (simp add: active_admin_def)
    then have "fst (update_user_work i ch ?s) \<noteq> Inl LastAdminError" using last_admin_iff [OF d, of i ch] by auto
    moreover have "fst (set_user i ch ?s) \<noteq> Inl LastAdminError" by (auto simp: set_user_def split: prod.splits list.splits)
    ultimately show ?thesis using True by (simp add: update_user_def)
  next
    case False
    then show ?thesis by (auto simp: update_user_def split: prod.splits sum.splits)
  qed
  with last_admin_iff [OF d, of i ch] ok show ?thesis by (simp add: admins_ok_def active_admin_def)
qed

theorem an_admin_remains_witness:
  "fst (update_user plain_auth (\<lambda>_. 2) 0 ''u1'' \<lparr>uu_displayName = None, uu_role = Some CASHIER, uu_isActive = None\<rparr> signed_in) =
     Inl LastAdminError"
  using an_admin_remains [OF signed_in_run, of "\<lambda>_. 2" 0 "''u1''"
      "\<lparr>uu_displayName = None, uu_role = Some CASHIER, uu_isActive = None\<rparr>"]
  by (simp add: at_rest_def back_office_def signed_in_def ann_def active_admin_def with_changes_def)

subsection \<open>Devices\<close>

text \<open>
  The credential of a tablet: a pending one has none, a token belongs to one device, a token once
  given stays, and no tablet goes back to pending.
\<close>

definition devices_ok :: "id_world \<Rightarrow> bool" where
  "devices_ok s \<longleftrightarrow> distinct (map kd_id (devices s)) \<and>
     (\<forall>d \<in> set (devices s). kd_status d = DEV_PENDING \<longrightarrow> kd_tokenHash d = None) \<and>
     (\<forall>d \<in> set (devices s). \<forall>d' \<in> set (devices s).
        kd_tokenHash d \<noteq> None \<longrightarrow> kd_tokenHash d = kd_tokenHash d' \<longrightarrow> kd_id d = kd_id d')"

definition device_kept :: "device_row \<Rightarrow> device_row \<Rightarrow> bool" where
  "device_kept d d' \<longleftrightarrow> kd_id d' = kd_id d \<and> (kd_tokenHash d \<noteq> None \<longrightarrow> kd_tokenHash d' = kd_tokenHash d) \<and>
     (kd_status d \<noteq> DEV_PENDING \<longrightarrow> kd_status d' \<noteq> DEV_PENDING)"

definition devices_kept :: "id_world \<Rightarrow> id_world \<Rightarrow> bool" where
  "devices_kept s s' \<longleftrightarrow> (\<forall>d \<in> set (devices s). \<exists>d' \<in> set (devices s'). device_kept d d')"

lemma device_kept_refl [simp]: "device_kept d d"
  by (simp add: device_kept_def)

lemma devices_kept_refl [simp]: "devices_kept s s"
  unfolding devices_kept_def using device_kept_refl by blast

lemma devices_kept_trans: "devices_kept s s1 \<Longrightarrow> devices_kept s1 s2 \<Longrightarrow> devices_kept s s2"
  unfolding devices_kept_def device_kept_def by metis

text \<open>A tablet whose status a request in flight is about to write has been paired.\<close>

definition pairings_ok :: "id_system \<Rightarrow> bool" where
  "pairings_ok x \<longleftrightarrow> devices_ok (identity x) \<and>
     (\<forall>i \<in> set (restatusing (in_flight x)). \<forall>d \<in> set (devices (identity x)). kd_id d = i \<longrightarrow> kd_status d \<noteq> DEV_PENDING) \<and>
     set (restatusing (in_flight x)) \<subseteq> kd_id ` set (devices (identity x))"

text \<open>A change of single rows that keeps identity and token.\<close>

lemma rewritten_devices:
  assumes "devices_ok s" "devices s' = map g (devices s)"
    and "\<And>d. d \<in> set (devices s) \<Longrightarrow> device_kept d (g d) \<and> kd_tokenHash (g d) = kd_tokenHash d \<and> (kd_status (g d) = DEV_PENDING \<longrightarrow> kd_status d = DEV_PENDING)"
  shows "devices_ok s' \<and> devices_kept s s'"
proof -
  have ids: "map kd_id (devices s') = map kd_id (devices s)" using assms(2,3) by (auto simp: device_kept_def)
  have same: "kd_id (g d) = kd_id d" "kd_tokenHash (g d) = kd_tokenHash d" "kd_status (g d) = DEV_PENDING \<longrightarrow> kd_status d = DEV_PENDING"
    if "d \<in> set (devices s)" for d
    using assms(3) [OF that] unfolding device_kept_def by blast+
  have "devices_ok s'"
    unfolding devices_ok_def ids unfolding assms(2) set_map ball_simps
  proof (intro conjI ballI impI)
    show "distinct (map kd_id (devices s))" using assms(1) by (simp add: devices_ok_def)
  next
    fix d
    assume d: "d \<in> set (devices s)" "kd_status (g d) = DEV_PENDING"
    then have "kd_tokenHash d = None" using assms(1) same(3) by (simp add: devices_ok_def)
    with same(2) [OF d(1)] show "kd_tokenHash (g d) = None" by simp
  next
    fix d d'
    assume "d \<in> set (devices s)" "d' \<in> set (devices s)" "kd_tokenHash (g d) \<noteq> None" "kd_tokenHash (g d) = kd_tokenHash (g d')"
    with assms(1) show "kd_id (g d) = kd_id (g d')" unfolding devices_ok_def by (metis same(1,2))
  qed
  moreover have "devices_kept s s'" using assms(2,3) by (auto simp: devices_kept_def)
  ultimately show ?thesis ..
qed

lemma activate_Inr:
  assumes "devices_ok s" "activate c now token code s = (Inr r, s')"
  obtains d where "d \<in> set (devices s)" "pairable (hashSecret c code) now d" "r = (kd_id d, kd_name d, token)"
    "filter (pairable (hashSecret c code) now) (devices s) = [d]"
    "\<forall>x \<in> set (devices s). kd_tokenHash x \<noteq> Some (hashSecret c token)"
    "devices s' = map (\<lambda>x. if x = d then paired (hashSecret c token) x else x) (devices s)"
proof -
  let ?p = "pairable (hashSecret c code) now" and ?g = "paired (hashSecret c token)"
  obtain d where d: "filter ?p (devices s) = [d]" "r = (kd_id d, kd_name d, token)"
    "\<forall>x \<in> set (devices s). kd_tokenHash x \<noteq> Some (hashSecret c token)"
    "devices s' = map (\<lambda>x. if ?p x then ?g x else x) (devices s)"
  proof (cases "filter ?p (devices s)")
    case Nil
    with assms(2) show ?thesis by (simp add: activate_def Let_def sql_update_def)
  next
    case (Cons d ds)
    with assms(2) have "ds = [] \<and> \<not> list_ex (\<lambda>x. kd_tokenHash x = Some (hashSecret c token)) (devices s) \<and>
        r = (kd_id d, kd_name d, token) \<and> s' = s\<lparr>devices := map (\<lambda>x. if ?p x then ?g x else x) (devices s)\<rparr>"
      by (simp add: activate_def Let_def sql_update_def paired_def split: if_splits)
    with Cons show ?thesis by (intro that [of d]) (auto simp: list_ex_iff)
  qed
  have "set (filter ?p (devices s)) = {d}" by (simp add: d(1))
  then have "d \<in> set (devices s)" "?p d" "\<And>x. x \<in> set (devices s) \<Longrightarrow> ?p x \<longleftrightarrow> x = d" by auto
  with d show ?thesis by (intro that) (auto intro: map_cong)
qed

lemma same_devices: "devices s' = devices s \<Longrightarrow> devices_ok s \<Longrightarrow> devices_ok s' \<and> devices_kept s s'"
  by (auto simp: devices_ok_def devices_kept_def intro: device_kept_refl)

lemma paired_device:
  assumes "devices_ok s" "d \<in> set (devices s)" "kd_status d = DEV_PENDING"
    and "\<forall>e \<in> set (devices s). kd_tokenHash e \<noteq> Some h"
    and "devices s' = map (\<lambda>e. if e = d then paired h e else e) (devices s)"
  shows "devices_ok s' \<and> devices_kept s s'"
proof -
  let ?g = "\<lambda>e. if e = d then paired h e else e"
  have none: "kd_tokenHash d = None" using assms(1-3) by (simp add: devices_ok_def)
  have ids: "map kd_id (devices s') = map kd_id (devices s)" by (simp add: assms(5) paired_def)
  have rows: "set (devices s') = insert (paired h d) (set (devices s) - {d})"
    using assms(2) by (auto simp: assms(5))
  have "devices_ok s'"
    using assms(1,4) unfolding devices_ok_def ids rows by (auto simp: paired_def)
  moreover have "device_kept e (?g e)" for e using none assms(3) by (simp add: device_kept_def paired_def)
  then have "devices_kept s s'" unfolding devices_kept_def assms(5) set_map by blast
  ultimately show ?thesis ..
qed

lemma registered_device:
  assumes "devices_ok s" "devices s' = devices s @ [d]" "kd_id d \<notin> kd_id ` set (devices s)" "kd_tokenHash d = None"
  shows "devices_ok s' \<and> devices_kept s s'"
proof -
  have rows: "e \<in> set (devices s') \<longleftrightarrow> e \<in> set (devices s) \<or> e = d" for e by (auto simp: assms(2))
  have "distinct (map kd_id (devices s'))" using assms(1-3) by (simp only: devices_ok_def) simp
  then have "devices_ok s'" using assms(1,4) unfolding devices_ok_def Ball_def rows by metis
  moreover have "devices_kept s s'" unfolding devices_kept_def assms(2) set_append using device_kept_refl by blast
  ultimately show ?thesis ..
qed

text \<open>
  All that a step does to the tablets: it rewrites rows, keeping identity and token and never back to
  pending, and takes a tablet out of revocation only when a request in flight writes its status; it
  registers a tablet; it pairs a pending one; or a change of status passes its check.
\<close>

inductive device_move :: "id_system \<Rightarrow> id_system \<Rightarrow> bool" where
  rewrite: "devices (identity y) = map g (devices (identity x)) \<Longrightarrow>
    (\<And>d. d \<in> set (devices (identity x)) \<Longrightarrow> kd_id (g d) = kd_id d \<and> kd_tokenHash (g d) = kd_tokenHash d \<and>
      (kd_status (g d) = DEV_PENDING \<longrightarrow> kd_status d = DEV_PENDING) \<and>
      (kd_status d = DEV_REVOKED \<longrightarrow> kd_id d \<notin> set (restatusing (in_flight x)) \<longrightarrow> kd_status (g d) = DEV_REVOKED)) \<Longrightarrow>
    set (restatusing (in_flight y)) \<subseteq> set (restatusing (in_flight x)) \<Longrightarrow> device_move x y"
| register: "devices (identity y) = devices (identity x) @ [d] \<Longrightarrow> kd_id d \<notin> kd_id ` set (devices (identity x)) \<Longrightarrow>
    kd_tokenHash d = None \<Longrightarrow> in_flight y = in_flight x \<Longrightarrow> device_move x y"
| pair: "d \<in> set (devices (identity x)) \<Longrightarrow> kd_status d = DEV_PENDING \<Longrightarrow>
    (\<forall>e \<in> set (devices (identity x)). kd_tokenHash e \<noteq> Some h) \<Longrightarrow>
    devices (identity y) = map (\<lambda>e. if e = d then paired h e else e) (devices (identity x)) \<Longrightarrow>
    in_flight y = in_flight x \<Longrightarrow> device_move x y"
| checked: "devices (identity y) = devices (identity x) \<Longrightarrow> d \<in> set (devices (identity x)) \<Longrightarrow>
    kd_status d \<noteq> DEV_PENDING \<Longrightarrow> kd_status d \<noteq> DEV_REVOKED \<Longrightarrow>
    set (restatusing (in_flight y)) = insert (kd_id d) (set (restatusing (in_flight x))) \<Longrightarrow> device_move x y"

lemma rewrite_same:
  "devices (identity y) = devices (identity x) \<Longrightarrow> set (restatusing (in_flight y)) \<subseteq> set (restatusing (in_flight x)) \<Longrightarrow>
     device_move x y"
  by (rule device_move.rewrite [where g = "\<lambda>d. d"]) simp_all

lemma rewrite_where:
  assumes "devices s = map (\<lambda>d. if P d then h d else d) (devices (identity x))"
    and "\<And>d. kd_id (h d) = kd_id d \<and> kd_tokenHash (h d) = kd_tokenHash d \<and> (kd_status (h d) = kd_status d \<or> kd_status (h d) = DEV_REVOKED)"
  shows "device_move x (x\<lparr>identity := s\<rparr>)"
proof (rule device_move.rewrite [where g = "\<lambda>d. if P d then h d else d"])
  fix d
  show "kd_id (if P d then h d else d) = kd_id d \<and> kd_tokenHash (if P d then h d else d) = kd_tokenHash d \<and>
      (kd_status (if P d then h d else d) = DEV_PENDING \<longrightarrow> kd_status d = DEV_PENDING) \<and>
      (kd_status d = DEV_REVOKED \<longrightarrow> kd_id d \<notin> set (restatusing (in_flight x)) \<longrightarrow>
        kd_status (if P d then h d else d) = DEV_REVOKED)"
    using assms(2) [of d] by auto
qed (use assms(1) in simp_all)

lemma one_device: "devices_ok s \<Longrightarrow> d \<in> set (devices s) \<Longrightarrow> e \<in> set (devices s) \<Longrightarrow> kd_id d = kd_id e \<Longrightarrow> d = e"
  unfolding devices_ok_def by (metis distinct_map inj_onD)

lemma device_step_move:
  assumes "device_step c cfg (identity x) s" "devices_ok (identity x)"
  shows "device_move x (x\<lparr>identity := s\<rparr>)"
  using assms(1)
proof cases
  case (create now newId code name who dr)
  then have "s = identity x \<or> (\<exists>d. devices s = devices (identity x) @ [d] \<and> kd_id d \<notin> kd_id ` set (devices (identity x)) \<and> kd_tokenHash d = None)"
    by (fastforce simp: create_device_def Let_def sql_insert_Some split: option.splits)
  then show ?thesis
    by (elim disjE exE conjE) (simp add: rewrite_same, rule device_move.register, simp_all)
next
  case (activate now token code tr)
  show ?thesis
  proof (cases tr)
    case (Inl e)
    then have "s = identity x" using activate by (auto simp: activate_def Let_def split: prod.splits list.splits if_splits)
    then show ?thesis by (simp add: rewrite_same)
  next
    case (Inr r)
    obtain d where "d \<in> set (devices (identity x))" "pairable (hashSecret c code) now d"
      "\<forall>e \<in> set (devices (identity x)). kd_tokenHash e \<noteq> Some (hashSecret c token)"
      "devices s = map (\<lambda>e. if e = d then paired (hashSecret c token) e else e) (devices (identity x))"
      using activate Inr by (auto elim: activate_Inr [OF assms(2)])
    then show ?thesis by (intro device_move.pair [of d _ "hashSecret c token"]) (simp_all add: pairable_def)
  qed
next
  case (revoke link i ur)
  then have "devices s = map (\<lambda>d. if kd_id d = i then d\<lparr>kd_status := DEV_REVOKED\<rparr> else d) (devices (identity x))"
    by (auto simp: revoke_device_def sql_update_def filter_empty_conv split: list.splits intro!: map_idI [symmetric])
  then show ?thesis by (rule rewrite_where) simp
next
  case (resolve now token er)
  then have "devices s = devices (identity x) \<or>
      (\<exists>i. devices s = map (\<lambda>d. if kd_id d = i then d\<lparr>kd_lastSeenAt := Some now\<rparr> else d) (devices (identity x)))"
    by (auto simp: resolve_device_def touchLastSeen_def sql_update_def split: option.splits if_splits)
  then show ?thesis by (elim disjE exE) (rule rewrite_same, simp, simp, erule rewrite_where, simp)
next
  case (seen now ids)
  then have "devices s = devices (identity x) \<or>
      devices s = map (\<lambda>d. if List.member ids (kd_id d) then d\<lparr>kd_lastSeenAt := Some now\<rparr> else d) (devices (identity x))"
    by (auto simp: markSeen_def sql_update_def)
  then show ?thesis by (elim disjE) (rule rewrite_same, simp, simp, erule rewrite_where, simp)
qed

lemma id_step_device_move:
  assumes "id_step c cfg x y" "pairings_ok x"
  shows "device_move x y"
  using assms(1)
proof cases
  case (login familyId fresh reachable now email password r s)
  then show ?thesis using login_cases(2) [OF login(4)] by (intro rewrite_same) simp_all
next
  case (retire now token t ts s)
  then have "devices s = devices (identity x)" by (elim retire_token_Cons) simp
  then show ?thesis using retire(1) by (intro rewrite_same) simp_all
next
  case (rotate ps t qs fresh now p s)
  then have "devices s = devices (identity x)" using finish_refresh_cases [OF rotate(4)] by auto
  then show ?thesis using rotate(1,2) by (intro rewrite_same) simp_all
next
  case (replay now token s1 e s)
  then have "devices s = devices (identity x)"
    using replayed_revokes [OF replay(3)] retire_token_Nil [OF replay(2)] by auto
  then show ?thesis using replay(1) by (intro rewrite_same) simp_all
next
  case (logout link now userId tokenId token u s)
  then show ?thesis using logout_cases(2) [OF logout(2)] by (intro rewrite_same) simp_all
next
  case (forget keep)
  then show ?thesis by (intro rewrite_same) simp_all
next
  case (account s)
  then show ?thesis using account_step_frame(2) by (intro rewrite_same) auto
next
  case (device s)
  then show ?thesis using device_step_move assms(2) by (simp add: pairings_ok_def)
next
  case (check i ch)
  show ?thesis
  proof (cases "ud_paused ch = None")
    case True
    then show ?thesis using check(1) by (intro rewrite_same) simp_all
  next
    case False
    then obtain d where d: "row_by kd_id i (devices (identity x)) = Some d" "kd_status d = DEV_ACTIVE \<or> kd_status d = DEV_PAUSED"
      using check(2) by (auto simp: check_restatus_def throw_if_def split: option.splits if_splits)
    from row_by_SomeD [OF d(1)] show ?thesis using False check(1) d(2) by (intro device_move.checked [of _ _ d]) auto
  qed
next
  case (restatus ps i ch qs r s)
  show ?thesis
  proof (rule device_move.rewrite)
    show "devices (identity y) = map (\<lambda>d. if kd_id d = i then changed_device ch d else d) (devices (identity x))"
      using set_device_frame(3) [OF restatus(3)] restatus(1) by simp
    show "set (restatusing (in_flight y)) \<subseteq> set (restatusing (in_flight x))" using restatus(1,2) by auto
  qed (use restatus(2) in \<open>auto simp: changed_device_def split: option.splits\<close>)
next
  case (crash ps q qs)
  then show ?thesis by (cases q) (intro rewrite_same, auto)+
qed

lemma device_move_ok:
  assumes "device_move x y" "pairings_ok x"
  shows "pairings_ok y \<and> devices_kept (identity x) (identity y)"
proof -
  have ok: "devices_ok (identity x)" using assms(2) by (simp add: pairings_ok_def)
  have frame: "pairings_ok y \<and> devices_kept (identity x) (identity y)"
    if moved: "devices_ok (identity y)" "devices_kept (identity x) (identity y)"
      "set (restatusing (in_flight y)) \<subseteq> set (restatusing (in_flight x))"
  proof -
    have "\<exists>e \<in> set (devices (identity y)). kd_id e = i \<and> kd_status e \<noteq> DEV_PENDING"
      if i: "i \<in> set (restatusing (in_flight y))" for i
    proof -
      obtain d where d: "d \<in> set (devices (identity x))" "kd_id d = i" "kd_status d \<noteq> DEV_PENDING"
        using assms(2) i moved(3) unfolding pairings_ok_def by blast
      then show ?thesis using moved(2) unfolding devices_kept_def device_kept_def by metis
    qed
    then have settled: "\<forall>i \<in> set (restatusing (in_flight y)). \<exists>e \<in> set (devices (identity y)). kd_id e = i \<and> kd_status e \<noteq> DEV_PENDING"
      by blast
    then have "\<forall>i \<in> set (restatusing (in_flight y)). \<forall>d \<in> set (devices (identity y)). kd_id d = i \<longrightarrow> kd_status d \<noteq> DEV_PENDING"
      using one_device [OF moved(1)] by metis
    moreover have "set (restatusing (in_flight y)) \<subseteq> kd_id ` set (devices (identity y))" using settled by fastforce
    ultimately show ?thesis using moved(1,2) unfolding pairings_ok_def by simp
  qed
  show ?thesis
    using assms(1)
  proof cases
    case (rewrite g)
    have "devices_ok (identity y) \<and> devices_kept (identity x) (identity y)"
      by (rule rewritten_devices [OF ok rewrite(1)]) (use rewrite(2) in \<open>auto simp: device_kept_def\<close>)
    then show ?thesis using frame rewrite(3) by blast
  next
    case (register d)
    have "devices_ok (identity y) \<and> devices_kept (identity x) (identity y)"
      by (rule registered_device [OF ok register(1-3)])
    then show ?thesis using frame register(4) by simp
  next
    case (pair d h)
    have "devices_ok (identity y) \<and> devices_kept (identity x) (identity y)"
      by (rule paired_device [OF ok pair(1-4)])
    then show ?thesis using frame pair(5) by simp
  next
    case (checked d)
    have "devices_ok (identity y)" "devices_kept (identity x) (identity y)" using same_devices [OF checked(1) ok] by blast+
    moreover have "pairings_ok y"
      using assms(2) checked one_device [OF ok _ checked(2)] \<open>devices_ok (identity y)\<close> unfolding pairings_ok_def by auto
    ultimately show ?thesis by blast
  qed
qed

lemma run_devices:
  "identity_run c cfg x y \<Longrightarrow> pairings_ok x \<Longrightarrow> pairings_ok y \<and> devices_kept (identity x) (identity y)"
proof (induction rule: rtranclp_induct)
  case (step y z)
  then show ?case using device_move_ok [OF id_step_device_move] devices_kept_trans by blast
qed simp

text \<open>A revoked tablet stays revoked unless a change of its status was already in flight.\<close>

definition retired_device :: "string \<Rightarrow> id_system \<Rightarrow> bool" where
  "retired_device i x \<longleftrightarrow> i \<notin> set (restatusing (in_flight x)) \<and> i \<in> kd_id ` set (devices (identity x)) \<and>
     (\<forall>d \<in> set (devices (identity x)). kd_id d = i \<longrightarrow> kd_status d = DEV_REVOKED)"

lemma device_move_retired:
  assumes "device_move x y" "retired_device i x"
  shows "retired_device i y"
  using assms(1)
proof cases
  case (rewrite g)
  have "kd_status (g d) = DEV_REVOKED" if "d \<in> set (devices (identity x))" "kd_id (g d) = i" for d
    using rewrite(2) [OF that(1)] that assms(2) by (simp add: retired_device_def)
  moreover have "i \<in> kd_id ` set (devices (identity y))"
  proof -
    obtain d where d: "d \<in> set (devices (identity x))" "kd_id d = i" using assms(2) by (auto simp: retired_device_def)
    then have "g d \<in> set (devices (identity y))" "kd_id (g d) = i" using rewrite(1,2) by simp_all
    then show ?thesis by blast
  qed
  ultimately show ?thesis using assms(2) rewrite(1,3) by (auto simp: retired_device_def)
next
  case (register d)
  then show ?thesis using assms(2) by (auto simp: retired_device_def)
next
  case (pair d h)
  then have "kd_id d \<noteq> i" using assms(2) by (auto simp: retired_device_def)
  then show ?thesis using assms(2) pair(4,5) by (fastforce simp: retired_device_def paired_def)
next
  case (checked d)
  then show ?thesis using assms(2) by (auto simp: retired_device_def)
qed

lemma retired_device_stays:
  "identity_run c cfg x y \<Longrightarrow> pairings_ok x \<Longrightarrow> retired_device i x \<Longrightarrow> retired_device i y"
proof (induction rule: rtranclp_induct)
  case (step y z)
  then have "pairings_ok y" using run_devices by blast
  then show ?case using device_move_retired [OF id_step_device_move] step by blast
qed simp

lemma resolve_by_token:
  assumes "devices_ok s" "d \<in> set (devices s)" "kd_tokenHash d = Some (hashSecret c token)"
  shows "fst (resolve_device c now token s) =
    (if kd_status d = DEV_REVOKED then Inl DeviceRevokedError else Inr (DeviceSession (kd_id d)))"
proof -
  obtain x where x: "sql_find (\<lambda>d. kd_tokenHash d = Some (hashSecret c token)) (devices s) = Some x"
    using assms(2,3) sql_find_None [of "\<lambda>d. kd_tokenHash d = Some (hashSecret c token)" "devices s"] by fastforce
  note found = sql_find_SomeD [OF x]
  have "kd_id x = kd_id d" using assms found unfolding devices_ok_def by (metis option.distinct(1))
  then have "x = d" using assms(1,2) found(2) unfolding devices_ok_def by (metis distinct_map inj_onD)
  with x show ?thesis by (simp add: resolve_device_def)
qed

definition holds_token :: "string \<Rightarrow> string \<Rightarrow> id_world \<Rightarrow> bool" where
  "holds_token h i s \<longleftrightarrow> (\<exists>d \<in> set (devices s). kd_id d = i \<and> kd_tokenHash d = Some h)"

lemma holds_token_kept: "devices_kept s s' \<Longrightarrow> holds_token h i s \<Longrightarrow> holds_token h i s'"
  unfolding devices_kept_def device_kept_def holds_token_def by (metis option.distinct(1))

lemma revoked_is_retired:
  assumes "revoke_device link i s = (Inr (), s3)" "i \<notin> set (restatusing (in_flight x))"
  shows "retired_device i (x\<lparr>identity := s3\<rparr>)"
proof -
  have eq: "devices s3 = map (\<lambda>d. if kd_id d = i then d\<lparr>kd_status := DEV_REVOKED\<rparr> else d) (devices s)"
    and some: "filter (\<lambda>d. kd_id d = i) (devices s) \<noteq> []"
    using assms(1) by (auto simp: revoke_device_def sql_update_def split: list.splits)
  from some obtain d where "d \<in> set (devices s)" "kd_id d = i" by (auto simp: filter_empty_conv)
  then have "d\<lparr>kd_status := DEV_REVOKED\<rparr> \<in> set (devices s3)" "kd_id (d\<lparr>kd_status := DEV_REVOKED\<rparr>) = i"
    unfolding eq by (auto intro: image_eqI [of _ _ d])
  then have "i \<in> kd_id ` set (devices s3)" by blast
  moreover have "\<forall>e \<in> set (devices s3). kd_id e = i \<longrightarrow> kd_status e = DEV_REVOKED"
    unfolding eq set_map by (intro ballI impI, erule imageE) (simp split: if_splits)
  ultimately show ?thesis using assms(2) by (simp add: retired_device_def)
qed

lemma code_spent:
  assumes "devices_ok s" "activate c now token code s = (Inr r, s1)" "now \<le> now'"
  shows "\<exists>e. fst (activate c now' token' code s1) = Inl e"
proof -
  let ?p = "pairable (hashSecret c code)"
  obtain d where d: "filter (?p now) (devices s) = [d]"
    "devices s1 = map (\<lambda>x. if x = d then paired (hashSecret c token) x else x) (devices s)"
    by (rule activate_Inr [OF assms(1,2)])
  have "\<not> ?p now' x" if "x \<in> set (devices s)" "x \<noteq> d" for x
  proof -
    have "x \<notin> set (filter (?p now) (devices s))" using that(2) by (simp add: d(1))
    with that(1) have "\<not> ?p now x" by simp
    with assms(3) show ?thesis by (auto simp: pairable_def split: option.splits)
  qed
  then have "filter (?p now') (devices s1) = []"
    unfolding d(2) by (auto simp: filter_empty_conv paired_def pairable_def)
  then show ?thesis by (simp add: activate_def Let_def sql_update_def)
qed

text \<open>A tablet that is no longer pending is never paired again.\<close>

definition past_pairing :: "string \<Rightarrow> id_world \<Rightarrow> bool" where
  "past_pairing i s \<longleftrightarrow> (\<exists>d \<in> set (devices s). kd_id d = i \<and> kd_status d \<noteq> DEV_PENDING)"

lemma past_pairing_kept: "devices_kept s s' \<Longrightarrow> past_pairing i s \<Longrightarrow> past_pairing i s'"
  unfolding devices_kept_def device_kept_def past_pairing_def by metis

lemma not_paired_again:
  assumes "devices_ok s" "past_pairing i s"
  shows "fst (activate c now token code s) \<noteq> Inr (i, r)"
proof
  assume "fst (activate c now token code s) = Inr (i, r)"
  then have run: "activate c now token code s = (Inr (i, r), snd (activate c now token code s))" by (metis prod.collapse)
  obtain d where "d \<in> set (devices s)" "pairable (hashSecret c code) now d" "(i, r) = (kd_id d, kd_name d, token)"
    by (rule activate_Inr [OF assms(1) run])
  then show False using assms one_device [OF assms(1)] by (auto simp: past_pairing_def pairable_def)
qed

text \<open>
  C29. A tablet's credential is bound to its device and dies with it. The device table starts empty,
  and all requests interleave statement by statement. A pairing code is exchanged for a token only
  while its device is pending and the code has not expired; right after, the same code is refused,
  and no code pairs that device again, whatever runs. From then on the token signs in as that device
  or is refused because it is revoked. A revocation at a moment when no change of that device's
  status is between its check and its write is final: the token is refused for good, also when the
  announcement to open sockets could not be sent. (A change of status in flight undoes it:
  \<open>resume_undoes_revocation\<close>.)
\<close>

theorem device_credentials:
  assumes "identity_run c cfg x0 x" "devices (identity x0) = []" "in_flight x0 = []"
    and "activate c now token code (identity x) = (Inr (i, name, given), s1)"
    and "identity_run c cfg (x\<lparr>identity := s1\<rparr>) y"
    and "revoke_device link i (identity y) = (Inr (), s3)" "identity_run c cfg (y\<lparr>identity := s3\<rparr>) z"
  shows "given = token \<and> (\<exists>d \<in> set (devices (identity x)). kd_id d = i \<and> pairable (hashSecret c code) now d) \<and>
    (\<forall>now' \<ge> now. \<forall>token'. \<exists>e. fst (activate c now' token' code s1) = Inl e) \<and>
    (\<forall>now'. fst (resolve_device c now' token s1) = Inr (DeviceSession i)) \<and>
    (\<forall>w \<in> {identity y, identity z}. \<forall>now'.
      fst (resolve_device c now' token w) \<in> {Inr (DeviceSession i), Inl DeviceRevokedError} \<and>
      (\<forall>token' code' r. fst (activate c now' token' code' w) \<noteq> Inr (i, r))) \<and>
    (i \<notin> set (restatusing (in_flight y)) \<longrightarrow> (\<forall>now'. fst (resolve_device c now' token (identity z)) = Inl DeviceRevokedError))"
proof -
  let ?h = "hashSecret c token"
  have "pairings_ok x0" by (simp add: pairings_ok_def devices_ok_def assms(2,3))
  then have okx: "pairings_ok x" using run_devices [OF assms(1)] by blast
  then have ok: "devices_ok (identity x)" by (simp add: pairings_ok_def)
  obtain d where d: "d \<in> set (devices (identity x))" "pairable (hashSecret c code) now d" "(i, name, given) = (kd_id d, kd_name d, token)"
    "devices s1 = map (\<lambda>e. if e = d then paired ?h e else e) (devices (identity x))"
    by (rule activate_Inr [OF ok assms(4)])
  have ok1: "pairings_ok (x\<lparr>identity := s1\<rparr>)"
    using device_move_ok [OF id_step_device_move [OF id_step.device [OF device_step.activate [OF assms(4)]] okx] okx] by blast
  then have ds1: "devices_ok s1" by (simp add: pairings_ok_def)
  have new: "paired ?h d \<in> set (devices s1)" using d(1) by (auto simp: d(4))
  have s1: "fst (resolve_device c now' token s1) = Inr (DeviceSession i)" for now'
    using resolve_by_token [OF ds1 new, of c token now'] d(3) by (simp add: paired_def)
  have h1: "holds_token ?h i s1" "past_pairing i s1"
    using new d(3) by (auto simp: holds_token_def past_pairing_def paired_def intro!: bexI [of _ "paired ?h d"])
  have oky: "pairings_ok y" "devices_kept s1 (identity y)" using run_devices [OF assms(5) ok1] by simp_all
  have ok3: "pairings_ok (y\<lparr>identity := s3\<rparr>)" "devices_kept (identity y) s3"
    using device_move_ok [OF id_step_device_move [OF id_step.device [OF device_step.revoke [OF assms(6)]] oky(1)] oky(1)] by simp_all
  have okz: "pairings_ok z" "devices_kept s3 (identity z)" using run_devices [OF assms(7) ok3(1)] by simp_all
  have holds: "devices_ok w \<and> holds_token ?h i w \<and> past_pairing i w" if "w \<in> {identity y, identity z}" for w
  proof -
    have "devices_ok w" using that oky(1) okz(1) unfolding pairings_ok_def by blast
    moreover have "devices_kept s1 (identity z)" using devices_kept_trans oky(2) ok3(2) okz(2) by blast
    then have "devices_kept s1 w" using that oky(2) by blast
    ultimately show ?thesis using h1 holds_token_kept past_pairing_kept by blast
  qed
  have signs: "fst (resolve_device c now' token w) \<in> {Inr (DeviceSession i), Inl DeviceRevokedError}"
    if w: "w \<in> {identity y, identity z}" for w now'
  proof -
    obtain e where "e \<in> set (devices w)" "kd_id e = i" "kd_tokenHash e = Some ?h"
      using holds [OF w] unfolding holds_token_def by blast
    then show ?thesis using resolve_by_token [of w e c token now'] holds [OF w] by simp
  qed
  have once: "fst (activate c now' token' code' w) \<noteq> Inr (i, r)" if "w \<in> {identity y, identity z}" for w now' token' code' r
    using holds [OF that] not_paired_again by blast
  have "fst (resolve_device c now' token (identity z)) = Inl DeviceRevokedError"
    if "i \<notin> set (restatusing (in_flight y))" for now'
  proof -
    have hz: "devices_ok (identity z)" "holds_token ?h i (identity z)" using holds by blast+
    have "retired_device i z" using retired_device_stays [OF assms(7) ok3(1)] revoked_is_retired [OF assms(6) that] by blast
    moreover obtain e where "e \<in> set (devices (identity z))" "kd_id e = i" "kd_tokenHash e = Some ?h"
      using hz(2) unfolding holds_token_def by blast
    ultimately show ?thesis using resolve_by_token [OF hz(1), of e] by (simp add: retired_device_def)
  qed
  note final = this
  have code: "\<forall>now' \<ge> now. \<forall>token'. \<exists>e. fst (activate c now' token' code s1) = Inl e"
    using code_spent [OF ok assms(4)] by blast
  have first: "given = token" "\<exists>d \<in> set (devices (identity x)). kd_id d = i \<and> pairable (hashSecret c code) now d"
    using d(1-3) by auto
  show ?thesis by (intro conjI ballI allI impI first code s1 signs once final) (use first code in blast)+
qed

definition with_tablet :: id_world where
  "with_tablet = snd (create_device plain_crypto plain_auth 0 ''d1'' ''ABCD2345'' ''Window'' ''u1'' back_office)"

definition tablet_paired :: id_world where
  "tablet_paired = snd (activate plain_crypto 5000 ''tok'' ''ABCD2345'' with_tablet)"

lemma with_tablet_run: "identity_run plain_crypto plain_auth (at_rest back_office) (at_rest with_tablet)"
proof -
  obtain r where "create_device plain_crypto plain_auth 0 ''d1'' ''ABCD2345'' ''Window'' ''u1'' (identity (at_rest back_office)) = (r, with_tablet)"
    unfolding with_tablet_def at_rest_def by (metis id_system.select_convs(1) prod.collapse)
  then have "id_step plain_crypto plain_auth (at_rest back_office) ((at_rest back_office)\<lparr>identity := with_tablet\<rparr>)"
    by (intro id_step.device device_step.create)
  moreover have "(at_rest back_office)\<lparr>identity := with_tablet\<rparr> = at_rest with_tablet"
    by (simp add: at_rest_def with_tablet_def create_device_def back_office_def sql_insert_def Let_def)
  ultimately show ?thesis by (metis r_into_rtranclp)
qed

lemma tablet_activation: "activate plain_crypto 5000 ''tok'' ''ABCD2345'' with_tablet = (Inr (''d1'', ''Window'', ''tok''), tablet_paired)"
  by (simp add: tablet_paired_def activate_def with_tablet_def create_device_def back_office_def sql_insert_def sql_update_def
      pairable_def paired_def plain_crypto_def plain_auth_def Let_def)

lemma tablet_revocation: "revoke_device (\<lambda>_. 0) ''d1'' tablet_paired = (Inr (), snd (revoke_device (\<lambda>_. 0) ''d1'' tablet_paired))"
  by (simp add: tablet_paired_def activate_def with_tablet_def create_device_def back_office_def sql_insert_def sql_update_def
      pairable_def paired_def plain_crypto_def plain_auth_def Let_def revoke_device_def)

theorem device_credentials_witness:
  "fst (resolve_device plain_crypto 6000 ''tok'' tablet_paired) = Inr (DeviceSession ''d1'') \<and>
   fst (resolve_device plain_crypto 7000 ''tok'' (snd (revoke_device (\<lambda>_. 0) ''d1'' tablet_paired))) = Inl DeviceRevokedError"
proof -
  have on: "activate plain_crypto 5000 ''tok'' ''ABCD2345'' (identity (at_rest with_tablet)) = (Inr (''d1'', ''Window'', ''tok''), tablet_paired)"
    by (simp add: at_rest_def tablet_activation)
  have off: "revoke_device (\<lambda>_. 0) ''d1'' (identity ((at_rest with_tablet)\<lparr>identity := tablet_paired\<rparr>)) =
      (Inr (), snd (revoke_device (\<lambda>_. 0) ''d1'' tablet_paired))"
    using tablet_revocation by simp
  note told = device_credentials [OF with_tablet_run _ _ on rtranclp.rtrancl_refl off rtranclp.rtrancl_refl]
  then show ?thesis by (simp add: at_rest_def back_office_def)
qed

text \<open>
  Why no change of status may be in flight: the check that the tablet is paired and the update are
  two statements, and the update does not repeat the check. A resume that has passed its check when
  the device is revoked puts the stolen tablet back in service.
\<close>

lemma resume_undoes_revocation:
  assumes "devices s = [d]" "kd_status d = DEV_PAUSED" "kd_tokenHash d = Some (hashSecret c token)"
  shows "fst (resolve_device c now token
      (snd (update_device (snd \<circ> revoke_device link (kd_id d)) (kd_id d) \<lparr>ud_name = None, ud_paused = Some False\<rparr> s))) =
    Inr (DeviceSession (kd_id d))"
  using assms by (simp add: update_device_def check_restatus_def set_device_def row_by_def sql_find_def throw_if_def revoke_device_def sql_update_def
      changed_device_def resolve_device_def Let_def)

end
