(* ===== verification/Access.thy ===== *)
theory Access
  imports Sessions
begin

text \<open>
  The three global guards (\<open>identity/guards/\<close>, \<open>identity/rate-limit/\<close>) in the order
  \<open>identity.module.ts\<close> registers them, the decorators of every controller as a table of routes, and
  the permission matrix of the design document as the specification the table is held against.

  The throttler's base class and the key it derives from a route and a tracker are arguments
  (\<open>super\<close>, \<open>routeKey\<close>).
\<close>

section \<open>Definitions\<close>

subsection \<open>Routes and their decorators\<close>

datatype principal_parameter = NO_PRINCIPAL | ANY_PRINCIPAL | STAFF_PRINCIPAL

record route =
  r_method :: string
  r_path :: string
  r_public :: bool
  r_roles :: "principal_role list option"
  r_limit :: "rate_limit_name option"
  r_skipThrottle :: bool
  r_principal :: principal_parameter

definition userRoles :: "principal_role list" where
  "userRoles = map StaffRole [ADMIN, MANAGER, CASHIER, BARISTA]"

definition principalRoles :: "principal_role list" where
  "principalRoles = userRoles @ [KIOSK_ROLE]"

definition managers :: "principal_role list" where
  "managers = map StaffRole [ADMIN, MANAGER]"

text \<open>A handler without decorators, and the decorators.\<close>

definition handler :: "string \<Rightarrow> string \<Rightarrow> route" where
  "handler method path = \<lparr>r_method = method, r_path = path, r_public = False, r_roles = None, r_limit = None,
     r_skipThrottle = False, r_principal = NO_PRINCIPAL\<rparr>"

definition Public :: "route \<Rightarrow> route" where "Public rt = rt\<lparr>r_public := True\<rparr>"
definition Roles :: "principal_role list \<Rightarrow> route \<Rightarrow> route" where "Roles rs rt = rt\<lparr>r_roles := Some rs\<rparr>"
definition RateLimit :: "rate_limit_name \<Rightarrow> route \<Rightarrow> route" where "RateLimit n rt = rt\<lparr>r_limit := Some n\<rparr>"
definition takes :: "principal_parameter \<Rightarrow> route \<Rightarrow> route" where "takes p rt = rt\<lparr>r_principal := p\<rparr>"

definition auth_routes :: "route list" where
  "auth_routes =
     [Public (RateLimit LOGIN (handler ''POST'' ''/auth/login'')),
      Public (handler ''POST'' ''/auth/refresh''),
      Roles userRoles (takes STAFF_PRINCIPAL (handler ''POST'' ''/auth/logout'')),
      Roles principalRoles (takes ANY_PRINCIPAL (handler ''GET'' ''/auth/me''))]"

definition users_routes :: "route list" where
  "users_routes =
     [Roles [StaffRole ADMIN] (handler ''POST'' ''/users''),
      Roles managers (handler ''GET'' ''/users''),
      Roles [StaffRole ADMIN] (handler ''PATCH'' ''/users/:id'')]"

definition devices_routes :: "route list" where
  "devices_routes =
     [Roles managers (takes STAFF_PRINCIPAL (handler ''POST'' ''/devices'')),
      Public (RateLimit DEVICE_ACTIVATION (handler ''POST'' ''/devices/activate'')),
      Roles managers (handler ''GET'' ''/devices''),
      Roles managers (handler ''PATCH'' ''/devices/:id''),
      Roles managers (handler ''POST'' ''/devices/:id/revoke'')]"

definition categories_routes :: "route list" where
  "categories_routes =
     [Roles managers (handler ''POST'' ''/categories''),
      Roles managers (handler ''GET'' ''/categories''),
      Roles managers (handler ''PATCH'' ''/categories/:id'')]"

definition items_routes :: "route list" where
  "items_routes =
     [Roles managers (handler ''POST'' ''/items''),
      Roles managers (handler ''GET'' ''/items''),
      Roles managers (handler ''PATCH'' ''/items/:id''),
      Roles (map StaffRole [ADMIN, MANAGER, CASHIER, BARISTA]) (handler ''PATCH'' ''/items/:id/availability''),
      Roles managers (handler ''PUT'' ''/items/:id/option-groups''),
      Roles managers (handler ''POST'' ''/items/:id/image'')]"

definition menu_routes :: "route list" where
  "menu_routes = [Roles (map StaffRole [ADMIN, MANAGER, CASHIER, BARISTA] @ [KIOSK_ROLE]) (handler ''GET'' ''/menu'')]"

definition option_groups_routes :: "route list" where
  "option_groups_routes =
     [Roles managers (handler ''POST'' ''/option-groups''),
      Roles managers (handler ''GET'' ''/option-groups''),
      Roles managers (handler ''PATCH'' ''/option-groups/:id''),
      Roles managers (handler ''POST'' ''/option-groups/:id/options'')]"

definition options_routes :: "route list" where
  "options_routes =
     [Roles managers (handler ''PATCH'' ''/options/:id''),
      Roles (map StaffRole [ADMIN, MANAGER, CASHIER, BARISTA]) (handler ''PATCH'' ''/options/:id/availability'')]"

definition orders_routes :: "route list" where
  "orders_routes =
     [Roles (map StaffRole [ADMIN, MANAGER, CASHIER] @ [KIOSK_ROLE]) (takes ANY_PRINCIPAL (handler ''POST'' ''/orders'')),
      Roles (map StaffRole [ADMIN, MANAGER, CASHIER, BARISTA]) (handler ''GET'' ''/orders''),
      Roles (map StaffRole [ADMIN, MANAGER, CASHIER, BARISTA] @ [KIOSK_ROLE]) (takes ANY_PRINCIPAL (handler ''GET'' ''/orders/:id'')),
      Roles (map StaffRole [ADMIN, MANAGER, CASHIER, BARISTA]) (takes ANY_PRINCIPAL (handler ''POST'' ''/orders/:id/status'')),
      Roles (map StaffRole [ADMIN, MANAGER, CASHIER]) (takes ANY_PRINCIPAL (handler ''POST'' ''/orders/:id/checkout'')),
      Roles (map StaffRole [ADMIN, MANAGER, CASHIER] @ [KIOSK_ROLE]) (takes ANY_PRINCIPAL (handler ''POST'' ''/orders/:id/cancel''))]"

definition payments_routes :: "route list" where
  "payments_routes =
     [Roles (map StaffRole [ADMIN, MANAGER, CASHIER] @ [KIOSK_ROLE]) (takes ANY_PRINCIPAL (handler ''POST'' ''/orders/:id/payments''))]"

definition order_payments_routes :: "route list" where
  "order_payments_routes =
     [Roles (map StaffRole [ADMIN, MANAGER, CASHIER, BARISTA] @ [KIOSK_ROLE])
        (takes ANY_PRINCIPAL (handler ''GET'' ''/orders/:id/payments''))]"

definition refunds_routes :: "route list" where
  "refunds_routes = [Roles managers (takes ANY_PRINCIPAL (handler ''POST'' ''/payments/:id/refunds''))]"

definition webhook_routes :: "route list" where
  "webhook_routes = [Public (handler ''POST'' ''/webhooks/stripe'')]"

definition reports_routes :: "route list" where
  "reports_routes =
     [Roles managers (handler ''GET'' ''/reports/sales''),
      Roles managers (handler ''GET'' ''/reports/top-items''),
      Roles managers (handler ''GET'' ''/reports/z-report'')]"

definition kds_routes :: "route list" where
  "kds_routes = [Roles (map StaffRole [ADMIN, MANAGER, CASHIER, BARISTA]) (handler ''GET'' ''/kds/orders'')]"

definition board_routes :: "route list" where
  "board_routes = [Public (handler ''GET'' ''/orders/board'')]"

definition health_routes :: "route list" where
  "health_routes = map (\<lambda>rt. Public (rt\<lparr>r_skipThrottle := True\<rparr>)) [handler ''GET'' ''/healthz'', handler ''GET'' ''/readyz'']"

definition routes :: "route list" where
  "routes = auth_routes @ users_routes @ devices_routes @ categories_routes @ items_routes @ menu_routes @
     option_groups_routes @ options_routes @ orders_routes @ payments_routes @ order_payments_routes @ refunds_routes @
     webhook_routes @ reports_routes @ kds_routes @ board_routes @ health_routes"

subsection \<open>\<open>authentication.guard.ts\<close>\<close>

text \<open>\<open>/^bearer\s+(\S+)$/i\<close>.\<close>

definition bearerTokenOf :: "string option \<Rightarrow> string result" where
  "bearerTokenOf authorization =
     (let header = (case authorization of None \<Rightarrow> '''' | Some h \<Rightarrow> h);
          rest = drop 6 header;
          token = dropWhile js_whitespace rest
      in if toLowerCase (take 6 header) = ''bearer'' \<and> token \<noteq> rest \<and> token \<noteq> [] \<and>
            list_all (\<lambda>ch. \<not> js_whitespace ch) token
         then Inr token else Inl TokenInvalidError)"

definition resolve_token :: "crypto \<Rightarrow> int \<Rightarrow> string \<Rightarrow> id_world \<Rightarrow> session result \<times> id_world" where
  "resolve_token c now token s =
     (if List.member token (CHR ''.'') then (access_verify c token, s) else resolve_device c now token s)"

definition authentication_canActivate ::
  "crypto \<Rightarrow> int \<Rightarrow> route \<Rightarrow> string option \<Rightarrow> id_world \<Rightarrow> session option result \<times> id_world" where
  "authentication_canActivate c now rt authorization s =
     (if r_public rt then (Inr None, s)
      else case bearerTokenOf authorization of
             Inl e \<Rightarrow> (Inl e, s)
           | Inr token \<Rightarrow>
               (case resolve_token c now token s of
                  (Inl e, s1) \<Rightarrow> (Inl e, s1)
                | (Inr who, s1) \<Rightarrow> (Inr (Some who), s1)))"

subsection \<open>\<open>identity-throttler.guard.ts\<close> on a route\<close>

definition throttler_canActivate ::
  "base_guard \<Rightarrow> (route \<Rightarrow> string \<Rightarrow> string) \<Rightarrow> bool \<Rightarrow> int \<Rightarrow> route \<Rightarrow> session option \<Rightarrow> string option \<Rightarrow> id_world \<Rightarrow>
   bool result \<times> id_world" where
  "throttler_canActivate super routeKey reachable now rt who ip s =
     (if r_skipThrottle rt then (Inr True, s)
      else case handleRequest super reachable now (r_limit rt)
                  (routeKey rt (getTracker (map_option principal_of who) ip)) (keyspace s) of
             (verdict, r) \<Rightarrow> (verdict, s\<lparr>keyspace := r\<rparr>))"

subsection \<open>\<open>roles.guard.ts\<close> and \<open>current-principal.decorator.ts\<close>\<close>

fun role_of :: "session \<Rightarrow> principal_role" where
  "role_of (StaffSession _ role _) = StaffRole role"
| "role_of (DeviceSession _) = KIOSK_ROLE"

definition roles_canActivate :: "route \<Rightarrow> session option \<Rightarrow> bool result" where
  "roles_canActivate rt who =
     (if r_public rt then Inr True
      else case r_roles rt of
             None \<Rightarrow> Inl (OtherError (r_path rt @ '' declares no @Roles and is not @Public''))
           | Some allowed \<Rightarrow>
               (case who of
                  None \<Rightarrow> Inl (ForbiddenRoleError allowed)
                | Some p \<Rightarrow> if List.member allowed (role_of p) then Inr True else Inl (ForbiddenRoleError allowed)))"

definition principalFromContext :: "session option \<Rightarrow> session result" where
  "principalFromContext who =
     (case who of None \<Rightarrow> Inl (OtherError ''no principal was resolved'') | Some p \<Rightarrow> Inr p)"

subsection \<open>The guards in order\<close>

text \<open>A guard that answers false is a refusal of the framework's.\<close>

definition guards ::
  "crypto \<Rightarrow> base_guard \<Rightarrow> (route \<Rightarrow> string \<Rightarrow> string) \<Rightarrow> bool \<Rightarrow> int \<Rightarrow> route \<Rightarrow> string option \<Rightarrow> string option \<Rightarrow> id_world \<Rightarrow>
   session option result \<times> id_world" where
  "guards c super routeKey reachable now rt authorization ip s =
     (case authentication_canActivate c now rt authorization s of
        (Inl e, s1) \<Rightarrow> (Inl e, s1)
      | (Inr who, s1) \<Rightarrow>
          (case throttler_canActivate super routeKey reachable now rt who ip s1 of
             (Inl e, s2) \<Rightarrow> (Inl e, s2)
           | (Inr False, s2) \<Rightarrow> (Inl (OtherError ''Forbidden resource''), s2)
           | (Inr True, s2) \<Rightarrow>
               (case roles_canActivate rt who of Inl e \<Rightarrow> (Inl e, s2) | Inr _ \<Rightarrow> (Inr who, s2))))"

subsection \<open>The permission matrix of the design document\<close>

datatype capability =
    OWN_SESSION | WHO_AM_I | READ_ACCOUNTS | CHANGE_ACCOUNTS | MANAGE_DEVICES | EDIT_MENU | TOGGLE_AVAILABILITY
  | READ_MENU | CREATE_ORDER | READ_ALL_ORDERS | READ_AN_ORDER | COUNTER_CHECKOUT | MOVE_TICKET | CANCEL_UNPAID
  | PAY | REFUND_PAYMENT | SEE_REPORTS | KITCHEN_DISPLAY

fun permitted :: "capability \<Rightarrow> principal_role \<Rightarrow> bool" where
  "permitted OWN_SESSION who \<longleftrightarrow> who \<noteq> KIOSK_ROLE"
| "permitted WHO_AM_I who \<longleftrightarrow> True"
| "permitted READ_ACCOUNTS who \<longleftrightarrow> who = StaffRole ADMIN \<or> who = StaffRole MANAGER"
| "permitted CHANGE_ACCOUNTS who \<longleftrightarrow> who = StaffRole ADMIN"
| "permitted MANAGE_DEVICES who \<longleftrightarrow> who = StaffRole ADMIN \<or> who = StaffRole MANAGER"
| "permitted EDIT_MENU who \<longleftrightarrow> who = StaffRole ADMIN \<or> who = StaffRole MANAGER"
| "permitted TOGGLE_AVAILABILITY who \<longleftrightarrow> who \<noteq> KIOSK_ROLE"
| "permitted READ_MENU who \<longleftrightarrow> True"
| "permitted CREATE_ORDER who \<longleftrightarrow> who \<noteq> StaffRole BARISTA"
| "permitted READ_ALL_ORDERS who \<longleftrightarrow> who \<noteq> KIOSK_ROLE"
| "permitted READ_AN_ORDER who \<longleftrightarrow> True"
| "permitted COUNTER_CHECKOUT who \<longleftrightarrow> who \<noteq> StaffRole BARISTA \<and> who \<noteq> KIOSK_ROLE"
| "permitted MOVE_TICKET who \<longleftrightarrow> who \<noteq> KIOSK_ROLE"
| "permitted CANCEL_UNPAID who \<longleftrightarrow> who \<noteq> StaffRole BARISTA"
| "permitted PAY who \<longleftrightarrow> who \<noteq> StaffRole BARISTA"
| "permitted REFUND_PAYMENT who \<longleftrightarrow> who = StaffRole ADMIN \<or> who = StaffRole MANAGER"
| "permitted SEE_REPORTS who \<longleftrightarrow> who = StaffRole ADMIN \<or> who = StaffRole MANAGER"
| "permitted KITCHEN_DISPLAY who \<longleftrightarrow> who \<noteq> KIOSK_ROLE"

text \<open>What each route of the interface lets its caller do; the routes not listed are public.\<close>

definition capabilities :: "((string \<times> string) \<times> capability) list" where
  "capabilities =
     [((''POST'', ''/auth/logout''), OWN_SESSION), ((''GET'', ''/auth/me''), WHO_AM_I),
      ((''GET'', ''/users''), READ_ACCOUNTS), ((''POST'', ''/users''), CHANGE_ACCOUNTS), ((''PATCH'', ''/users/:id''), CHANGE_ACCOUNTS),
      ((''POST'', ''/devices''), MANAGE_DEVICES), ((''GET'', ''/devices''), MANAGE_DEVICES), ((''PATCH'', ''/devices/:id''), MANAGE_DEVICES),
      ((''POST'', ''/devices/:id/revoke''), MANAGE_DEVICES),
      ((''POST'', ''/categories''), EDIT_MENU), ((''GET'', ''/categories''), EDIT_MENU), ((''PATCH'', ''/categories/:id''), EDIT_MENU),
      ((''POST'', ''/items''), EDIT_MENU), ((''GET'', ''/items''), EDIT_MENU), ((''PATCH'', ''/items/:id''), EDIT_MENU),
      ((''PUT'', ''/items/:id/option-groups''), EDIT_MENU), ((''POST'', ''/items/:id/image''), EDIT_MENU),
      ((''POST'', ''/option-groups''), EDIT_MENU), ((''GET'', ''/option-groups''), EDIT_MENU), ((''PATCH'', ''/option-groups/:id''), EDIT_MENU),
      ((''POST'', ''/option-groups/:id/options''), EDIT_MENU), ((''PATCH'', ''/options/:id''), EDIT_MENU),
      ((''PATCH'', ''/items/:id/availability''), TOGGLE_AVAILABILITY), ((''PATCH'', ''/options/:id/availability''), TOGGLE_AVAILABILITY),
      ((''GET'', ''/menu''), READ_MENU), ((''POST'', ''/orders''), CREATE_ORDER), ((''GET'', ''/orders''), READ_ALL_ORDERS),
      ((''GET'', ''/orders/:id''), READ_AN_ORDER), ((''GET'', ''/orders/:id/payments''), READ_AN_ORDER),
      ((''POST'', ''/orders/:id/checkout''), COUNTER_CHECKOUT), ((''POST'', ''/orders/:id/status''), MOVE_TICKET),
      ((''POST'', ''/orders/:id/cancel''), CANCEL_UNPAID), ((''POST'', ''/orders/:id/payments''), PAY),
      ((''POST'', ''/payments/:id/refunds''), REFUND_PAYMENT),
      ((''GET'', ''/reports/sales''), SEE_REPORTS), ((''GET'', ''/reports/top-items''), SEE_REPORTS), ((''GET'', ''/reports/z-report''), SEE_REPORTS),
      ((''GET'', ''/kds/orders''), KITCHEN_DISPLAY)]"

definition capability_of :: "route \<Rightarrow> capability option" where
  "capability_of rt = map_of capabilities (r_method rt, r_path rt)"

definition open_routes :: "(string \<times> string) list" where
  "open_routes = [(''POST'', ''/auth/login''), (''POST'', ''/auth/refresh''), (''POST'', ''/devices/activate''),
     (''POST'', ''/webhooks/stripe''), (''GET'', ''/orders/board''), (''GET'', ''/healthz''), (''GET'', ''/readyz'')]"

definition roles_agree :: "route \<Rightarrow> bool" where
  "roles_agree rt \<longleftrightarrow>
     (case capability_of rt of
        None \<Rightarrow> r_public rt \<and> r_principal rt = NO_PRINCIPAL \<and> (r_method rt, r_path rt) \<in> set open_routes
      | Some cap \<Rightarrow> \<not> r_public rt \<and>
          (case r_roles rt of
             None \<Rightarrow> False
           | Some rs \<Rightarrow> list_all (\<lambda>r. List.member rs r \<longleftrightarrow> permitted cap r) principalRoles \<and>
               (r_principal rt = STAFF_PRINCIPAL \<longrightarrow> \<not> List.member rs KIOSK_ROLE)))"

section \<open>Lemmas\<close>

lemma routes_agree: "list_all roles_agree routes"
  by code_simp

lemma every_role: "r \<in> set principalRoles"
proof (cases r)
  case (StaffRole u)
  then show ?thesis by (cases u) (simp_all add: principalRoles_def userRoles_def)
qed (simp add: principalRoles_def)

lemma route_agrees: "rt \<in> set routes \<Longrightarrow> roles_agree rt"
  using routes_agree by (simp add: list_all_iff)

lemma gated_route:
  assumes "rt \<in> set routes" "capability_of rt = Some cap"
  obtains rs where "\<not> r_public rt" "r_roles rt = Some rs" "\<forall>r. r \<in> set rs \<longleftrightarrow> permitted cap r"
    "r_principal rt = STAFF_PRINCIPAL \<longrightarrow> KIOSK_ROLE \<notin> set rs"
  using route_agrees [OF assms(1)] assms(2) every_role
  by (auto simp: roles_agree_def list_all_iff split: option.splits)

lemma open_route:
  assumes "rt \<in> set routes" "capability_of rt = None"
  shows "r_public rt" "r_principal rt = NO_PRINCIPAL"
  using route_agrees [OF assms(1)] assms(2) by (simp_all add: roles_agree_def)

text \<open>Where a session comes from: a token the library verified, or the row of a device in service.\<close>

fun genuine :: "crypto \<Rightarrow> string \<Rightarrow> id_world \<Rightarrow> session \<Rightarrow> bool" where
  "genuine c token s (StaffSession u role j) \<longleftrightarrow>
     (\<exists>claims. jwt_verify c token = Inr claims \<and> cl_type claims = ''staff'' \<and> cl_sub claims = u \<and> cl_jti claims = j \<and>
        cl_role claims = role_name role)"
| "genuine c token s (DeviceSession i) \<longleftrightarrow>
     (\<exists>d \<in> set (devices s). kd_id d = i \<and> kd_tokenHash d = Some (hashSecret c token) \<and> kd_status d \<noteq> DEV_REVOKED)"

lemma isUserRole_Some: "isUserRole x = Some role \<Longrightarrow> x = role_name role"
  by (auto simp: isUserRole_def split: if_splits)

lemma resolve_genuine:
  assumes "resolve_token c now token s = (Inr p, s')"
  shows "genuine c token s p"
proof (cases "List.member token (CHR ''.'')")
  case True
  then show ?thesis using assms
    by (auto simp: resolve_token_def access_verify_def STAFF_TOKEN_TYPE_def isUserRole_Some
        split: sum.splits jwt_failure.splits if_splits option.splits)
next
  case False
  then show ?thesis using assms sql_find_SomeD [of "\<lambda>d. kd_tokenHash d = Some (hashSecret c token)" "devices s"]
    by (auto simp: resolve_token_def resolve_device_def split: option.splits if_splits)
qed

lemma guards_pass:
  assumes "guards c super routeKey reachable now rt header ip s = (Inr who, s')"
  obtains s1 where "authentication_canActivate c now rt header s = (Inr who, s1)" "roles_canActivate rt who = Inr True"
  using assms by (auto simp: guards_def roles_canActivate_def split: prod.splits sum.splits bool.splits option.splits if_splits)

lemma resolve_token_frame: "users (snd (resolve_token c now token s)) = users s" "refreshTokens (snd (resolve_token c now token s)) = refreshTokens s"
  by (auto simp: resolve_token_def resolve_device_def touchLastSeen_def split: option.splits)

lemma guards_frame:
  "users (snd (guards c super routeKey reachable now rt header ip s)) = users s \<and>
   refreshTokens (snd (guards c super routeKey reachable now rt header ip s)) = refreshTokens s"
proof -
  have "users (snd (authentication_canActivate c now rt header s)) = users s \<and>
      refreshTokens (snd (authentication_canActivate c now rt header s)) = refreshTokens s"
    using resolve_token_frame [of c now _ s] by (auto simp: authentication_canActivate_def split: sum.splits prod.splits) (metis snd_conv)+
  then show ?thesis
    by (auto simp: guards_def throttler_canActivate_def split: prod.splits sum.splits bool.splits)
qed

section \<open>Properties\<close>

text \<open>
  C39. The decorators implement the permission matrix of the design document, all of it and nothing
  else: on every route of the interface the role check admits a caller exactly when the route is one
  of the seven open ones or the matrix permits the caller's role; a route that declares no policy is
  refused to everybody. A caller who passes the guards of a gated route holds a credential that was
  verified in this request, an access token of the kind and role claimed or the token of a device
  that has not been revoked; and whether or not they pass, the guards leave accounts and sessions as they are.
\<close>

theorem permission_matrix_enforced:
  assumes "rt \<in> set routes"
  shows "(roles_canActivate rt who = Inr True \<longleftrightarrow>
      (case capability_of rt of
         None \<Rightarrow> (r_method rt, r_path rt) \<in> set open_routes
       | Some cap \<Rightarrow> \<exists>p. who = Some p \<and> permitted cap (role_of p))) \<and>
    (\<forall>who' s'. guards c super routeKey reachable now rt header ip s = (Inr who', s') \<longrightarrow>
      (case capability_of rt of
         None \<Rightarrow> who' = None
       | Some cap \<Rightarrow> \<exists>p token. who' = Some p \<and> permitted cap (role_of p) \<and> bearerTokenOf header = Inr token \<and> genuine c token s p)) \<and>
    users (snd (guards c super routeKey reachable now rt header ip s)) = users s \<and>
    refreshTokens (snd (guards c super routeKey reachable now rt header ip s)) = refreshTokens s \<and>
    (\<forall>method path p. \<exists>e. roles_canActivate (handler method path) p = Inl e)"
proof (cases "capability_of rt")
  case None
  note free = open_route [OF assms None]
  have "(r_method rt, r_path rt) \<in> set open_routes" using route_agrees [OF assms] None by (simp add: roles_agree_def)
  then show ?thesis using guards_frame free(1) None
    by (auto simp: roles_canActivate_def handler_def authentication_canActivate_def elim!: guards_pass)
next
  case (Some cap)
  obtain rs where rs: "\<not> r_public rt" "r_roles rt = Some rs" "\<forall>r. r \<in> set rs \<longleftrightarrow> permitted cap r"
    "r_principal rt = STAFF_PRINCIPAL \<longrightarrow> KIOSK_ROLE \<notin> set rs"
    by (rule gated_route [OF assms Some])
  have check: "roles_canActivate rt x = Inr True \<longleftrightarrow> (\<exists>p. x = Some p \<and> permitted cap (role_of p))" for x
    using rs by (auto simp: roles_canActivate_def split: option.splits)
  have "\<exists>p token. who' = Some p \<and> permitted cap (role_of p) \<and> bearerTokenOf header = Inr token \<and> genuine c token s p"
    if run: "guards c super routeKey reachable now rt header ip s = (Inr who', s')" for who' s'
  proof -
    obtain s1 where s1: "authentication_canActivate c now rt header s = (Inr who', s1)" "roles_canActivate rt who' = Inr True"
      by (rule guards_pass [OF run])
    then obtain p where p: "who' = Some p" "permitted cap (role_of p)" using check by blast
    then obtain token s2 where "bearerTokenOf header = Inr token" "resolve_token c now token s = (Inr p, s2)"
      using s1(1) rs(1) by (auto simp: authentication_canActivate_def split: sum.splits prod.splits)
    with p resolve_genuine show ?thesis by blast
  qed
  then show ?thesis using guards_frame check Some by (simp add: roles_canActivate_def handler_def)
qed

theorem permission_matrix_enforced_witness:
  "roles_canActivate (refunds_routes ! 0) (Some (StaffSession ''u1'' MANAGER ''j1'')) = Inr True \<and>
   roles_canActivate (refunds_routes ! 0) (Some (StaffSession ''u2'' CASHIER ''j2'')) \<noteq> Inr True"
proof -
  have r: "refunds_routes ! 0 \<in> set routes" by (simp add: routes_def refunds_routes_def)
  have c: "capability_of (refunds_routes ! 0) = Some REFUND_PAYMENT" by code_simp
  show ?thesis
    using permission_matrix_enforced [OF r, of "Some (StaffSession ''u1'' MANAGER ''j1'')"]
      permission_matrix_enforced [OF r, of "Some (StaffSession ''u2'' CASHIER ''j2'')"]
    by (simp add: c)
qed

text \<open>
  C40. A handler gets the principal it is typed with. The parameter annotations of the controllers
  are not checked at run time; the guards make them true: after they pass, a handler that asks for
  the principal finds one, a handler typed for staff never sees a tablet, and no handler of an open
  route asks.
\<close>

theorem handlers_get_their_principal:
  assumes "rt \<in> set routes" "guards c super routeKey reachable now rt header ip s = (Inr who, s')"
  shows "case r_principal rt of
      NO_PRINCIPAL \<Rightarrow> True
    | ANY_PRINCIPAL \<Rightarrow> \<exists>p. principalFromContext who = Inr p
    | STAFF_PRINCIPAL \<Rightarrow> \<exists>userId role tokenId. principalFromContext who = Inr (StaffSession userId role tokenId)"
proof (cases "capability_of rt")
  case None
  then show ?thesis using open_route [OF assms(1)] by simp
next
  case (Some cap)
  obtain rs where rs: "\<not> r_public rt" "r_roles rt = Some rs" "\<forall>r. r \<in> set rs \<longleftrightarrow> permitted cap r"
    "r_principal rt = STAFF_PRINCIPAL \<longrightarrow> KIOSK_ROLE \<notin> set rs"
    by (rule gated_route [OF assms(1) Some])
  have "roles_canActivate rt who = Inr True" by (rule guards_pass [OF assms(2)]) blast
  with rs(1,2) obtain p where p: "who = Some p" "role_of p \<in> set rs"
    by (auto simp: roles_canActivate_def split: option.splits if_splits)
  have "\<exists>userId role tokenId. p = StaffSession userId role tokenId" if "r_principal rt = STAFF_PRINCIPAL"
    using rs(4) that p(2) by (cases p) auto
  with p(1) show ?thesis by (simp add: principalFromContext_def split: principal_parameter.splits)
qed

definition signing_crypto :: crypto where
  "signing_crypto = plain_crypto\<lparr>jwt_verify := (\<lambda>_. Inr \<lparr>cl_sub = ''u1'', cl_role = ''MANAGER'', cl_type = ''staff'',
     cl_jti = ''j1'', cl_iat = 0, cl_exp = 900\<rparr>)\<rparr>"

theorem handlers_get_their_principal_witness:
  "\<exists>userId role tokenId. principalFromContext (Some (StaffSession ''u1'' MANAGER ''j1'')) = Inr (StaffSession userId role tokenId)"
proof -
  let ?rt = "devices_routes ! 0"
  let ?run = "guards signing_crypto (\<lambda>_ _. Inr True) (\<lambda>_ k. k) False 0 ?rt (Some ''Bearer a.b.c'') None back_office"
  have r: "?rt \<in> set routes" by (simp add: routes_def devices_routes_def)
  have "fst ?run = Inr (Some (StaffSession ''u1'' MANAGER ''j1''))" by code_simp
  then have "?run = (Inr (Some (StaffSession ''u1'' MANAGER ''j1'')), snd ?run)" by (metis prod.collapse)
  from handlers_get_their_principal [OF r this] show ?thesis
    by (simp add: devices_routes_def Roles_def takes_def handler_def)
qed

end
