(* ===== verification/Catalog.thy ===== *)
theory Catalog
  imports "HOL-Library.Sorting_Algorithms" "HOL-Library.Multiset" Orders
begin

text \<open>
  \<open>catalog/\<close>: what the back office edits (\<open>categories.service.ts\<close>, \<open>items.service.ts\<close>,
  \<open>item-option-groups.service.ts\<close>, \<open>option-groups.service.ts\<close>) and the menu the kiosks read
  (\<open>menu.service.ts\<close>), over the same five tables the pricing of an order reads.

  A write is one statement or one transaction, so it is one function on the tables, which are
  unchanged when it throws. The identifier a default generates is the argument \<open>newId\<close>. Columns a
  request leaves out are \<open>None\<close> and take the column's default on insert and its old value on update; for a
  nullable column \<open>Some None\<close> clears it. The collation of the database is the argument
  \<open>collate\<close>.
\<close>

section \<open>Definitions\<close>

subsection \<open>\<open>categories.service.ts\<close>\<close>

record category_input =
  cc_name :: "string option"
  cc_sortOrder :: "int option"
  cc_isActive :: "bool option"

definition given :: "'a option \<Rightarrow> 'a \<Rightarrow> 'a" where
  "given change old = (case change of None \<Rightarrow> old | Some x \<Rightarrow> x)"

definition changed_category :: "category_input \<Rightarrow> category_row \<Rightarrow> category_row" where
  "changed_category ch c =
     c\<lparr>cat_name := given (cc_name ch) (cat_name c), cat_sortOrder := given (cc_sortOrder ch) (cat_sortOrder c),
       cat_isActive := given (cc_isActive ch) (cat_isActive c)\<rparr>"

definition create_category ::
  "string \<Rightarrow> string \<Rightarrow> category_input \<Rightarrow> ('p, 'b) db \<Rightarrow> category_row result \<times> ('p, 'b) db" where
  "create_category newId name input d =
     (let row = \<lparr>cat_id = newId, cat_name = name, cat_sortOrder = given (cc_sortOrder input) 0,
                 cat_isActive = given (cc_isActive input) True\<rparr>
      in if \<not> int4_ok (cat_sortOrder row) then (Inl NumericOutOfRange, d)
         else case sql_insert (\<lambda>x y. cat_id x = cat_id y \<or> cat_name x = cat_name y) row (categories d) of
                None \<Rightarrow> (Inl (CategoryNameExistsError name), d)
              | Some rows \<Rightarrow> (Inr row, d\<lparr>categories := rows\<rparr>))"

definition list_categories :: "string comparator \<Rightarrow> ('p, 'b) db \<Rightarrow> category_row list" where
  "list_categories collate d =
     Sorting_Algorithms.sort (key (\<lambda>c. (cat_sortOrder c, cat_name c)) (prod_lex default collate)) (categories d)"

definition update_category ::
  "string \<Rightarrow> category_input \<Rightarrow> ('p, 'b) db \<Rightarrow> category_row result \<times> ('p, 'b) db" where
  "update_category i ch d =
     (if \<not> (case cc_sortOrder ch of None \<Rightarrow> True | Some n \<Rightarrow> int4_ok n) then (Inl NumericOutOfRange, d)
      else case sql_update (\<lambda>c. cat_id c = i) (changed_category ch) (categories d) of
             ([], _) \<Rightarrow> (Inl (ResourceNotFoundError ''category'' i), d)
           | (row # _, rows) \<Rightarrow>
               if list_ex (\<lambda>c. cat_id c \<noteq> i \<and> cat_name c = cat_name row) (categories d)
               then (Inl (case cc_name ch of None \<Rightarrow> UniqueViolation | Some n \<Rightarrow> CategoryNameExistsError n), d)
               else (Inr row, d\<lparr>categories := rows\<rparr>))"

subsection \<open>\<open>items.service.ts\<close>\<close>

record create_item_input =
  cit_categoryId :: string
  cit_name :: string
  cit_description :: "string option"
  cit_basePriceMinor :: int
  cit_imageUrl :: "string option"
  cit_sortOrder :: "int option"
  cit_isAvailable :: "bool option"

record update_item_input =
  uit_categoryId :: "string option"
  uit_name :: "string option"
  uit_description :: "string option option"
  uit_basePriceMinor :: "int option"
  uit_imageUrl :: "string option option"
  uit_sortOrder :: "int option"

definition new_item :: "string \<Rightarrow> create_item_input \<Rightarrow> menu_item_row" where
  "new_item newId input =
     \<lparr>mi_id = newId, mi_categoryId = cit_categoryId input, mi_name = cit_name input,
      mi_description = cit_description input, mi_basePriceMinor = cit_basePriceMinor input,
      mi_imageUrl = cit_imageUrl input, mi_isAvailable = given (cit_isAvailable input) True,
      mi_sortOrder = given (cit_sortOrder input) 0\<rparr>"

definition changed_item :: "update_item_input \<Rightarrow> menu_item_row \<Rightarrow> menu_item_row" where
  "changed_item ch r =
     r\<lparr>mi_categoryId := given (uit_categoryId ch) (mi_categoryId r), mi_name := given (uit_name ch) (mi_name r),
       mi_description := given (uit_description ch) (mi_description r),
       mi_basePriceMinor := given (uit_basePriceMinor ch) (mi_basePriceMinor r),
       mi_imageUrl := given (uit_imageUrl ch) (mi_imageUrl r),
       mi_sortOrder := given (uit_sortOrder ch) (mi_sortOrder r)\<rparr>"

text \<open>The constraints of the table: the width of its numbers, the price check and the reference.\<close>

definition item_row_error :: "('p, 'b) db \<Rightarrow> menu_item_row \<Rightarrow> app_error option" where
  "item_row_error d r =
     (if \<not> int4_ok (mi_basePriceMinor r) \<or> \<not> int4_ok (mi_sortOrder r) then Some NumericOutOfRange
      else if mi_basePriceMinor r < 0 then Some CheckViolation
      else if row_by cat_id (mi_categoryId r) (categories d) = None then Some ForeignKeyViolation
      else None)"

definition create_item ::
  "string \<Rightarrow> create_item_input \<Rightarrow> ('p, 'b) db \<Rightarrow> menu_item_row result \<times> ('p, 'b) db" where
  "create_item newId input d =
     (let row = new_item newId input in
      case item_row_error d row of
        Some ForeignKeyViolation \<Rightarrow> (Inl (CategoryUnknownError (cit_categoryId input)), d)
      | Some e \<Rightarrow> (Inl e, d)
      | None \<Rightarrow>
          (case sql_insert (\<lambda>x y. mi_id x = mi_id y) row (menuItems d) of
             None \<Rightarrow> (Inl UniqueViolation, d)
           | Some rows \<Rightarrow> (Inr row, d\<lparr>menuItems := rows\<rparr>)))"

definition list_items :: "string comparator \<Rightarrow> ('p, 'b) db \<Rightarrow> menu_item_row list" where
  "list_items collate d =
     Sorting_Algorithms.sort (key (\<lambda>r. (mi_sortOrder r, mi_name r)) (prod_lex default collate)) (menuItems d)"

definition update_item ::
  "string \<Rightarrow> update_item_input \<Rightarrow> ('p, 'b) db \<Rightarrow> menu_item_row result \<times> ('p, 'b) db" where
  "update_item i ch d =
     (case sql_update (\<lambda>r. mi_id r = i) (changed_item ch) (menuItems d) of
        ([], _) \<Rightarrow> (Inl (ResourceNotFoundError ''menu item'' i), d)
      | (row # _, rows) \<Rightarrow>
          (case item_row_error d row of
             Some ForeignKeyViolation \<Rightarrow>
               (Inl (case uit_categoryId ch of None \<Rightarrow> ForeignKeyViolation | Some c \<Rightarrow> CategoryUnknownError c), d)
           | Some e \<Rightarrow> (Inl e, d)
           | None \<Rightarrow> (Inr row, d\<lparr>menuItems := rows\<rparr>)))"

definition setAvailability :: "string \<Rightarrow> bool \<Rightarrow> ('p, 'b) db \<Rightarrow> menu_item_row result \<times> ('p, 'b) db" where
  "setAvailability i isAvailable d =
     (case sql_update (\<lambda>r. mi_id r = i) (\<lambda>r. r\<lparr>mi_isAvailable := isAvailable\<rparr>) (menuItems d) of
        ([], _) \<Rightarrow> (Inl (ResourceNotFoundError ''menu item'' i), d)
      | (row # _, rows) \<Rightarrow> (Inr row, d\<lparr>menuItems := rows\<rparr>))"

subsection \<open>\<open>item-option-groups.service.ts\<close>\<close>

record attached_option_group =
  ag_id :: string
  ag_name :: string
  ag_minSelect :: int
  ag_maxSelect :: int
  ag_sortOrder :: int

definition attached_groups :: "string \<Rightarrow> ('p, 'b) db \<Rightarrow> attached_option_group list" where
  "attached_groups itemId d =
     List.map_filter (\<lambda>l. map_option
         (\<lambda>g. \<lparr>ag_id = og_id g, ag_name = og_name g, ag_minSelect = og_minSelect g, ag_maxSelect = og_maxSelect g,
               ag_sortOrder = lnk_sortOrder l\<rparr>) (row_by og_id (lnk_optionGroupId l) (optionGroups d)))
       (sort_key lnk_sortOrder (filter (\<lambda>l. lnk_menuItemId l = itemId) (menuItemOptionGroups d)))"

definition links_for :: "string \<Rightarrow> string list \<Rightarrow> item_group_link_row list" where
  "links_for itemId groupIds =
     map (\<lambda>(index, g). \<lparr>lnk_menuItemId = itemId, lnk_optionGroupId = g, lnk_sortOrder = int index\<rparr>)
       (List.enumerate 0 groupIds)"

definition setForItem ::
  "string \<Rightarrow> string list \<Rightarrow> ('p, 'b) db \<Rightarrow> attached_option_group list result \<times> ('p, 'b) db" where
  "setForItem itemId optionGroupIds d =
     (case row_by mi_id itemId (menuItems d) of
        None \<Rightarrow> (Inl (ResourceNotFoundError ''menu item'' itemId), d)
      | Some _ \<Rightarrow>
          let unknown = filter (\<lambda>i. row_by og_id i (optionGroups d) = None) optionGroupIds in
          if unknown \<noteq> [] then (Inl (OptionGroupUnknownError unknown), d)
          else let kept = filter (\<lambda>l. lnk_menuItemId l \<noteq> itemId) (menuItemOptionGroups d);
                   d' = d\<lparr>menuItemOptionGroups := kept @ links_for itemId optionGroupIds\<rparr>
               in if \<not> distinct optionGroupIds then (Inl UniqueViolation, d)
                  else (Inr (attached_groups itemId d'), d'))"

subsection \<open>\<open>option-groups.service.ts\<close>\<close>

record option_group_input =
  ogi_name :: "string option"
  ogi_minSelect :: "int option"
  ogi_maxSelect :: "int option"

record option_input =
  opi_name :: "string option"
  opi_priceDeltaMinor :: "int option"
  opi_isDefault :: "bool option"
  opi_isAvailable :: "bool option"

definition group_row_error :: "option_group_row \<Rightarrow> app_error option" where
  "group_row_error g =
     (if \<not> int4_ok (og_minSelect g) \<or> \<not> int4_ok (og_maxSelect g) then Some NumericOutOfRange
      else if og_minSelect g < 0 \<or> og_maxSelect g < og_minSelect g then Some OptionGroupMinMaxInvalidError
      else None)"

definition createGroup ::
  "string \<Rightarrow> string \<Rightarrow> option_group_input \<Rightarrow> ('p, 'b) db \<Rightarrow> option_group_row result \<times> ('p, 'b) db" where
  "createGroup newId name input d =
     (let row = \<lparr>og_id = newId, og_name = name, og_minSelect = given (ogi_minSelect input) 0,
                 og_maxSelect = given (ogi_maxSelect input) 1\<rparr>
      in case group_row_error row of
           Some e \<Rightarrow> (Inl e, d)
         | None \<Rightarrow>
             (case sql_insert (\<lambda>x y. og_id x = og_id y) row (optionGroups d) of
                None \<Rightarrow> (Inl UniqueViolation, d)
              | Some rows \<Rightarrow> (Inr row, d\<lparr>optionGroups := rows\<rparr>)))"

definition listGroups :: "string comparator \<Rightarrow> ('p, 'b) db \<Rightarrow> (option_group_row \<times> option_row list) list" where
  "listGroups collate d =
     map (\<lambda>g. (g, Sorting_Algorithms.sort (key opt_name collate) (filter (\<lambda>r. opt_groupId r = og_id g) (options d))))
       (Sorting_Algorithms.sort (key og_name collate) (optionGroups d))"

definition changed_group :: "option_group_input \<Rightarrow> option_group_row \<Rightarrow> option_group_row" where
  "changed_group ch g =
     g\<lparr>og_name := given (ogi_name ch) (og_name g), og_minSelect := given (ogi_minSelect ch) (og_minSelect g),
       og_maxSelect := given (ogi_maxSelect ch) (og_maxSelect g)\<rparr>"

definition updateGroup ::
  "string \<Rightarrow> option_group_input \<Rightarrow> ('p, 'b) db \<Rightarrow> option_group_row result \<times> ('p, 'b) db" where
  "updateGroup i ch d =
     (case sql_update (\<lambda>g. og_id g = i) (changed_group ch) (optionGroups d) of
        ([], _) \<Rightarrow> (Inl (ResourceNotFoundError ''option group'' i), d)
      | (row # _, rows) \<Rightarrow>
          (case group_row_error row of Some e \<Rightarrow> (Inl e, d) | None \<Rightarrow> (Inr row, d\<lparr>optionGroups := rows\<rparr>)))"

definition createOption ::
  "string \<Rightarrow> string \<Rightarrow> string \<Rightarrow> option_input \<Rightarrow> ('p, 'b) db \<Rightarrow> option_row result \<times> ('p, 'b) db" where
  "createOption newId optionGroupId name input d =
     (let row = \<lparr>opt_id = newId, opt_groupId = optionGroupId, opt_name = name,
                 opt_priceDeltaMinor = given (opi_priceDeltaMinor input) 0,
                 opt_isDefault = given (opi_isDefault input) False,
                 opt_isAvailable = given (opi_isAvailable input) True\<rparr>
      in if \<not> int4_ok (opt_priceDeltaMinor row) then (Inl NumericOutOfRange, d)
         else case sql_insert (\<lambda>x y. opt_id x = opt_id y) row (options d) of
                None \<Rightarrow> (Inl UniqueViolation, d)
              | Some rows \<Rightarrow>
                  if row_by og_id optionGroupId (optionGroups d) = None
                  then (Inl (ResourceNotFoundError ''option group'' optionGroupId), d)
                  else (Inr row, d\<lparr>options := rows\<rparr>))"

definition changed_option :: "option_input \<Rightarrow> option_row \<Rightarrow> option_row" where
  "changed_option ch r =
     r\<lparr>opt_name := given (opi_name ch) (opt_name r),
       opt_priceDeltaMinor := given (opi_priceDeltaMinor ch) (opt_priceDeltaMinor r),
       opt_isDefault := given (opi_isDefault ch) (opt_isDefault r)\<rparr>"

definition updateOption :: "string \<Rightarrow> option_input \<Rightarrow> ('p, 'b) db \<Rightarrow> option_row result \<times> ('p, 'b) db" where
  "updateOption i ch d =
     (if \<not> (case opi_priceDeltaMinor ch of None \<Rightarrow> True | Some n \<Rightarrow> int4_ok n) then (Inl NumericOutOfRange, d)
      else case sql_update (\<lambda>r. opt_id r = i) (changed_option ch) (options d) of
             ([], _) \<Rightarrow> (Inl (ResourceNotFoundError ''option'' i), d)
           | (row # _, rows) \<Rightarrow> (Inr row, d\<lparr>options := rows\<rparr>))"

definition setOptionAvailability :: "string \<Rightarrow> bool \<Rightarrow> ('p, 'b) db \<Rightarrow> option_row result \<times> ('p, 'b) db" where
  "setOptionAvailability i isAvailable d =
     (case sql_update (\<lambda>r. opt_id r = i) (\<lambda>r. r\<lparr>opt_isAvailable := isAvailable\<rparr>) (options d) of
        ([], _) \<Rightarrow> (Inl (ResourceNotFoundError ''option'' i), d)
      | (row # _, rows) \<Rightarrow> (Inr row, d\<lparr>options := rows\<rparr>))"

subsection \<open>\<open>menu.service.ts\<close>: \<open>build\<close>\<close>

record menu_option =
  mo_id :: string
  mo_name :: string
  mo_priceDeltaMinor :: int
  mo_isDefault :: bool
  mo_isAvailable :: bool

record menu_option_group =
  mg_id :: string
  mg_name :: string
  mg_minSelect :: int
  mg_maxSelect :: int
  mg_sortOrder :: int
  mg_options :: "menu_option list"

record menu_item =
  mit_id :: string
  mit_name :: string
  mit_description :: "string option"
  mit_basePriceMinor :: int
  mit_imageUrl :: "string option"
  mit_isAvailable :: bool
  mit_sortOrder :: int
  mit_optionGroups :: "menu_option_group list"

record menu_category =
  mc_id :: string
  mc_name :: string
  mc_sortOrder :: int
  mc_items :: "menu_item list"

type_synonym menu = "menu_category list"

definition menu_options :: "string comparator \<Rightarrow> ('p, 'b) db \<Rightarrow> string \<Rightarrow> menu_option list" where
  "menu_options collate d groupId =
     map (\<lambda>r. \<lparr>mo_id = opt_id r, mo_name = opt_name r, mo_priceDeltaMinor = opt_priceDeltaMinor r,
               mo_isDefault = opt_isDefault r, mo_isAvailable = opt_isAvailable r\<rparr>)
       (Sorting_Algorithms.sort (key opt_name collate) (filter (\<lambda>r. opt_groupId r = groupId) (options d)))"

definition menu_groups :: "string comparator \<Rightarrow> ('p, 'b) db \<Rightarrow> string \<Rightarrow> menu_option_group list" where
  "menu_groups collate d itemId =
     List.map_filter (\<lambda>l. map_option
         (\<lambda>g. \<lparr>mg_id = og_id g, mg_name = og_name g, mg_minSelect = og_minSelect g, mg_maxSelect = og_maxSelect g,
               mg_sortOrder = lnk_sortOrder l, mg_options = menu_options collate d (og_id g)\<rparr>)
         (row_by og_id (lnk_optionGroupId l) (optionGroups d)))
       (sort_key lnk_sortOrder (filter (\<lambda>l. lnk_menuItemId l = itemId) (menuItemOptionGroups d)))"

definition menu_items_of :: "string comparator \<Rightarrow> ('p, 'b) db \<Rightarrow> string \<Rightarrow> menu_item list" where
  "menu_items_of collate d categoryId =
     map (\<lambda>r. \<lparr>mit_id = mi_id r, mit_name = mi_name r, mit_description = mi_description r,
               mit_basePriceMinor = mi_basePriceMinor r, mit_imageUrl = mi_imageUrl r,
               mit_isAvailable = mi_isAvailable r, mit_sortOrder = mi_sortOrder r,
               mit_optionGroups = menu_groups collate d (mi_id r)\<rparr>)
       (Sorting_Algorithms.sort (key (\<lambda>r. (mi_sortOrder r, mi_name r)) (prod_lex default collate))
         (filter (\<lambda>r. mi_categoryId r = categoryId) (menuItems d)))"

definition build_menu :: "string comparator \<Rightarrow> ('p, 'b) db \<Rightarrow> menu" where
  "build_menu collate d =
     map (\<lambda>c. \<lparr>mc_id = cat_id c, mc_name = cat_name c, mc_sortOrder = cat_sortOrder c,
               mc_items = menu_items_of collate d (cat_id c)\<rparr>)
       (Sorting_Algorithms.sort (key (\<lambda>c. (cat_sortOrder c, cat_name c)) (prod_lex default collate))
         (filter cat_isActive (categories d)))"

subsection \<open>The document\<close>

primrec json_stringify :: "json \<Rightarrow> string" where
  "json_stringify JNull = ''null''"
| "json_stringify (JBool b) = (if b then ''true'' else ''false'')"
| "json_stringify (JNum i) = string_of_int i"
| "json_stringify (JStr s) = stringify_string s"
| "json_stringify (JArr vs) = ''['' @ join '','' (map json_stringify vs) @ '']''"
| "json_stringify (JObj es) =
     ''{'' @ join '','' (List.map_filter (\<lambda>(k, entry). map_option (\<lambda>v. stringify_string k @ '':'' @ v) entry)
       (map (map_prod id (map_option json_stringify)) es)) @ ''}''"

definition text_or_null :: "string option \<Rightarrow> json" where
  "text_or_null x = (case x of None \<Rightarrow> JNull | Some s \<Rightarrow> JStr s)"

definition members :: "(string \<times> json) list \<Rightarrow> json" where
  "members es = JObj (map (map_prod id Some) es)"

definition menu_json :: "menu \<Rightarrow> json" where
  "menu_json shown = members [(''categories'', JArr (map (\<lambda>c. members
     [(''id'', JStr (mc_id c)), (''name'', JStr (mc_name c)), (''sortOrder'', JNum (mc_sortOrder c)),
      (''items'', JArr (map (\<lambda>m. members
         [(''id'', JStr (mit_id m)), (''name'', JStr (mit_name m)), (''description'', text_or_null (mit_description m)),
          (''basePriceMinor'', JNum (mit_basePriceMinor m)), (''imageUrl'', text_or_null (mit_imageUrl m)),
          (''isAvailable'', JBool (mit_isAvailable m)), (''sortOrder'', JNum (mit_sortOrder m)),
          (''optionGroups'', JArr (map (\<lambda>g. members
             [(''id'', JStr (mg_id g)), (''name'', JStr (mg_name g)), (''minSelect'', JNum (mg_minSelect g)),
              (''maxSelect'', JNum (mg_maxSelect g)), (''sortOrder'', JNum (mg_sortOrder g)),
              (''options'', JArr (map (\<lambda>p. members
                 [(''id'', JStr (mo_id p)), (''name'', JStr (mo_name p)), (''priceDeltaMinor'', JNum (mo_priceDeltaMinor p)),
                  (''isDefault'', JBool (mo_isDefault p)), (''isAvailable'', JBool (mo_isAvailable p))]) (mg_options g)))])
             (mit_optionGroups m)))]) (mc_items c)))]) shown))]"

section \<open>What the back office may do\<close>

inductive catalog_step :: "('p, 'b) db \<Rightarrow> ('p, 'b) db \<Rightarrow> bool" where
  create_category: "create_category newId name ci d = (cr, d') \<Longrightarrow> catalog_step d d'"
| update_category: "update_category i ci d = (cr, d') \<Longrightarrow> catalog_step d d'"
| create_item: "create_item newId ii d = (ir, d') \<Longrightarrow> catalog_step d d'"
| update_item: "update_item i iu d = (ir, d') \<Longrightarrow> catalog_step d d'"
| setAvailability: "setAvailability i b d = (ir, d') \<Longrightarrow> catalog_step d d'"
| setForItem: "setForItem i gs d = (ar, d') \<Longrightarrow> catalog_step d d'"
| createGroup: "createGroup newId name gi d = (gr, d') \<Longrightarrow> catalog_step d d'"
| updateGroup: "updateGroup i gi d = (gr, d') \<Longrightarrow> catalog_step d d'"
| createOption: "createOption newId i name oi d = (opr, d') \<Longrightarrow> catalog_step d d'"
| updateOption: "updateOption i oi d = (opr, d') \<Longrightarrow> catalog_step d d'"
| setOptionAvailability: "setOptionAvailability i b d = (opr, d') \<Longrightarrow> catalog_step d d'"

abbreviation catalog_run :: "('p, 'b) db \<Rightarrow> ('p, 'b) db \<Rightarrow> bool" where
  "catalog_run \<equiv> catalog_step\<^sup>*\<^sup>*"

definition categories_ok :: "('p, 'b) db \<Rightarrow> bool" where
  "categories_ok d \<longleftrightarrow> distinct (map cat_id (categories d)) \<and> distinct (map cat_name (categories d))"

definition items_ok :: "('p, 'b) db \<Rightarrow> bool" where
  "items_ok d \<longleftrightarrow> distinct (map mi_id (menuItems d)) \<and>
     (\<forall>r \<in> set (menuItems d). 0 \<le> mi_basePriceMinor r \<and> mi_categoryId r \<in> cat_id ` set (categories d))"

definition groups_ok :: "('p, 'b) db \<Rightarrow> bool" where
  "groups_ok d \<longleftrightarrow> distinct (map og_id (optionGroups d)) \<and>
     (\<forall>g \<in> set (optionGroups d). 0 \<le> og_minSelect g \<and> og_minSelect g \<le> og_maxSelect g)"

definition options_ok :: "('p, 'b) db \<Rightarrow> bool" where
  "options_ok d \<longleftrightarrow> distinct (map opt_id (options d)) \<and> opt_groupId ` set (options d) \<subseteq> og_id ` set (optionGroups d)"

definition links_ok :: "('p, 'b) db \<Rightarrow> bool" where
  "links_ok d \<longleftrightarrow> distinct (map (\<lambda>l. (lnk_menuItemId l, lnk_optionGroupId l)) (menuItemOptionGroups d)) \<and>
     lnk_menuItemId ` set (menuItemOptionGroups d) \<subseteq> mi_id ` set (menuItems d) \<and>
     lnk_optionGroupId ` set (menuItemOptionGroups d) \<subseteq> og_id ` set (optionGroups d)"

definition catalog_ok :: "('p, 'b) db \<Rightarrow> bool" where
  "catalog_ok d \<longleftrightarrow> categories_ok d \<and> items_ok d \<and> groups_ok d \<and> options_ok d \<and> links_ok d"

section \<open>Lemmas\<close>

subsection \<open>Every write keeps the catalog well formed\<close>

lemmas catalog_parts = categories_ok_def items_ok_def groups_ok_def options_ok_def links_ok_def

text \<open>What a successful write did; a refused one left the tables alone.\<close>

lemma sql_update_Cons:
  assumes "sql_update p f rows = (r # rs, rows')"
  obtains x where "x \<in> set rows" "p x" "r = f x" "rows' = map (\<lambda>x. if p x then f x else x) rows"
proof -
  have "r \<in> set (map f (filter p rows))" using assms by (simp add: sql_update_def)
  moreover have "rows' = map (\<lambda>x. if p x then f x else x) rows" using assms by (simp add: sql_update_def)
  ultimately show ?thesis using that by auto
qed

lemma update_keeps_key:
  assumes "\<And>x. k (f x) = k x"
  shows "map k (map (\<lambda>x. if p x then f x else x) rows) = map k rows"
  using assms by simp

lemma update_keeps_keys:
  assumes "\<And>x. k (f x) = k x"
  shows "k ` set (map (\<lambda>x. if p x then f x else x) rows) = k ` set rows"
  using update_keeps_key [of k f p rows, OF assms] by (metis list.set_map)

lemma same_keys: "map k xs = map k ys \<Longrightarrow> k ` set xs = k ` set ys"
  by (metis list.set_map)

lemma step_update_category:
  assumes "update_category i ch d = (r, d')" "catalog_ok d"
  shows "catalog_ok d'"
proof (cases "d' = d")
  case False
  then obtain row rs rows where u: "sql_update (\<lambda>c. cat_id c = i) (changed_category ch) (categories d) = (row # rs, rows)"
    "\<not> list_ex (\<lambda>c. cat_id c \<noteq> i \<and> cat_name c = cat_name row) (categories d)" "d' = d\<lparr>categories := rows\<rparr>"
    using assms(1) by (auto simp: update_category_def split: if_splits prod.splits list.splits)
  let ?g = "\<lambda>c. if cat_id c = i then changed_category ch c else c"
  obtain x where x: "x \<in> set (categories d)" "cat_id x = i" "row = changed_category ch x" and rows: "rows = map ?g (categories d)"
    by (rule sql_update_Cons [OF u(1)])
  have key: "cat_id (changed_category ch c) = cat_id c" for c by (simp add: changed_category_def)
  have ids: "map cat_id rows = map cat_id (categories d)" "cat_id ` set rows = cat_id ` set (categories d)"
    unfolding rows by (rule update_keeps_key update_keeps_keys, rule key)+
  have d: "distinct (map cat_id (categories d))" "distinct (map cat_name (categories d))"
    using assms(2) by (simp_all add: catalog_ok_def categories_ok_def)
  have "inj_on (\<lambda>c. cat_name (?g c)) (set (categories d))"
  proof (rule inj_onI)
    fix a b
    assume ab: "a \<in> set (categories d)" "b \<in> set (categories d)" "cat_name (?g a) = cat_name (?g b)"
    have only: "c = x" if "c \<in> set (categories d)" "cat_id c = i" for c
      using d(1) x(1,2) that by (metis distinct_map inj_onD)
    show "a = b"
    proof (cases "cat_id a = i"; cases "cat_id b = i")
      assume "cat_id a \<noteq> i" "cat_id b \<noteq> i"
      with ab d(2) show ?thesis by (metis distinct_map inj_onD)
    qed (use ab only x(3) u(2) in \<open>auto simp: list_ex_iff\<close>)
  qed
  then have "distinct (map cat_name rows)" using d(1) by (simp add: rows distinct_map comp_def)
  with assms(2) ids show ?thesis by (simp add: catalog_ok_def catalog_parts u(3))
qed (use assms(2) in simp)

lemma step_create_category:
  assumes "create_category newId name ci d = (cr, d')" "catalog_ok d"
  shows "catalog_ok d'"
proof (cases "d' = d")
  case False
  then obtain row where "d' = d\<lparr>categories := categories d @ [row]\<rparr>" "cat_id row \<notin> cat_id ` set (categories d)"
    "cat_name row \<notin> cat_name ` set (categories d)"
    using assms(1) by (fastforce simp: create_category_def Let_def sql_insert_Some split: if_splits option.splits)
  with assms(2) show ?thesis by (auto simp: catalog_ok_def catalog_parts)
qed (use assms(2) in simp)

lemma step_create_item:
  assumes "create_item newId ii d = (ir, d')" "catalog_ok d"
  shows "catalog_ok d'"
proof (cases "d' = d")
  case False
  then have "item_row_error d (new_item newId ii) = None" "d' = d\<lparr>menuItems := menuItems d @ [new_item newId ii]\<rparr>"
    "mi_id (new_item newId ii) \<notin> mi_id ` set (menuItems d)"
    using assms(1) by (auto simp: create_item_def Let_def sql_insert_Some split: option.splits app_error.splits)
  with assms(2) show ?thesis
    by (auto simp: item_row_error_def row_by_None catalog_ok_def catalog_parts split: if_splits)
qed (use assms(2) in simp)

lemma step_create_group:
  assumes "createGroup newId name gi d = (gr, d')" "catalog_ok d"
  shows "catalog_ok d'"
proof (cases "d' = d")
  case False
  then obtain row where "d' = d\<lparr>optionGroups := optionGroups d @ [row]\<rparr>" "og_id row \<notin> og_id ` set (optionGroups d)"
    "group_row_error row = None"
    using assms(1) by (fastforce simp: createGroup_def Let_def sql_insert_Some split: option.splits)
  with assms(2) show ?thesis by (auto simp: catalog_ok_def catalog_parts group_row_error_def split: if_splits)
qed (use assms(2) in simp)

lemma step_create_option:
  assumes "createOption newId i name oi d = (opr, d')" "catalog_ok d"
  shows "catalog_ok d'"
proof (cases "d' = d")
  case False
  then obtain row where "d' = d\<lparr>options := options d @ [row]\<rparr>" "opt_id row \<notin> opt_id ` set (options d)"
    "opt_groupId row \<in> og_id ` set (optionGroups d)"
    using assms(1) by (fastforce simp: createOption_def Let_def sql_insert_Some row_by_None split: if_splits option.splits)
  with assms(2) show ?thesis by (auto simp: catalog_ok_def catalog_parts)
qed (use assms(2) in simp)

text \<open>An update in place keeps the identifiers, and so every reference.\<close>

lemma step_update_item:
  assumes "update_item i ch d = (r, d')" "catalog_ok d"
  shows "catalog_ok d'"
proof (cases "d' = d")
  case False
  then obtain row rs rows where u: "sql_update (\<lambda>r. mi_id r = i) (changed_item ch) (menuItems d) = (row # rs, rows)"
    "item_row_error d row = None" "d' = d\<lparr>menuItems := rows\<rparr>"
    using assms(1) by (auto simp: update_item_def split: prod.splits list.splits option.splits app_error.splits)
  obtain x where x: "x \<in> set (menuItems d)" "mi_id x = i" "row = changed_item ch x"
    and rows: "rows = map (\<lambda>r. if mi_id r = i then changed_item ch r else r) (menuItems d)"
    by (rule sql_update_Cons [OF u(1)])
  have key: "mi_id (changed_item ch c) = mi_id c" for c by (simp add: changed_item_def)
  have ids: "map mi_id rows = map mi_id (menuItems d)" "mi_id ` set rows = mi_id ` set (menuItems d)"
    unfolding rows by (rule update_keeps_key update_keeps_keys, rule key)+
  have d: "distinct (map mi_id (menuItems d))" using assms(2) by (simp add: catalog_ok_def items_ok_def)
  have only: "c = x" if "c \<in> set (menuItems d)" "mi_id c = i" for c
    using d x(1,2) that by (metis distinct_map inj_onD)
  have "set rows \<subseteq> insert row (set (menuItems d))" using only x(3) by (auto simp: rows)
  moreover have "0 \<le> mi_basePriceMinor row \<and> mi_categoryId row \<in> cat_id ` set (categories d)"
    using u(2) by (auto simp: item_row_error_def row_by_None split: if_splits)
  ultimately have "items_ok d'" using assms(2) ids by (auto simp: u(3) catalog_ok_def items_ok_def)
  with assms(2) ids show ?thesis by (simp add: catalog_ok_def catalog_parts u(3))
qed (use assms(2) in simp)

lemma step_setAvailability:
  assumes "setAvailability i b d = (r, d')" "catalog_ok d"
  shows "catalog_ok d'"
proof (cases "d' = d")
  case False
  then have d': "d' = d\<lparr>menuItems := map (\<lambda>r. if mi_id r = i then r\<lparr>mi_isAvailable := b\<rparr> else r) (menuItems d)\<rparr>"
    using assms(1) by (auto simp: setAvailability_def sql_update_def split: list.splits)
  have ids: "map mi_id (menuItems d') = map mi_id (menuItems d)" by (simp add: d')
  have "items_ok d'" unfolding items_ok_def ids using assms(2) by (auto simp: d' catalog_ok_def items_ok_def)
  moreover have "links_ok d'" unfolding links_ok_def same_keys [OF ids] using assms(2) by (simp add: d' catalog_ok_def links_ok_def)
  ultimately show ?thesis using assms(2) by (simp add: catalog_ok_def categories_ok_def groups_ok_def options_ok_def d')
qed (use assms(2) in simp)

lemma step_update_group:
  assumes "updateGroup i ch d = (r, d')" "catalog_ok d"
  shows "catalog_ok d'"
proof (cases "d' = d")
  case False
  then obtain row rs rows where u: "sql_update (\<lambda>g. og_id g = i) (changed_group ch) (optionGroups d) = (row # rs, rows)"
    "group_row_error row = None" "d' = d\<lparr>optionGroups := rows\<rparr>"
    using assms(1) by (auto simp: updateGroup_def split: prod.splits list.splits option.splits)
  obtain x where x: "x \<in> set (optionGroups d)" "og_id x = i" "row = changed_group ch x"
    and rows: "rows = map (\<lambda>g. if og_id g = i then changed_group ch g else g) (optionGroups d)"
    by (rule sql_update_Cons [OF u(1)])
  have ids: "map og_id rows = map og_id (optionGroups d)" by (simp add: rows changed_group_def)
  have d: "distinct (map og_id (optionGroups d))" using assms(2) by (simp add: catalog_ok_def groups_ok_def)
  have "c = x" if "c \<in> set (optionGroups d)" "og_id c = i" for c
    using d x(1,2) that by (metis distinct_map inj_onD)
  then have "set rows \<subseteq> insert row (set (optionGroups d))" using x(3) by (auto simp: rows)
  moreover have "0 \<le> og_minSelect row \<and> og_minSelect row \<le> og_maxSelect row"
    using u(2) by (auto simp: group_row_error_def split: if_splits)
  ultimately have "groups_ok d'" using assms(2) ids by (auto simp: u(3) catalog_ok_def groups_ok_def)
  with assms(2) same_keys [OF ids] show ?thesis by (simp add: catalog_ok_def catalog_parts u(3))
qed (use assms(2) in simp)

text \<open>Changes of an option in place.\<close>

lemma step_change_option:
  assumes "d' = d\<lparr>options := map (\<lambda>r. if opt_id r = i then f r else r) (options d)\<rparr>"
    and "\<And>r. opt_id (f r) = opt_id r \<and> opt_groupId (f r) = opt_groupId r" "catalog_ok d"
  shows "catalog_ok d'"
proof -
  have ids: "map opt_id (options d') = map opt_id (options d)" "map opt_groupId (options d') = map opt_groupId (options d)"
    using assms(2) by (simp_all add: assms(1))
  have "options_ok d'"
    unfolding options_ok_def ids(1) same_keys [OF ids(2)] using assms(3) by (simp add: assms(1) catalog_ok_def options_ok_def)
  with assms(3) show ?thesis by (simp add: catalog_ok_def catalog_parts assms(1))
qed

lemma step_option:
  assumes "updateOption i oi d = (opr, d') \<or> setOptionAvailability i b d = (opr, d')" "catalog_ok d"
  shows "catalog_ok d'"
proof (cases "d' = d")
  case False
  with assms(1) have "d' = d\<lparr>options := map (\<lambda>r. if opt_id r = i then changed_option oi r else r) (options d)\<rparr> \<or>
      d' = d\<lparr>options := map (\<lambda>r. if opt_id r = i then r\<lparr>opt_isAvailable := b\<rparr> else r) (options d)\<rparr>"
    by (auto simp: updateOption_def setOptionAvailability_def sql_update_def split: list.splits if_splits)
  then show ?thesis by (elim disjE) (erule step_change_option [OF _ _ assms(2)], simp add: changed_option_def)+
qed (use assms(2) in simp)

lemma links_for_simps:
  "map lnk_optionGroupId (links_for i gs) = gs" "l \<in> set (links_for i gs) \<Longrightarrow> lnk_menuItemId l = i"
  by (simp_all add: links_for_def comp_def case_prod_beta map_snd_enumerate) auto

lemma step_setForItem:
  assumes "setForItem i gs d = (r, d')" "catalog_ok d"
  shows "catalog_ok d'"
proof (cases "d' = d")
  case False
  let ?kept = "filter (\<lambda>l. lnk_menuItemId l \<noteq> i) (menuItemOptionGroups d)"
  have d': "d' = d\<lparr>menuItemOptionGroups := ?kept @ links_for i gs\<rparr>" and gs: "distinct gs" "set gs \<subseteq> og_id ` set (optionGroups d)"
    and i: "i \<in> mi_id ` set (menuItems d)"
    using assms(1) False by (auto simp: setForItem_def Let_def filter_empty_conv row_by_None dest: row_by_SomeD split: option.splits if_splits)
  let ?pair = "\<lambda>l. (lnk_menuItemId l, lnk_optionGroupId l)"
  have "distinct (map ?pair (links_for i gs))"
  proof -
    have "map snd (map ?pair (links_for i gs)) = gs" using links_for_simps(1) [of i gs] by (simp add: comp_def)
    with gs(1) show ?thesis by (metis distinct_map)
  qed
  moreover have "distinct (map ?pair ?kept)"
    using assms(2) by (auto simp: catalog_ok_def links_ok_def distinct_map inj_on_def)
  moreover have "lnk_optionGroupId ` set (links_for i gs) = set gs" by (metis links_for_simps(1) list.set_map)
  ultimately have "links_ok d'"
    using assms(2) gs(2) i links_for_simps(2) [of _ i gs] by (auto simp: d' catalog_ok_def links_ok_def)
  with assms(2) show ?thesis by (simp add: catalog_ok_def catalog_parts d')
qed (use assms(2) in simp)

lemma catalog_step_ok: "catalog_step d d' \<Longrightarrow> catalog_ok d \<Longrightarrow> catalog_ok d'"
  by (induction rule: catalog_step.induct)
    (blast intro: step_create_category step_update_category step_create_item step_update_item step_setAvailability step_setForItem
      step_create_group step_update_group step_create_option step_option)+

lemma catalog_run_ok: "catalog_run d d' \<Longrightarrow> catalog_ok d \<Longrightarrow> catalog_ok d'"
  by (induction rule: rtranclp_induct) (auto intro: catalog_step_ok)

subsection \<open>What pricing reads\<close>

lemma distinct_sorted_keys: "distinct (map k (sort_key f xs)) \<longleftrightarrow> distinct (map k xs)"
  by (rule mset_eq_imp_distinct_iff) (simp add: mset_map)

lemma readCatalog_Some:
  assumes "readCatalog ids d i = Some item"
  obtains r where "r \<in> set (menuItems d)" "mi_id r = i" "i \<in> set ids" "item = catalog_item_of d r"
  using assms by (auto simp: readCatalog_def dest!: map_of_SomeD)

lemma readCatalog_mem:
  assumes "catalog_ok d" "r \<in> set (menuItems d)" "mi_id r \<in> set ids"
  shows "readCatalog ids d (mi_id r) = Some (catalog_item_of d r)"
proof -
  let ?rows = "map (\<lambda>item. (mi_id item, catalog_item_of d item)) (filter (\<lambda>item. List.member ids (mi_id item)) (menuItems d))"
  have "distinct (map mi_id (filter (\<lambda>item. List.member ids (mi_id item)) (menuItems d)))"
    using assms(1) by (simp add: catalog_ok_def items_ok_def distinct_map_filter)
  then have "distinct (map fst (rev ?rows))" by (simp add: rev_map [symmetric] comp_def)
  moreover have "(mi_id r, catalog_item_of d r) \<in> set (rev ?rows)" using assms(2,3) by auto
  ultimately show ?thesis unfolding readCatalog_def by (rule map_of_is_SomeI)
qed

text \<open>The links of an item in order, each with its group.\<close>

definition item_links :: "('p, 'b) db \<Rightarrow> string \<Rightarrow> item_group_link_row list" where
  "item_links d i = sort_key lnk_sortOrder (filter (\<lambda>l. lnk_menuItemId l = i) (menuItemOptionGroups d))"

definition group_of :: "('p, 'b) db \<Rightarrow> item_group_link_row \<Rightarrow> option_group_row" where
  "group_of d l = the (row_by og_id (lnk_optionGroupId l) (optionGroups d))"

lemma linked_group:
  assumes "catalog_ok d" "l \<in> set (item_links d i)"
  shows "row_by og_id (lnk_optionGroupId l) (optionGroups d) = Some (group_of d l)" "og_id (group_of d l) = lnk_optionGroupId l"
proof -
  have "lnk_optionGroupId l \<in> og_id ` set (optionGroups d)" using assms by (auto simp: item_links_def catalog_ok_def links_ok_def)
  then show *: "row_by og_id (lnk_optionGroupId l) (optionGroups d) = Some (group_of d l)"
    by (cases "row_by og_id (lnk_optionGroupId l) (optionGroups d)") (auto simp: row_by_None group_of_def)
  show "og_id (group_of d l) = lnk_optionGroupId l" by (rule row_by_SomeD(1) [OF *])
qed

lemma map_filter_total: "(\<And>x. x \<in> set xs \<Longrightarrow> f x = Some (g x)) \<Longrightarrow> List.map_filter f xs = map g xs"
  by (induction xs) (auto simp: List.map_filter_simps)

lemma item_groups_eq:
  assumes "catalog_ok d"
  shows "item_groups d i = map (\<lambda>l. catalog_group_of d (group_of d l)) (item_links d i)"
  using linked_group(1) [OF assms] unfolding item_groups_def item_links_def [symmetric] by (intro map_filter_total) simp

lemma menu_groups_eq:
  assumes "catalog_ok d"
  shows "menu_groups collate d i = map (\<lambda>l. \<lparr>mg_id = og_id (group_of d l), mg_name = og_name (group_of d l),
    mg_minSelect = og_minSelect (group_of d l), mg_maxSelect = og_maxSelect (group_of d l), mg_sortOrder = lnk_sortOrder l,
    mg_options = menu_options collate d (og_id (group_of d l))\<rparr>) (item_links d i)"
  using linked_group(1) [OF assms] unfolding menu_groups_def item_links_def [symmetric] by (intro map_filter_total) simp

lemma group_options_ids: "map co_id (group_options d g) = map opt_id (sort_key opt_name (filter (\<lambda>r. opt_groupId r = g) (options d)))"
  by (simp add: group_options_def comp_def)

lemma item_of_catalog_wf:
  assumes "catalog_ok d"
  shows "wf_item (catalog_item_of d r)"
proof -
  let ?ls = "item_links d (mi_id r)"
  have groups: "map cg_id (ci_optionGroups (catalog_item_of d r)) = map lnk_optionGroupId ?ls"
    using linked_group(2) [OF assms] by (simp add: catalog_item_of_def item_groups_eq [OF assms] catalog_group_of_def comp_def)
  have pairs: "distinct (map (\<lambda>l. (lnk_menuItemId l, lnk_optionGroupId l)) (menuItemOptionGroups d))"
    using assms by (simp add: catalog_ok_def links_ok_def)
  have dg: "distinct (map lnk_optionGroupId ?ls)"
    unfolding item_links_def distinct_sorted_keys using pairs by (auto simp: distinct_map inj_on_def)
  have dopt: "distinct (map opt_id (options d))" using assms by (simp add: catalog_ok_def options_ok_def)
  have each: "distinct (map co_id (group_options d g))" for g
    unfolding group_options_ids distinct_sorted_keys using dopt by (rule distinct_map_filter)
  have ids: "set (map co_id (group_options d g)) = opt_id ` {o' \<in> set (options d). opt_groupId o' = g}" for g
    unfolding group_options_ids by auto
  have disjoint: "set (map co_id (group_options d g)) \<inter> set (map co_id (group_options d h)) = {}" if "g \<noteq> h" for g h
    using that dopt unfolding ids by (auto simp: distinct_map inj_on_def)
  have "map co_id (item_options (catalog_item_of d r)) = concat (map (\<lambda>g. map co_id (group_options d g)) (map lnk_optionGroupId ?ls))"
    using linked_group(2) [OF assms]
    by (simp add: item_options_def catalog_item_of_def item_groups_eq [OF assms] catalog_group_of_def map_concat comp_def cong: map_cong)
  moreover have "distinct (concat (map (\<lambda>g. map co_id (group_options d g)) gs))" if "distinct gs" for gs
    using that
  proof (induction gs)
    case (Cons g gs)
    then have "set (map co_id (group_options d g)) \<inter> set (concat (map (\<lambda>g. map co_id (group_options d g)) gs)) = {}"
      using disjoint [of g] by fastforce
    with Cons each [of g] show ?case by simp
  qed simp
  ultimately show ?thesis using dg unfolding wf_item_def groups by metis
qed

lemma catalog_wf: "catalog_ok d \<Longrightarrow> wf_catalog (readCatalog ids d)"
  using item_of_catalog_wf by (fastforce simp: wf_catalog_def catalog_item_of_def elim!: readCatalog_Some)

subsection \<open>What the menu shows\<close>

definition shown_options :: "menu_item \<Rightarrow> menu_option list" where
  "shown_options m = concat (map mg_options (mit_optionGroups m))"

definition shown_option :: "menu_item \<Rightarrow> string \<Rightarrow> menu_option option" where
  "shown_option m i = find (\<lambda>p. mo_id p = i) (shown_options m)"

definition shown_price :: "menu_item \<Rightarrow> string list \<Rightarrow> int" where
  "shown_price m ids = max 0 (mit_basePriceMinor m +
     sum_list (map (\<lambda>i. case shown_option m i of None \<Rightarrow> 0 | Some p \<Rightarrow> mo_priceDeltaMinor p) ids))"

definition on_menu :: "string comparator \<Rightarrow> ('p, 'b) db \<Rightarrow> menu_item \<Rightarrow> bool" where
  "on_menu collate d m \<longleftrightarrow> (\<exists>c \<in> set (build_menu collate d). m \<in> set (mc_items c))"

definition as_sold :: "menu_option \<Rightarrow> catalog_option" where
  "as_sold p = \<lparr>co_id = mo_id p, co_name = mo_name p, co_priceDeltaMinor = mo_priceDeltaMinor p, co_isAvailable = mo_isAvailable p\<rparr>"

definition menu_item_of :: "string comparator \<Rightarrow> ('p, 'b) db \<Rightarrow> menu_item_row \<Rightarrow> menu_item" where
  "menu_item_of collate d r = \<lparr>mit_id = mi_id r, mit_name = mi_name r, mit_description = mi_description r,
     mit_basePriceMinor = mi_basePriceMinor r, mit_imageUrl = mi_imageUrl r, mit_isAvailable = mi_isAvailable r,
     mit_sortOrder = mi_sortOrder r, mit_optionGroups = menu_groups collate d (mi_id r)\<rparr>"

lemma on_menu_iff:
  "on_menu collate d m \<longleftrightarrow>
     (\<exists>c \<in> set (categories d). cat_isActive c \<and> (\<exists>r \<in> set (menuItems d). mi_categoryId r = cat_id c \<and> m = menu_item_of collate d r))"
  by (auto simp: on_menu_def build_menu_def menu_items_of_def menu_item_of_def)

lemma menu_options_sold: "mset (map as_sold (menu_options collate d g)) = mset (group_options d g)"
  by (simp add: menu_options_def group_options_def as_sold_def comp_def mset_map)

lemma mset_concat_cong: "(\<And>x. x \<in> set xs \<Longrightarrow> mset (f x) = mset (g x)) \<Longrightarrow> mset (concat (map f xs)) = mset (concat (map g xs))"
  by (induction xs) auto

lemma shown_options_sold:
  assumes "catalog_ok d"
  shows "mset (map as_sold (shown_options (menu_item_of collate d r))) = mset (item_options (catalog_item_of d r))"
proof -
  have "map as_sold (shown_options (menu_item_of collate d r)) =
      concat (map (\<lambda>l. map as_sold (menu_options collate d (og_id (group_of d l)))) (item_links d (mi_id r)))"
    by (simp add: shown_options_def menu_item_of_def menu_groups_eq [OF assms] map_concat comp_def)
  moreover have "item_options (catalog_item_of d r) = concat (map (\<lambda>l. group_options d (og_id (group_of d l))) (item_links d (mi_id r)))"
    by (simp add: item_options_def catalog_item_of_def item_groups_eq [OF assms] catalog_group_of_def comp_def)
  ultimately show ?thesis by (simp only:) (rule mset_concat_cong, rule menu_options_sold)
qed

lemma find_same_mset:
  assumes "mset xs = mset ys" "distinct (map k ys)"
  shows "find (\<lambda>x. k x = i) xs = find (\<lambda>x. k x = i) ys"
proof -
  have d: "distinct (map k xs)" using assms by (metis mset_eq_imp_distinct_iff mset_map)
  have "row_by k i xs = row_by k i ys"
  proof (cases "row_by k i ys")
    case None
    then show ?thesis using assms(1) by (metis row_by_None mset_eq_setD)
  next
    case (Some y)
    then have "y \<in> set ys" "k y = i" using row_by_SomeD [OF Some] by simp_all
    then show ?thesis using Some row_by_mem [OF d, of y] mset_eq_setD [OF assms(1)] by simp
  qed
  then show ?thesis by (simp add: row_by_def sql_find_def)
qed

lemma find_as_sold: "find (\<lambda>x. co_id x = i) (map as_sold ps) = map_option as_sold (find (\<lambda>p. mo_id p = i) ps)"
  by (induction ps) (auto simp: as_sold_def)

lemma option_shown:
  assumes "catalog_ok d"
  shows "option_named (catalog_item_of d r) i = map_option as_sold (shown_option (menu_item_of collate d r) i)"
proof -
  have "distinct (map co_id (item_options (catalog_item_of d r)))" using item_of_catalog_wf [OF assms, of r] by (simp add: wf_item_def)
  from find_same_mset [OF shown_options_sold [OF assms, of collate r] this, of i] show ?thesis
    by (simp add: option_named_def shown_option_def find_as_sold)
qed

lemma price_shown:
  assumes "catalog_ok d"
  shows "unit_price_spec (catalog_item_of d r) ids = shown_price (menu_item_of collate d r) ids"
proof -
  have "option_delta (catalog_item_of d r) i = (case shown_option (menu_item_of collate d r) i of None \<Rightarrow> 0 | Some p \<Rightarrow> mo_priceDeltaMinor p)" for i
    by (simp add: option_delta_def option_shown [OF assms, of r i collate] as_sold_def split: option.splits)
  moreover have "ci_basePriceMinor (catalog_item_of d r) = mit_basePriceMinor (menu_item_of collate d r)"
    by (simp add: catalog_item_of_def menu_item_of_def)
  ultimately show ?thesis by (simp add: unit_price_spec_def shown_price_def cong: map_cong)
qed

lemma sold_item_shown:
  assumes "catalog_ok d" "readCatalog ids d i = Some item" "line_sellable item chosen" "selection_ok item chosen"
  obtains m where "on_menu collate d m" "mit_id m = i" "mit_isAvailable m" "ci_name item = mit_name m"
    "unit_price_spec item chosen = shown_price m chosen" "\<forall>j \<in> set chosen. \<exists>p. shown_option m j = Some p \<and> mo_isAvailable p"
proof -
  obtain r where r: "r \<in> set (menuItems d)" "mi_id r = i" "item = catalog_item_of d r" using readCatalog_Some [OF assms(2)] by blast
  have on: "mi_isAvailable r" "\<exists>c. row_by cat_id (mi_categoryId r) (categories d) = Some c \<and> cat_isActive c"
    using assms(3) r(3) by (auto simp: line_sellable_def catalog_item_of_def split: option.splits)
  then obtain c where c: "c \<in> set (categories d)" "cat_id c = mi_categoryId r" "cat_isActive c" by (auto dest: row_by_SomeD)
  have "\<exists>p. shown_option (menu_item_of collate d r) j = Some p \<and> mo_isAvailable p" if "j \<in> set chosen" for j
  proof -
    from that assms(4) have "option_named item j \<noteq> None" by (auto simp: selection_ok_def option_named_def find_None_iff)
    then obtain q where q: "option_named item j = Some q" by blast
    then have "q \<in> set (item_options item)" "co_id q = j" by (auto simp: option_named_def find_Some_iff)
    with that assms(3) have "co_isAvailable q" by (auto simp: line_sellable_def)
    with q show ?thesis unfolding r(3) option_shown [OF assms(1), of r j collate] by (auto simp: as_sold_def)
  qed
  moreover have "on_menu collate d (menu_item_of collate d r)" using r(1) c on_menu_iff by metis
  ultimately show ?thesis
    using that [of "menu_item_of collate d r"] on(1) r price_shown [OF assms(1), of r chosen collate]
    by (simp add: menu_item_of_def catalog_item_of_def)
qed

section \<open>Properties\<close>

text \<open>
  C32. Customers pay what the menu shows. Whatever the back office has done to a well-formed
  catalog, it is still well formed (names, references and bounds), and an order that is accepted
  against it is priced line by line off the menu the kiosks read at that moment: the item is on that
  menu and available, so is every option chosen, and the unit price is the price shown plus the
  surcharges shown, never below zero.
\<close>

theorem customers_pay_menu_prices:
  assumes "catalog_run d0 d" "catalog_ok d0" "priceOrder rqs (readCatalog (map rq_menuItemId rqs) d) vat = Inr p"
  shows "catalog_ok d \<and> length (pr_lines p) = length rqs \<and>
    (\<forall>k < length rqs. \<exists>m. on_menu collate d m \<and> mit_id m = rq_menuItemId (rqs ! k) \<and> mit_isAvailable m \<and>
       pl_nameSnapshot (pr_lines p ! k) = mit_name m \<and>
       (\<forall>i \<in> set (rq_optionIds (rqs ! k)). \<exists>q. shown_option m i = Some q \<and> mo_isAvailable q) \<and>
       pl_unitPriceMinorSnapshot (pr_lines p ! k) = shown_price m (rq_optionIds (rqs ! k)))"
proof -
  let ?c = "readCatalog (map rq_menuItemId rqs) d"
  have ok: "catalog_ok d" using catalog_run_ok assms(1,2) by blast
  note cases = priceOrder_cases [OF catalog_wf [OF ok, of "map rq_menuItemId rqs"], of rqs vat]
  have shape: "well_shaped ?c rqs" using cases(1) assms(3) by fastforce
  have sell: "\<forall>r \<in> set rqs. sellable ?c r" using cases(2) [OF shape] assms(3) by fastforce
  have p: "pr_lines p = spec_lines ?c rqs" using cases(3) [OF shape sell] assms(3) by (auto simp: order_spec_def Let_def)
  have "\<exists>m. on_menu collate d m \<and> mit_id m = rq_menuItemId r \<and> mit_isAvailable m \<and> pl_nameSnapshot line = mit_name m \<and>
       (\<forall>i \<in> set (rq_optionIds r). \<exists>q. shown_option m i = Some q \<and> mo_isAvailable q) \<and>
       pl_unitPriceMinorSnapshot line = shown_price m (rq_optionIds r)"
    if "r \<in> set rqs" "line = priced_line_spec (the (?c (rq_menuItemId r))) r" for r line
  proof -
    from sell that(1) obtain item where item: "?c (rq_menuItemId r) = Some item" "line_sellable item (rq_optionIds r)"
      by (auto simp: sellable_def split: option.splits)
    have sel: "selection_ok item (rq_optionIds r)" using shape that(1) item(1) by (simp add: well_shaped_def)
    obtain m where m: "on_menu collate d m" "mit_id m = rq_menuItemId r" "mit_isAvailable m" "ci_name item = mit_name m"
      "unit_price_spec item (rq_optionIds r) = shown_price m (rq_optionIds r)"
      "\<forall>j \<in> set (rq_optionIds r). \<exists>q. shown_option m j = Some q \<and> mo_isAvailable q"
      by (rule sold_item_shown [OF ok item sel])
    have "pl_nameSnapshot line = mit_name m" "pl_unitPriceMinorSnapshot line = shown_price m (rq_optionIds r)"
      using m(4,5) by (simp_all add: that(2) item(1) priced_line_spec_def)
    with m show ?thesis by blast
  qed
  then show ?thesis using ok p by (simp add: spec_lines_def)
qed

definition croissant_menu :: "(nat, nat) db" where
  "croissant_menu = \<lparr>categories = [\<lparr>cat_id = ''c1'', cat_name = ''Bakery'', cat_sortOrder = 0, cat_isActive = True\<rparr>],
     menuItems = [\<lparr>mi_id = ''m1'', mi_categoryId = ''c1'', mi_name = ''Croissant'', mi_description = None, mi_basePriceMinor = 6000,
       mi_imageUrl = None, mi_isAvailable = True, mi_sortOrder = 0\<rparr>],
     optionGroups = [\<lparr>og_id = ''g1'', og_name = ''Filling'', og_minSelect = 0, og_maxSelect = 1\<rparr>],
     options = [\<lparr>opt_id = ''o1'', opt_groupId = ''g1'', opt_name = ''Almond'', opt_priceDeltaMinor = 1500, opt_isDefault = False,
       opt_isAvailable = True\<rparr>],
     menuItemOptionGroups = [], kioskDevices = [], orders = [], orderItems = [], orderItemOptions = [], orderStatusHistory = [],
     orderNumberCounters = [], payments = [], refunds = [], paymentEvents = [], idempotencyKeys = []\<rparr>"

definition filled_menu :: "(nat, nat) db" where
  "filled_menu = croissant_menu\<lparr>menuItemOptionGroups := [\<lparr>lnk_menuItemId = ''m1'', lnk_optionGroupId = ''g1'', lnk_sortOrder = 0\<rparr>]\<rparr>"

definition two_filled :: "requested_item list" where
  "two_filled = [\<lparr>rq_menuItemId = ''m1'', rq_quantity = 2, rq_optionIds = [''o1''], rq_notes = None\<rparr>]"

theorem customers_pay_menu_prices_witness:
  "\<exists>p m. priceOrder two_filled (readCatalog [''m1''] filled_menu) 700 = Inr p \<and> on_menu default filled_menu m \<and> mit_id m = ''m1'' \<and>
     pl_unitPriceMinorSnapshot (pr_lines p ! 0) = shown_price m [''o1'']"
proof -
  have ok: "catalog_ok croissant_menu" by (simp add: catalog_ok_def catalog_parts croissant_menu_def)
  have "snd (setForItem ''m1'' [''g1''] croissant_menu) = filled_menu"
    by code_simp
  then have "catalog_step croissant_menu filled_menu" using catalog_step.setForItem by (metis prod.collapse)
  then have run: "catalog_run croissant_menu filled_menu" by (rule r_into_rtranclp)
  have ids: "map rq_menuItemId two_filled = [''m1'']" by (simp add: two_filled_def)
  have "case priceOrder two_filled (readCatalog [''m1''] filled_menu) 700 of Inr _ \<Rightarrow> True | Inl _ \<Rightarrow> False" by code_simp
  then obtain p where p: "priceOrder two_filled (readCatalog [''m1''] filled_menu) 700 = Inr p" by (auto split: sum.splits)
  show ?thesis
    using customers_pay_menu_prices [OF run ok, of two_filled 700 p default] p ids by (auto simp: two_filled_def)
qed

end
