(* ===== verification/MenuCache.thy ===== *)
theory MenuCache
  imports Catalog
begin

text \<open>
  The cache in front of the menu: \<open>menu-cache.service.ts\<close>, \<open>document\<close> of
  \<open>menu.service.ts\<close>, the polling endpoint of \<open>menu.controller.ts\<close> and the invalidation in
  \<open>catalog-write.interceptor.ts\<close>.

  The state is the database, the version counter and the cached documents with their deadlines.
  \<open>net\<close> says which of the Redis commands of a request get through, in the order they are
  sent; \<open>gap\<close> is what other requests do between two awaits.
\<close>

section \<open>Definitions\<close>

record ('p, 'b) menu_world =
  mw_db :: "('p, 'b) db"
  mw_version :: "int option"
  mw_docs :: "string \<Rightarrow> (string \<times> int) option"

definition DOCUMENT_KEY_PREFIX :: string where "DOCUMENT_KEY_PREFIX = ''catalog:menu:v''"
definition DOCUMENT_TTL_SECONDS :: int where "DOCUMENT_TTL_SECONDS = 3600"

definition incr_version :: "('p, 'b) menu_world \<Rightarrow> int \<times> ('p, 'b) menu_world" where
  "incr_version s =
     (let v = (case mw_version s of None \<Rightarrow> 1 | Some n \<Rightarrow> n + 1) in (v, s\<lparr>mw_version := Some v\<rparr>))"

definition currentVersion ::
  "(nat \<Rightarrow> bool) \<Rightarrow> (nat \<Rightarrow> ('p, 'b) menu_world \<Rightarrow> ('p, 'b) menu_world) \<Rightarrow> ('p, 'b) menu_world \<Rightarrow>
   string option \<times> ('p, 'b) menu_world" where
  "currentVersion net gap s =
     (if \<not> net 0 then (None, s)
      else case mw_version s of
             Some v \<Rightarrow> (Some (string_of_int v), s)
           | None \<Rightarrow>
               let s1 = gap 0 s in
               if \<not> net 1 then (None, s1)
               else case incr_version s1 of (v, s2) \<Rightarrow> (Some (string_of_int v), s2))"

definition read_cached :: "bool \<Rightarrow> int \<Rightarrow> string \<Rightarrow> ('p, 'b) menu_world \<Rightarrow> string option" where
  "read_cached reachable now version s =
     (if \<not> reachable then None
      else case mw_docs s (DOCUMENT_KEY_PREFIX @ version) of
             None \<Rightarrow> None
           | Some (doc, expires) \<Rightarrow> if now < expires then Some doc else None)"

definition write_cached :: "bool \<Rightarrow> int \<Rightarrow> string \<Rightarrow> string \<Rightarrow> ('p, 'b) menu_world \<Rightarrow> ('p, 'b) menu_world" where
  "write_cached reachable now version doc s =
     (if \<not> reachable then s
      else s\<lparr>mw_docs := (mw_docs s)(DOCUMENT_KEY_PREFIX @ version \<mapsto> (doc, now + DOCUMENT_TTL_SECONDS * 1000))\<rparr>)"

definition bump :: "bool \<Rightarrow> ('p, 'b) menu_world \<Rightarrow> ('p, 'b) menu_world" where
  "bump reachable s = (if reachable then snd (incr_version s) else s)"

definition render :: "string comparator \<Rightarrow> ('p, 'b) db \<Rightarrow> string" where
  "render collate d = json_stringify (menu_json (build_menu collate d))"

definition document ::
  "string comparator \<Rightarrow> (nat \<Rightarrow> bool) \<Rightarrow> (nat \<Rightarrow> ('p, 'b) menu_world \<Rightarrow> ('p, 'b) menu_world) \<Rightarrow> int \<Rightarrow> string option \<Rightarrow>
   ('p, 'b) menu_world \<Rightarrow> string \<times> ('p, 'b) menu_world" where
  "document collate net gap now version s =
     (case version of
        None \<Rightarrow> (render collate (mw_db s), s)
      | Some v \<Rightarrow>
          (case read_cached (net 2) now v s of
             Some cached \<Rightarrow> (cached, s)
           | None \<Rightarrow>
               let s1 = gap 2 s; doc = render collate (mw_db s1) in (doc, write_cached (net 3) now v doc (gap 3 s1))))"

definition etagFor :: "string \<Rightarrow> string" where
  "etagFor version = ''W/'' @ [CHR 0x22] @ ''catalog-'' @ version @ [CHR 0x22]"

definition matchesEtag :: "string option \<Rightarrow> string \<Rightarrow> bool" where
  "matchesEtag header etag =
     (case header of
        None \<Rightarrow> False
      | Some h \<Rightarrow> js_trim h = ''*'' \<or> list_ex (\<lambda>candidate. js_trim candidate = etag) (split_on (CHR '','') h))"

record menu_response =
  mr_status :: nat
  mr_etag :: "string option"
  mr_body :: "string option"

definition get_menu ::
  "string comparator \<Rightarrow> (nat \<Rightarrow> bool) \<Rightarrow> (nat \<Rightarrow> ('p, 'b) menu_world \<Rightarrow> ('p, 'b) menu_world) \<Rightarrow> int \<Rightarrow> string option \<Rightarrow>
   ('p, 'b) menu_world \<Rightarrow> menu_response \<times> ('p, 'b) menu_world" where
  "get_menu collate net gap now ifNoneMatch s =
     (case currentVersion net gap s of
        (version, s1) \<Rightarrow>
          let etag = map_option etagFor version in
          if (case etag of None \<Rightarrow> False | Some e \<Rightarrow> matchesEtag ifNoneMatch e)
          then (\<lparr>mr_status = 304, mr_etag = etag, mr_body = None\<rparr>, s1)
          else case document collate net gap now version (gap 1 s1) of
                 (doc, s2) \<Rightarrow> (\<lparr>mr_status = 200, mr_etag = etag, mr_body = Some doc\<rparr>, s2))"

definition intercept ::
  "string \<Rightarrow> bool \<Rightarrow> (('p, 'b) menu_world \<Rightarrow> ('p, 'b) menu_world) \<Rightarrow> (('p, 'b) db \<Rightarrow> 'r result \<times> ('p, 'b) db) \<Rightarrow>
   ('p, 'b) menu_world \<Rightarrow> 'r result \<times> ('p, 'b) menu_world" where
  "intercept httpMethod reachable gap handle s =
     (case handle (mw_db s) of
        (Inl e, d) \<Rightarrow> (Inl e, s\<lparr>mw_db := d\<rparr>)
      | (Inr body, d) \<Rightarrow>
          (Inr body, if httpMethod = ''GET'' then s\<lparr>mw_db := d\<rparr> else bump reachable (gap (s\<lparr>mw_db := d\<rparr>))))"

section \<open>Runs\<close>

text \<open>
  What may happen from a moment on at which the version is \<open>since\<close>: the database changes, by
  whatever request, to one of the databases \<open>held\<close>; a version is bumped; a client polls, with anything
  in its gaps; and a poll that began before that moment stores the document it built, of whatever
  database, under the older version it had read.
\<close>

inductive menu_run ::
  "string comparator \<Rightarrow> int \<Rightarrow> ('p, 'b) db set \<Rightarrow> ('p, 'b) menu_world \<Rightarrow> ('p, 'b) menu_world \<Rightarrow> bool"
  for collate since held where
  start: "menu_run collate since held s s"
| commit: "menu_run collate since held s s1 \<Longrightarrow> d \<in> held \<Longrightarrow> menu_run collate since held s (s1\<lparr>mw_db := d\<rparr>)"
| bump: "menu_run collate since held s s1 \<Longrightarrow> menu_run collate since held s (bump reachable s1)"
| poll: "menu_run collate since held s s1 \<Longrightarrow> (\<And>k x. menu_run collate since held x (gap k x)) \<Longrightarrow>
    get_menu collate net gap now ifNoneMatch s1 = (resp, s2) \<Longrightarrow> menu_run collate since held s s2"
| late: "menu_run collate since held s s1 \<Longrightarrow> v < since \<Longrightarrow>
    menu_run collate since held s (write_cached True now (string_of_int v) doc s1)"

section \<open>Lemmas\<close>

lemma menu_run_trans:
  "menu_run collate since held t u \<Longrightarrow> menu_run collate since held s t \<Longrightarrow> menu_run collate since held s u"
  by (induction rule: menu_run.induct) (auto intro: menu_run.intros)

definition key_of :: "int \<Rightarrow> string" where "key_of v = DOCUMENT_KEY_PREFIX @ string_of_int v"

lemma key_of_inj [simp]: "key_of v = key_of w \<longleftrightarrow> v = w"
  by (auto simp: key_of_def string_of_int_inject)

lemma cached_key: "DOCUMENT_KEY_PREFIX @ string_of_int v = key_of v"
  by (simp add: key_of_def)

text \<open>
  The invariant of the store since that moment: documents lie at or below the current version, and
  those of that moment's version or a later one show one of the databases held from then on.
\<close>

definition recent :: "string comparator \<Rightarrow> ('p, 'b) db set \<Rightarrow> string \<Rightarrow> bool" where
  "recent collate held doc \<longleftrightarrow> (\<exists>d \<in> held. doc = render collate d)"

definition fresh_at :: "string comparator \<Rightarrow> int \<Rightarrow> ('p, 'b) db set \<Rightarrow> int \<Rightarrow> ('p, 'b) menu_world \<Rightarrow> bool" where
  "fresh_at collate since held w s \<longleftrightarrow> mw_version s = Some w \<and> since \<le> w \<and> mw_db s \<in> held \<and>
     (\<forall>v doc expires. mw_docs s (key_of v) = Some (doc, expires) \<longrightarrow> v \<le> w \<and> (since \<le> v \<longrightarrow> recent collate held doc))"

lemma fresh_write:
  assumes "fresh_at collate since held w s" "v \<le> w" "since \<le> v \<longrightarrow> recent collate held doc"
  shows "fresh_at collate since held w (write_cached reachable now (string_of_int v) doc s)"
  using assms by (auto simp: fresh_at_def write_cached_def cached_key)

lemma fresh_read:
  assumes "fresh_at collate since held w s" "read_cached reachable now (string_of_int v) s = Some doc" "since \<le> v"
  shows "recent collate held doc"
proof -
  obtain expires where "mw_docs s (key_of v) = Some (doc, expires)"
    using assms(2) by (auto simp: read_cached_def cached_key split: option.splits if_splits)
  with assms(1,3) show ?thesis unfolding fresh_at_def by blast
qed

lemma poll_fresh:
  assumes "fresh_at collate since held w s"
    and gap: "\<And>k x w. fresh_at collate since held w x \<Longrightarrow> \<exists>w' \<ge> w. fresh_at collate since held w' (gap k x)"
    and "get_menu collate net gap now ifNoneMatch s = (resp, s2)"
  shows "(\<exists>w' \<ge> w. fresh_at collate since held w' s2) \<and>
    (mr_status resp = 304 \<and> mr_etag resp = Some (etagFor (string_of_int w)) \<and> matchesEtag ifNoneMatch (etagFor (string_of_int w)) \<or>
     mr_status resp = 200 \<and> (\<exists>doc. mr_body resp = Some doc \<and> recent collate held doc))"
proof -
  have w: "mw_version s = Some w" "since \<le> w" using assms(1) by (simp_all add: fresh_at_def)
  obtain w1 where w1: "w \<le> w1" "fresh_at collate since held w1 (gap 1 s)" using gap [OF assms(1)] by blast
  have run: "recent collate held (render collate (mw_db x))" if "fresh_at collate since held u x" for u x
    using that by (auto simp: fresh_at_def recent_def)
  show ?thesis
  proof (cases "net 0")
    case False
    then show ?thesis using assms(3) w1 run [OF w1(2)]
      by (auto simp: get_menu_def currentVersion_def document_def Let_def)
  next
    case True
    then have ver: "currentVersion net gap s = (Some (string_of_int w), s)" by (simp add: currentVersion_def w)
    show ?thesis
    proof (cases "matchesEtag ifNoneMatch (etagFor (string_of_int w))")
      case True
      then show ?thesis using assms(1,3) by (auto simp: get_menu_def ver Let_def)
    next
      case no: False
      obtain w2 where w2: "w1 \<le> w2" "fresh_at collate since held w2 (gap 2 (gap 1 s))" using gap [OF w1(2)] by blast
      obtain w3 where w3: "w2 \<le> w3" "fresh_at collate since held w3 (gap 3 (gap 2 (gap 1 s)))" using gap [OF w2(2)] by blast
      show ?thesis
      proof (cases "read_cached (net 2) now (string_of_int w) (gap 1 s)")
        case None
        let ?doc = "render collate (mw_db (gap 2 (gap 1 s)))"
        have s2: "s2 = write_cached (net 3) now (string_of_int w) ?doc (gap 3 (gap 2 (gap 1 s)))"
          and resp: "mr_status resp = 200" "mr_body resp = Some ?doc"
          using assms(3) no None by (auto simp: get_menu_def ver document_def Let_def)
        have "fresh_at collate since held w3 s2"
          using fresh_write [OF w3(2), of w ?doc "net 3" now] run [OF w2(2)] w1(1) w2(1) w3(1) unfolding s2 by simp
        moreover have "w \<le> w3" using w1(1) w2(1) w3(1) by linarith
        ultimately show ?thesis using resp run [OF w2(2)] by blast
      next
        case (Some doc)
        then have "s2 = gap 1 s" "mr_status resp = 200" "mr_body resp = Some doc"
          using assms(3) no by (auto simp: get_menu_def ver document_def Let_def)
        with w1 fresh_read [OF w1(2) Some w(2)] show ?thesis by blast
      qed
    qed
  qed
qed

lemma run_fresh:
  "menu_run collate since held s s' \<Longrightarrow> fresh_at collate since held w s \<Longrightarrow> \<exists>w' \<ge> w. fresh_at collate since held w' s'"
proof (induction arbitrary: w rule: menu_run.induct)
  case (commit s s1 d)
  then obtain w' where "w \<le> w'" "fresh_at collate since held w' s1" by blast
  with commit.hyps(2) show ?case by (auto simp: fresh_at_def)
next
  case (bump s s1 reachable)
  then obtain w' where w': "w \<le> w'" "fresh_at collate since held w' s1" by blast
  then have "fresh_at collate since held (if reachable then w' + 1 else w') (MenuCache.bump reachable s1)"
    by (fastforce simp: fresh_at_def bump_def incr_version_def Let_def)
  moreover have "w \<le> (if reachable then w' + 1 else w')" using w'(1) by simp
  ultimately show ?case by blast
next
  case (poll s s1 gap net now ifNoneMatch resp s2)
  obtain w' where w': "w \<le> w'" "fresh_at collate since held w' s1" using poll.IH(1) poll.prems by blast
  with poll_fresh [OF w'(2) poll.IH(2) poll.hyps(3)] show ?case by (meson order_trans)
next
  case (late s s1 v now doc)
  then obtain w' where w': "w \<le> w'" "fresh_at collate since held w' s1" by blast
  then have "since \<le> w'" by (simp add: fresh_at_def)
  with fresh_write [OF w'(2), of v doc True now] late.hyps(2) w'(1) show ?case by fastforce
qed auto

text \<open>The same for a store that starts cold: whatever runs, no document lies above the version.\<close>

definition store_ok :: "('p, 'b) menu_world \<Rightarrow> bool" where
  "store_ok s \<longleftrightarrow> (\<forall>w. mw_version s = Some w \<longrightarrow> 0 < w) \<and>
     (\<forall>v doc expires. 0 < v \<longrightarrow> mw_docs s (key_of v) = Some (doc, expires) \<longrightarrow> (\<exists>w. mw_version s = Some w \<and> v \<le> w))"

definition reached :: "int \<Rightarrow> ('p, 'b) menu_world \<Rightarrow> bool" where
  "reached v s \<longleftrightarrow> (\<exists>w. mw_version s = Some w \<and> v \<le> w)"

lemma store_incr:
  assumes "store_ok s" "incr_version s = (v, s')"
  shows "store_ok s' \<and> 0 < v \<and> mw_version s' = Some v \<and> (\<forall>u. reached u s \<longrightarrow> reached u s')"
  using assms by (fastforce simp: incr_version_def Let_def store_ok_def reached_def split: option.splits)

lemma store_write:
  assumes "store_ok s" "0 < v \<longrightarrow> reached v s"
  shows "store_ok (write_cached reachable now (string_of_int v) doc s) \<and>
    (\<forall>u. reached u s \<longrightarrow> reached u (write_cached reachable now (string_of_int v) doc s))"
  using assms by (auto simp: store_ok_def reached_def write_cached_def cached_key)

lemma currentVersion_store:
  assumes "store_ok s" "\<And>k x. store_ok x \<Longrightarrow> store_ok (gap k x) \<and> (\<forall>u. reached u x \<longrightarrow> reached u (gap k x))"
    and "currentVersion net gap s = (version, s1)"
  shows "store_ok s1 \<and> (\<forall>u. reached u s \<longrightarrow> reached u s1) \<and> (version = None \<or> (\<exists>v. version = Some (string_of_int v) \<and> reached v s1))"
proof (cases "mw_version s")
  case (Some w)
  then show ?thesis using assms(1,3) by (auto simp: currentVersion_def reached_def split: if_splits)
next
  case None
  have g: "store_ok (gap 0 s)" "\<forall>u. reached u s \<longrightarrow> reached u (gap 0 s)" using assms(1,2) by blast+
  show ?thesis
  proof (cases "net 0 \<and> net 1")
    case True
    obtain v s2 where "incr_version (gap 0 s) = (v, s2)" by fastforce
    with store_incr [OF g(1) this] True None assms(3) g(2) show ?thesis
      by (fastforce simp: currentVersion_def Let_def reached_def)
  next
    case False
    with assms(1,3) None g show ?thesis by (auto simp: currentVersion_def Let_def split: if_splits)
  qed
qed

lemma store_db [simp]: "store_ok (s\<lparr>mw_db := d\<rparr>) = store_ok s" "reached u (s\<lparr>mw_db := d\<rparr>) = reached u s"
proof -
  have "mw_version (s\<lparr>mw_db := d\<rparr>) = mw_version s" "mw_docs (s\<lparr>mw_db := d\<rparr>) = mw_docs s" by simp_all
  then show "store_ok (s\<lparr>mw_db := d\<rparr>) = store_ok s" "reached u (s\<lparr>mw_db := d\<rparr>) = reached u s"
    by (simp_all only: store_ok_def reached_def)
qed

lemma run_store: "menu_run collate 0 held s s' \<Longrightarrow> store_ok s \<Longrightarrow> store_ok s' \<and> (\<forall>u. reached u s \<longrightarrow> reached u s')"
proof (induction rule: menu_run.induct)
  case (commit s s1 d)
  then show ?case by simp
next
  case (bump s s1 reachable)
  then show ?case using store_incr [of s1] by (cases "incr_version s1") (auto simp: bump_def)
next
  case (poll s s1 gap net now ifNoneMatch resp s2)
  have ok: "store_ok s1" "\<forall>u. reached u s \<longrightarrow> reached u s1" using poll.IH(1) poll.prems by blast+
  note gap = poll.IH(2)
  obtain version sa where cv: "currentVersion net gap s1 = (version, sa)" by fastforce
  have sa: "store_ok sa" "\<forall>u. reached u s1 \<longrightarrow> reached u sa"
    "version = None \<or> (\<exists>v. version = Some (string_of_int v) \<and> reached v sa)"
    using currentVersion_store [OF ok(1) gap cv] by blast+
  let ?b = "gap 1 sa" and ?d = "gap 3 (gap 2 (gap 1 sa))"
  note b = gap [OF sa(1), of 1]
  note c = gap [OF conjunct1 [OF b], of 2]
  have d: "store_ok ?d" "\<forall>u. reached u sa \<longrightarrow> reached u ?d" using b c gap [OF conjunct1 [OF c], of 3] by simp_all
  consider "s2 = sa" | "s2 = ?b" | v doc where "version = Some v" "s2 = write_cached (net 3) now v doc ?d"
    using poll.hyps(3) by (auto simp: get_menu_def cv document_def Let_def split: if_splits option.splits)
  then show ?case
  proof cases
    case 3
    then obtain n where n: "v = string_of_int n" "reached n ?d" using sa(3) d(2) by auto
    with store_write [OF d(1), of n "net 3" now doc] 3(2) d(2) sa(2) ok(2) show ?thesis by simp
  qed (use sa b ok(2) in \<open>simp_all\<close>)
next
  case (late s s1 v now doc)
  then show ?case using store_write [of s1 v True now doc] by auto
qed simp

section \<open>Properties\<close>

text \<open>
  C34. No kiosk is shown a menu from before a change that has been acknowledged. The cache starts
  cold; polls, edits and failed Redis commands interleave as they like. Once the response to a
  successful edit is on its way, its invalidation having reached Redis, let \<open>held\<close> be any set with
  the database of that moment and every database committed from then on. Every later poll then
  answers with the rendering of a database of \<open>held\<close>, or with a 304 to a client that presented the tag of
  a version at least as new as the one the edit made current, which is newer than every version
  before the edit. Polls that were under way meanwhile may still store what they built; it is never
  served again. In particular, while nothing else changes the menu, every document served is the
  rendering of the edited one.
\<close>

theorem menu_never_stale:
  assumes "menu_run collate 0 UNIV cold s" "mw_version cold = None" "mw_docs cold = (\<lambda>_. None)"
    and "\<And>x. menu_run collate 0 UNIV x (during x)" "httpMethod \<noteq> ''GET''"
    and "intercept httpMethod True during handle s = (Inr body, s1)" "mw_version s1 = Some since" "mw_db s1 \<in> held"
    and "menu_run collate since held s1 s2" "\<And>k x. menu_run collate since held x (gap k x)"
    and "get_menu collate net gap now ifNoneMatch s2 = (resp, s3)"
  shows "(mr_status resp = 200 \<and> (\<exists>d \<in> held. mr_body resp = Some (render collate d)) \<or>
     mr_status resp = 304 \<and> (\<exists>w \<ge> since. mr_etag resp = Some (etagFor (string_of_int w)) \<and>
       matchesEtag ifNoneMatch (etagFor (string_of_int w)))) \<and>
    (\<forall>v. mw_version s = Some v \<longrightarrow> v < since)"
proof -
  obtain d where d: "handle (mw_db s) = (Inr body, d)" and s1: "s1 = snd (incr_version (during (s\<lparr>mw_db := d\<rparr>)))"
    using assms(5,6) by (auto simp: intercept_def bump_def split: prod.splits sum.splits)
  let ?m = "during (s\<lparr>mw_db := d\<rparr>)"
  have "store_ok cold" by (simp add: store_ok_def assms(2,3))
  then have "store_ok (s\<lparr>mw_db := d\<rparr>)" using run_store [OF assms(1)] by simp
  then have ok: "store_ok ?m" and reach: "reached u s \<longrightarrow> reached u ?m" for u
    using run_store [OF assms(4) [of "s\<lparr>mw_db := d\<rparr>"]] by simp_all
  have older: "v < since" if "reached v ?m" for v
    using that assms(7) unfolding s1 by (auto simp: reached_def incr_version_def Let_def)
  have "v < since" if "mw_docs s1 (key_of v) = Some (doc, expires)" for v doc expires
  proof (cases "0 < v")
    case True
    have "mw_docs ?m (key_of v) = Some (doc, expires)" using that unfolding s1 by (simp add: incr_version_def Let_def)
    with True ok have "reached v ?m" unfolding store_ok_def reached_def by blast
    then show ?thesis by (rule older)
  next
    case False
    moreover have "0 < since" using store_incr [OF ok prod.collapse [symmetric]] assms(7) unfolding s1 by simp
    ultimately show ?thesis by simp
  qed
  then have "fresh_at collate since held since s1" using assms(7,8) by (force simp: fresh_at_def)
  then obtain w where w: "since \<le> w" "fresh_at collate since held w s2" using run_fresh [OF assms(9)] by blast
  have "v < since" if "mw_version s = Some v" for v using older reach that by (simp add: reached_def)
  with poll_fresh [OF w(2) run_fresh [OF assms(10)] assms(11)] w(1) show ?thesis
    unfolding recent_def by blast
qed

definition closed_kitchen :: "(nat, nat) menu_world" where
  "closed_kitchen = \<lparr>mw_db = croissant_menu, mw_version = None, mw_docs = (\<lambda>_. None)\<rparr>"

theorem menu_never_stale_witness:
  "let s1 = snd (intercept ''PATCH'' True id (setAvailability ''m1'' False) closed_kitchen)
   in mr_body (fst (get_menu default (\<lambda>_. True) (\<lambda>_. id) 0 None s1)) = Some (render default (mw_db s1)) \<and>
      mw_db s1 \<noteq> mw_db closed_kitchen"
proof -
  let ?s1 = "snd (intercept ''PATCH'' True id (setAvailability ''m1'' False) closed_kitchen)"
  let ?poll = "get_menu default (\<lambda>_. True) (\<lambda>_. id) 0 None ?s1"
  obtain body where i: "intercept ''PATCH'' True id (setAvailability ''m1'' False) closed_kitchen = (Inr body, ?s1)" and v: "mw_version ?s1 = Some 1"
    by (simp add: intercept_def setAvailability_def sql_update_def closed_kitchen_def croissant_menu_def bump_def incr_version_def)
  have changed: "mw_db ?s1 \<noteq> mw_db closed_kitchen"
    by (simp add: intercept_def setAvailability_def sql_update_def closed_kitchen_def croissant_menu_def bump_def incr_version_def
        db.defs)
  have run: "menu_run default n held x (id x)" for n held and x :: "(nat, nat) menu_world" by (simp add: menu_run.start)
  have n: "mr_status (fst ?poll) \<noteq> 304"
    using v by (simp add: get_menu_def currentVersion_def matchesEtag_def case_prod_beta Let_def)
  have cold: "menu_run default 0 UNIV closed_kitchen closed_kitchen" "mw_version closed_kitchen = None" "mw_docs closed_kitchen = (\<lambda>_. None)"
    by (simp_all add: menu_run.start closed_kitchen_def)
  have patch: "''PATCH'' \<noteq> ''GET''" by simp
  have "mw_db ?s1 \<in> {mw_db ?s1}" by simp
  from menu_never_stale [OF cold run patch i v this menu_run.start run, of "\<lambda>_. True" 0 None "fst ?poll" "snd ?poll"] n changed
  show ?thesis by (auto simp: id_def Let_def)
qed

text \<open>
  The counter is not durable. Where Redis comes back empty it starts again from one, and a client
  that kept a copy from an earlier life of the counter is told that its copy is current, whatever
  the menu is by now.
\<close>

lemma restarted_counter_confirms_old_copy:
  assumes "mw_version s = None"
  shows "mr_status (fst (get_menu collate (\<lambda>_. True) (\<lambda>_. id) now (Some (etagFor ''1'')) s)) = 304"
proof -
  have "matchesEtag (Some (etagFor ''1'')) (etagFor ''1'')" by code_simp
  moreover have "string_of_int 1 = ''1''" by code_simp
  ultimately show ?thesis
    using assms by (simp add: get_menu_def currentVersion_def incr_version_def Let_def)
qed

end
