(* ===== verification/Retention.thy ===== *)
theory Retention
  imports Identity Webhooks
begin

text \<open>
  \<open>retention/\<close>: the housekeeping jobs that clear customer names, trim stored gateway payloads and
  delete stale refresh tokens and idempotency keys, in batches, and the gauge that reports what they
  missed.

  The jobs work on the tables of the shop and of identity. Which of the matching rows a
  \<open>LIMIT\<close> takes is the database's choice, the argument \<open>plan\<close>, of which the theorems ask only
  that it permutes. \<open>now() - interval\<close> is the database's calendar, the argument
  \<open>ago\<close>. \<open>outage\<close> says which batches of which job fail. A refresh token is identified by its
  unique hash.
\<close>

section \<open>Definitions\<close>

subsection \<open>\<open>drain-in-batches.ts\<close>\<close>

definition DEFAULT_MAX_BATCHES :: nat where "DEFAULT_MAX_BATCHES = 100"

text \<open>The step is told the number of the batch; \<open>batches\<close> are left to run.\<close>

fun drain_loop ::
  "(nat \<Rightarrow> nat \<Rightarrow> 's \<Rightarrow> nat result \<times> 's) \<Rightarrow> nat \<Rightarrow> nat \<Rightarrow> nat \<Rightarrow> nat \<Rightarrow> 's \<Rightarrow> nat result \<times> 's" where
  "drain_loop step batchSize batch 0 soFar s = (Inr soFar, s)"
| "drain_loop step batchSize batch (Suc batches) soFar s =
     (case step batch batchSize s of
        (Inl e, s') \<Rightarrow> (Inl e, s')
      | (Inr handled, s') \<Rightarrow>
          if handled < batchSize then (Inr (soFar + handled), s')
          else drain_loop step batchSize (Suc batch) batches (soFar + handled) s')"

definition drainInBatches ::
  "(nat \<Rightarrow> nat \<Rightarrow> 's \<Rightarrow> nat result \<times> 's) \<Rightarrow> nat \<Rightarrow> nat \<Rightarrow> 's \<Rightarrow> nat result \<times> 's" where
  "drainInBatches step batchSize maxBatches s = drain_loop step batchSize 0 maxBatches 0 s"

subsection \<open>\<open>retention-policy.ts\<close>\<close>

datatype retained_data = CUSTOMER_NAMES | EVENT_PAYLOADS | REFRESH_TOKENS | IDEMPOTENCY_KEYS

record retention_rule =
  ret_window :: string
  ret_grace :: string

fun RETENTION :: "retained_data \<Rightarrow> retention_rule" where
  "RETENTION CUSTOMER_NAMES = \<lparr>ret_window = ''90 days'', ret_grace = ''2 days''\<rparr>"
| "RETENTION EVENT_PAYLOADS = \<lparr>ret_window = ''13 months'', ret_grace = ''2 days''\<rparr>"
| "RETENTION REFRESH_TOKENS = \<lparr>ret_window = ''30 days'', ret_grace = ''2 days''\<rparr>"
| "RETENTION IDEMPOTENCY_KEYS = \<lparr>ret_window = ''0 seconds'', ret_grace = ''2 hours''\<rparr>"

subsection \<open>\<open>retention.service.ts\<close>\<close>

type_synonym calendar = "string list \<Rightarrow> int \<Rightarrow> int"

record 'b housekeeping =
  hk_db :: "(json, 'b) db"
  hk_identity :: id_world

definition BATCH_SIZE :: nat where "BATCH_SIZE = 1000"

definition cutoff :: "calendar \<Rightarrow> int \<Rightarrow> retained_data \<Rightarrow> int" where
  "cutoff ago now data = ago [ret_window (RETENTION data)] now"

definition overdueCutoff :: "calendar \<Rightarrow> int \<Rightarrow> retained_data \<Rightarrow> int" where
  "overdueCutoff ago now data = ago [ret_window (RETENTION data), ret_grace (RETENTION data)] now"

definition before :: "int option \<Rightarrow> int \<Rightarrow> bool" where
  "before t limit = (case t of None \<Rightarrow> False | Some x \<Rightarrow> x < limit)"

text \<open>The conditions, as the jobs and the gauge share them, at a given cutoff.\<close>

definition named_before :: "int \<Rightarrow> order_row \<Rightarrow> bool" where
  "named_before limit r \<longleftrightarrow> ord_customerName r \<noteq> None \<and> ord_createdAt r < limit"

definition whole_before :: "int \<Rightarrow> json payment_event_row \<Rightarrow> bool" where
  "whole_before limit e \<longleftrightarrow> ev_payloadTrimmedAt e = None \<and> ev_receivedAt e < limit"

definition stale_before :: "int \<Rightarrow> refresh_token_row \<Rightarrow> bool" where
  "stale_before limit t \<longleftrightarrow> rt_expiresAt t < limit \<or> before (rt_revokedAt t) limit"

definition expired_before :: "int \<Rightarrow> 'b idempotency_key_row \<Rightarrow> bool" where
  "expired_before limit k \<longleftrightarrow> idk_expiresAt k < limit"

text \<open>The keys the subselect hands to the statement around it.\<close>

definition limited :: "(string list \<Rightarrow> string list) \<Rightarrow> nat \<Rightarrow> ('r \<Rightarrow> string) \<Rightarrow> ('r \<Rightarrow> bool) \<Rightarrow> 'r list \<Rightarrow> string list" where
  "limited plan limit key_of_row p rows = take limit (plan (map key_of_row (filter p rows)))"

definition update_batch ::
  "(string list \<Rightarrow> string list) \<Rightarrow> ('r \<Rightarrow> string) \<Rightarrow> ('r \<Rightarrow> bool) \<Rightarrow> ('r \<Rightarrow> 'r) \<Rightarrow> nat \<Rightarrow> 'r list \<Rightarrow> nat \<times> 'r list" where
  "update_batch plan key_of_row p f limit rows =
     (let keys = limited plan limit key_of_row p rows in
      case sql_update (\<lambda>r. List.member keys (key_of_row r)) f rows of (changed, rows') \<Rightarrow> (length changed, rows'))"

definition delete_batch ::
  "(string list \<Rightarrow> string list) \<Rightarrow> ('r \<Rightarrow> string) \<Rightarrow> ('r \<Rightarrow> bool) \<Rightarrow> nat \<Rightarrow> 'r list \<Rightarrow> nat \<times> 'r list" where
  "delete_batch plan key_of_row p limit rows =
     (let keys = limited plan limit key_of_row p rows in
      (length (filter (\<lambda>r. List.member keys (key_of_row r)) rows),
       filter (\<lambda>r. \<not> List.member keys (key_of_row r)) rows))"

definition or_json_null :: "json option \<Rightarrow> json option" where
  "or_json_null v = Some (case v of None \<Rightarrow> JNull | Some x \<Rightarrow> x)"

definition trim_payload :: "json \<Rightarrow> json" where
  "trim_payload payload =
     JObj [(''id'', or_json_null (field ''id'' payload)), (''type'', or_json_null (field ''type'' payload)),
           (''created'', or_json_null (field ''created'' payload)),
           (''data'', Some (JObj [(''object'', Some (JObj
              [(''id'', or_json_null (Option.bind (field ''data'' payload) (\<lambda>d. Option.bind (field ''object'' d) (field ''id''))))]))]))]"

text \<open>A batch: nothing when the database is out, otherwise the statement.\<close>

definition batch_of ::
  "(nat \<Rightarrow> bool) \<Rightarrow> ('s \<Rightarrow> 'r list) \<Rightarrow> ('r list \<Rightarrow> 's \<Rightarrow> 's) \<Rightarrow> (nat \<Rightarrow> 'r list \<Rightarrow> nat \<times> 'r list) \<Rightarrow>
   nat \<Rightarrow> nat \<Rightarrow> 's \<Rightarrow> nat result \<times> 's" where
  "batch_of outage rows put statement batch limit s =
     (if outage batch then (Inl (OtherError ''database''), s)
      else case statement limit (rows s) of (n, rows') \<Rightarrow> (Inr n, put rows' s))"

definition clearCustomerNames ::
  "calendar \<Rightarrow> (string list \<Rightarrow> string list) \<Rightarrow> (nat \<Rightarrow> bool) \<Rightarrow> int \<Rightarrow> 'b housekeeping \<Rightarrow> nat result \<times> 'b housekeeping" where
  "clearCustomerNames ago plan outage now =
     drainInBatches (batch_of outage (\<lambda>s. orders (hk_db s)) (\<lambda>rs s. s\<lparr>hk_db := (hk_db s)\<lparr>orders := rs\<rparr>\<rparr>)
       (update_batch plan ord_id (named_before (cutoff ago now CUSTOMER_NAMES)) (\<lambda>r. r\<lparr>ord_customerName := None\<rparr>)))
       BATCH_SIZE DEFAULT_MAX_BATCHES"

definition trimEventPayloads ::
  "calendar \<Rightarrow> (string list \<Rightarrow> string list) \<Rightarrow> (nat \<Rightarrow> bool) \<Rightarrow> int \<Rightarrow> 'b housekeeping \<Rightarrow> nat result \<times> 'b housekeeping" where
  "trimEventPayloads ago plan outage now =
     drainInBatches (batch_of outage (\<lambda>s. paymentEvents (hk_db s)) (\<lambda>rs s. s\<lparr>hk_db := (hk_db s)\<lparr>paymentEvents := rs\<rparr>\<rparr>)
       (update_batch plan ev_id (whole_before (cutoff ago now EVENT_PAYLOADS))
         (\<lambda>e. e\<lparr>ev_payload := trim_payload (ev_payload e), ev_payloadTrimmedAt := Some now\<rparr>)))
       BATCH_SIZE DEFAULT_MAX_BATCHES"

definition deleteStaleRefreshTokens ::
  "calendar \<Rightarrow> (string list \<Rightarrow> string list) \<Rightarrow> (nat \<Rightarrow> bool) \<Rightarrow> int \<Rightarrow> 'b housekeeping \<Rightarrow> nat result \<times> 'b housekeeping" where
  "deleteStaleRefreshTokens ago plan outage now =
     drainInBatches (batch_of outage (\<lambda>s. refreshTokens (hk_identity s))
       (\<lambda>rs s. s\<lparr>hk_identity := (hk_identity s)\<lparr>refreshTokens := rs\<rparr>\<rparr>)
       (delete_batch plan rt_tokenHash (stale_before (cutoff ago now REFRESH_TOKENS))))
       BATCH_SIZE DEFAULT_MAX_BATCHES"

definition deleteExpiredIdempotencyKeys ::
  "calendar \<Rightarrow> (string list \<Rightarrow> string list) \<Rightarrow> (nat \<Rightarrow> bool) \<Rightarrow> int \<Rightarrow> 'b housekeeping \<Rightarrow> nat result \<times> 'b housekeeping" where
  "deleteExpiredIdempotencyKeys ago plan outage now =
     drainInBatches (batch_of outage (\<lambda>s. idempotencyKeys (hk_db s)) (\<lambda>rs s. s\<lparr>hk_db := (hk_db s)\<lparr>idempotencyKeys := rs\<rparr>\<rparr>)
       (delete_batch plan idk_key (expired_before (cutoff ago now IDEMPOTENCY_KEYS))))
       BATCH_SIZE DEFAULT_MAX_BATCHES"

text \<open>\<open>run\<close> logs what a job throws; the next one runs all the same.\<close>

definition run_job :: "('s \<Rightarrow> nat result \<times> 's) \<Rightarrow> 's \<Rightarrow> 's" where
  "run_job job s = snd (job s)"

definition runNightly ::
  "calendar \<Rightarrow> (string list \<Rightarrow> string list) \<Rightarrow> (retained_data \<Rightarrow> nat \<Rightarrow> bool) \<Rightarrow> int \<Rightarrow> 'b housekeeping \<Rightarrow> 'b housekeeping" where
  "runNightly ago plan outage now s =
     run_job (deleteStaleRefreshTokens ago plan (outage REFRESH_TOKENS) now)
       (run_job (trimEventPayloads ago plan (outage EVENT_PAYLOADS) now)
         (run_job (clearCustomerNames ago plan (outage CUSTOMER_NAMES) now) s))"

definition runHourly ::
  "calendar \<Rightarrow> (string list \<Rightarrow> string list) \<Rightarrow> (retained_data \<Rightarrow> nat \<Rightarrow> bool) \<Rightarrow> int \<Rightarrow> 'b housekeeping \<Rightarrow> 'b housekeeping" where
  "runHourly ago plan outage now = run_job (deleteExpiredIdempotencyKeys ago plan (outage IDEMPOTENCY_KEYS) now)"

fun overdueCounts :: "calendar \<Rightarrow> int \<Rightarrow> 'b housekeeping \<Rightarrow> retained_data \<Rightarrow> nat" where
  "overdueCounts ago now s CUSTOMER_NAMES =
     length (filter (named_before (overdueCutoff ago now CUSTOMER_NAMES)) (orders (hk_db s)))"
| "overdueCounts ago now s EVENT_PAYLOADS =
     length (filter (whole_before (overdueCutoff ago now EVENT_PAYLOADS)) (paymentEvents (hk_db s)))"
| "overdueCounts ago now s REFRESH_TOKENS =
     length (filter (stale_before (overdueCutoff ago now REFRESH_TOKENS)) (refreshTokens (hk_identity s)))"
| "overdueCounts ago now s IDEMPOTENCY_KEYS =
     length (filter (expired_before (overdueCutoff ago now IDEMPOTENCY_KEYS)) (idempotencyKeys (hk_db s)))"

section \<open>A table that is drained in batches\<close>

definition permutes :: "(string list \<Rightarrow> string list) \<Rightarrow> bool" where
  "permutes plan \<longleftrightarrow> (\<forall>xs. mset (plan xs) = mset xs)"

locale drained_table =
  fixes rows :: "'s \<Rightarrow> 'r list" and put :: "'r list \<Rightarrow> 's \<Rightarrow> 's" and statement :: "nat \<Rightarrow> 'r list \<Rightarrow> nat \<times> 'r list"
    and row_key :: "'r \<Rightarrow> string" and due :: "'r \<Rightarrow> bool" and change :: "'r list \<Rightarrow> 'r list \<Rightarrow> bool" and fair :: bool
  assumes rows_put: "rows (put rs s) = rs" and put_put: "put rs (put rs' s) = put rs s" and put_rows: "put (rows s) s = s"
    and statement_ok: "fair \<Longrightarrow> distinct (map row_key rs) \<Longrightarrow> statement n rs = (h, rs') \<Longrightarrow>
      h = min n (length (filter due rs)) \<and> length (filter due rs') = length (filter due rs) - h \<and>
      distinct (map row_key rs') \<and> change rs rs'"
    and change_refl: "change rs rs"
    and change_trans: "change rs rs' \<Longrightarrow> change rs' rs'' \<Longrightarrow> change rs rs''"
    and change_none: "change rs rs' \<Longrightarrow> filter due rs = [] \<Longrightarrow> rs' = rs"
begin

definition backlog :: "'s \<Rightarrow> nat" where "backlog s = length (filter due (rows s))"

lemma stays: "\<exists>rs. s = put rs s \<and> change (rows s) rs"
  using put_rows change_refl by metis

lemma loop_result:
  assumes "fair" "distinct (map row_key (rows s))" "0 < n"
    and "drain_loop (batch_of outage rows put statement) n k m soFar s = (r, s')"
  shows "(\<exists>rs. s' = put rs s \<and> change (rows s) rs) \<and>
    (case r of Inl _ \<Rightarrow> \<exists>b. outage b | Inr c \<Rightarrow> c = soFar + min (n * m) (backlog s) \<and> backlog s' = backlog s - (c - soFar))"
  using assms(2,4)
proof (induction m arbitrary: k soFar s)
  case 0
  then show ?case using stays by auto
next
  case (Suc m)
  show ?case
  proof (cases "outage k")
    case True
    then have "s' = s \<and> r = Inl (OtherError ''database'')" using Suc.prems by (simp add: batch_of_def)
    then show ?thesis using True stays by auto
  next
    case False
    obtain h rs where st: "statement n (rows s) = (h, rs)" by fastforce
    note ok = statement_ok [OF assms(1) Suc.prems(1) st]
    have b: "batch_of outage rows put statement k n s = (Inr h, put rs s)" using False st by (simp add: batch_of_def)
    show ?thesis
    proof (cases "h < n")
      case True
      then have "s' = put rs s" "r = Inr (soFar + h)" using Suc.prems(2) b by auto
      with ok True show ?thesis by (auto simp: backlog_def rows_put)
    next
      case False
      then have h: "h = n" "n \<le> backlog s" using ok by (auto simp: backlog_def)
      have rest: "drain_loop (batch_of outage rows put statement) n (Suc k) m (soFar + h) (put rs s) = (r, s')"
        using Suc.prems(2) b False by simp
      have d: "distinct (map row_key (rows (put rs s)))" using ok by (simp add: rows_put)
      have left: "backlog (put rs s) = backlog s - n" using ok h by (simp add: backlog_def rows_put)
      from Suc.IH [OF d rest] obtain rs' where rs': "s' = put rs' (put rs s)" "change (rows (put rs s)) rs'"
        and res: "case r of Inl _ \<Rightarrow> \<exists>b. outage b
          | Inr c \<Rightarrow> c = soFar + h + min (n * m) (backlog (put rs s)) \<and> backlog s' = backlog (put rs s) - (c - (soFar + h))"
        by blast
      have "change (rows s) rs'" using ok rs'(2) change_trans by (simp add: rows_put) blast
      moreover have "s' = put rs' s" using rs'(1) by (simp add: put_put)
      ultimately show ?thesis using res h left by (auto split: sum.splits)
    qed
  qed
qed

text \<open>What a run over the whole table does when no batch fails.\<close>

lemma drained:
  assumes "fair" "distinct (map row_key (rows s))" "0 < n" "\<And>b. \<not> outage b" "length (filter due (rows s)) \<le> n * m"
  shows "\<exists>rs. snd (drainInBatches (batch_of outage rows put statement) n m s) = put rs s \<and> change (rows s) rs \<and> filter due rs = []"
proof -
  obtain r s' where run: "drainInBatches (batch_of outage rows put statement) n m s = (r, s')" by fastforce
  note res = loop_result [OF assms(1-3) run [unfolded drainInBatches_def]]
  then obtain rs where "s' = put rs s" "change (rows s) rs" by blast
  moreover have "length (filter due (rows s')) = 0" using res assms(4,5) by (auto simp: backlog_def split: sum.splits)
  ultimately show ?thesis using run by (auto simp: rows_put)
qed

text \<open>Nothing due, nothing changes, whatever fails.\<close>

lemma idle:
  assumes "fair" "distinct (map row_key (rows s))" "0 < n" "filter due (rows s) = []"
  shows "snd (drainInBatches (batch_of outage rows put statement) n m s) = s"
proof -
  obtain r s' where run: "drainInBatches (batch_of outage rows put statement) n m s = (r, s')" by fastforce
  from loop_result [OF assms(1-3) run [unfolded drainInBatches_def]] obtain rs where "s' = put rs s" "change (rows s) rs" by blast
  with change_none assms(4) have "s' = put (rows s) s" by metis
  with run show ?thesis by (simp add: put_rows)
qed

end

section \<open>Lemmas\<close>

lemma chosen_rows:
  fixes n :: nat and p :: "'r \<Rightarrow> bool"
  assumes "permutes plan" "distinct (map k rs)"
  defines "chosen \<equiv> \<lambda>r. List.member (limited plan n k p rs) (k r)"
  shows "length (filter chosen rs) = min n (length (filter p rs))" "\<And>r. r \<in> set rs \<Longrightarrow> chosen r \<Longrightarrow> p r"
proof -
  let ?keys = "limited plan n k p rs"
  have perm: "mset (plan (map k (filter p rs))) = mset (map k (filter p rs))" using assms(1) by (simp add: permutes_def)
  have dp: "distinct (map k (filter p rs))" using assms(2) by (rule distinct_map_filter)
  have dk: "distinct ?keys"
    unfolding limited_def using dp mset_eq_imp_distinct_iff [OF perm] by simp
  have lk: "length ?keys = min n (length (filter p rs))"
    using mset_eq_length [OF perm] by (simp add: limited_def)
  have sub: "set ?keys \<subseteq> k ` set (filter p rs)"
    using mset_eq_setD [OF perm] set_take_subset [of n "plan (map k (filter p rs))"] by (auto simp: limited_def)
  show p: "p r" if "r \<in> set rs" "chosen r" for r
  proof -
    from that sub obtain x where "x \<in> set rs" "p x" "k x = k r" by (auto simp: chosen_def)
    with assms(2) that(1) show ?thesis by (metis distinct_map inj_onD)
  qed
  have "set (map k (filter chosen rs)) = set ?keys" using sub by (auto simp: chosen_def)
  moreover have "distinct (map k (filter chosen rs))" using assms(2) by (rule distinct_map_filter)
  ultimately have "length (map k (filter chosen rs)) = length ?keys" using dk by (metis distinct_card)
  then show "length (filter chosen rs) = min n (length (filter p rs))" using lk by simp
qed

lemma split_due:
  assumes "\<And>r. r \<in> set rs \<Longrightarrow> c r \<Longrightarrow> p r"
  shows "length (filter (\<lambda>r. p r \<and> \<not> c r) rs) = length (filter p rs) - length (filter c rs)"
proof -
  have "filter (\<lambda>r. p r \<and> c r) rs = filter c rs" using assms by (auto intro: filter_cong)
  moreover have "length (filter p rs) = length (filter (\<lambda>r. p r \<and> c r) rs) + length (filter (\<lambda>r. p r \<and> \<not> c r) rs)"
    by (induction rs) auto
  ultimately show ?thesis by simp
qed

definition updated_where :: "('r \<Rightarrow> bool) \<Rightarrow> ('r \<Rightarrow> 'r) \<Rightarrow> 'r list \<Rightarrow> 'r list \<Rightarrow> bool" where
  "updated_where p f = list_all2 (\<lambda>r r'. r' = r \<or> p r \<and> r' = f r)"

definition deleted_where :: "('r \<Rightarrow> bool) \<Rightarrow> 'r list \<Rightarrow> 'r list \<Rightarrow> bool" where
  "deleted_where p rs rs' \<longleftrightarrow> (\<exists>q. rs' = filter q rs \<and> (\<forall>r \<in> set rs. \<not> p r \<longrightarrow> q r))"

lemma update_batch_ok:
  assumes "permutes plan" "distinct (map k rs)" "update_batch plan k p f n rs = (h, rs')"
    and "\<And>r. k (f r) = k r" "\<And>r. \<not> p (f r)"
  shows "h = min n (length (filter p rs)) \<and> length (filter p rs') = length (filter p rs) - h \<and>
    distinct (map k rs') \<and> updated_where p f rs rs'"
proof -
  let ?c = "\<lambda>r. List.member (limited plan n k p rs) (k r)"
  note c = chosen_rows [OF assms(1,2), where n = n and p = p]
  have h: "h = length (filter ?c rs)" and rs': "rs' = map (\<lambda>r. if ?c r then f r else r) rs"
    using assms(3) by (auto simp: update_batch_def Let_def sql_update_def)
  have flt: "filter p (map (\<lambda>r. if c r then f r else r) xs) = filter (\<lambda>r. p r \<and> \<not> c r) xs" for c xs
    using assms(5) by (induction xs) auto
  have "filter p rs' = filter (\<lambda>r. p r \<and> \<not> ?c r) rs" unfolding rs' by (rule flt)
  then have "length (filter p rs') = length (filter p rs) - h" using split_due [of rs ?c p, OF c(2)] h by simp
  moreover have "map k rs' = map k rs" using assms(4) by (simp add: rs')
  moreover have "updated_where p f rs rs'" using c(2) by (auto simp: updated_where_def rs' list_all2_conv_all_nth)
  ultimately show ?thesis using h c(1) assms(2) by simp
qed

lemma delete_batch_ok:
  assumes "permutes plan" "distinct (map k rs)" "delete_batch plan k p n rs = (h, rs')"
  shows "h = min n (length (filter p rs)) \<and> length (filter p rs') = length (filter p rs) - h \<and>
    distinct (map k rs') \<and> deleted_where p rs rs'"
proof -
  let ?c = "\<lambda>r. List.member (limited plan n k p rs) (k r)"
  note c = chosen_rows [OF assms(1,2), where n = n and p = p]
  have h: "h = length (filter ?c rs)" and rs': "rs' = filter (\<lambda>r. \<not> ?c r) rs"
    using assms(3) by (auto simp: delete_batch_def Let_def)
  have "length (filter p rs') = length (filter p rs) - h"
    using split_due [of rs ?c p, OF c(2)] h by (simp add: rs' conj_commute)
  moreover have "deleted_where p rs rs'"
    unfolding deleted_where_def rs' using c(2) by (intro exI [of _ "\<lambda>r. \<not> ?c r"]) blast
  ultimately show ?thesis using h c(1) assms(2) by (simp add: rs' distinct_map_filter)
qed

lemma updated_where_refl: "updated_where p f rs rs"
  by (simp add: updated_where_def list_all2_refl)

lemma updated_where_trans:
  assumes "\<And>r. \<not> p (f r)" "updated_where p f rs rs'" "updated_where p f rs' rs''"
  shows "updated_where p f rs rs''"
proof -
  have "r'' = r \<or> p r \<and> r'' = f r" if "r' = r \<or> p r \<and> r' = f r" "r'' = r' \<or> p r' \<and> r'' = f r'" for r r' r''
    using that assms(1) by metis
  with assms(2,3) show ?thesis unfolding updated_where_def by (rule list_all2_trans [rotated])
qed

lemma deleted_where_refl: "deleted_where p rs rs"
  unfolding deleted_where_def by (intro exI [of _ "\<lambda>_. True"]) simp

lemma deleted_where_trans:
  assumes "deleted_where p rs rs'" "deleted_where p rs' rs''"
  shows "deleted_where p rs rs''"
proof -
  obtain q q' where "rs' = filter q rs" "\<forall>r \<in> set rs. \<not> p r \<longrightarrow> q r" "rs'' = filter q' rs'" "\<forall>r \<in> set rs'. \<not> p r \<longrightarrow> q' r"
    using assms by (auto simp: deleted_where_def)
  then show ?thesis unfolding deleted_where_def by (intro exI [of _ "\<lambda>r. q r \<and> q' r"]) (auto simp: filter_filter)
qed

lemma updated_where_none: "updated_where p f rs rs' \<Longrightarrow> filter p rs = [] \<Longrightarrow> rs' = rs"
  unfolding updated_where_def by (induction rule: list_all2_induct) (auto split: if_splits)

lemma deleted_where_none: "deleted_where p rs rs' \<Longrightarrow> filter p rs = [] \<Longrightarrow> rs' = rs"
  by (auto simp: deleted_where_def filter_empty_conv filter_id_conv)

text \<open>The four jobs drain their tables.\<close>

interpretation names: drained_table "\<lambda>s. orders (hk_db s)" "\<lambda>rs s. s\<lparr>hk_db := (hk_db s)\<lparr>orders := rs\<rparr>\<rparr>"
  "update_batch plan ord_id (named_before limit) (\<lambda>r. r\<lparr>ord_customerName := None\<rparr>)" ord_id "named_before limit"
  "updated_where (named_before limit) (\<lambda>r. r\<lparr>ord_customerName := None\<rparr>)" "permutes plan" for plan limit
proof (unfold_locales, goal_cases)
  case (4 rs n h rs')
  show ?case by (rule update_batch_ok [OF 4]) (simp_all add: named_before_def)
next
  case (6 rs rs' rs'')
  show ?case by (rule updated_where_trans [OF _ 6]) (simp add: named_before_def)
next
  case (7 rs rs')
  then show ?case by (rule updated_where_none)
qed (simp_all add: updated_where_refl)

interpretation payloads: drained_table "\<lambda>s. paymentEvents (hk_db s)" "\<lambda>rs s. s\<lparr>hk_db := (hk_db s)\<lparr>paymentEvents := rs\<rparr>\<rparr>"
  "update_batch plan ev_id (whole_before limit) (\<lambda>e. e\<lparr>ev_payload := trim_payload (ev_payload e), ev_payloadTrimmedAt := Some now\<rparr>)"
  ev_id "whole_before limit"
  "updated_where (whole_before limit) (\<lambda>e. e\<lparr>ev_payload := trim_payload (ev_payload e), ev_payloadTrimmedAt := Some now\<rparr>)"
  "permutes plan" for plan limit now
proof (unfold_locales, goal_cases)
  case (4 rs n h rs')
  show ?case by (rule update_batch_ok [OF 4]) (simp_all add: whole_before_def)
next
  case (6 rs rs' rs'')
  show ?case by (rule updated_where_trans [OF _ 6]) (simp add: whole_before_def)
next
  case (7 rs rs')
  then show ?case by (rule updated_where_none)
qed (simp_all add: updated_where_refl)

interpretation sessions: drained_table "\<lambda>s. refreshTokens (hk_identity s)"
  "\<lambda>rs s. s\<lparr>hk_identity := (hk_identity s)\<lparr>refreshTokens := rs\<rparr>\<rparr>" "delete_batch plan rt_tokenHash (stale_before limit)"
  rt_tokenHash "stale_before limit" "deleted_where (stale_before limit)" "permutes plan" for plan limit
proof (unfold_locales, goal_cases)
  case (4 rs n h rs')
  then show ?case by (rule delete_batch_ok)
next
  case (6 rs rs' rs'')
  then show ?case by (rule deleted_where_trans)
next
  case (7 rs rs')
  then show ?case by (rule deleted_where_none)
qed (simp_all add: deleted_where_refl)

interpretation retries: drained_table "\<lambda>s. idempotencyKeys (hk_db s)" "\<lambda>rs s. s\<lparr>hk_db := (hk_db s)\<lparr>idempotencyKeys := rs\<rparr>\<rparr>"
  "delete_batch plan idk_key (expired_before limit)" idk_key "expired_before limit" "deleted_where (expired_before limit)"
  "permutes plan" for plan limit
proof (unfold_locales, goal_cases)
  case (4 rs n h rs')
  then show ?case by (rule delete_batch_ok)
next
  case (6 rs rs' rs'')
  then show ?case by (rule deleted_where_trans)
next
  case (7 rs rs')
  then show ?case by (rule deleted_where_none)
qed (simp_all add: deleted_where_refl)

subsection \<open>All jobs\<close>

fun due_count :: "(retained_data \<Rightarrow> int) \<Rightarrow> 'b housekeeping \<Rightarrow> retained_data \<Rightarrow> nat" where
  "due_count limits s CUSTOMER_NAMES = length (filter (named_before (limits CUSTOMER_NAMES)) (orders (hk_db s)))"
| "due_count limits s EVENT_PAYLOADS = length (filter (whole_before (limits EVENT_PAYLOADS)) (paymentEvents (hk_db s)))"
| "due_count limits s REFRESH_TOKENS = length (filter (stale_before (limits REFRESH_TOKENS)) (refreshTokens (hk_identity s)))"
| "due_count limits s IDEMPOTENCY_KEYS = length (filter (expired_before (limits IDEMPOTENCY_KEYS)) (idempotencyKeys (hk_db s)))"

lemma gauge_is_due_count: "overdueCounts ago now s data = due_count (overdueCutoff ago now) s data"
  by (cases data) simp_all

lemma due_count_mono:
  assumes "limits data \<le> limits' data" "due_count limits' s data = 0"
  shows "due_count limits s data = 0"
  using assms
  by (cases data)
    (auto simp: filter_empty_conv named_before_def whole_before_def stale_before_def expired_before_def before_def split: option.splits)

definition keyed :: "'b housekeeping \<Rightarrow> bool" where
  "keyed s \<longleftrightarrow> distinct (map ord_id (orders (hk_db s))) \<and> distinct (map ev_id (paymentEvents (hk_db s))) \<and>
     distinct (map rt_tokenHash (refreshTokens (hk_identity s))) \<and> distinct (map idk_key (idempotencyKeys (hk_db s)))"

lemma updated_where_keys: "updated_where p f rs rs' \<Longrightarrow> (\<And>r. k (f r) = k r) \<Longrightarrow> map k rs' = map k rs"
  unfolding updated_where_def by (induction rule: list_all2_induct) auto

lemma deleted_where_keys: "deleted_where p rs rs' \<Longrightarrow> distinct (map k rs) \<Longrightarrow> distinct (map k rs')"
  by (auto simp: deleted_where_def distinct_map_filter)

lemma batches: "0 < BATCH_SIZE" "BATCH_SIZE * DEFAULT_MAX_BATCHES = 100000"
  by (simp_all add: BATCH_SIZE_def DEFAULT_MAX_BATCHES_def)

lemma names_job:
  assumes "permutes plan" "distinct (map ord_id (orders (hk_db s)))"
  shows "(\<And>b. \<not> outage b) \<Longrightarrow> due_count (cutoff ago now) s CUSTOMER_NAMES \<le> 100000 \<Longrightarrow>
      \<exists>rs. run_job (clearCustomerNames ago plan outage now) s = s\<lparr>hk_db := (hk_db s)\<lparr>orders := rs\<rparr>\<rparr> \<and>
        updated_where (named_before (cutoff ago now CUSTOMER_NAMES)) (\<lambda>r. r\<lparr>ord_customerName := None\<rparr>) (orders (hk_db s)) rs \<and>
        filter (named_before (cutoff ago now CUSTOMER_NAMES)) rs = []"
    and "due_count (cutoff ago now) s CUSTOMER_NAMES = 0 \<Longrightarrow> run_job (clearCustomerNames ago plan outage now) s = s"
  using names.drained [OF assms batches(1), where limit = "cutoff ago now CUSTOMER_NAMES" and m = DEFAULT_MAX_BATCHES and outage = outage]
    names.idle [OF assms batches(1), where limit = "cutoff ago now CUSTOMER_NAMES" and m = DEFAULT_MAX_BATCHES and outage = outage]
  by (simp_all add: run_job_def clearCustomerNames_def batches(2))

lemma payloads_job:
  assumes "permutes plan" "distinct (map ev_id (paymentEvents (hk_db s)))"
  shows "(\<And>b. \<not> outage b) \<Longrightarrow> due_count (cutoff ago now) s EVENT_PAYLOADS \<le> 100000 \<Longrightarrow>
      \<exists>rs. run_job (trimEventPayloads ago plan outage now) s = s\<lparr>hk_db := (hk_db s)\<lparr>paymentEvents := rs\<rparr>\<rparr> \<and>
        updated_where (whole_before (cutoff ago now EVENT_PAYLOADS))
      (\<lambda>e. e\<lparr>ev_payload := trim_payload (ev_payload e), ev_payloadTrimmedAt := Some now\<rparr>) (paymentEvents (hk_db s)) rs \<and>
        filter (whole_before (cutoff ago now EVENT_PAYLOADS)) rs = []"
    and "due_count (cutoff ago now) s EVENT_PAYLOADS = 0 \<Longrightarrow> run_job (trimEventPayloads ago plan outage now) s = s"
  using payloads.drained [OF assms batches(1), where limit = "cutoff ago now EVENT_PAYLOADS" and m = DEFAULT_MAX_BATCHES and outage = outage]
    payloads.idle [OF assms batches(1), where limit = "cutoff ago now EVENT_PAYLOADS" and m = DEFAULT_MAX_BATCHES and outage = outage]
  by (simp_all add: run_job_def trimEventPayloads_def batches(2))

lemma sessions_job:
  assumes "permutes plan" "distinct (map rt_tokenHash (refreshTokens (hk_identity s)))"
  shows "(\<And>b. \<not> outage b) \<Longrightarrow> due_count (cutoff ago now) s REFRESH_TOKENS \<le> 100000 \<Longrightarrow>
      \<exists>rs. run_job (deleteStaleRefreshTokens ago plan outage now) s = s\<lparr>hk_identity := (hk_identity s)\<lparr>refreshTokens := rs\<rparr>\<rparr> \<and>
        deleted_where (stale_before (cutoff ago now REFRESH_TOKENS)) (refreshTokens (hk_identity s)) rs \<and>
        filter (stale_before (cutoff ago now REFRESH_TOKENS)) rs = []"
    and "due_count (cutoff ago now) s REFRESH_TOKENS = 0 \<Longrightarrow> run_job (deleteStaleRefreshTokens ago plan outage now) s = s"
  using sessions.drained [OF assms batches(1), where limit = "cutoff ago now REFRESH_TOKENS" and m = DEFAULT_MAX_BATCHES and outage = outage]
    sessions.idle [OF assms batches(1), where limit = "cutoff ago now REFRESH_TOKENS" and m = DEFAULT_MAX_BATCHES and outage = outage]
  by (simp_all add: run_job_def deleteStaleRefreshTokens_def batches(2))

lemma retries_job:
  assumes "permutes plan" "distinct (map idk_key (idempotencyKeys (hk_db s)))"
  shows "(\<And>b. \<not> outage b) \<Longrightarrow> due_count (cutoff ago now) s IDEMPOTENCY_KEYS \<le> 100000 \<Longrightarrow>
      \<exists>rs. run_job (deleteExpiredIdempotencyKeys ago plan outage now) s = s\<lparr>hk_db := (hk_db s)\<lparr>idempotencyKeys := rs\<rparr>\<rparr> \<and>
        deleted_where (expired_before (cutoff ago now IDEMPOTENCY_KEYS)) (idempotencyKeys (hk_db s)) rs \<and>
        filter (expired_before (cutoff ago now IDEMPOTENCY_KEYS)) rs = []"
    and "due_count (cutoff ago now) s IDEMPOTENCY_KEYS = 0 \<Longrightarrow> run_job (deleteExpiredIdempotencyKeys ago plan outage now) s = s"
  using retries.drained [OF assms batches(1), where limit = "cutoff ago now IDEMPOTENCY_KEYS" and m = DEFAULT_MAX_BATCHES and outage = outage]
    retries.idle [OF assms batches(1), where limit = "cutoff ago now IDEMPOTENCY_KEYS" and m = DEFAULT_MAX_BATCHES and outage = outage]
  by (simp_all add: run_job_def deleteExpiredIdempotencyKeys_def batches(2))

text \<open>What housekeeping may do to the tables, with the given cutoffs.\<close>

definition housekept :: "(retained_data \<Rightarrow> int) \<Rightarrow> int \<Rightarrow> 'b housekeeping \<Rightarrow> 'b housekeeping \<Rightarrow> bool" where
  "housekept limits now s s' \<longleftrightarrow>
     (\<exists>os es ts ks. s' = s\<lparr>hk_db := (hk_db s)\<lparr>orders := os, paymentEvents := es, idempotencyKeys := ks\<rparr>,
         hk_identity := (hk_identity s)\<lparr>refreshTokens := ts\<rparr>\<rparr> \<and>
       updated_where (named_before (limits CUSTOMER_NAMES)) (\<lambda>r. r\<lparr>ord_customerName := None\<rparr>) (orders (hk_db s)) os \<and>
       updated_where (whole_before (limits EVENT_PAYLOADS))
         (\<lambda>e. e\<lparr>ev_payload := trim_payload (ev_payload e), ev_payloadTrimmedAt := Some now\<rparr>) (paymentEvents (hk_db s)) es \<and>
       deleted_where (stale_before (limits REFRESH_TOKENS)) (refreshTokens (hk_identity s)) ts \<and>
       deleted_where (expired_before (limits IDEMPOTENCY_KEYS)) (idempotencyKeys (hk_db s)) ks)"

lemma housekeeping_run:
  assumes "permutes plan" "\<And>data b. \<not> outage data b" "keyed s" "\<And>data. due_count (cutoff ago now) s data \<le> 100000"
  obtains os es ts ks where "runHourly ago plan outage now (runNightly ago plan outage now s) =
      s\<lparr>hk_db := (hk_db s)\<lparr>orders := os, paymentEvents := es, idempotencyKeys := ks\<rparr>,
        hk_identity := (hk_identity s)\<lparr>refreshTokens := ts\<rparr>\<rparr>"
    "updated_where (named_before (cutoff ago now CUSTOMER_NAMES)) (\<lambda>r. r\<lparr>ord_customerName := None\<rparr>) (orders (hk_db s)) os"
    "updated_where (whole_before (cutoff ago now EVENT_PAYLOADS))
       (\<lambda>e. e\<lparr>ev_payload := trim_payload (ev_payload e), ev_payloadTrimmedAt := Some now\<rparr>) (paymentEvents (hk_db s)) es"
    "deleted_where (stale_before (cutoff ago now REFRESH_TOKENS)) (refreshTokens (hk_identity s)) ts"
    "deleted_where (expired_before (cutoff ago now IDEMPOTENCY_KEYS)) (idempotencyKeys (hk_db s)) ks"
    "filter (named_before (cutoff ago now CUSTOMER_NAMES)) os = []" "filter (whole_before (cutoff ago now EVENT_PAYLOADS)) es = []"
    "filter (stale_before (cutoff ago now REFRESH_TOKENS)) ts = []" "filter (expired_before (cutoff ago now IDEMPOTENCY_KEYS)) ks = []"
proof -
  let ?c = "cutoff ago now"
  have k: "distinct (map ord_id (orders (hk_db s)))" "distinct (map ev_id (paymentEvents (hk_db s)))"
    "distinct (map rt_tokenHash (refreshTokens (hk_identity s)))" "distinct (map idk_key (idempotencyKeys (hk_db s)))"
    using assms(3) by (simp_all add: keyed_def)
  obtain os where os: "run_job (clearCustomerNames ago plan (outage CUSTOMER_NAMES) now) s = s\<lparr>hk_db := (hk_db s)\<lparr>orders := os\<rparr>\<rparr>"
    "updated_where (named_before (?c CUSTOMER_NAMES)) (\<lambda>r. r\<lparr>ord_customerName := None\<rparr>) (orders (hk_db s)) os"
    "filter (named_before (?c CUSTOMER_NAMES)) os = []"
    using names_job(1) [where outage = "outage CUSTOMER_NAMES", OF assms(1) k(1) assms(2) assms(4)] by blast
  define s1 where "s1 = s\<lparr>hk_db := (hk_db s)\<lparr>orders := os\<rparr>\<rparr>"
  obtain es where es: "run_job (trimEventPayloads ago plan (outage EVENT_PAYLOADS) now) s1 = s1\<lparr>hk_db := (hk_db s1)\<lparr>paymentEvents := es\<rparr>\<rparr>"
    "updated_where (whole_before (?c EVENT_PAYLOADS))
       (\<lambda>e. e\<lparr>ev_payload := trim_payload (ev_payload e), ev_payloadTrimmedAt := Some now\<rparr>) (paymentEvents (hk_db s1)) es"
    "filter (whole_before (?c EVENT_PAYLOADS)) es = []"
    using payloads_job(1) [where outage = "outage EVENT_PAYLOADS" and s = s1, OF assms(1) _ assms(2)] k(2) assms(4) [of EVENT_PAYLOADS]
    by (auto simp: s1_def)
  define s2 where "s2 = s1\<lparr>hk_db := (hk_db s1)\<lparr>paymentEvents := es\<rparr>\<rparr>"
  obtain ts where ts: "run_job (deleteStaleRefreshTokens ago plan (outage REFRESH_TOKENS) now) s2 =
       s2\<lparr>hk_identity := (hk_identity s2)\<lparr>refreshTokens := ts\<rparr>\<rparr>"
    "deleted_where (stale_before (?c REFRESH_TOKENS)) (refreshTokens (hk_identity s2)) ts" "filter (stale_before (?c REFRESH_TOKENS)) ts = []"
    using sessions_job(1) [where outage = "outage REFRESH_TOKENS" and s = s2, OF assms(1) _ assms(2)] k(3) assms(4) [of REFRESH_TOKENS]
    by (auto simp: s2_def s1_def)
  define s3 where "s3 = s2\<lparr>hk_identity := (hk_identity s2)\<lparr>refreshTokens := ts\<rparr>\<rparr>"
  obtain ks where ks: "run_job (deleteExpiredIdempotencyKeys ago plan (outage IDEMPOTENCY_KEYS) now) s3 =
       s3\<lparr>hk_db := (hk_db s3)\<lparr>idempotencyKeys := ks\<rparr>\<rparr>"
    "deleted_where (expired_before (?c IDEMPOTENCY_KEYS)) (idempotencyKeys (hk_db s3)) ks" "filter (expired_before (?c IDEMPOTENCY_KEYS)) ks = []"
    using retries_job(1) [where outage = "outage IDEMPOTENCY_KEYS" and s = s3, OF assms(1) _ assms(2)] k(4) assms(4) [of IDEMPOTENCY_KEYS]
    by (auto simp: s3_def s2_def s1_def)
  have "runHourly ago plan outage now (runNightly ago plan outage now s) = s3\<lparr>hk_db := (hk_db s3)\<lparr>idempotencyKeys := ks\<rparr>\<rparr>"
    using os(1) es(1) ts(1) ks(1) by (simp add: runHourly_def runNightly_def s1_def [symmetric] s2_def [symmetric] s3_def [symmetric])
  then show ?thesis using os es ts ks by (intro that [where os = os and es = es and ts = ts and ks = ks]) (simp_all add: s3_def s2_def s1_def)
qed

section \<open>Properties\<close>

text \<open>
  C35. Personal data goes when its window is over, and nothing else does. With a database that
  answers, and no more than a hundred thousand rows due per kind, one nightly and one hourly run leave no row past
  its window; they touch only rows that were, and of those only the name, the payload or the row
  itself; running again changes nothing; and the gauge of overdue rows reads zero for as long as the
  grace of the policy lasts.
\<close>

theorem retention_meets_its_windows:
  assumes "permutes plan" "\<And>data b. \<not> outage data b" "keyed s" "\<And>data. due_count (cutoff ago now) s data \<le> 100000"
    and "s' = runHourly ago plan outage now (runNightly ago plan outage now s)"
    and "\<And>data. overdueCutoff ago later data \<le> cutoff ago now data"
  shows "(\<forall>data. due_count (cutoff ago now) s' data = 0) \<and> housekept (cutoff ago now) now s s' \<and>
    runHourly ago plan outage' now (runNightly ago plan outage' now s') = s' \<and> (\<forall>data. overdueCounts ago later s' data = 0)"
proof -
  let ?c = "cutoff ago now"
  obtain os es ts ks where run: "s' = s\<lparr>hk_db := (hk_db s)\<lparr>orders := os, paymentEvents := es, idempotencyKeys := ks\<rparr>,
        hk_identity := (hk_identity s)\<lparr>refreshTokens := ts\<rparr>\<rparr>"
    and ch: "updated_where (named_before (?c CUSTOMER_NAMES)) (\<lambda>r. r\<lparr>ord_customerName := None\<rparr>) (orders (hk_db s)) os"
    "updated_where (whole_before (?c EVENT_PAYLOADS))
       (\<lambda>e. e\<lparr>ev_payload := trim_payload (ev_payload e), ev_payloadTrimmedAt := Some now\<rparr>) (paymentEvents (hk_db s)) es"
    "deleted_where (stale_before (?c REFRESH_TOKENS)) (refreshTokens (hk_identity s)) ts"
    "deleted_where (expired_before (?c IDEMPOTENCY_KEYS)) (idempotencyKeys (hk_db s)) ks"
    and none: "filter (named_before (?c CUSTOMER_NAMES)) os = []" "filter (whole_before (?c EVENT_PAYLOADS)) es = []"
    "filter (stale_before (?c REFRESH_TOKENS)) ts = []" "filter (expired_before (?c IDEMPOTENCY_KEYS)) ks = []"
    by (rule housekeeping_run [where outage = outage, OF assms(1-4), folded assms(5)])
  have rows: "orders (hk_db s') = os" "paymentEvents (hk_db s') = es" "refreshTokens (hk_identity s') = ts" "idempotencyKeys (hk_db s') = ks"
    by (simp_all add: run)
  have zero: "due_count ?c s' data = 0" for data using none by (cases data) (simp_all add: rows)
  have kept: "housekept ?c now s s'" unfolding housekept_def using run ch by blast
  have k: "distinct (map ord_id (orders (hk_db s)))" "distinct (map ev_id (paymentEvents (hk_db s)))"
    "distinct (map rt_tokenHash (refreshTokens (hk_identity s)))" "distinct (map idk_key (idempotencyKeys (hk_db s)))"
    using assms(3) by (simp_all add: keyed_def)
  have k': "distinct (map ord_id (orders (hk_db s')))" "distinct (map ev_id (paymentEvents (hk_db s')))"
    "distinct (map rt_tokenHash (refreshTokens (hk_identity s')))" "distinct (map idk_key (idempotencyKeys (hk_db s')))"
    using k updated_where_keys [OF ch(1), of ord_id] updated_where_keys [OF ch(2), of ev_id] deleted_where_keys [OF ch(3), of rt_tokenHash]
      deleted_where_keys [OF ch(4), of idk_key] by (simp_all add: rows)
  have "runHourly ago plan outage' now (runNightly ago plan outage' now s') = s'"
    using names_job(2) [OF assms(1) k'(1) zero] payloads_job(2) [OF assms(1) k'(2) zero] sessions_job(2) [OF assms(1) k'(3) zero]
      retries_job(2) [OF assms(1) k'(4) zero] by (simp add: runHourly_def runNightly_def)
  moreover have "overdueCounts ago later s' data = 0" for data
    unfolding gauge_is_due_count using due_count_mono [OF assms(6) zero] .
  ultimately show ?thesis using zero kept by blast
qed

definition one_old_key :: "nat housekeeping" where
  "one_old_key = \<lparr>hk_db = \<lparr>categories = [], menuItems = [], optionGroups = [], options = [], menuItemOptionGroups = [], kioskDevices = [],
       orders = [], orderItems = [], orderItemOptions = [], orderStatusHistory = [], orderNumberCounters = [], payments = [], refunds = [],
       paymentEvents = [], idempotencyKeys = [\<lparr>idk_key = ''k1'', idk_requestHash = ''h'', idk_responseStatus = None,
         idk_responseBody = None, idk_expiresAt = 50\<rparr>]\<rparr>,
     hk_identity = \<lparr>users = [], refreshTokens = [], devices = [], keyspace = (\<lambda>_. None), channel = []\<rparr>\<rparr>"

theorem retention_meets_its_windows_witness:
  "due_count (cutoff (\<lambda>_ now. now) 100)
     (runHourly (\<lambda>_ now. now) id (\<lambda>_ _. False) 100 (runNightly (\<lambda>_ now. now) id (\<lambda>_ _. False) 100 one_old_key)) IDEMPOTENCY_KEYS = 0"
proof -
  have c: "due_count (cutoff (\<lambda>_ now. now) 100) one_old_key data \<le> 100000" for data
    by (cases data) (simp_all add: one_old_key_def)
  have p: "permutes id" "keyed one_old_key" by (simp_all add: permutes_def keyed_def one_old_key_def)
  have g: "overdueCutoff (\<lambda>_ now. now) 100 data \<le> cutoff (\<lambda>_ now. now) 100 data" for data by (simp add: overdueCutoff_def cutoff_def)
  show ?thesis using retention_meets_its_windows [OF p(1) _ p(2) c refl g, of "\<lambda>_ _. False"] by blast
qed

end
