(* ===== verification/Envelope.thy ===== *)
theory Envelope
  imports Catalog Identity
begin

text \<open>
  The error envelope: the exception classes of the modules with what they put into it
  (\<open>orders.errors.ts\<close>, \<open>payments.errors.ts\<close>, \<open>identity.errors.ts\<close>, \<open>catalog.errors.ts\<close>,
  \<open>reporting.errors.ts\<close>, \<open>common/errors\<close>), the request identifier (\<open>common/http/request-id.ts\<close>)
  and the one filter every thrown value passes (\<open>common/filters/all-exceptions.filter.ts\<close>).

  \<open>said\<close> is the sentence a call site hands to a class that takes its detail from the caller. A thrown
  value that belongs to no known class is given by the members the filter reads from it.
\<close>

section \<open>Definitions\<close>

subsection \<open>\<open>problem-details.ts\<close> and \<open>app.exception.ts\<close>\<close>

record validation_error_item =
  ve_field :: string
  ve_rule :: string
  ve_message :: string

record problem_details =
  pd_type :: string
  pd_title :: string
  pd_status :: nat
  pd_code :: string
  pd_detail :: string
  pd_requestId :: string
  pd_errors :: "validation_error_item list option"
  pd_meta :: "json option"

definition ERROR_TYPE_BASE :: string where "ERROR_TYPE_BASE = ''https://cafepos.dev/errors/''"

definition errorType :: "string \<Rightarrow> string" where
  "errorType code = ERROR_TYPE_BASE @ map (\<lambda>c. if c = CHR ''_'' then CHR ''-'' else c) (toLowerCase code)"

record app_exception =
  x_code :: string
  x_status :: nat
  x_title :: string
  x_detail :: string
  x_errors :: "validation_error_item list option"
  x_meta :: "json option"

definition plain :: "string \<Rightarrow> nat \<Rightarrow> string \<Rightarrow> string \<Rightarrow> app_exception" where
  "plain code status title detail =
     \<lparr>x_code = code, x_status = status, x_title = title, x_detail = detail, x_errors = None, x_meta = None\<rparr>"

definition about :: "(string \<times> json) list \<Rightarrow> app_exception \<Rightarrow> app_exception" where
  "about meta x = x\<lparr>x_meta := Some (members meta)\<rparr>"

definition blaming :: "string \<Rightarrow> string \<Rightarrow> string \<Rightarrow> app_exception \<Rightarrow> app_exception" where
  "blaming f r m x = x\<lparr>x_errors := Some [\<lparr>ve_field = f, ve_rule = r, ve_message = m\<rparr>]\<rparr>"

definition quoted :: "string \<Rightarrow> string" where "quoted s = [CHR 0x22] @ s @ [CHR 0x22]"

fun status_name :: "order_status \<Rightarrow> string" where
  "status_name DRAFT = ''DRAFT''"
| "status_name PENDING_PAYMENT = ''PENDING_PAYMENT''"
| "status_name PAID = ''PAID''"
| "status_name IN_PREPARATION = ''IN_PREPARATION''"
| "status_name READY = ''READY''"
| "status_name COMPLETED = ''COMPLETED''"
| "status_name CANCELLED = ''CANCELLED''"
| "status_name EXPIRED = ''EXPIRED''"
| "status_name REFUNDED = ''REFUNDED''"

fun principal_role_name :: "principal_role \<Rightarrow> string" where
  "principal_role_name (StaffRole r) = role_name r"
| "principal_role_name KIOSK_ROLE = ''KIOSK''"

fun rule_name :: "selection_rule \<Rightarrow> string" where
  "rule_name UNKNOWN_OPTION = ''UNKNOWN_OPTION''"
| "rule_name DUPLICATE_OPTION = ''DUPLICATE_OPTION''"
| "rule_name MIN_SELECT = ''MIN_SELECT''"
| "rule_name MAX_SELECT = ''MAX_SELECT''"

definition json_strings :: "string list \<Rightarrow> json" where "json_strings xs = JArr (map JStr xs)"

text \<open>\<open>OptionSelectionViolation\<close>: an absent member is \<open>undefined\<close>.\<close>

definition violation_json :: "selection_violation \<Rightarrow> json" where
  "violation_json v = JObj
     [(''itemIndex'', Some (JNum (int (v_itemIndex v)))), (''rule'', Some (JStr (rule_name (v_rule v)))),
      (''optionGroupId'', map_option JStr (v_optionGroupId v)), (''optionGroupName'', map_option JStr (v_optionGroupName v)),
      (''optionIds'', map_option json_strings (v_optionIds v)), (''selected'', map_option (JNum \<circ> int) (v_selected v)),
      (''allowed'', map_option (\<lambda>(lo, hi). members [(''minSelect'', JNum lo), (''maxSelect'', JNum hi)]) (v_allowed v))]"

subsection \<open>The exception classes\<close>

definition order_exception :: "app_error \<Rightarrow> app_exception option" where
  "order_exception e = (case e of
     OrderInvalidTransitionError cur req \<Rightarrow> Some (about [(''currentStatus'', JStr (status_name cur)), (''requested'', JStr (status_name req))]
       (plain ''ORDER_INVALID_TRANSITION'' 409 ''Invalid order transition''
         (''Order is '' @ status_name cur @ ''; cannot transition to '' @ status_name req @ ''.'')))
   | OrderChannelMismatchError submitted expected \<Rightarrow>
       Some (blaming ''channel'' ''principal'' (''must be '' @ channel_name expected @ '' for this credential'')
         (plain ''VALIDATION_FAILED'' 422 ''Channel does not match the caller''
           (''This credential places '' @ channel_name expected @ '' orders; the request said '' @ channel_name submitted @ ''.'')))
   | OrderDraftNotAllowedError \<Rightarrow>
       Some (blaming ''draft'' ''principal'' ''must be false or absent for a kiosk device''
         (plain ''VALIDATION_FAILED'' 422 ''Kiosks cannot park orders''
           ''A draft is a counter hold; a kiosk basket lives on the tablet until checkout.''))
   | OrderItemUnavailableError its opts \<Rightarrow> Some (about [(''itemIds'', json_strings its), (''optionIds'', json_strings opts)]
       (plain ''ORDER_ITEM_UNAVAILABLE'' 409 ''Item unavailable'' ''One or more items or options in this order cannot be sold.''))
   | OptionSelectionInvalidError violations \<Rightarrow> Some (about [(''violations'', JArr (map violation_json violations))]
       (plain ''OPTION_SELECTION_INVALID'' 422 ''Invalid option selection''
         ''One or more items have option selections the menu does not allow.''))
   | _ \<Rightarrow> None)"

definition order_request_exception :: "app_error \<Rightarrow> app_exception option" where
  "order_request_exception e = (case e of
     IdempotencyConflictError \<Rightarrow> Some (plain ''IDEMPOTENCY_CONFLICT'' 409 ''Idempotency key reused''
       ''That Idempotency-Key was already used for a different request. Use a new key for a new order.'')
   | PriceMismatchError expected actual \<Rightarrow>
       Some (about [(''expectedTotalMinor'', JNum expected), (''actualTotalMinor'', JNum actual)]
         (plain ''PRICE_MISMATCH'' 409 ''Price mismatch''
           ''The order total has changed since the menu was loaded. Re-price the basket and submit again.''))
   | _ \<Rightarrow> None)"

definition cursor_exception :: "app_error \<Rightarrow> app_exception option" where
  "cursor_exception e = (case e of
     CursorInvalidError \<Rightarrow> Some (blaming ''cursor'' ''format'' ''must be a cursor returned by this endpoint for this sort''
       (plain ''VALIDATION_FAILED'' 422 ''Invalid cursor''
         ''That cursor is not one this endpoint issued for this sort. Request the first page without a cursor.''))
   | _ \<Rightarrow> None)"

definition key_exception :: "app_error \<Rightarrow> app_exception option" where
  "key_exception e = (case e of
     IdempotencyKeyInvalidError \<Rightarrow> Some (blaming ''Idempotency-Key'' ''format'' ''must be an opaque token, ideally a UUID''
       (plain ''VALIDATION_FAILED'' 422 ''Invalid idempotency key''
         (''Idempotency-Key must be 8-128 characters of letters, digits, and '' @
          quoted ''.'' @ '', '' @ quoted ''_'' @ '', '' @ quoted '':'' @ '' or '' @ quoted ''-'' @ ''.'')))
   | _ \<Rightarrow> None)"

definition payment_exception :: "app_error \<Rightarrow> app_exception option" where
  "payment_exception e = (case e of
     PaymentAlreadyActiveError active \<Rightarrow> Some (about [(''activePaymentId'', JStr active)]
       (plain ''PAYMENT_ALREADY_ACTIVE'' 409 ''A payment is already in progress''
         ''This order already has a payment awaiting completion. Cancel it before starting another.''))
   | OrderNotPayableError cur \<Rightarrow> Some (about [(''currentStatus'', JStr (status_name cur))]
       (plain ''ORDER_NOT_PAYABLE'' 409 ''Order cannot be paid''
         (''Order is '' @ status_name cur @ ''; only a PENDING_PAYMENT order accepts a payment.'')))
   | OrderExpiredError \<Rightarrow> Some (plain ''ORDER_EXPIRED'' 409 ''Order expired''
       ''This order held its queue number too long and has expired. Please order again.'')
   | WebhookSignatureInvalidError \<Rightarrow> Some (plain ''WEBHOOK_SIGNATURE_INVALID'' 400 ''Invalid webhook signature''
       ''The request signature could not be verified.'')
   | OrderAlreadyPaidError \<Rightarrow> Some (plain ''ORDER_ALREADY_PAID'' 409 ''Payment already went through''
       ''This order was paid while the cancellation was being processed. It will be marked paid shortly.'')
   | _ \<Rightarrow> None)"

definition money_exception :: "string \<Rightarrow> app_error \<Rightarrow> app_exception option" where
  "money_exception said e = (case e of
     CashTenderInsufficientError tendered required \<Rightarrow>
       Some (about [(''tenderedMinor'', JNum tendered), (''requiredMinor'', JNum required)]
         (plain ''CASH_TENDER_INSUFFICIENT'' 422 ''Cash tendered is less than the total''
           (''Tendered '' @ string_of_int tendered @ '', but the order comes to '' @ string_of_int required @ ''.'')))
   | RefundExceedsRemainingError asked remaining \<Rightarrow>
       Some (about [(''requestedMinor'', JNum asked), (''remainingMinor'', JNum remaining)]
         (plain ''REFUND_EXCEEDS_REMAINING'' 422 ''Refund is larger than what is left''
           (''Requested '' @ string_of_int asked @ '', but only '' @ string_of_int remaining @
            '' of this payment has not been refunded.'')))
   | PaymentNotRefundableError \<Rightarrow> Some (plain ''PAYMENT_NOT_REFUNDABLE'' 409 ''Payment cannot be refunded'' said)
   | CashPaymentNotAllowedError \<Rightarrow> Some (plain ''FORBIDDEN_ROLE'' 403 ''Cash is a counter payment''
       ''Cash can only be taken at the counter by a cashier or above.'')
   | _ \<Rightarrow> None)"

definition session_exception :: "app_error \<Rightarrow> app_exception option" where
  "session_exception e = (case e of
     InvalidCredentialsError \<Rightarrow> Some (plain ''AUTH_INVALID_CREDENTIALS'' 401 ''Invalid credentials''
       ''The credentials provided were not accepted.'')
   | TokenExpiredError \<Rightarrow> Some (plain ''AUTH_TOKEN_EXPIRED'' 401 ''Token expired'' ''The access token has expired.'')
   | TokenInvalidError \<Rightarrow> Some (plain ''AUTH_TOKEN_INVALID'' 401 ''Token invalid'' ''The token provided could not be verified.'')
   | RefreshTokenReusedError \<Rightarrow> Some (plain ''AUTH_REFRESH_REUSED'' 401 ''Refresh token reused''
       ''This refresh token was already used. The session has been revoked; sign in again.'')
   | ForbiddenRoleError required \<Rightarrow> Some (about [(''requiredRoles'', json_strings (map principal_role_name required))]
       (plain ''FORBIDDEN_ROLE'' 403 ''Forbidden'' ''This role may not perform that action.''))
   | _ \<Rightarrow> None)"

definition device_exception :: "app_error \<Rightarrow> app_exception option" where
  "device_exception e = (case e of
     PairingCodeInvalidError \<Rightarrow> Some (plain ''DEVICE_PAIRING_INVALID'' 401 ''Pairing code invalid'' ''That pairing code is not valid.'')
   | PairingCodeExpiredError \<Rightarrow> Some (plain ''DEVICE_PAIRING_INVALID'' 410 ''Pairing code expired''
       ''That pairing code has expired. Generate a new one.'')
   | DeviceRevokedError \<Rightarrow> Some (plain ''DEVICE_REVOKED'' 401 ''Device revoked'' ''This device has been revoked.'')
   | DevicePausedError \<Rightarrow> Some (plain ''DEVICE_PAUSED'' 409 ''Device paused'' ''Ordering is paused on this device.'')
   | DeviceNotPairedError \<Rightarrow> Some (plain ''CONFLICT'' 409 ''Device not paired''
       ''This device has not completed pairing, so its status cannot be changed.'')
   | _ \<Rightarrow> None)"

definition account_exception :: "app_error \<Rightarrow> app_exception option" where
  "account_exception e = (case e of
     UserEmailExistsError email \<Rightarrow> Some (about [(''email'', JStr email)]
       (plain ''USER_EMAIL_EXISTS'' 409 ''Email already registered'' ''A staff account with that email already exists.''))
   | LastAdminError \<Rightarrow> Some (plain ''USER_LAST_ADMIN'' 422 ''Last administrator''
       ''This is the last active administrator; demoting or deactivating it would lock everyone out.'')
   | _ \<Rightarrow> None)"

definition catalog_exception :: "app_error \<Rightarrow> app_exception option" where
  "catalog_exception e = (case e of
     CategoryNameExistsError name \<Rightarrow> Some (about [(''name'', JStr name)]
       (plain ''CATEGORY_NAME_EXISTS'' 409 ''Category name taken'' ''A category with that name already exists.''))
   | CategoryUnknownError categoryId \<Rightarrow> Some (about [(''categoryId'', JStr categoryId)]
       (plain ''CATEGORY_UNKNOWN'' 422 ''Unknown category'' ''No category with that id exists.''))
   | OptionGroupMinMaxInvalidError \<Rightarrow> Some (plain ''OPTION_GROUP_MINMAX_INVALID'' 422 ''Invalid selection bounds''
       ''An option group needs 0 <= minSelect <= maxSelect; this change would leave bounds nothing can satisfy.'')
   | OptionGroupUnknownError groupIds \<Rightarrow> Some (about [(''optionGroupIds'', json_strings groupIds)]
       (plain ''OPTION_GROUP_UNKNOWN'' 422 ''Unknown option group''
         ''No option group exists for one or more of the ids provided.''))
   | ImageFileMissingError \<Rightarrow> Some (plain ''IMAGE_FILE_MISSING'' 422 ''No file uploaded''
       (''Send the image as a multipart form field named '' @ quoted ''file'' @ ''.''))
   | ImageTypeUnsupportedError accepted \<Rightarrow> Some (about [(''accepted'', json_strings accepted)]
       (plain ''IMAGE_TYPE_UNSUPPORTED'' 415 ''Unsupported image type'' ''That file is not an accepted image format.''))
   | ImageUnprocessableError \<Rightarrow> Some (plain ''IMAGE_UNPROCESSABLE'' 422 ''Image could not be processed''
       ''That image could not be read. It may be corrupt or too large.'')
   | _ \<Rightarrow> None)"

definition not_found_exception :: "app_error \<Rightarrow> app_exception option" where
  "not_found_exception e = (case e of
     ResourceNotFoundError resource i \<Rightarrow> Some (about [(''resource'', JStr resource), (''id'', JStr i)]
       (plain ''RESOURCE_NOT_FOUND'' 404 ''Not found'' (''No such '' @ resource @ ''.'')))
   | _ \<Rightarrow> None)"

definition dependency_exception :: "string \<Rightarrow> app_error \<Rightarrow> app_exception option" where
  "dependency_exception said e = (case e of
     DependencyUnavailableError \<Rightarrow> Some (plain ''DEPENDENCY_UNAVAILABLE'' 503 ''Service unavailable'' said)
   | _ \<Rightarrow> None)"

definition rate_exception :: "app_error \<Rightarrow> app_exception option" where
  "rate_exception e = (case e of
     RateLimitedError seconds \<Rightarrow> Some (about [(''retryAfterSeconds'', JNum seconds)]
       (plain ''RATE_LIMITED'' 429 ''Too many requests'' ''Too many requests. Try again shortly.''))
   | _ \<Rightarrow> None)"

definition range_exception :: "string \<Rightarrow> app_error \<Rightarrow> app_exception option" where
  "range_exception said e = (case e of
     UnprocessableRangeError \<Rightarrow> Some (plain ''VALIDATION_FAILED'' 422 ''Unprocessable range'' said)
   | _ \<Rightarrow> None)"

text \<open>\<open>None\<close>: not one of the application's exceptions, but a driver error or a bare \<open>Error\<close>.\<close>

fun first_of :: "'a option list \<Rightarrow> 'a option" where
  "first_of [] = None"
| "first_of (Some x # xs) = Some x"
| "first_of (None # xs) = first_of xs"

definition appException :: "string \<Rightarrow> app_error \<Rightarrow> app_exception option" where
  "appException said e = first_of
     [order_exception e, order_request_exception e, cursor_exception e, key_exception e, payment_exception e,
      money_exception said e, session_exception e, device_exception e, account_exception e, catalog_exception e,
      not_found_exception e, dependency_exception said e, rate_exception e, range_exception said e]"

subsection \<open>\<open>request-id.ts\<close>\<close>

definition MAX_REQUEST_ID_LENGTH :: nat where "MAX_REQUEST_ID_LENGTH = 128"

definition isUsable :: "string \<Rightarrow> bool" where
  "isUsable value = (length value \<le> MAX_REQUEST_ID_LENGTH \<and> value \<noteq> [] \<and>
     list_all (\<lambda>c. c \<in> set ''ABCDEFGHIJKLMNOPQRSTUVWXYZabcdefghijklmnopqrstuvwxyz0123456789._-'') value)"

text \<open>The inbound header, possibly repeated; \<open>uuid\<close> is what \<open>randomUUID\<close> returns.\<close>

definition generateRequestId :: "string list \<Rightarrow> string \<Rightarrow> string" where
  "generateRequestId inbound uuid =
     (case inbound of [] \<Rightarrow> uuid | candidate # _ \<Rightarrow> if candidate \<noteq> [] \<and> isUsable candidate then candidate else uuid)"

record http_request =
  rq_id :: "string option"
  rq_method :: string
  rq_url :: string
  rq_baseUrl :: string
  rq_routePath :: "string option"

definition getRequestId :: "http_request \<Rightarrow> string" where
  "getRequestId rq = (case rq_id rq of None \<Rightarrow> ''unknown'' | Some i \<Rightarrow> i)"

definition routeLabelOf :: "http_request \<Rightarrow> string" where
  "routeLabelOf rq =
     (case rq_routePath rq of
        None \<Rightarrow> ''unmatched''
      | Some pattern \<Rightarrow> if CHR ''*'' \<in> set pattern then ''unmatched'' else rq_baseUrl rq @ pattern)"

subsection \<open>\<open>all-exceptions.filter.ts\<close>\<close>

record zod_issue =
  zi_path :: "string list"
  zi_code :: string
  zi_message :: string

datatype response_message = MessageList "string list" | MessageText string | NoMessage

datatype http_response = ResponseText string | ResponseObject response_message

text \<open>The members the filter looks at on a value it does not know; \<open>None\<close> is \<open>undefined\<close>.\<close>

record thrown_value =
  tv_name :: "json option"
  tv_code :: "json option"
  tv_status :: "json option"
  tv_statusCode :: "json option"
  tv_message :: "string option"

datatype caught =
    AppException app_exception
  | ZodError "zod_issue list"
  | HttpException nat http_response string
  | Thrown thrown_value

text \<open>
  How an error of the services reaches the filter: as an instance of its class, or, for a driver
  error and a bare \<open>Error\<close>, as a value with members \<open>v\<close>.
\<close>

definition raised :: "string \<Rightarrow> thrown_value \<Rightarrow> app_error \<Rightarrow> caught" where
  "raised said v e = (case appException said e of Some x \<Rightarrow> AppException x | None \<Rightarrow> Thrown v)"

definition HTTP_STATUS_MAP :: "nat \<Rightarrow> (string \<times> string) option" where
  "HTTP_STATUS_MAP = map_of
     [(400, ''BAD_REQUEST'', ''Bad request''), (401, ''AUTH_TOKEN_INVALID'', ''Unauthorized''),
      (403, ''FORBIDDEN_ROLE'', ''Forbidden''), (404, ''RESOURCE_NOT_FOUND'', ''Not found''),
      (409, ''CONFLICT'', ''Conflict''), (413, ''PAYLOAD_TOO_LARGE'', ''Payload too large''),
      (422, ''VALIDATION_FAILED'', ''Validation failed''), (429, ''RATE_LIMITED'', ''Too many requests''),
      (503, ''DEPENDENCY_UNAVAILABLE'', ''Service unavailable'')]"

definition MAX_DETAIL_LENGTH :: nat where "MAX_DETAIL_LENGTH = 200"

definition ellipsis :: string where "ellipsis = utf8 8230"

definition truncate_detail :: "string \<Rightarrow> string" where
  "truncate_detail detail =
     (if MAX_DETAIL_LENGTH < length detail then take (MAX_DETAIL_LENGTH - 1) detail @ ellipsis else detail)"

definition build_problem ::
  "string \<Rightarrow> nat \<Rightarrow> string \<Rightarrow> string \<Rightarrow> string \<Rightarrow> validation_error_item list option \<Rightarrow> json option \<Rightarrow> problem_details" where
  "build_problem code status title detail requestId errors meta =
     \<lparr>pd_type = errorType code, pd_title = title, pd_status = status, pd_code = code, pd_detail = detail,
      pd_requestId = requestId, pd_errors = errors, pd_meta = meta\<rparr>"

definition internal :: "string \<Rightarrow> problem_details" where
  "internal requestId = build_problem ''INTERNAL'' 500 ''Internal server error'' ''An unexpected error occurred.'' requestId None None"

definition clientProblem :: "nat \<Rightarrow> string \<Rightarrow> string \<Rightarrow> problem_details" where
  "clientProblem status detail requestId =
     (case (case HTTP_STATUS_MAP status of None \<Rightarrow> (''BAD_REQUEST'', ''Bad request'') | Some m \<Rightarrow> m) of
        (code, title) \<Rightarrow> build_problem code status title (truncate_detail detail) requestId None None)"

definition multerStatusOf :: "thrown_value \<Rightarrow> nat option" where
  "multerStatusOf v =
     (if tv_name v \<noteq> Some (JStr ''MulterError'') then None
      else Some (if tv_code v = Some (JStr ''LIMIT_FILE_SIZE'') then 413 else 400))"

definition httpStatusOf :: "thrown_value \<Rightarrow> int option" where
  "httpStatusOf v =
     (case (if tv_status v \<in> {None, Some JNull} then tv_statusCode v else tv_status v) of
        Some (JNum n) \<Rightarrow> Some n
      | _ \<Rightarrow> None)"

definition extractHttpDetail :: "http_response \<Rightarrow> string \<Rightarrow> string" where
  "extractHttpDetail response msg =
     (case response of
        ResponseText s \<Rightarrow> s
      | ResponseObject (MessageList ms) \<Rightarrow> join ''; '' ms
      | ResponseObject (MessageText m) \<Rightarrow> m
      | ResponseObject NoMessage \<Rightarrow> msg)"

definition issue_item :: "zod_issue \<Rightarrow> validation_error_item" where
  "issue_item i =
     \<lparr>ve_field = (let p = join ''.'' (zi_path i) in if p = [] then ''(root)'' else p), ve_rule = zi_code i,
      ve_message = zi_message i\<rparr>"

text \<open>
  \<open>None\<close>: the filter throws itself, reading the length of a message that is not there.
\<close>

definition thrown_problem :: "thrown_value \<Rightarrow> string \<Rightarrow> problem_details option" where
  "thrown_problem v requestId =
     (case multerStatusOf v of
        Some status \<Rightarrow> map_option (\<lambda>m. clientProblem status m requestId) (tv_message v)
      | None \<Rightarrow>
          (case httpStatusOf v of
             Some status \<Rightarrow>
               if 400 \<le> status \<and> status < 500
               then map_option (\<lambda>m. clientProblem (nat status) m requestId) (tv_message v)
               else Some (internal requestId)
           | None \<Rightarrow> Some (internal requestId)))"

definition toProblem :: "caught \<Rightarrow> string \<Rightarrow> problem_details option" where
  "toProblem ex requestId =
     (case ex of
        AppException x \<Rightarrow>
          Some (build_problem (x_code x) (x_status x) (x_title x) (x_detail x) requestId (x_errors x) (x_meta x))
      | ZodError issues \<Rightarrow>
          Some (build_problem ''VALIDATION_FAILED'' 422 ''Validation failed'' ''One or more fields are invalid.'' requestId
            (Some (map issue_item issues)) None)
      | HttpException status response msg \<Rightarrow>
          Some (if 500 \<le> status then internal requestId
                else clientProblem status (extractHttpDetail response msg) requestId)
      | Thrown v \<Rightarrow> thrown_problem v requestId)"

datatype filter_line = Warned string | Failed string caught

record filter_log =
  fl_lines :: "filter_line list"
  fl_reports :: "(caught \<times> string \<times> string \<times> string) list"

definition catch_exception ::
  "http_request \<Rightarrow> caught \<Rightarrow> filter_log \<Rightarrow> (nat \<times> problem_details) option \<times> filter_log" where
  "catch_exception rq ex log =
     (case toProblem ex (getRequestId rq) of
        None \<Rightarrow> (None, log)
      | Some problem \<Rightarrow>
          let place = pd_code problem @ '' '' @ rq_method rq @ '' '' @ rq_url rq @ '' ['' @ getRequestId rq @ '']'' in
          (Some (pd_status problem, problem),
           if pd_code problem = ''DEPENDENCY_UNAVAILABLE'' then log\<lparr>fl_lines := fl_lines log @ [Warned place]\<rparr>
           else if 500 \<le> pd_status problem
           then log\<lparr>fl_lines := fl_lines log @ [Failed place ex],
                    fl_reports := fl_reports log @ [(ex, getRequestId rq, rq_method rq, routeLabelOf rq)]\<rparr>
           else log))"

section \<open>Lemmas\<close>

lemmas exception_tables =
  order_exception_def order_request_exception_def cursor_exception_def key_exception_def payment_exception_def
  money_exception_def session_exception_def device_exception_def account_exception_def catalog_exception_def
  not_found_exception_def dependency_exception_def rate_exception_def range_exception_def

lemmas exception_makers = plain_def about_def blaming_def

text \<open>The classes put the status \<open>http_status\<close> says into the envelope; everything else is a 500.\<close>

lemma appException_status: "appException said e = Some x \<Longrightarrow> x_status x = http_status e"
  by (cases e) (auto simp: appException_def exception_tables exception_makers)

lemma appException_None: "appException said e = None \<Longrightarrow> http_status e = 500"
  by (cases e) (auto simp: appException_def exception_tables exception_makers)

lemma appException_errors: "appException said e = Some x \<Longrightarrow> x_errors x \<noteq> None \<Longrightarrow> x_status x = 422"
  by (cases e) (auto simp: appException_def exception_tables exception_makers)

lemma appException_5xx:
  "appException said e = Some x \<Longrightarrow> 500 \<le> x_status x \<longleftrightarrow> x_code x = ''DEPENDENCY_UNAVAILABLE''"
  by (cases e) (auto simp: appException_def exception_tables exception_makers)

lemma appException_dependency:
  "appException said e = Some x \<Longrightarrow> x_code x = ''DEPENDENCY_UNAVAILABLE'' \<Longrightarrow>
    e = DependencyUnavailableError \<and> x = plain ''DEPENDENCY_UNAVAILABLE'' 503 ''Service unavailable'' said"
  by (cases e) (auto simp: appException_def exception_tables exception_makers)

text \<open>Codes are written in capitals and underscores, and the type derived from one determines it.\<close>

definition code_char :: "char \<Rightarrow> bool" where
  "code_char c \<longleftrightarrow> c = CHR ''_'' \<or> 65 \<le> (of_char c :: nat) \<and> (of_char c :: nat) \<le> 90"

definition type_char :: "char \<Rightarrow> char" where
  "type_char c = (if c = CHR ''_'' then CHR ''-'' else char_of ((of_char c :: nat) + 32))"

lemma type_char_value:
  "code_char c \<Longrightarrow> (of_char (type_char c) :: nat) = (if c = CHR ''_'' then 45 else of_char c + 32)"
  by (auto simp: code_char_def type_char_def take_bit_eq_mod)

lemma type_char_inj: "inj_on type_char {c. code_char c}"
proof (rule inj_onI)
  fix c c' assume "c \<in> {c. code_char c}" "c' \<in> {c. code_char c}" "type_char c = type_char c'"
  then have codes: "code_char c" "code_char c'" and "(of_char (type_char c) :: nat) = of_char (type_char c')" by simp_all
  then have "(of_char c :: nat) = of_char c'" by (auto simp: type_char_value code_char_def split: if_splits)
  then show "c = c'" by simp
qed

lemma lowered_not_underscore:
  assumes "65 \<le> (n :: nat)" "n \<le> 90"
  shows "(char_of (n + 32) :: char) \<noteq> CHR ''_''"
proof
  assume "(char_of (n + 32) :: char) = CHR ''_''"
  then have "(of_char (char_of (n + 32) :: char) :: nat) = of_char (CHR ''_'')" by simp
  then show False using assms by (simp add: take_bit_eq_mod)
qed

lemma errorType_code: "list_all code_char code \<Longrightarrow> errorType code = ERROR_TYPE_BASE @ map type_char code"
  using lowered_not_underscore
  by (auto simp: errorType_def toLowerCase_def type_char_def code_char_def Let_def list_all_iff)

lemma errorType_inj:
  assumes "list_all code_char code" "list_all code_char code'" "errorType code = errorType code'"
  shows "code = code'"
proof -
  have "set code \<union> set code' \<subseteq> {c. code_char c}" using assms(1,2) by (auto simp: list_all_iff)
  then have "inj_on type_char (set code \<union> set code')" by (rule inj_on_subset [OF type_char_inj])
  then show ?thesis using assms by (auto simp: errorType_code dest: map_inj_on)
qed

text \<open>The parts of the filter.\<close>

lemma clientProblem_simps [simp]:
  "pd_status (clientProblem st d i) = st" "pd_requestId (clientProblem st d i) = i" "pd_errors (clientProblem st d i) = None"
  "pd_type (clientProblem st d i) = errorType (pd_code (clientProblem st d i))"
  by (simp_all add: clientProblem_def build_problem_def split: prod.splits)

lemma clientProblem_detail: "pd_detail (clientProblem st d i) = truncate_detail d"
  by (simp add: clientProblem_def build_problem_def split: prod.splits)

lemma clientProblem_code: "st < 500 \<Longrightarrow> pd_code (clientProblem st d i) \<noteq> ''DEPENDENCY_UNAVAILABLE''"
  by (auto simp: clientProblem_def build_problem_def HTTP_STATUS_MAP_def split: prod.splits option.splits if_splits)

lemma truncate_length: "length (truncate_detail d) \<le> MAX_DETAIL_LENGTH - 1 + length ellipsis"
proof -
  have "1 \<le> length ellipsis" by (simp add: ellipsis_def utf8_def)
  then show ?thesis by (auto simp: truncate_detail_def MAX_DETAIL_LENGTH_def)
qed

definition client_fault :: "thrown_value \<Rightarrow> bool" where
  "client_fault v \<longleftrightarrow> multerStatusOf v \<noteq> None \<or> (\<exists>n. httpStatusOf v = Some n \<and> 400 \<le> n \<and> n < 500)"

lemma multer_status: "multerStatusOf v = Some st \<Longrightarrow> 400 \<le> st \<and> st < 500"
  by (auto simp: multerStatusOf_def split: if_splits)

lemma thrown_problem_cases:
  "thrown_problem v i =
    (if client_fault v then map_option (\<lambda>m. clientProblem (case multerStatusOf v of Some st \<Rightarrow> st | None \<Rightarrow> nat (the (httpStatusOf v))) m i) (tv_message v)
     else Some (internal i))"
  by (auto simp: thrown_problem_def client_fault_def split: option.splits)

text \<open>Every problem is the generic one, a client's fault, or one of the application's own.\<close>

lemma toProblem_cases:
  assumes "toProblem ex i = Some p"
  obtains (generic) "p = internal i" "\<forall>x. ex \<noteq> AppException x"
  | (client) st d where "p = clientProblem st d i" "st < 500" "\<forall>x. ex \<noteq> AppException x"
  | (validation) issues where "ex = ZodError issues" "pd_status p = 422" "pd_code p = ''VALIDATION_FAILED''" "pd_requestId p = i"
      "pd_type p = errorType (pd_code p)" "pd_detail p = ''One or more fields are invalid.''"
  | (app) x where "ex = AppException x"
      "p = build_problem (x_code x) (x_status x) (x_title x) (x_detail x) i (x_errors x) (x_meta x)"
proof (cases ex)
  case (Thrown v)
  then have p: "thrown_problem v i = Some p" using assms by (simp add: toProblem_def)
  show ?thesis
  proof (cases "client_fault v")
    case True
    then have "(case multerStatusOf v of Some st \<Rightarrow> st | None \<Rightarrow> nat (the (httpStatusOf v))) < 500"
      using multer_status by (auto simp: client_fault_def split: option.splits)
    then show ?thesis using p True Thrown client by (auto simp: thrown_problem_cases)
  next
    case False
    then show ?thesis using p Thrown generic by (simp add: thrown_problem_cases)
  qed
qed (use assms that in \<open>auto simp: toProblem_def build_problem_def split: if_splits\<close>)

lemma appException_not_internal: "appException said e = Some x \<Longrightarrow> x_code x \<noteq> ''INTERNAL''"
  by (cases e) (auto simp: appException_def exception_tables exception_makers)

section \<open>Properties\<close>

definition known :: "caught \<Rightarrow> bool" where
  "known ex \<longleftrightarrow> (\<forall>x. ex = AppException x \<longrightarrow> (\<exists>said e. appException said e = Some x))"

definition unavailable :: "caught \<Rightarrow> bool" where
  "unavailable ex \<longleftrightarrow> (\<exists>x said. ex = AppException x \<and> appException said DependencyUnavailableError = Some x)"

text \<open>
  What the body has to say, class by class. An exception of the application speaks for itself:
  its code, status, title, detail, field errors and meta data. A validation error lists its issues in
  order, each with its field, rule and message. A client error of the framework, of the upload parser
  or of whoever else puts a client status on what he throws has the code and title of that status,
  and its message is echoed, cut short where it is long. Everything else is answered with the
  generic body, which says nothing of it.
\<close>

definition item_for :: "zod_issue \<Rightarrow> validation_error_item \<Rightarrow> bool" where
  "item_for i item \<longleftrightarrow> ve_rule item = zi_code i \<and> ve_message item = zi_message i \<and>
     (if join ''.'' (zi_path i) = [] then ve_field item = ''(root)'' else ve_field item = join ''.'' (zi_path i))"

definition echoes :: "string \<Rightarrow> string \<Rightarrow> bool" where
  "echoes said detail \<longleftrightarrow> (if length said \<le> 200 then detail = said else detail = take 199 said @ utf8 8230)"

definition client_body :: "nat \<Rightarrow> string \<Rightarrow> problem_details \<Rightarrow> bool" where
  "client_body st said p \<longleftrightarrow> pd_status p = st \<and> echoes said (pd_detail p) \<and> pd_errors p = None \<and> pd_meta p = None \<and>
     (pd_code p, pd_title p) = (case HTTP_STATUS_MAP st of Some m \<Rightarrow> m | None \<Rightarrow> (''BAD_REQUEST'', ''Bad request''))"

definition generic_body :: "problem_details \<Rightarrow> bool" where
  "generic_body p \<longleftrightarrow> pd_status p = 500 \<and> pd_code p = ''INTERNAL'' \<and> pd_title p = ''Internal server error'' \<and>
     pd_detail p = ''An unexpected error occurred.'' \<and> pd_errors p = None \<and> pd_meta p = None"

definition says :: "caught \<Rightarrow> problem_details \<Rightarrow> bool" where
  "says ex p \<longleftrightarrow>
     (case ex of
        AppException x \<Rightarrow> pd_code p = x_code x \<and> pd_status p = x_status x \<and> pd_title p = x_title x \<and>
          pd_detail p = x_detail x \<and> pd_errors p = x_errors x \<and> pd_meta p = x_meta x
      | ZodError issues \<Rightarrow> pd_code p = ''VALIDATION_FAILED'' \<and> pd_status p = 422 \<and> pd_meta p = None \<and>
          (\<exists>items. pd_errors p = Some items \<and> list_all2 item_for issues items)
      | HttpException st response msg \<Rightarrow>
          if 500 \<le> st then generic_body p else client_body st (extractHttpDetail response msg) p
      | Thrown v \<Rightarrow>
          if client_fault v
          then \<exists>m. tv_message v = Some m \<and>
            client_body (case multerStatusOf v of Some st \<Rightarrow> st | None \<Rightarrow> nat (the (httpStatusOf v))) m p
          else generic_body p)"

lemma client_body_clientProblem: "client_body st said (clientProblem st said i)"
  by (auto simp: client_body_def clientProblem_def build_problem_def echoes_def truncate_detail_def MAX_DETAIL_LENGTH_def
      ellipsis_def split: prod.splits)

lemma generic_body_internal: "generic_body (internal i)"
  by (simp add: generic_body_def internal_def build_problem_def)

lemma issue_item_for: "list_all2 item_for issues (map issue_item issues)"
  by (induction issues) (simp_all add: item_for_def issue_item_def Let_def)

lemma toProblem_says: "toProblem ex i = Some p \<Longrightarrow> says ex p"
  using client_body_clientProblem generic_body_internal issue_item_for
  by (cases ex) (auto simp: toProblem_def says_def thrown_problem_cases build_problem_def split: if_splits)

definition answered :: "http_request \<Rightarrow> caught \<Rightarrow> problem_details \<Rightarrow> bool" where
  "answered rq ex p \<longleftrightarrow>
     pd_requestId p = getRequestId rq \<and> pd_type p = errorType (pd_code p) \<and> says ex p \<and>
     (\<forall>said v e. ex = raised said v e \<longrightarrow> pd_status p = http_status e \<or> ex = Thrown v \<and> client_fault v) \<and>
     (pd_errors p \<noteq> None \<longrightarrow> pd_status p = 422) \<and>
     (500 \<le> pd_status p \<longrightarrow> p = internal (getRequestId rq) \<or> unavailable ex) \<and>
     ((\<forall>x. ex \<noteq> AppException x) \<longrightarrow> length (pd_detail p) \<le> MAX_DETAIL_LENGTH - 1 + length ellipsis)"

lemma toProblem_answered:
  assumes "known ex" "toProblem ex (getRequestId rq) = Some p"
  shows "answered rq ex p"
proof -
  have s: "says ex p" by (rule toProblem_says [OF assms(2)])
  show ?thesis
    using assms(2)
  proof (cases rule: toProblem_cases)
    case generic
    then show ?thesis
      using s appException_None
      by (auto simp: answered_def internal_def build_problem_def raised_def MAX_DETAIL_LENGTH_def split: option.splits)
  next
    case (client st d)
    then have "pd_status p < 500" by simp
    moreover have "client_fault v" if "ex = Thrown v" "p \<noteq> internal (getRequestId rq)" for v
      using assms(2) that by (auto simp: toProblem_def thrown_problem_cases split: if_splits)
    moreover have "p \<noteq> internal (getRequestId rq)"
    proof
      assume "p = internal (getRequestId rq)"
      then have "pd_status p = 500" by (simp add: internal_def build_problem_def)
      with \<open>pd_status p < 500\<close> show False by simp
    qed
    ultimately show ?thesis
      using s client truncate_length [of d] by (auto simp: answered_def clientProblem_detail raised_def split: option.splits)
  next
    case (validation issues)
    then show ?thesis using s by (auto simp: answered_def raised_def MAX_DETAIL_LENGTH_def split: option.splits)
  next
    case (app x)
    then obtain said e where x: "appException said e = Some x" using assms(1) by (auto simp: known_def)
    have "unavailable ex" if "500 \<le> x_status x"
      using that x app(1) appException_5xx appException_dependency unfolding unavailable_def by metis
    moreover have "x_errors x \<noteq> None \<longrightarrow> x_status x = 422" using x appException_errors by blast
    moreover have "x_status x = http_status e'" if "ex = raised said' v e'" for said' v e'
      using that app(1) appException_status [of said' e' x] by (auto simp: raised_def split: option.splits)
    ultimately show ?thesis using s app by (auto simp: answered_def build_problem_def)
  qed
qed

text \<open>
  C36. Every failure leaves as one envelope. The status line is the one in the body, the type is
  derived from the code and the request's identifier is echoed. The body is the one of the
  exception's class, field by field (\<open>says\<close>): an exception of the application is answered with the code,
  status, title, detail, field errors and meta data of its class, a validation error with 422 and
  one entry for each issue, a client error of the framework or the upload parser with the code of
  its status and its message, everything else with 500 and a body that says nothing of it. Field
  errors accompany a 422 only; at 500 and above the body is the generic one unless a dependency is known
  to be down; what is echoed is bounded; and exactly the failures answered with the generic body
  are reported. A value of any other origin that carries a client status is treated as a
  client error too: it is echoed and not reported (\<open>foreign_client_error_is_echoed\<close>). The filter itself
  fails only on a client error that carries no message.
\<close>

theorem error_envelope:
  assumes "known ex" "catch_exception rq ex log = (reply, log')"
  shows "case reply of
      None \<Rightarrow> log' = log \<and> (\<exists>v. ex = Thrown v \<and> client_fault v \<and> tv_message v = None)
    | Some (st, p) \<Rightarrow>
        st = pd_status p \<and> answered rq ex p \<and>
        fl_reports log' = fl_reports log @
          (if p = internal (getRequestId rq) then [(ex, getRequestId rq, rq_method rq, routeLabelOf rq)] else [])"
proof (cases "toProblem ex (getRequestId rq)")
  case None
  then have "reply = None" "log' = log" using assms(2) by (simp_all add: catch_exception_def)
  moreover obtain v where "ex = Thrown v" using None by (cases ex) (auto simp: toProblem_def)
  ultimately show ?thesis using None by (auto simp: toProblem_def thrown_problem_cases split: if_splits)
next
  case (Some p)
  note a = toProblem_answered [OF assms(1) Some]
  have dep: "pd_code p = ''DEPENDENCY_UNAVAILABLE'' \<Longrightarrow> p \<noteq> internal (getRequestId rq)"
    by (auto simp: internal_def build_problem_def)
  have "p = internal (getRequestId rq)" if "500 \<le> pd_status p" "pd_code p \<noteq> ''DEPENDENCY_UNAVAILABLE''"
  proof -
    have "\<not> unavailable ex"
    proof
      assume "unavailable ex"
      then obtain x said where x: "ex = AppException x" "appException said DependencyUnavailableError = Some x"
        by (auto simp: unavailable_def)
      then have "x_status x = pd_status p" "x_code x = pd_code p" using Some by (auto simp: toProblem_def build_problem_def)
      with appException_5xx [OF x(2)] that show False by simp
    qed
    then show ?thesis using that(1) a by (simp add: answered_def)
  qed
  moreover have "500 \<le> pd_status p" if "p = internal (getRequestId rq)" using that by (simp add: internal_def build_problem_def)
  ultimately have reported: "p = internal (getRequestId rq) \<longleftrightarrow> pd_code p \<noteq> ''DEPENDENCY_UNAVAILABLE'' \<and> 500 \<le> pd_status p"
    using dep by blast
  have "reply = Some (pd_status p, p)" using assms(2) Some by (simp add: catch_exception_def Let_def)
  moreover have "fl_reports log' = fl_reports log @
      (if pd_code p \<noteq> ''DEPENDENCY_UNAVAILABLE'' \<and> 500 \<le> pd_status p
       then [(ex, getRequestId rq, rq_method rq, routeLabelOf rq)] else [])"
    using assms(2) Some by (auto simp: catch_exception_def Let_def split: if_splits)
  ultimately show ?thesis unfolding reported [symmetric] using a by simp
qed

definition lost_connection :: thrown_value where
  "lost_connection = \<lparr>tv_name = Some (JStr ''Error''), tv_code = Some (JStr ''57P01''), tv_status = None, tv_statusCode = None,
     tv_message = Some ''terminating connection''\<rparr>"

definition some_request :: http_request where
  "some_request = \<lparr>rq_id = Some ''r1'', rq_method = ''POST'', rq_url = ''/api/v1/orders'', rq_baseUrl = [], rq_routePath = Some ''/api/v1/orders''\<rparr>"

theorem error_envelope_witness:
  "(\<exists>p log'. catch_exception some_request (raised [] lost_connection OrderAlreadyPaidError) \<lparr>fl_lines = [], fl_reports = []\<rparr> =
      (Some (409, p), log') \<and> pd_code p = ''ORDER_ALREADY_PAID'' \<and> fl_reports log' = []) \<and>
   (\<exists>log'. catch_exception some_request (raised [] lost_connection UniqueViolation) \<lparr>fl_lines = [], fl_reports = []\<rparr> =
      (Some (500, internal ''r1''), log') \<and> length (fl_reports log') = 1)"
proof -
  let ?paid = "raised [] lost_connection OrderAlreadyPaidError"
  let ?ex = "raised [] lost_connection UniqueViolation" and ?log = "\<lparr>fl_lines = [], fl_reports = []\<rparr>"
  have ex: "?ex = Thrown lost_connection" by code_simp
  obtain x where x: "appException [] OrderAlreadyPaidError = Some x" "x_code x = ''ORDER_ALREADY_PAID''" "x_status x = 409"
    by (simp add: appException_def exception_tables exception_makers)
  then have paid: "?paid = AppException x" by (simp add: raised_def)
  have known: "known ?ex" "known ?paid" using x(1) by (auto simp: known_def ex paid)
  obtain log' where c: "catch_exception some_request ?ex ?log = (Some (500, internal ''r1''), log')"
    unfolding ex by (simp add: catch_exception_def toProblem_def thrown_problem_def multerStatusOf_def httpStatusOf_def
      lost_connection_def getRequestId_def some_request_def Let_def internal_def build_problem_def)
  have id: "getRequestId some_request = ''r1''" by (simp add: some_request_def getRequestId_def)
  have "length (fl_reports log') = 1" using error_envelope [OF known(1) c] by (simp add: id)
  moreover obtain st p log'' where d: "catch_exception some_request ?paid ?log = (Some (st, p), log'')"
    by (simp add: paid catch_exception_def toProblem_def Let_def)
  have "st = 409 \<and> pd_code p = ''ORDER_ALREADY_PAID'' \<and> fl_reports log'' = []"
    using error_envelope [OF known(2) d] x(2,3) by (auto simp: paid answered_def says_def internal_def build_problem_def)
  ultimately show ?thesis using c d by blast
qed

text \<open>
  The other way round for a value that carries a client error: its message is sent out, whoever
  raised it. The errors of the payment library carry the status of the gateway's answer this way.
\<close>

lemma foreign_client_error_is_echoed:
  assumes "tv_name v \<noteq> Some (JStr ''MulterError'')" "tv_status v = None" "tv_statusCode v = Some (JNum 402)"
    and "tv_message v = Some m" "length m \<le> 200"
  shows "\<exists>p. toProblem (Thrown v) i = Some p \<and> pd_status p = 402 \<and> pd_detail p = m"
  using assms
  by (auto simp: toProblem_def thrown_problem_def multerStatusOf_def httpStatusOf_def clientProblem_detail truncate_detail_def
      MAX_DETAIL_LENGTH_def)

end
