(* ===== verification/Images.thy ===== *)
theory Images
  imports Catalog Gateway "HOL-Library.Word"
begin

text \<open>
  Item photos: the upload route of \<open>items.controller.ts\<close>, \<open>item-image.service.ts\<close>, and the bucket
  they are kept in, \<open>storage/object-storage.service.ts\<close>.

  Bytes are words of eight bits. The image library is the argument \<open>render\<close> (\<open>None\<close> where it throws),
  the digest is \<open>sha256\<close>, and what the object store answers to a command is an argument too: a put may
  fail with or without having been carried out. \<open>gap\<close> is what other requests do while an upload waits.
\<close>

section \<open>Definitions\<close>

type_synonym bytes = "8 word list"

subsection \<open>\<open>object-storage.service.ts\<close>\<close>

record stored_object =
  so_body :: bytes
  so_contentType :: string
  so_cacheControl :: string

record ('p, 'b) photo_world =
  pw_db :: "('p, 'b) db"
  pw_objects :: "string \<Rightarrow> stored_object option"

datatype put_outcome = Stored | StoredUnheard app_error | NotStored app_error

definition put_object ::
  "string \<Rightarrow> put_outcome \<Rightarrow> string \<Rightarrow> bytes \<Rightarrow> string \<Rightarrow> ('p, 'b) photo_world \<Rightarrow> string result \<times> ('p, 'b) photo_world" where
  "put_object publicBaseUrl outcome objectKey body contentType s =
     (let ob = \<lparr>so_body = body, so_contentType = contentType, so_cacheControl = ''public, max-age=31536000, immutable''\<rparr>;
          s' = s\<lparr>pw_objects := (pw_objects s)(objectKey \<mapsto> ob)\<rparr>
      in case outcome of
           Stored \<Rightarrow> (Inr (publicBaseUrl @ ''/'' @ objectKey), s')
         | StoredUnheard e \<Rightarrow> (Inl e, s')
         | NotStored e \<Rightarrow> (Inl e, s))"

text \<open>
  Start-up. \<open>found\<close>, \<open>creation\<close> and \<open>opening\<close> are the answers to the three commands of an attempt, by its
  number: \<open>None\<close>, or the name of the error.
\<close>

definition READINESS_ATTEMPTS :: nat where "READINESS_ATTEMPTS = 5"

definition isBucketAlreadyOwned :: "string \<Rightarrow> bool" where
  "isBucketAlreadyOwned name \<longleftrightarrow> name = ''BucketAlreadyOwnedByYou'' \<or> name = ''BucketAlreadyExists''"

definition ensureBucket :: "bool \<Rightarrow> string option \<Rightarrow> string option \<Rightarrow> string option \<Rightarrow> string option" where
  "ensureBucket autoCreateBucket found creation opening =
     (case found of
        None \<Rightarrow> None
      | Some e \<Rightarrow>
          if \<not> autoCreateBucket then Some e
          else case creation of
                 None \<Rightarrow> opening
               | Some e' \<Rightarrow> if isBucketAlreadyOwned e' then opening else Some e')"

fun bucket_attempts :: "(nat \<Rightarrow> string option) \<Rightarrow> nat \<Rightarrow> nat \<Rightarrow> string \<Rightarrow> string option" where
  "bucket_attempts attempt n 0 lastError = Some lastError"
| "bucket_attempts attempt n (Suc left) lastError =
     (case attempt n of None \<Rightarrow> None | Some e \<Rightarrow> bucket_attempts attempt (n + 1) left e)"

text \<open>\<open>None\<close>: the boot goes on. \<open>Some e\<close>: it is refused, naming the last error as the cause.\<close>

definition onModuleInit ::
  "bool \<Rightarrow> (nat \<Rightarrow> string option) \<Rightarrow> (nat \<Rightarrow> string option) \<Rightarrow> (nat \<Rightarrow> string option) \<Rightarrow> string option" where
  "onModuleInit autoCreateBucket found creation opening =
     bucket_attempts (\<lambda>n. ensureBucket autoCreateBucket (found n) (creation n) (opening n)) 1 READINESS_ATTEMPTS ''undefined''"

subsection \<open>\<open>item-image.service.ts\<close>\<close>

definition OUTPUT_CONTENT_TYPE :: string where "OUTPUT_CONTENT_TYPE = ''image/webp''"
definition KEY_PREFIX :: string where "KEY_PREFIX = ''items''"

definition ACCEPTED_IMAGE_TYPES :: "string list" where
  "ACCEPTED_IMAGE_TYPES = [''image/jpeg'', ''image/png'', ''image/webp'']"

definition UNSTATED_CONTENT_TYPES :: "string list" where
  "UNSTATED_CONTENT_TYPES = [[], ''application/octet-stream'']"

definition JPEG_MAGIC :: bytes where "JPEG_MAGIC = [0xff, 0xd8, 0xff]"
definition PNG_MAGIC :: bytes where "PNG_MAGIC = [0x89, 0x50, 0x4e, 0x47, 0x0d, 0x0a, 0x1a, 0x0a]"
definition RIFF_MAGIC :: bytes where "RIFF_MAGIC = [0x52, 0x49, 0x46, 0x46]"
definition WEBP_MAGIC :: bytes where "WEBP_MAGIC = [0x57, 0x45, 0x42, 0x50]"

definition sniffImageType :: "bytes \<Rightarrow> string option" where
  "sniffImageType buffer =
     (if 3 \<le> length buffer \<and> take 3 buffer = JPEG_MAGIC then Some ''image/jpeg''
      else if 8 \<le> length buffer \<and> take 8 buffer = PNG_MAGIC then Some ''image/png''
      else if 12 \<le> length buffer \<and> take 4 buffer = RIFF_MAGIC \<and> take 4 (drop 8 buffer) = WEBP_MAGIC then Some ''image/webp''
      else None)"

record uploaded_image =
  ui_mimetype :: string
  ui_buffer :: bytes

definition reencode :: "(bytes \<Rightarrow> bytes option) \<Rightarrow> uploaded_image \<Rightarrow> bytes result" where
  "reencode render file =
     (let declared = toLowerCase (js_trim (ui_mimetype file)) in
      if \<not> List.member UNSTATED_CONTENT_TYPES declared \<and> \<not> List.member ACCEPTED_IMAGE_TYPES declared
      then Inl (ImageTypeUnsupportedError ACCEPTED_IMAGE_TYPES)
      else if sniffImageType (ui_buffer file) = None then Inl (ImageTypeUnsupportedError ACCEPTED_IMAGE_TYPES)
      else case render (ui_buffer file) of None \<Rightarrow> Inl ImageUnprocessableError | Some pixels \<Rightarrow> Inr pixels)"

definition image_key :: "(bytes \<Rightarrow> string) \<Rightarrow> bytes \<Rightarrow> string" where
  "image_key sha256 pixels = KEY_PREFIX @ ''/'' @ sha256 pixels @ ''.webp''"

definition new_photo :: "string \<Rightarrow> update_item_input" where
  "new_photo url =
     \<lparr>uit_categoryId = None, uit_name = None, uit_description = None, uit_basePriceMinor = None,
      uit_imageUrl = Some (Some url), uit_sortOrder = None\<rparr>"

definition replace_photo ::
  "(bytes \<Rightarrow> bytes option) \<Rightarrow> (bytes \<Rightarrow> string) \<Rightarrow> string \<Rightarrow> put_outcome \<Rightarrow> (nat \<Rightarrow> ('p, 'b) photo_world \<Rightarrow> ('p, 'b) photo_world) \<Rightarrow>
   string \<Rightarrow> uploaded_image \<Rightarrow> ('p, 'b) photo_world \<Rightarrow> menu_item_row result \<times> ('p, 'b) photo_world" where
  "replace_photo render sha256 publicBaseUrl outcome gap itemId file s =
     (case row_by mi_id itemId (menuItems (pw_db s)) of
        None \<Rightarrow> (Inl (ResourceNotFoundError ''menu item'' itemId), s)
      | Some _ \<Rightarrow>
          let s1 = gap 0 s in
          (case reencode render file of
             Inl e \<Rightarrow> (Inl e, s1)
           | Inr pixels \<Rightarrow>
               (case put_object publicBaseUrl outcome (image_key sha256 pixels) pixels OUTPUT_CONTENT_TYPE s1 of
                  (Inl e, s2) \<Rightarrow> (Inl e, s2)
                | (Inr url, s2) \<Rightarrow>
                    let s3 = gap 1 s2 in
                    (case update_item itemId (new_photo url) (pw_db s3) of (r, d) \<Rightarrow> (r, s3\<lparr>pw_db := d\<rparr>)))))"

text \<open>The route: the form parser leaves the file \<open>undefined\<close> when the form has no such part.\<close>

definition uploadImage ::
  "(bytes \<Rightarrow> bytes option) \<Rightarrow> (bytes \<Rightarrow> string) \<Rightarrow> string \<Rightarrow> put_outcome \<Rightarrow> (nat \<Rightarrow> ('p, 'b) photo_world \<Rightarrow> ('p, 'b) photo_world) \<Rightarrow>
   string \<Rightarrow> uploaded_image option \<Rightarrow> ('p, 'b) photo_world \<Rightarrow> menu_item_row result \<times> ('p, 'b) photo_world" where
  "uploadImage render sha256 publicBaseUrl outcome gap itemId file s =
     (case file of
        None \<Rightarrow> (Inl ImageFileMissingError, s)
      | Some f \<Rightarrow> replace_photo render sha256 publicBaseUrl outcome gap itemId f s)"

section \<open>A store of immutable objects\<close>

text \<open>
  What the upload relies on from the bucket, whatever implements it: a key gives back what was put
  under it. When every key is computed from the content and no two contents have the same key, an
  object never changes once it is there.
\<close>

locale blob_store =
  fixes store :: "string \<Rightarrow> 'o \<Rightarrow> 's \<Rightarrow> 's" and fetch :: "string \<Rightarrow> 's \<Rightarrow> 'o option"
  assumes fetch_store: "fetch k (store k' b s) = (if k = k' then Some b else fetch k s)"
begin

definition addressed :: "('o \<Rightarrow> string) \<Rightarrow> 's \<Rightarrow> bool" where
  "addressed address s \<longleftrightarrow> (\<forall>k b. fetch k s = Some b \<longrightarrow> k = address b)"

lemma store_addressed: "addressed address s \<Longrightarrow> addressed address (store (address b) b s)"
  by (simp add: addressed_def fetch_store)

lemma store_keeps:
  assumes "inj address" "addressed address s" "fetch k s = Some b"
  shows "fetch k (store (address b') b' s) = Some b"
proof -
  have "k = address b" using assms(2,3) by (simp add: addressed_def)
  then show ?thesis using assms(1,3) by (auto simp: fetch_store inj_eq)
qed

end

definition body_at :: "string \<Rightarrow> (string \<Rightarrow> stored_object option) \<Rightarrow> bytes option" where
  "body_at k objects = map_option so_body (objects k)"

definition store_body :: "string \<Rightarrow> bytes \<Rightarrow> (string \<Rightarrow> stored_object option) \<Rightarrow> (string \<Rightarrow> stored_object option)" where
  "store_body k body objects = objects(k \<mapsto>
     \<lparr>so_body = body, so_contentType = OUTPUT_CONTENT_TYPE, so_cacheControl = ''public, max-age=31536000, immutable''\<rparr>)"

interpretation bucket: blob_store store_body body_at
  by unfold_locales (simp add: store_body_def body_at_def)

section \<open>Runs\<close>

inductive photo_run ::
  "(bytes \<Rightarrow> bytes option) \<Rightarrow> (bytes \<Rightarrow> string) \<Rightarrow> string \<Rightarrow> ('p, 'b) photo_world \<Rightarrow> ('p, 'b) photo_world \<Rightarrow> bool"
  for render sha256 publicBaseUrl where
  start: "photo_run render sha256 publicBaseUrl s s"
| commit: "photo_run render sha256 publicBaseUrl s s1 \<Longrightarrow> photo_run render sha256 publicBaseUrl s (s1\<lparr>pw_db := d\<rparr>)"
| upload: "photo_run render sha256 publicBaseUrl s s1 \<Longrightarrow> (\<And>k x. photo_run render sha256 publicBaseUrl x (gap k x)) \<Longrightarrow>
    uploadImage render sha256 publicBaseUrl outcome gap itemId file s1 = (r, s2) \<Longrightarrow>
    photo_run render sha256 publicBaseUrl s s2"

section \<open>Lemmas\<close>

lemma put_object_cases:
  assumes "put_object publicBaseUrl outcome k body OUTPUT_CONTENT_TYPE s = (r, s')"
  shows "(s' = s \<and> (\<exists>e. r = Inl e)) \<or> (s' = s\<lparr>pw_objects := store_body k body (pw_objects s)\<rparr> \<and>
    ((\<exists>e. r = Inl e) \<or> r = Inr (publicBaseUrl @ ''/'' @ k)))"
  using assms by (cases outcome) (auto simp: put_object_def store_body_def)

text \<open>The objects of a bucket, and that they only grow.\<close>

definition rendered :: "(bytes \<Rightarrow> bytes option) \<Rightarrow> (bytes \<Rightarrow> string) \<Rightarrow> ('p, 'b) photo_world \<Rightarrow> bool" where
  "rendered render sha256 s \<longleftrightarrow> bucket.addressed (image_key sha256) (pw_objects s) \<and>
     (\<forall>k ob. pw_objects s k = Some ob \<longrightarrow> so_contentType ob = OUTPUT_CONTENT_TYPE \<and> (\<exists>file. reencode render file = Inr (so_body ob)))"

definition kept :: "('p, 'b) photo_world \<Rightarrow> ('p, 'b) photo_world \<Rightarrow> bool" where
  "kept s s' \<longleftrightarrow> (\<forall>k body. body_at k (pw_objects s) = Some body \<longrightarrow> body_at k (pw_objects s') = Some body)"

lemma rendered_db [simp]: "rendered render sha256 (s\<lparr>pw_db := d\<rparr>) = rendered render sha256 s"
  by (simp add: rendered_def)

lemma kept_db [simp]: "kept s (s'\<lparr>pw_db := d\<rparr>) = kept s s'" "kept (s\<lparr>pw_db := d\<rparr>) s' = kept s s'"
  by (simp_all add: kept_def)

lemma kept_trans [trans]: "kept s s' \<Longrightarrow> kept s' s'' \<Longrightarrow> kept s s''" by (simp add: kept_def)

lemma kept_refl [simp]: "kept s s" by (simp add: kept_def)

lemma put_rendered:
  assumes "rendered render sha256 s" "reencode render file = Inr pixels"
    and "put_object publicBaseUrl outcome (image_key sha256 pixels) pixels OUTPUT_CONTENT_TYPE s = (r, s')"
  shows "rendered render sha256 s' \<and> (inj (image_key sha256) \<longrightarrow> kept s s')"
  using put_object_cases [OF assms(3)]
proof
  assume "s' = s \<and> (\<exists>e. r = Inl e)"
  then show ?thesis using assms(1) by simp
next
  assume "s' = s\<lparr>pw_objects := store_body (image_key sha256 pixels) pixels (pw_objects s)\<rparr> \<and>
    ((\<exists>e. r = Inl e) \<or> r = Inr (publicBaseUrl @ ''/'' @ image_key sha256 pixels))"
  then have s': "pw_objects s' = store_body (image_key sha256 pixels) pixels (pw_objects s)" by simp
  moreover have "bucket.addressed (image_key sha256) (pw_objects s')"
    unfolding s' using assms(1) by (simp add: rendered_def bucket.store_addressed)
  ultimately show ?thesis
    using assms(1,2) bucket.store_keeps [of "image_key sha256" "pw_objects s"]
    by (auto simp: rendered_def kept_def store_body_def)
qed

text \<open>One upload, given what the requests in its gaps do.\<close>

lemma replace_photo_objects:
  assumes "rendered render sha256 s" "replace_photo render sha256 publicBaseUrl outcome gap itemId file s = (r, s')"
    and gap: "\<And>k x. rendered render sha256 x \<Longrightarrow> rendered render sha256 (gap k x) \<and> (inj (image_key sha256) \<longrightarrow> kept x (gap k x))"
  shows "rendered render sha256 s' \<and> (inj (image_key sha256) \<longrightarrow> kept s s') \<and>
    (\<forall>row. r = Inr row \<longrightarrow> (\<exists>pixels. reencode render file = Inr pixels \<and> mi_id row = itemId \<and>
       mi_imageUrl row = Some (publicBaseUrl @ ''/'' @ image_key sha256 pixels) \<and>
       (inj (image_key sha256) \<longrightarrow> body_at (image_key sha256 pixels) (pw_objects s') = Some pixels)))"
proof (cases "row_by mi_id itemId (menuItems (pw_db s)) = None \<or> (\<exists>e. reencode render file = Inl e)")
  case True
  then show ?thesis using assms(1,2) gap [OF assms(1)] by (auto simp: replace_photo_def Let_def split: option.splits)
next
  case False
  then obtain pixels where pixels: "reencode render file = Inr pixels" by (cases "reencode render file") auto
  obtain pr s2 where put: "put_object publicBaseUrl outcome (image_key sha256 pixels) pixels OUTPUT_CONTENT_TYPE (gap 0 s) = (pr, s2)"
    by fastforce
  have s1: "rendered render sha256 (gap 0 s)" "inj (image_key sha256) \<longrightarrow> kept s (gap 0 s)" using gap [OF assms(1)] by blast+
  have s2: "rendered render sha256 s2" "inj (image_key sha256) \<longrightarrow> kept s s2"
    using put_rendered [OF s1(1) pixels put] s1(2) kept_trans by blast+
  have s3: "rendered render sha256 (gap 1 s2)" "inj (image_key sha256) \<longrightarrow> kept s2 (gap 1 s2)" using gap [OF s2(1)] by blast+
  show ?thesis
  proof (cases pr)
    case (Inl e)
    then have "r = Inl e" "s' = s2" using assms(2) False pixels put by (auto simp: replace_photo_def Let_def split: option.splits)
    with s2 show ?thesis by simp
  next
    case (Inr url)
    obtain d where u: "update_item itemId (new_photo url) (pw_db (gap 1 s2)) = (r, d)" and s': "s' = (gap 1 s2)\<lparr>pw_db := d\<rparr>"
      using assms(2) False pixels put Inr by (auto simp: replace_photo_def Let_def split: option.splits prod.splits)
    have url: "url = publicBaseUrl @ ''/'' @ image_key sha256 pixels" "s2 = (gap 0 s)\<lparr>pw_objects := store_body (image_key sha256 pixels) pixels (pw_objects (gap 0 s))\<rparr>"
      using put_object_cases [OF put] Inr by auto
    have row: "mi_id row = itemId \<and> mi_imageUrl row = Some url" if "r = Inr row" for row
      using u that
      by (auto simp: update_item_def sql_update_def new_photo_def changed_item_def given_def filter_eq_Cons_iff split: list.splits option.splits app_error.splits)
    have "body_at (image_key sha256 pixels) (pw_objects s2) = Some pixels"
      unfolding url(2) by (simp add: bucket.fetch_store)
    with s3(2) have "inj (image_key sha256) \<longrightarrow> body_at (image_key sha256 pixels) (pw_objects s') = Some pixels"
      unfolding s' by (simp add: kept_def)
    with s2 s3 pixels row url(1) show ?thesis unfolding s' by (auto intro: kept_trans)
  qed
qed

lemma run_objects:
  "photo_run render sha256 publicBaseUrl s s' \<Longrightarrow> rendered render sha256 s \<Longrightarrow>
    rendered render sha256 s' \<and> (inj (image_key sha256) \<longrightarrow> kept s s')"
proof (induction rule: photo_run.induct)
  case (upload s s1 gap outcome itemId sent r s2)
  then have s1: "rendered render sha256 s1" "inj (image_key sha256) \<longrightarrow> kept s s1" by blast+
  show ?case
  proof (cases sent)
    case None
    then show ?thesis using upload.hyps(3) s1 by (simp add: uploadImage_def)
  next
    case (Some f)
    then have "replace_photo render sha256 publicBaseUrl outcome gap itemId f s1 = (r, s2)"
      using upload.hyps(3) by (simp add: uploadImage_def)
    from replace_photo_objects [OF s1(1) this upload.IH(2)] s1(2) show ?thesis using kept_trans by blast
  qed
qed simp_all

lemma reencode_Inr: "reencode render file = Inr pixels \<Longrightarrow> sniffImageType (ui_buffer file) \<noteq> None \<and> render (ui_buffer file) = Some pixels"
  by (auto simp: reencode_def Let_def split: if_splits option.splits)

lemma image_key_inj: "(\<And>x y. sha256 x = sha256 y \<Longrightarrow> x = y) \<Longrightarrow> inj (image_key sha256)"
  by (auto simp: inj_def image_key_def)

text \<open>Start-up gives up exactly when all five attempts fail, and then names the last failure.\<close>

lemma bucket_attempts_None: "bucket_attempts attempt n left e = None \<longleftrightarrow> (\<exists>k < left. attempt (n + k) = None)"
proof (induction left arbitrary: n e)
  case (Suc left)
  then show ?case by (auto simp: less_Suc_eq_0_disj split: option.splits)
qed simp

lemma boot_needs_the_bucket:
  "onModuleInit autoCreateBucket found creation opening = None \<longleftrightarrow>
    (\<exists>n \<in> {1..5}. ensureBucket autoCreateBucket (found n) (creation n) (opening n) = None)"
proof -
  have "(\<exists>k < 5. P (1 + k)) \<longleftrightarrow> (\<exists>n \<in> {1..5}. P n)" for P :: "nat \<Rightarrow> bool"
  proof
    assume "\<exists>n \<in> {1..5}. P n"
    then obtain n where "1 \<le> n" "n \<le> 5" "P n" by auto
    then have "n - 1 < 5 \<and> P (1 + (n - 1))" by simp
    then show "\<exists>k < 5. P (1 + k)" by blast
  qed auto
  then show ?thesis by (simp add: onModuleInit_def READINESS_ATTEMPTS_def bucket_attempts_None)
qed

section \<open>Properties\<close>

text \<open>
  C33. What the image origin serves was drawn by this process. From an empty bucket, with any
  uploads and edits interleaved: every object is what the image library rendered from bytes that
  begin like one of the accepted formats, it lies under the key its content hashes to, and it is
  labelled as the format rendered; after a successful upload the item shows an address under which
  the object is found, with the pixels rendered from that upload; and an object, once there, is
  never lost or changed, which the immutable cache header promises. Two contents never having the
  same digest is what the key scheme relies on.
\<close>

theorem photos_are_rendered_here:
  assumes "photo_run render sha256 publicBaseUrl s0 s" "pw_objects s0 = (\<lambda>_. None)"
    and no_collision: "\<And>x y. sha256 x = sha256 y \<Longrightarrow> x = y"
    and "\<And>k x. photo_run render sha256 publicBaseUrl x (gap k x)"
    and "uploadImage render sha256 publicBaseUrl outcome gap itemId file s = (r, s1)"
    and "photo_run render sha256 publicBaseUrl s1 s2"
  shows "(\<forall>k ob. pw_objects s2 k = Some ob \<longrightarrow> k = image_key sha256 (so_body ob) \<and> so_contentType ob = OUTPUT_CONTENT_TYPE \<and>
      (\<exists>buffer. sniffImageType buffer \<noteq> None \<and> render buffer = Some (so_body ob))) \<and>
    (\<forall>row. r = Inr row \<longrightarrow> (\<exists>f pixels. file = Some f \<and> render (ui_buffer f) = Some pixels \<and> mi_id row = itemId \<and>
      mi_imageUrl row = Some (publicBaseUrl @ ''/'' @ image_key sha256 pixels) \<and>
      body_at (image_key sha256 pixels) (pw_objects s2) = Some pixels)) \<and>
    (\<forall>k body. body_at k (pw_objects s) = Some body \<longrightarrow> body_at k (pw_objects s2) = Some body)"
proof -
  note inj = image_key_inj [OF no_collision]
  have "rendered render sha256 s0" by (simp add: rendered_def bucket.addressed_def body_at_def assms(2))
  then have s: "rendered render sha256 s" using run_objects [OF assms(1)] by blast
  have run1: "photo_run render sha256 publicBaseUrl s s1" by (rule photo_run.upload [OF photo_run.start assms(4,5)])
  have s1: "rendered render sha256 s1" "kept s s1" using run_objects [OF run1 s] inj by blast+
  have s2: "rendered render sha256 s2" "kept s1 s2" using run_objects [OF assms(6) s1(1)] inj by blast+
  have "k = image_key sha256 (so_body ob) \<and> so_contentType ob = OUTPUT_CONTENT_TYPE \<and>
      (\<exists>buffer. sniffImageType buffer \<noteq> None \<and> render buffer = Some (so_body ob))" if "pw_objects s2 k = Some ob" for k ob
    using s2(1) that reencode_Inr unfolding rendered_def bucket.addressed_def body_at_def by force
  moreover have "\<exists>f pixels. file = Some f \<and> render (ui_buffer f) = Some pixels \<and> mi_id row = itemId \<and>
      mi_imageUrl row = Some (publicBaseUrl @ ''/'' @ image_key sha256 pixels) \<and>
      body_at (image_key sha256 pixels) (pw_objects s2) = Some pixels" if r: "r = Inr row" for row
  proof -
    obtain f where f: "file = Some f" using assms(5) r by (cases "file") (auto simp: uploadImage_def)
    then have "replace_photo render sha256 publicBaseUrl outcome gap itemId f s = (r, s1)" using assms(5) by (simp add: uploadImage_def)
    from replace_photo_objects [OF s this run_objects [OF assms(4)]] r inj obtain pixels where
      "reencode render f = Inr pixels" "mi_id row = itemId" "mi_imageUrl row = Some (publicBaseUrl @ ''/'' @ image_key sha256 pixels)"
      "body_at (image_key sha256 pixels) (pw_objects s1) = Some pixels" by blast
    with f reencode_Inr s2(2) show ?thesis unfolding kept_def by blast
  qed
  moreover have "kept s s2" by (rule kept_trans [OF s1(2) s2(2)])
  ultimately show ?thesis unfolding kept_def by blast
qed

definition hex_bytes :: "bytes \<Rightarrow> string" where
  "hex_bytes b = map (\<lambda>w. char_of (unat w)) b"

definition a_jpeg :: uploaded_image where
  "a_jpeg = \<lparr>ui_mimetype = ''image/jpeg'', ui_buffer = [0xff, 0xd8, 0xff, 0x00]\<rparr>"

definition no_photos :: "(nat, nat) photo_world" where
  "no_photos = \<lparr>pw_db = croissant_menu, pw_objects = (\<lambda>_. None)\<rparr>"

lemma hex_bytes_inj: "hex_bytes x = hex_bytes y \<Longrightarrow> x = y"
proof -
  have "inj (\<lambda>w :: 8 word. char_of (unat w) :: char)"
  proof (rule injI)
    fix v w :: "8 word" assume "(char_of (unat v) :: char) = char_of (unat w)"
    then have "(of_char (char_of (unat v) :: char) :: nat) = of_char (char_of (unat w) :: char)" by simp
    moreover have "unat v < 256" "unat w < 256" using unsigned_less [of v] unsigned_less [of w] by simp_all
    ultimately have "unat v = unat w" by (simp add: take_bit_eq_mod)
    then show "v = w" by (rule unsigned_word_eqI)
  qed
  then show "hex_bytes x = hex_bytes y \<Longrightarrow> x = y" by (simp add: hex_bytes_def inj_map_eq_map)
qed

theorem photos_are_rendered_here_witness:
  "\<exists>row s1. uploadImage (Some \<circ> rev) hex_bytes ''https://img'' Stored (\<lambda>_. id) ''m1'' (Some a_jpeg) no_photos = (Inr row, s1) \<and>
     mi_imageUrl row = Some (''https://img/'' @ image_key hex_bytes [0x00, 0xff, 0xd8, 0xff]) \<and>
     body_at (image_key hex_bytes [0x00, 0xff, 0xd8, 0xff]) (pw_objects s1) = Some [0x00, 0xff, 0xd8, 0xff]"
proof -
  have run: "photo_run (Some \<circ> rev) hex_bytes ''https://img'' x (id x)" for x :: "(nat, nat) photo_world" by (simp add: photo_run.start)
  have jpeg: "reencode (Some \<circ> rev) a_jpeg = Inr [0x00, 0xff, 0xd8, 0xff]" by code_simp
  obtain row s1 where u: "uploadImage (Some \<circ> rev) hex_bytes ''https://img'' Stored (\<lambda>_. id) ''m1'' (Some a_jpeg) no_photos = (Inr row, s1)"
  proof -
    obtain r0 where "row_by mi_id ''m1'' (menuItems (pw_db no_photos)) = Some r0"
      by (simp add: no_photos_def croissant_menu_def row_by_def sql_find_def)
    moreover obtain row d where "update_item ''m1'' (new_photo (''https://img'' @ ''/'' @ image_key hex_bytes [0x00, 0xff, 0xd8, 0xff])) (pw_db no_photos) = (Inr row, d)"
      by (simp add: no_photos_def croissant_menu_def update_item_def sql_update_def item_row_error_def changed_item_def
          new_photo_def given_def int4_ok_def row_by_def sql_find_def)
    ultimately show ?thesis
      using that by (simp add: uploadImage_def replace_photo_def jpeg Let_def put_object_def)
  qed
  have "pw_objects no_photos = (\<lambda>_. None)" by (simp add: no_photos_def)
  from photos_are_rendered_here [OF photo_run.start this hex_bytes_inj run u photo_run.start] jpeg reencode_Inr [OF jpeg] u
  show ?thesis by fastforce
qed

end
