(* ===== verification/Environment.thy ===== *)
theory Environment
  imports Gateway "HOL-Library.Sublist"
begin

text \<open>
  \<open>config/env.validation.ts\<close>: the environment the process is started with, and the rules it has to
  meet before anything is served.

  The environment is a map from names to strings. What the schema library and the platform decide
  is an argument: whether a text coerces to a whole number and which, what counts as a URL and how
  one is taken apart, and which time zones exist.
\<close>

section \<open>Definitions\<close>

record platform =
  whole_number :: "string \<Rightarrow> int option"
  is_url :: "string \<Rightarrow> bool"
  url_parts :: "string \<Rightarrow> (string \<times> string) option"
  zone_exists :: "string \<Rightarrow> bool"

definition LOCAL_HOSTS :: "string list" where
  "LOCAL_HOSTS = [''localhost'', ''127.0.0.1'', ''::1'', ''minio'']"

definition isSecureOrLocal :: "platform \<Rightarrow> string \<Rightarrow> bool" where
  "isSecureOrLocal pf value =
     (case url_parts pf value of
        None \<Rightarrow> False
      | Some (protocol, hostname) \<Rightarrow>
          protocol = ''https:'' \<or> protocol = ''http:'' \<and> List.member LOCAL_HOSTS hostname)"

definition isKnownTimeZone :: "platform \<Rightarrow> string \<Rightarrow> bool" where
  "isKnownTimeZone pf value = zone_exists pf value"

definition clockTime :: "string \<Rightarrow> string option" where
  "clockTime s = (case minutesOf s of Inr _ \<Rightarrow> Some s | Inl _ \<Rightarrow> None)"

definition splitSecrets :: "string \<Rightarrow> string list" where
  "splitSecrets value = filter (\<lambda>s. s \<noteq> []) (map js_trim (split_on (CHR '','') value))"

subsection \<open>The combinators the schema is written with\<close>

text \<open>A field reads its variable, which may be missing, and gives a value or an issue (\<open>None\<close>).\<close>

definition required :: "(string \<Rightarrow> 'a option) \<Rightarrow> string option \<Rightarrow> 'a option" where
  "required parse v = (case v of None \<Rightarrow> None | Some s \<Rightarrow> parse s)"

definition defaulted :: "'a \<Rightarrow> (string \<Rightarrow> 'a option) \<Rightarrow> string option \<Rightarrow> 'a option" where
  "defaulted d parse v = (case v of None \<Rightarrow> Some d | Some s \<Rightarrow> parse s)"

definition optionally :: "(string \<Rightarrow> 'a option) \<Rightarrow> string option \<Rightarrow> 'a option option" where
  "optionally parse v = (case v of None \<Rightarrow> Some None | Some s \<Rightarrow> map_option Some (parse s))"

definition such_that :: "('a \<Rightarrow> bool) \<Rightarrow> 'a \<Rightarrow> 'a option" where
  "such_that ok x = (if ok x then Some x else None)"

definition int_such_that :: "platform \<Rightarrow> (int \<Rightarrow> bool) \<Rightarrow> string \<Rightarrow> int option" where
  "int_such_that pf ok s = Option.bind (whole_number pf s) (such_that ok)"

definition currency_code :: "string \<Rightarrow> bool" where
  "currency_code s \<longleftrightarrow> length s = 3 \<and> list_all (\<lambda>c. c \<in> set ''ABCDEFGHIJKLMNOPQRSTUVWXYZ'') s"

definition alphanumeric :: "char \<Rightarrow> bool" where
  "alphanumeric c \<longleftrightarrow> c \<in> set ''ABCDEFGHIJKLMNOPQRSTUVWXYZabcdefghijklmnopqrstuvwxyz0123456789''"

definition stripe_key :: "string \<Rightarrow> bool" where
  "stripe_key s \<longleftrightarrow> list_ex (\<lambda>p. prefix p s \<and> drop 8 s \<noteq> [] \<and> list_all alphanumeric (drop 8 s))
     [''sk_test_'', ''sk_live_'', ''rk_test_'', ''rk_live_'']"

definition strip_slashes :: "string \<Rightarrow> string" where
  "strip_slashes s = rev (dropWhile (\<lambda>c. c = CHR ''/'') (rev s))"

subsection \<open>\<open>envSchema\<close>\<close>

record env =
  env_NODE_ENV :: string
  env_PORT :: int
  env_METRICS_PORT :: int
  env_SHUTDOWN_DRAIN_SECONDS :: int
  env_DATABASE_URL :: string
  env_REDIS_URL :: string
  env_JWT_SECRET :: string
  env_ACCESS_TOKEN_TTL_SECONDS :: int
  env_REFRESH_TOKEN_TTL_SECONDS :: int
  env_PAIRING_CODE_TTL_SECONDS :: int
  env_CORS_ORIGINS :: "string list"
  env_BUSINESS_TIMEZONE :: string
  env_BUSINESS_DAY_START_HOUR :: int
  env_VAT_BASIS_POINTS :: int
  env_CURRENCY :: string
  env_ORDER_EXPIRY_SECONDS :: int
  env_BUSINESS_OPEN_TIME :: string
  env_BUSINESS_CLOSE_TIME :: string
  env_S3_BUCKET :: string
  env_S3_REGION :: string
  env_S3_ACCESS_KEY_ID :: string
  env_S3_SECRET_ACCESS_KEY :: string
  env_S3_ENDPOINT :: "string option"
  env_S3_PUBLIC_BASE_URL :: string
  env_S3_AUTO_CREATE_BUCKET :: bool
  env_STRIPE_SECRET_KEY :: string
  env_STRIPE_MODE :: string
  env_SENTRY_DSN :: "string option"
  env_STRIPE_API_BASE :: "string option"
  env_STRIPE_WEBHOOK_SECRETS :: "string list"

definition process_schema ::
  "platform \<Rightarrow> (string \<Rightarrow> string option) \<Rightarrow>
   string option \<times> int option \<times> int option \<times> int option \<times> string option \<times> string option" where
  "process_schema pf v =
     (defaulted ''development'' (such_that (List.member [''development'', ''production'', ''test''])) (v ''NODE_ENV''),
      defaulted 3000 (int_such_that pf (\<lambda>n. 0 < n)) (v ''PORT''),
      defaulted 9464 (int_such_that pf (\<lambda>n. 1 \<le> n \<and> n \<le> 65535)) (v ''METRICS_PORT''),
      defaulted 0 (int_such_that pf (\<lambda>n. 0 \<le> n \<and> n \<le> 30)) (v ''SHUTDOWN_DRAIN_SECONDS''),
      required (such_that (\<lambda>s. s \<noteq> [])) (v ''DATABASE_URL''),
      required (such_that (\<lambda>s. s \<noteq> [])) (v ''REDIS_URL''))"

definition identity_schema ::
  "platform \<Rightarrow> (string \<Rightarrow> string option) \<Rightarrow> string option \<times> int option \<times> int option \<times> int option \<times> string list option" where
  "identity_schema pf v =
     (required (such_that (\<lambda>s. 32 \<le> length s)) (v ''JWT_SECRET''),
      defaulted (15 * 60) (int_such_that pf (\<lambda>n. 0 < n)) (v ''ACCESS_TOKEN_TTL_SECONDS''),
      defaulted (14 * 24 * 60 * 60) (int_such_that pf (\<lambda>n. 0 < n)) (v ''REFRESH_TOKEN_TTL_SECONDS''),
      defaulted (10 * 60) (int_such_that pf (\<lambda>n. 0 < n)) (v ''PAIRING_CODE_TTL_SECONDS''),
      Some (splitSecrets (case v ''CORS_ORIGINS'' of None \<Rightarrow> [] | Some s \<Rightarrow> s)))"

definition trading_schema ::
  "platform \<Rightarrow> (string \<Rightarrow> string option) \<Rightarrow>
   string option \<times> int option \<times> int option \<times> string option \<times> int option \<times> string option \<times> string option" where
  "trading_schema pf v =
     (Option.bind (defaulted ''Asia/Bangkok'' (such_that (\<lambda>s. s \<noteq> [])) (v ''BUSINESS_TIMEZONE'')) (such_that (isKnownTimeZone pf)),
      defaulted 5 (int_such_that pf (\<lambda>n. 0 \<le> n \<and> n \<le> 23)) (v ''BUSINESS_DAY_START_HOUR''),
      defaulted 700 (int_such_that pf (\<lambda>n. 0 \<le> n \<and> n \<le> 10000)) (v ''VAT_BASIS_POINTS''),
      defaulted ''THB'' (\<lambda>s. such_that currency_code (toUpperCase (js_trim s))) (v ''CURRENCY''),
      defaulted (10 * 60) (int_such_that pf (\<lambda>n. 0 < n)) (v ''ORDER_EXPIRY_SECONDS''),
      defaulted ''07:00'' clockTime (v ''BUSINESS_OPEN_TIME''),
      defaulted ''20:00'' clockTime (v ''BUSINESS_CLOSE_TIME''))"

definition storage_schema ::
  "platform \<Rightarrow> (string \<Rightarrow> string option) \<Rightarrow>
   string option \<times> string option \<times> string option \<times> string option \<times> string option option \<times> string option \<times> bool option" where
  "storage_schema pf v =
     (required (such_that (\<lambda>s. s \<noteq> [])) (v ''S3_BUCKET''),
      defaulted ''us-east-1'' (such_that (\<lambda>s. s \<noteq> [])) (v ''S3_REGION''),
      required (such_that (\<lambda>s. s \<noteq> [])) (v ''S3_ACCESS_KEY_ID''),
      required (such_that (\<lambda>s. s \<noteq> [])) (v ''S3_SECRET_ACCESS_KEY''),
      optionally (such_that (is_url pf)) (v ''S3_ENDPOINT''),
      map_option strip_slashes (required (such_that (\<lambda>s. s \<noteq> [] \<and> isSecureOrLocal pf s)) (v ''S3_PUBLIC_BASE_URL'')),
      map_option (\<lambda>s. s = ''true'') (defaulted ''false'' (such_that (List.member [''true'', ''false''])) (v ''S3_AUTO_CREATE_BUCKET'')))"

definition payment_schema ::
  "platform \<Rightarrow> (string \<Rightarrow> string option) \<Rightarrow>
   string option \<times> string option \<times> string option option \<times> string option option \<times> string list option" where
  "payment_schema pf v =
     (required (such_that stripe_key) (v ''STRIPE_SECRET_KEY''),
      defaulted ''test'' (such_that (List.member [''test'', ''live''])) (v ''STRIPE_MODE''),
      optionally (such_that (is_url pf)) (v ''SENTRY_DSN''),
      optionally (such_that (is_url pf)) (v ''STRIPE_API_BASE''),
      map_option splitSecrets (required (such_that (\<lambda>s. s \<noteq> [] \<and> splitSecrets s \<noteq> [] \<and>
        list_all (prefix ''whsec_'') (splitSecrets s))) (v ''STRIPE_WEBHOOK_SECRETS'')))"

text \<open>The variables the schema has an issue with, in its order.\<close>

definition env_issues :: "platform \<Rightarrow> (string \<Rightarrow> string option) \<Rightarrow> string list" where
  "env_issues pf v =
     (case (process_schema pf v, identity_schema pf v, trading_schema pf v, storage_schema pf v, payment_schema pf v) of
        ((nodeEnv, port, metricsPort, drain, databaseUrl, redisUrl), (jwt, accessTtl, refreshTtl, pairingTtl, cors),
         (zone, startHour, vat, currency, expiry, opens, closes), (bucket, region, accessKey, secretKey, endpoint, publicUrl, autoCreate),
         (stripeKey, mode, dsn, apiBase, secrets)) \<Rightarrow>
          map fst (filter snd
            [(''NODE_ENV'', nodeEnv = None), (''PORT'', port = None), (''METRICS_PORT'', metricsPort = None),
             (''SHUTDOWN_DRAIN_SECONDS'', drain = None), (''DATABASE_URL'', databaseUrl = None), (''REDIS_URL'', redisUrl = None),
             (''JWT_SECRET'', jwt = None), (''ACCESS_TOKEN_TTL_SECONDS'', accessTtl = None),
             (''REFRESH_TOKEN_TTL_SECONDS'', refreshTtl = None), (''PAIRING_CODE_TTL_SECONDS'', pairingTtl = None),
             (''CORS_ORIGINS'', cors = None), (''BUSINESS_TIMEZONE'', zone = None),
             (''BUSINESS_DAY_START_HOUR'', startHour = None), (''VAT_BASIS_POINTS'', vat = None), (''CURRENCY'', currency = None),
             (''ORDER_EXPIRY_SECONDS'', expiry = None), (''BUSINESS_OPEN_TIME'', opens = None), (''BUSINESS_CLOSE_TIME'', closes = None),
             (''S3_BUCKET'', bucket = None), (''S3_REGION'', region = None), (''S3_ACCESS_KEY_ID'', accessKey = None),
             (''S3_SECRET_ACCESS_KEY'', secretKey = None), (''S3_ENDPOINT'', endpoint = None), (''S3_PUBLIC_BASE_URL'', publicUrl = None),
             (''S3_AUTO_CREATE_BUCKET'', autoCreate = None), (''STRIPE_SECRET_KEY'', stripeKey = None), (''STRIPE_MODE'', mode = None),
             (''SENTRY_DSN'', dsn = None), (''STRIPE_API_BASE'', apiBase = None), (''STRIPE_WEBHOOK_SECRETS'', secrets = None)]))"

definition env_data :: "platform \<Rightarrow> (string \<Rightarrow> string option) \<Rightarrow> env" where
  "env_data pf v =
     (case (process_schema pf v, identity_schema pf v, trading_schema pf v, storage_schema pf v, payment_schema pf v) of
        ((nodeEnv, port, metricsPort, drain, databaseUrl, redisUrl), (jwt, accessTtl, refreshTtl, pairingTtl, cors),
         (zone, startHour, vat, currency, expiry, opens, closes), (bucket, region, accessKey, secretKey, endpoint, publicUrl, autoCreate),
         (stripeKey, mode, dsn, apiBase, secrets)) \<Rightarrow>
          \<lparr>env_NODE_ENV = the nodeEnv, env_PORT = the port, env_METRICS_PORT = the metricsPort,
           env_SHUTDOWN_DRAIN_SECONDS = the drain, env_DATABASE_URL = the databaseUrl, env_REDIS_URL = the redisUrl,
           env_JWT_SECRET = the jwt, env_ACCESS_TOKEN_TTL_SECONDS = the accessTtl, env_REFRESH_TOKEN_TTL_SECONDS = the refreshTtl,
           env_PAIRING_CODE_TTL_SECONDS = the pairingTtl, env_CORS_ORIGINS = the cors, env_BUSINESS_TIMEZONE = the zone,
           env_BUSINESS_DAY_START_HOUR = the startHour, env_VAT_BASIS_POINTS = the vat, env_CURRENCY = the currency,
           env_ORDER_EXPIRY_SECONDS = the expiry, env_BUSINESS_OPEN_TIME = the opens, env_BUSINESS_CLOSE_TIME = the closes,
           env_S3_BUCKET = the bucket, env_S3_REGION = the region, env_S3_ACCESS_KEY_ID = the accessKey,
           env_S3_SECRET_ACCESS_KEY = the secretKey, env_S3_ENDPOINT = the endpoint, env_S3_PUBLIC_BASE_URL = the publicUrl,
           env_S3_AUTO_CREATE_BUCKET = the autoCreate, env_STRIPE_SECRET_KEY = the stripeKey, env_STRIPE_MODE = the mode,
           env_SENTRY_DSN = the dsn, env_STRIPE_API_BASE = the apiBase, env_STRIPE_WEBHOOK_SECRETS = the secrets\<rparr>)"

subsection \<open>\<open>conflictsIn\<close> and \<open>validateEnv\<close>\<close>

definition key_mode :: "string \<Rightarrow> string" where
  "key_mode stripeKey = split_on (CHR ''_'') stripeKey ! 1"

text \<open>The lines start with the variable they blame; the explanation after it is left out.\<close>

definition conflictsIn :: "env \<Rightarrow> string list" where
  "conflictsIn e =
     (if env_METRICS_PORT e = env_PORT e then [''METRICS_PORT''] else []) @
     (if key_mode (env_STRIPE_SECRET_KEY e) \<noteq> env_STRIPE_MODE e then [''STRIPE_SECRET_KEY''] else []) @
     (if env_STRIPE_MODE e = ''live'' \<and> env_NODE_ENV e \<noteq> ''production'' then [''STRIPE_MODE''] else []) @
     (if env_STRIPE_MODE e = ''live'' \<and> env_STRIPE_API_BASE e \<noteq> None then [''STRIPE_API_BASE''] else []) @
     (if env_BUSINESS_OPEN_TIME e = env_BUSINESS_CLOSE_TIME e then [''BUSINESS_CLOSE_TIME''] else [])"

definition validateEnv :: "platform \<Rightarrow> (string \<Rightarrow> string option) \<Rightarrow> string list + env" where
  "validateEnv pf v =
     (if env_issues pf v \<noteq> [] then Inl (env_issues pf v)
      else let conflicts = conflictsIn (env_data pf v)
           in if conflicts \<noteq> [] then Inl conflicts else Inr (env_data pf v))"

section \<open>Lemmas\<close>

lemma such_that_Some [simp]: "such_that ok x = Some y \<longleftrightarrow> ok x \<and> y = x"
  by (auto simp: such_that_def)

lemma defaulted_Some: "defaulted d parse v = Some x \<Longrightarrow> v = None \<and> x = d \<or> (\<exists>s. v = Some s \<and> parse s = Some x)"
  by (simp add: defaulted_def split: option.splits)

lemma defaulted_ok:
  assumes "defaulted d parse v = Some x" "P d" "\<And>s y. parse s = Some y \<Longrightarrow> P y"
  shows "P x"
  using defaulted_Some [OF assms(1)] assms(2,3) by auto

lemma required_Some: "required parse v = Some x \<Longrightarrow> \<exists>s. v = Some s \<and> parse s = Some x"
  by (simp add: required_def split: option.splits)

lemma optionally_url: "optionally (such_that ok) v = Some (Some u) \<Longrightarrow> ok u"
  by (auto simp: optionally_def split: option.splits)

lemma required_nonempty: "required (such_that (\<lambda>s. s \<noteq> [])) v = Some x \<Longrightarrow> x \<noteq> []"
  by (auto dest!: required_Some)

lemma int_such_that_Some [simp]: "int_such_that pf ok s = Some n \<longleftrightarrow> whole_number pf s = Some n \<and> ok n"
  by (auto simp: int_such_that_def Option.bind_eq_Some_conv)

lemma clockTime_Some: "clockTime s = Some t \<Longrightarrow> \<exists>m. minutesOf t = Inr m"
  by (auto simp: clockTime_def split: sum.splits)

lemma splitSecrets_nonempty: "[] \<notin> set (splitSecrets s)"
  by (auto simp: splitSecrets_def)

lemma strip_slashes_last: "strip_slashes s \<noteq> [] \<Longrightarrow> last (strip_slashes s) \<noteq> CHR ''/''"
proof -
  assume "strip_slashes s \<noteq> []"
  then have d: "dropWhile (\<lambda>c. c = CHR ''/'') (rev s) \<noteq> []" by (simp add: strip_slashes_def)
  then have "hd (dropWhile (\<lambda>c. c = CHR ''/'') (rev s)) \<noteq> CHR ''/''" by (rule hd_dropWhile)
  with d show ?thesis by (simp add: strip_slashes_def last_rev)
qed

lemma stripe_key_mode:
  assumes "stripe_key s"
  shows "(key_mode s = ''live'' \<longleftrightarrow> prefix ''sk_live_'' s \<or> prefix ''rk_live_'' s) \<and> (key_mode s = ''live'' \<or> key_mode s = ''test'')"
proof -
  obtain p where p: "p \<in> {''sk_test_'', ''sk_live_'', ''rk_test_'', ''rk_live_''}" "prefix p s"
    using assms by (auto simp: stripe_key_def)
  from p(2) obtain r where "s = p @ r" by (auto simp: prefix_def)
  with p(1) show ?thesis by (auto simp: key_mode_def split: list.splits)
qed

lemma no_issue: "map fst (filter snd xs) = [] \<longleftrightarrow> list_all (\<lambda>x. \<not> snd x) xs"
  by (induction xs) auto

text \<open>With no issue, the data are the values of the fields.\<close>

lemma env_data_fields:
  assumes "env_issues pf v = []" "e = env_data pf v"
  shows "process_schema pf v = (Some (env_NODE_ENV e), Some (env_PORT e), Some (env_METRICS_PORT e),
      Some (env_SHUTDOWN_DRAIN_SECONDS e), Some (env_DATABASE_URL e), Some (env_REDIS_URL e))"
    and "identity_schema pf v = (Some (env_JWT_SECRET e), Some (env_ACCESS_TOKEN_TTL_SECONDS e), Some (env_REFRESH_TOKEN_TTL_SECONDS e),
      Some (env_PAIRING_CODE_TTL_SECONDS e), Some (env_CORS_ORIGINS e))"
    and "trading_schema pf v = (Some (env_BUSINESS_TIMEZONE e), Some (env_BUSINESS_DAY_START_HOUR e), Some (env_VAT_BASIS_POINTS e),
      Some (env_CURRENCY e), Some (env_ORDER_EXPIRY_SECONDS e), Some (env_BUSINESS_OPEN_TIME e), Some (env_BUSINESS_CLOSE_TIME e))"
    and "storage_schema pf v = (Some (env_S3_BUCKET e), Some (env_S3_REGION e), Some (env_S3_ACCESS_KEY_ID e),
      Some (env_S3_SECRET_ACCESS_KEY e), Some (env_S3_ENDPOINT e), Some (env_S3_PUBLIC_BASE_URL e), Some (env_S3_AUTO_CREATE_BUCKET e))"
    and "payment_schema pf v = (Some (env_STRIPE_SECRET_KEY e), Some (env_STRIPE_MODE e), Some (env_SENTRY_DSN e),
      Some (env_STRIPE_API_BASE e), Some (env_STRIPE_WEBHOOK_SECRETS e))"
proof -
  obtain a b c d e' f where 1: "process_schema pf v = (a, b, c, d, e', f)" by (cases "process_schema pf v") auto
  obtain g h i j k where 2: "identity_schema pf v = (g, h, i, j, k)" by (cases "identity_schema pf v") auto
  obtain l m n p q r s where 3: "trading_schema pf v = (l, m, n, p, q, r, s)" by (cases "trading_schema pf v") auto
  obtain t u w x y z aa where 4: "storage_schema pf v = (t, u, w, x, y, z, aa)" by (cases "storage_schema pf v") auto
  obtain ab ac ad ae af where 5: "payment_schema pf v = (ab, ac, ad, ae, af)" by (cases "payment_schema pf v") auto
  have some: "a \<noteq> None \<and> b \<noteq> None \<and> c \<noteq> None \<and> d \<noteq> None \<and> e' \<noteq> None \<and> f \<noteq> None"
    "g \<noteq> None \<and> h \<noteq> None \<and> i \<noteq> None \<and> j \<noteq> None \<and> k \<noteq> None"
    "l \<noteq> None \<and> m \<noteq> None \<and> n \<noteq> None \<and> p \<noteq> None \<and> q \<noteq> None \<and> r \<noteq> None \<and> s \<noteq> None"
    "t \<noteq> None \<and> u \<noteq> None \<and> w \<noteq> None \<and> x \<noteq> None \<and> y \<noteq> None \<and> z \<noteq> None \<and> aa \<noteq> None"
    "ab \<noteq> None \<and> ac \<noteq> None \<and> ad \<noteq> None \<and> ae \<noteq> None \<and> af \<noteq> None"
    using assms(1) unfolding env_issues_def 1 2 3 4 5 prod.case no_issue by simp_all
  note e = assms(2) [unfolded env_data_def 1 2 3 4 5 prod.case]
  show "process_schema pf v = (Some (env_NODE_ENV e), Some (env_PORT e), Some (env_METRICS_PORT e),
      Some (env_SHUTDOWN_DRAIN_SECONDS e), Some (env_DATABASE_URL e), Some (env_REDIS_URL e))"
    unfolding 1 e using some(1) by simp
  show "identity_schema pf v = (Some (env_JWT_SECRET e), Some (env_ACCESS_TOKEN_TTL_SECONDS e), Some (env_REFRESH_TOKEN_TTL_SECONDS e),
      Some (env_PAIRING_CODE_TTL_SECONDS e), Some (env_CORS_ORIGINS e))"
    unfolding 2 e using some(2) by simp
  show "trading_schema pf v = (Some (env_BUSINESS_TIMEZONE e), Some (env_BUSINESS_DAY_START_HOUR e), Some (env_VAT_BASIS_POINTS e),
      Some (env_CURRENCY e), Some (env_ORDER_EXPIRY_SECONDS e), Some (env_BUSINESS_OPEN_TIME e), Some (env_BUSINESS_CLOSE_TIME e))"
    unfolding 3 e using some(3) by simp
  show "storage_schema pf v = (Some (env_S3_BUCKET e), Some (env_S3_REGION e), Some (env_S3_ACCESS_KEY_ID e),
      Some (env_S3_SECRET_ACCESS_KEY e), Some (env_S3_ENDPOINT e), Some (env_S3_PUBLIC_BASE_URL e), Some (env_S3_AUTO_CREATE_BUCKET e))"
    unfolding 4 e using some(4) by simp
  show "payment_schema pf v = (Some (env_STRIPE_SECRET_KEY e), Some (env_STRIPE_MODE e), Some (env_SENTRY_DSN e),
      Some (env_STRIPE_API_BASE e), Some (env_STRIPE_WEBHOOK_SECRETS e))"
    unfolding 5 e using some(5) by simp
qed

lemma validateEnv_Inr:
  assumes "validateEnv pf v = Inr e"
  shows "env_issues pf v = []" "e = env_data pf v" "conflictsIn e = []"
  using assms by (auto simp: validateEnv_def Let_def split: if_splits)

text \<open>What each group of the schema guarantees of the values it lets through.\<close>

lemma trading_schema_ok:
  assumes "trading_schema pf v = (Some zone, Some startHour, Some vat, Some currency, Some expiry, Some opens, Some closes)"
  shows "isKnownTimeZone pf zone \<and> 0 \<le> startHour \<and> startHour \<le> 23 \<and> 0 \<le> vat \<and> vat \<le> 10000 \<and> currency_code currency \<and>
    0 < expiry \<and> (\<exists>m. minutesOf opens = Inr m) \<and> (\<exists>m. minutesOf closes = Inr m)"
proof -
  have "currency_code ''THB''" "\<exists>m. minutesOf ''07:00'' = Inr m" "\<exists>m. minutesOf ''20:00'' = Inr m"
    by (simp_all add: currency_code_def digit_value_def)
  note texts = this
  note fields = assms [unfolded trading_schema_def prod.inject]
  have "isKnownTimeZone pf zone" using fields by (auto simp: Option.bind_eq_Some_conv)
  moreover have "0 \<le> startHour \<and> startHour \<le> 23"
    by (rule defaulted_ok [OF fields [THEN conjunct2, THEN conjunct1]]) auto
  moreover have "0 \<le> vat \<and> vat \<le> 10000"
    by (rule defaulted_ok [OF fields [THEN conjunct2, THEN conjunct2, THEN conjunct1]]) auto
  moreover have "currency_code currency"
    by (rule defaulted_ok [OF fields [THEN conjunct2, THEN conjunct2, THEN conjunct2, THEN conjunct1]]) (use texts in auto)
  moreover have "0 < expiry"
    by (rule defaulted_ok [OF fields [THEN conjunct2, THEN conjunct2, THEN conjunct2, THEN conjunct2, THEN conjunct1]]) auto
  moreover have "\<exists>m. minutesOf t = Inr m" if "defaulted d clockTime (v n) = Some t" "d \<in> {''07:00'', ''20:00''}" for d n t
    by (rule defaulted_ok [OF that(1)]) (use that(2) texts clockTime_Some in auto)
  ultimately show ?thesis using fields by blast
qed

lemma payment_schema_ok:
  assumes "payment_schema pf v = (Some stripeKey, Some mode, Some dsn, Some apiBase, Some secrets)"
  shows "stripe_key stripeKey \<and> mode \<in> {''test'', ''live''} \<and> (\<forall>u. dsn = Some u \<longrightarrow> is_url pf u) \<and>
    (\<forall>u. apiBase = Some u \<longrightarrow> is_url pf u) \<and> secrets \<noteq> [] \<and> list_all (prefix ''whsec_'') secrets"
proof -
  note fields = assms [unfolded payment_schema_def prod.inject]
  have "mode \<in> {''test'', ''live''}"
    by (rule defaulted_ok [OF fields [THEN conjunct2, THEN conjunct1]]) auto
  then show ?thesis using fields optionally_url by (auto dest!: required_Some)
qed

lemma process_schema_ok:
  assumes "process_schema pf v = (Some nodeEnv, Some port, Some metricsPort, Some drain, Some databaseUrl, Some redisUrl)"
  shows "nodeEnv \<in> {''development'', ''production'', ''test''} \<and> 0 < port \<and> 1 \<le> metricsPort \<and> metricsPort \<le> 65535 \<and>
    0 \<le> drain \<and> drain \<le> 30 \<and> databaseUrl \<noteq> [] \<and> redisUrl \<noteq> []"
proof -
  note fields = assms [unfolded process_schema_def prod.inject]
  have "nodeEnv \<in> {''development'', ''production'', ''test''}"
    by (rule defaulted_ok [OF fields [THEN conjunct1]]) auto
  moreover have "0 < port" by (rule defaulted_ok [OF fields [THEN conjunct2, THEN conjunct1]]) auto
  moreover have "1 \<le> metricsPort \<and> metricsPort \<le> 65535"
    by (rule defaulted_ok [OF fields [THEN conjunct2, THEN conjunct2, THEN conjunct1]]) auto
  moreover have "0 \<le> drain \<and> drain \<le> 30"
    by (rule defaulted_ok [OF fields [THEN conjunct2, THEN conjunct2, THEN conjunct2, THEN conjunct1]]) auto
  ultimately show ?thesis using fields required_nonempty by blast
qed

lemma identity_schema_ok:
  assumes "identity_schema pf v = (Some jwt, Some accessTtl, Some refreshTtl, Some pairingTtl, Some cors)"
  shows "32 \<le> length jwt \<and> 0 < accessTtl \<and> 0 < refreshTtl \<and> 0 < pairingTtl \<and> [] \<notin> set cors"
proof -
  note fields = assms [unfolded identity_schema_def prod.inject]
  have "0 < n" if "defaulted d (int_such_that pf (\<lambda>n. 0 < n)) x = Some n" "0 < d" for d x n
    by (rule defaulted_ok [OF that(1)]) (use that(2) in auto)
  with fields have "0 < accessTtl \<and> 0 < refreshTtl \<and> 0 < pairingTtl" by force
  moreover have "32 \<le> length jwt" using fields by (auto dest!: required_Some)
  moreover have "[] \<notin> set cors" using fields splitSecrets_nonempty by blast
  ultimately show ?thesis by blast
qed

lemma storage_schema_ok:
  assumes "storage_schema pf v = (Some bucket, Some region, Some accessKey, Some secretKey, Some endpoint, Some publicUrl, Some autoCreate)"
  shows "bucket \<noteq> [] \<and> region \<noteq> [] \<and> accessKey \<noteq> [] \<and> secretKey \<noteq> [] \<and> (\<forall>u. endpoint = Some u \<longrightarrow> is_url pf u) \<and>
    (publicUrl \<noteq> [] \<longrightarrow> last publicUrl \<noteq> CHR ''/'') \<and>
    (\<exists>given. v ''S3_PUBLIC_BASE_URL'' = Some given \<and> publicUrl = strip_slashes given \<and> isSecureOrLocal pf given)"
proof -
  note fields = assms [unfolded storage_schema_def prod.inject]
  have "region \<noteq> []"
    by (rule defaulted_ok [OF fields [THEN conjunct2, THEN conjunct1]]) auto
  moreover have "bucket \<noteq> [] \<and> accessKey \<noteq> [] \<and> secretKey \<noteq> []" using fields required_nonempty by blast
  moreover have "\<exists>given. v ''S3_PUBLIC_BASE_URL'' = Some given \<and> publicUrl = strip_slashes given \<and> isSecureOrLocal pf given"
    using fields by (auto dest!: required_Some)
  moreover have "\<forall>u. endpoint = Some u \<longrightarrow> is_url pf u" using fields optionally_url by auto
  ultimately show ?thesis using strip_slashes_last by blast
qed

section \<open>Properties\<close>

definition hours_of :: "env \<Rightarrow> opening_hours" where
  "hours_of e = \<lparr>oh_timeZone = env_BUSINESS_TIMEZONE e, oh_open = env_BUSINESS_OPEN_TIME e, oh_close = env_BUSINESS_CLOSE_TIME e\<rparr>"

text \<open>
  What the rest of the program relies on, stated over the components that read the values. For the
  time zone and the addresses that is what the platform says of them; the public address of the
  pictures is the given one, over TLS or on a local host, without its trailing slashes.
\<close>

definition fit_to_trade :: "platform \<Rightarrow> env \<Rightarrow> bool" where
  "fit_to_trade pf e \<longleftrightarrow>
     zone_exists pf (env_BUSINESS_TIMEZONE e) \<and>
     (\<forall>offset instant. 100 \<le> year_of_day ((instant + offset (env_BUSINESS_TIMEZONE e) instant) div MILLIS_PER_DAY) \<longrightarrow>
        businessDayOf offset instant (env_BUSINESS_TIMEZONE e) (env_BUSINESS_DAY_START_HOUR e) =
        day_label ((instant + offset (env_BUSINESS_TIMEZONE e) instant - env_BUSINESS_DAY_START_HOUR e * 3600000) div MILLIS_PER_DAY)) \<and>
     (\<forall>offset instant. \<exists>b. isOpenAt offset instant (hours_of e) = Inr b) \<and>
     env_BUSINESS_OPEN_TIME e \<noteq> env_BUSINESS_CLOSE_TIME e \<and>
     (\<forall>amount \<ge> 0. 0 \<le> extractVat amount (env_VAT_BASIS_POINTS e) \<and> extractVat amount (env_VAT_BASIS_POINTS e) \<le> amount) \<and>
     currency_code (env_CURRENCY e) \<and> 0 < env_ORDER_EXPIRY_SECONDS e"

definition fit_to_serve :: "env \<Rightarrow> bool" where
  "fit_to_serve e \<longleftrightarrow>
     env_NODE_ENV e \<in> {''development'', ''production'', ''test''} \<and>
     0 < env_PORT e \<and> 1 \<le> env_METRICS_PORT e \<and> env_METRICS_PORT e \<le> 65535 \<and> env_METRICS_PORT e \<noteq> env_PORT e \<and>
     0 \<le> env_SHUTDOWN_DRAIN_SECONDS e \<and> env_SHUTDOWN_DRAIN_SECONDS e \<le> 30 \<and>
     env_DATABASE_URL e \<noteq> [] \<and> env_REDIS_URL e \<noteq> [] \<and> 32 \<le> length (env_JWT_SECRET e) \<and>
     0 < env_ACCESS_TOKEN_TTL_SECONDS e \<and> 0 < env_REFRESH_TOKEN_TTL_SECONDS e \<and> 0 < env_PAIRING_CODE_TTL_SECONDS e \<and>
     [] \<notin> set (env_CORS_ORIGINS e)"

definition fit_to_store :: "platform \<Rightarrow> env \<Rightarrow> bool" where
  "fit_to_store pf e \<longleftrightarrow>
     env_S3_BUCKET e \<noteq> [] \<and> env_S3_REGION e \<noteq> [] \<and> env_S3_ACCESS_KEY_ID e \<noteq> [] \<and> env_S3_SECRET_ACCESS_KEY e \<noteq> [] \<and>
     (\<forall>u. env_S3_ENDPOINT e = Some u \<longrightarrow> is_url pf u) \<and>
     (env_S3_PUBLIC_BASE_URL e \<noteq> [] \<longrightarrow> last (env_S3_PUBLIC_BASE_URL e) \<noteq> CHR ''/'') \<and>
     (\<exists>given protocol host. env_S3_PUBLIC_BASE_URL e = strip_slashes given \<and> url_parts pf given = Some (protocol, host) \<and>
        (protocol = ''https:'' \<or> protocol = ''http:'' \<and> host \<in> {''localhost'', ''127.0.0.1'', ''::1'', ''minio''}))"

definition fit_to_charge :: "platform \<Rightarrow> env \<Rightarrow> bool" where
  "fit_to_charge pf e \<longleftrightarrow>
     env_STRIPE_MODE e \<in> {''test'', ''live''} \<and>
     (env_STRIPE_MODE e = ''live'' \<longleftrightarrow> prefix ''sk_live_'' (env_STRIPE_SECRET_KEY e) \<or> prefix ''rk_live_'' (env_STRIPE_SECRET_KEY e)) \<and>
     (env_STRIPE_MODE e = ''live'' \<longrightarrow> env_NODE_ENV e = ''production'' \<and> env_STRIPE_API_BASE e = None) \<and>
     (\<forall>u. env_STRIPE_API_BASE e = Some u \<or> env_SENTRY_DSN e = Some u \<longrightarrow> is_url pf u) \<and>
     env_STRIPE_WEBHOOK_SECRETS e \<noteq> [] \<and> list_all (prefix ''whsec_'') (env_STRIPE_WEBHOOK_SECRETS e)"

text \<open>
  C37. A process that starts has a configuration its parts can work with. The business day is
  the shifted local date of a known zone, the opening hours can be read at any time and are not
  empty, tax lies between nothing and the amount it is taken from, prices carry a currency of three
  capitals and an unpaid order has time to live. The port is positive, the metrics port a port and
  another one, the drain at most 30 seconds; database, cache, bucket and its credentials are named;
  tokens live and their key has 32 characters. Pictures are published over TLS or from a local host.
  A live key is used in production, against the gateway itself, and never under the name of a test
  one, and there is at least one signing secret for webhooks, each of the gateway's form; the other
  addresses, where given, are addresses. Nothing is said of how well the secrets were chosen
  (\<open>placeholder_key_boots\<close>).
\<close>

theorem validated_environment:
  assumes "validateEnv pf v = Inr e"
  shows "fit_to_trade pf e \<and> fit_to_serve e \<and> fit_to_store pf e \<and> fit_to_charge pf e"
proof -
  note e = validateEnv_Inr [OF assms]
  note fields = env_data_fields [OF e(1,2)]
  note t = trading_schema_ok [OF fields(3)]
  have "env_BUSINESS_OPEN_TIME e \<noteq> env_BUSINESS_CLOSE_TIME e" using e(3) by (auto simp: conflictsIn_def split: if_splits)
  then have "fit_to_trade pf e"
    unfolding fit_to_trade_def
  proof (intro conjI allI impI)
    fix offset :: "string \<Rightarrow> int \<Rightarrow> int" and instant
    show "\<exists>b. isOpenAt offset instant (hours_of e) = Inr b" using t by (auto simp: isOpenAt_def hours_of_def Let_def)
  qed (use t businessDayOf_shifted extractVat_bounds(1,2) in \<open>auto simp: isKnownTimeZone_def\<close>)
  moreover have "fit_to_serve e"
    using process_schema_ok [OF fields(1)] identity_schema_ok [OF fields(2)] e(3)
    by (auto simp: fit_to_serve_def conflictsIn_def split: if_splits)
  moreover have "fit_to_store pf e"
    using storage_schema_ok [OF fields(4)]
    by (auto simp: fit_to_store_def isSecureOrLocal_def LOCAL_HOSTS_def List.member_iff split: option.splits)
  moreover have "fit_to_charge pf e"
    using payment_schema_ok [OF fields(5)] stripe_key_mode [of "env_STRIPE_SECRET_KEY e"] e(3)
    by (auto simp: fit_to_charge_def conflictsIn_def split: if_splits)
  ultimately show ?thesis by blast
qed

text \<open>A deployment that sets what it has to, its ports and its drain, and a generated key; and the one that
  leaves the signing key of \<open>.env.example\<close> as it is there.\<close>

definition read_digits :: "string \<Rightarrow> int option" where
  "read_digits s = (if s \<noteq> [] \<and> list_all (\<lambda>c. digit_value c \<noteq> None) s
     then Some (foldl (\<lambda>n c. 10 * n + int (the (digit_value c))) 0 s) else None)"

definition read_url :: "string \<Rightarrow> (string \<times> string) option" where
  "read_url s =
     (if prefix ''https://'' s then Some (''https:'', takeWhile (\<lambda>c. c \<noteq> CHR ''/'') (drop 8 s))
      else if prefix ''http://'' s then Some (''http:'', takeWhile (\<lambda>c. c \<noteq> CHR ''/'') (drop 7 s)) else None)"

definition hosted :: platform where
  "hosted = \<lparr>whole_number = read_digits, is_url = (\<lambda>s. read_url s \<noteq> None), url_parts = read_url,
     zone_exists = (\<lambda>z. z = ''Asia/Bangkok'')\<rparr>"

definition deployment :: "string \<Rightarrow> string \<Rightarrow> string option" where
  "deployment secret = map_of
     [(''NODE_ENV'', ''production''), (''PORT'', ''8080''), (''METRICS_PORT'', ''9464''), (''SHUTDOWN_DRAIN_SECONDS'', ''10''),
      (''DATABASE_URL'', ''postgresql://db''), (''REDIS_URL'', ''redis://cache''), (''JWT_SECRET'', secret),
      (''S3_BUCKET'', ''cafepos-media''), (''S3_ACCESS_KEY_ID'', ''cafepos''), (''S3_SECRET_ACCESS_KEY'', ''secret''),
      (''S3_PUBLIC_BASE_URL'', ''https://img.example/''), (''STRIPE_MODE'', ''live''), (''STRIPE_SECRET_KEY'', ''rk_live_abc''),
      (''STRIPE_WEBHOOK_SECRETS'', ''whsec_a, whsec_b'')]"

definition generated_secret :: string where
  "generated_secret = ''pX3kQ9vT2mZ7rB5nW8yL1cH6sD4fG0jKaEuIoRtVbNqMwSxCzPdFgHhJkLlYyUu''"

theorem validated_environment_witness:
  "\<exists>e. validateEnv hosted (deployment generated_secret) = Inr e \<and>
     fit_to_trade hosted e \<and> fit_to_serve e \<and> fit_to_store hosted e \<and> fit_to_charge hosted e"
proof -
  have "\<not> isl (validateEnv hosted (deployment generated_secret))" by code_simp
  then obtain e where "validateEnv hosted (deployment generated_secret) = Inr e"
    by (cases "validateEnv hosted (deployment generated_secret)") auto
  with validated_environment [OF this] show ?thesis by blast
qed

text \<open>
  The floor on the signing key counts characters. The placeholder \<open>.env.example\<close> ships has enough of
  them, so a checkout that leaves it in place starts, and signs its tokens with a published key.
\<close>

definition placeholder :: string where "placeholder = ''replace-me-with-a-generated-secret''"

lemma placeholder_key_boots:
  "\<exists>e. validateEnv hosted (deployment placeholder) = Inr e \<and> env_JWT_SECRET e = ''replace-me-with-a-generated-secret''"
proof -
  have "case validateEnv hosted (deployment placeholder) of Inl _ \<Rightarrow> False | Inr e \<Rightarrow> env_JWT_SECRET e = ''replace-me-with-a-generated-secret''"
    by code_simp
  then show ?thesis by (simp split: sum.splits)
qed

end
