(* ===== verification/Realtime.thy ===== *)
theory Realtime
  imports Access Query Sample
begin

text \<open>
  The screens: what they load (\<open>kds/kds.service.ts\<close>, \<open>board/board.service.ts\<close>), the three socket
  namespaces (\<open>realtime/kds.gateway.ts\<close>, \<open>kiosk.gateway.ts\<close>, \<open>board.gateway.ts\<close>), the publisher that
  turns committed events into pushes (\<open>events/socket-realtime.publisher.ts\<close>) and the subscriber that
  cuts revoked sessions (\<open>revocation-subscriber.service.ts\<close>).

  The state is the sockets one instance holds and what has been sent to them. A socket belongs to a
  namespace from the moment its handshake has passed; it is filed into its rooms in a step of its
  own. Reads of the publisher see the tables as they are at that read, when it succeeds: \<open>reads k\<close>.
\<close>

section \<open>Definitions\<close>

subsection \<open>The snapshots\<close>

record kds_ticket =
  kt_summary :: order_summary
  kt_items :: "order_line list"

record board_entry =
  be_orderNumber :: string
  be_status :: order_status

definition KDS_STATUSES :: "order_status list" where "KDS_STATUSES = [PAID, IN_PREPARATION, READY]"
definition BOARD_STATUSES :: "order_status list" where "BOARD_STATUSES = [IN_PREPARATION, READY]"
definition MAX_TICKETS :: nat where "MAX_TICKETS = 200"
definition MAX_ENTRIES :: nat where "MAX_ENTRIES = 200"

definition oldest_first :: "order_row list \<Rightarrow> order_row list" where
  "oldest_first rows = sort_key (\<lambda>r. (ord_createdAt r, ord_id r)) rows"

definition to_ticket :: "('p, 'b) db \<Rightarrow> order_row \<Rightarrow> kds_ticket" where
  "to_ticket d row =
     \<lparr>kt_summary = toOrderSummary row,
      kt_items = toOrderLines (map (\<lambda>item. (item, filter (\<lambda>o'. oio_orderItemId o' = oi_id item) (orderItemOptions d)))
        (filter (\<lambda>item. oi_orderId item = ord_id row) (orderItems d)))\<rparr>"

definition kds_snapshot :: "('p, 'b) db \<Rightarrow> kds_ticket list" where
  "kds_snapshot d =
     map (to_ticket d) (take MAX_TICKETS (oldest_first (filter (\<lambda>r. List.member KDS_STATUSES (ord_status r)) (orders d))))"

definition ticketFor :: "string \<Rightarrow> ('p, 'b) db \<Rightarrow> kds_ticket option" where
  "ticketFor orderId d = map_option (to_ticket d) (row_by ord_id orderId (orders d))"

definition board_snapshot :: "('p, 'b) db \<Rightarrow> board_entry list" where
  "board_snapshot d =
     map (\<lambda>r. \<lparr>be_orderNumber = the (ord_number r), be_status = ord_status r\<rparr>)
       (take MAX_ENTRIES (oldest_first
         (filter (\<lambda>r. List.member BOARD_STATUSES (ord_status r) \<and> ord_number r \<noteq> None) (orders d))))"

subsection \<open>Sockets and rooms\<close>

definition userRoom :: "string \<Rightarrow> string" where "userRoom userId = ''user:'' @ userId"
definition tokenRoom :: "string \<Rightarrow> string" where "tokenRoom jti = ''token:'' @ jti"
definition deviceRoom :: "string \<Rightarrow> string" where "deviceRoom deviceId = ''device:'' @ deviceId"

record socket =
  sk_id :: nat
  sk_principal :: "session option"
  sk_rooms :: "string list"

datatype payload = TicketPayload kds_ticket | BoardPayload "board_entry list"

record push =
  pu_to :: socket
  pu_event :: string
  pu_payload :: payload

record screens =
  kds_sockets :: "socket list"
  kiosk_sockets :: "socket list"
  board_sockets :: "socket list"
  kds_pushes :: "push list"
  kiosk_pushes :: "push list"
  board_pushes :: "push list"

record handshake =
  hs_authToken :: "json option"
  hs_authorization :: "string option"

definition bearerFrom :: "handshake \<Rightarrow> string option" where
  "bearerFrom hs =
     (case hs_authToken hs of
        Some (JStr (c # cs)) \<Rightarrow> Some (c # cs)
      | _ \<Rightarrow> (case bearerTokenOf (hs_authorization hs) of Inr token \<Rightarrow> Some token | Inl _ \<Rightarrow> None))"

subsection \<open>\<open>kds.gateway.ts\<close>\<close>

text \<open>
  \<open>None\<close>: the handshake is refused. The token is verified and then looked up in the denylist, which
  may be unreachable; \<open>revocations\<close> is the keyspace at that second moment.
\<close>

definition kds_authenticate :: "crypto \<Rightarrow> bool \<Rightarrow> int \<Rightarrow> handshake \<Rightarrow> redis \<Rightarrow> session option" where
  "kds_authenticate c reachable now hs revocations =
     (case bearerFrom hs of
        None \<Rightarrow> None
      | Some token \<Rightarrow>
          (case access_verify c token of
             Inl _ \<Rightarrow> None
           | Inr who \<Rightarrow>
               (case isRevoked reachable now (ss_userId who) (ss_tokenId who) revocations of
                  Inl _ \<Rightarrow> None
                | Inr revoked \<Rightarrow> if revoked then None else Some who)))"

definition kds_rooms :: "session \<Rightarrow> string list" where
  "kds_rooms who = [userRoom (ss_userId who), tokenRoom (ss_tokenId who)]"

definition filed :: "(session \<Rightarrow> string list) \<Rightarrow> nat \<Rightarrow> socket list \<Rightarrow> socket list" where
  "filed rooms_of i sks =
     List.map_filter (\<lambda>sk. if sk_id sk \<noteq> i then Some sk
        else map_option (\<lambda>who. sk\<lparr>sk_rooms := sk_rooms sk @ rooms_of who\<rparr>) (sk_principal sk)) sks"

definition kds_handleConnection :: "nat \<Rightarrow> screens \<Rightarrow> screens" where
  "kds_handleConnection i w = w\<lparr>kds_sockets := filed kds_rooms i (kds_sockets w)\<rparr>"

definition kds_broadcast :: "string \<Rightarrow> kds_ticket \<Rightarrow> screens \<Rightarrow> screens" where
  "kds_broadcast event ticket w =
     w\<lparr>kds_pushes := kds_pushes w @
       map (\<lambda>sk. \<lparr>pu_to = sk, pu_event = event, pu_payload = TicketPayload ticket\<rparr>) (kds_sockets w)\<rparr>"

definition disconnect_room :: "string \<Rightarrow> socket list \<Rightarrow> socket list" where
  "disconnect_room room sks = filter (\<lambda>sk. \<not> List.member (sk_rooms sk) room) sks"

fun kds_onRevocation :: "revocation \<Rightarrow> screens \<Rightarrow> screens" where
  "kds_onRevocation (RevokeDevice _) w = w"
| "kds_onRevocation (RevokeUser userId) w = w\<lparr>kds_sockets := disconnect_room (userRoom userId) (kds_sockets w)\<rparr>"
| "kds_onRevocation (RevokeToken jti) w = w\<lparr>kds_sockets := disconnect_room (tokenRoom jti) (kds_sockets w)\<rparr>"

subsection \<open>\<open>kiosk.gateway.ts\<close>\<close>

definition kiosk_authenticate :: "crypto \<Rightarrow> int \<Rightarrow> handshake \<Rightarrow> id_world \<Rightarrow> session option \<times> id_world" where
  "kiosk_authenticate c now hs s =
     (case bearerFrom hs of
        None \<Rightarrow> (None, s)
      | Some token \<Rightarrow> (case resolve_device c now token s of (Inl _, s') \<Rightarrow> (None, s') | (Inr who, s') \<Rightarrow> (Some who, s')))"

definition kiosk_rooms :: "session \<Rightarrow> string list" where
  "kiosk_rooms who = [deviceRoom (ds_deviceId who)]"

definition kiosk_handleConnection :: "nat \<Rightarrow> screens \<Rightarrow> screens" where
  "kiosk_handleConnection i w = w\<lparr>kiosk_sockets := filed kiosk_rooms i (kiosk_sockets w)\<rparr>"

fun kiosk_onRevocation :: "revocation \<Rightarrow> screens \<Rightarrow> screens" where
  "kiosk_onRevocation (RevokeDevice deviceId) w = w\<lparr>kiosk_sockets := disconnect_room (deviceRoom deviceId) (kiosk_sockets w)\<rparr>"
| "kiosk_onRevocation _ w = w"

definition emitToDevice :: "string \<Rightarrow> string \<Rightarrow> kds_ticket \<Rightarrow> screens \<Rightarrow> screens" where
  "emitToDevice deviceId event ticket w =
     w\<lparr>kiosk_pushes := kiosk_pushes w @
       map (\<lambda>sk. \<lparr>pu_to = sk, pu_event = event, pu_payload = TicketPayload ticket\<rparr>)
         (filter (\<lambda>sk. List.member (sk_rooms sk) (deviceRoom deviceId)) (kiosk_sockets w))\<rparr>"

text \<open>The heartbeat; \<open>reachable\<close> says whether the database took the update.\<close>

definition recordPresence :: "bool \<Rightarrow> int \<Rightarrow> screens \<Rightarrow> id_world \<Rightarrow> id_world" where
  "recordPresence reachable now w s =
     (let deviceIds = remdups (List.map_filter (\<lambda>sk. map_option ds_deviceId (sk_principal sk)) (kiosk_sockets w))
      in if deviceIds = [] \<or> \<not> reachable then s else markSeen now deviceIds s)"

subsection \<open>\<open>board.gateway.ts\<close>\<close>

definition board_broadcast :: "board_entry list \<Rightarrow> screens \<Rightarrow> screens" where
  "board_broadcast entries w =
     w\<lparr>board_pushes := board_pushes w @
       map (\<lambda>sk. \<lparr>pu_to = sk, pu_event = ''board.updated'', pu_payload = BoardPayload entries\<rparr>) (board_sockets w)\<rparr>"

subsection \<open>\<open>socket-realtime.publisher.ts\<close>\<close>

fun event_kind :: "domain_event \<Rightarrow> string" where
  "event_kind (order_paid _ _) = ''order.paid''"
| "event_kind (order_updated _ _) = ''order.updated''"
| "event_kind (order_ready _ _) = ''order.ready''"
| "event_kind (payment_succeeded _ _ _) = ''payment.succeeded''"
| "event_kind (payment_failed _ _ _) = ''payment.failed''"

definition KDS_EVENTS :: "string list" where "KDS_EVENTS = [''order.paid'', ''order.updated'', ''order.ready'']"
definition KIOSK_EVENTS :: "string list" where "KIOSK_EVENTS = [''payment.succeeded'', ''payment.failed'', ''order.ready'']"
definition BOARD_EVENTS :: "string list" where "BOARD_EVENTS = [''order.updated'', ''order.ready'']"

definition forKds :: "domain_event \<Rightarrow> bool" where
  "forKds ev \<longleftrightarrow> List.member KDS_EVENTS (event_kind ev)"

definition forKiosk :: "domain_event \<Rightarrow> bool" where
  "forKiosk ev \<longleftrightarrow> List.member KIOSK_EVENTS (event_kind ev) \<and> event_deviceId ev \<noteq> None"

definition publish_one :: "('p, 'b) db \<Rightarrow> domain_event \<Rightarrow> screens \<Rightarrow> screens" where
  "publish_one d ev w =
     (case ticketFor (event_orderId ev) d of
        None \<Rightarrow> w
      | Some ticket \<Rightarrow>
          let w1 = (if forKds ev then kds_broadcast (event_kind ev) ticket w else w)
          in case event_deviceId ev of
               Some deviceId \<Rightarrow> if forKiosk ev then emitToDevice deviceId (event_kind ev) ticket w1 else w1
             | None \<Rightarrow> w1)"

text \<open>\<open>None\<close> as a read: the query failed, and \<open>publish\<close> rejects with it (\<open>False\<close>).\<close>

fun publish_each :: "(nat \<Rightarrow> ('p, 'b) db option) \<Rightarrow> nat \<Rightarrow> domain_event list \<Rightarrow> screens \<Rightarrow> bool \<times> screens" where
  "publish_each reads k [] w = (True, w)"
| "publish_each reads k (ev # evs) w =
     (if \<not> forKds ev \<and> \<not> forKiosk ev then publish_each reads (Suc k) evs w
      else case reads k of
             None \<Rightarrow> (False, w)
           | Some d \<Rightarrow> publish_each reads (Suc k) evs (publish_one d ev w))"

definition publish_events :: "(nat \<Rightarrow> ('p, 'b) db option) \<Rightarrow> domain_event list \<Rightarrow> screens \<Rightarrow> bool \<times> screens" where
  "publish_events reads evs w =
     (let (read, w1) = publish_each reads 0 evs w
      in if read \<and> list_ex (\<lambda>ev. List.member BOARD_EVENTS (event_kind ev)) evs
         then case reads (length evs) of
                None \<Rightarrow> (False, w1)
              | Some d \<Rightarrow> (True, board_broadcast (board_snapshot d) w1)
         else (read, w1))"

subsection \<open>\<open>revocation-subscriber.service.ts\<close>\<close>

text \<open>The two gateways register their handlers; neither of them throws.\<close>

definition on_message :: "string \<Rightarrow> screens \<Rightarrow> screens" where
  "on_message raw w =
     (case parseRevocation raw of
        None \<Rightarrow> w
      | Some v \<Rightarrow> kiosk_onRevocation v (kds_onRevocation v w))"

section \<open>Runs\<close>

text \<open>
  One instance. A handshake that passes adds a socket with its principal, not yet in any room;
  filing it is a step of its own; sockets go; messages arrive on the kill channel, and batches of
  events are published.
\<close>

inductive screens_run :: "screens \<Rightarrow> screens \<Rightarrow> bool" where
  start: "screens_run w w"
| kds_passed: "screens_run w w1 \<Longrightarrow> kds_authenticate c reachable now hs revocations = Some who \<Longrightarrow>
    i \<notin> sk_id ` set (kds_sockets w1) \<Longrightarrow>
    screens_run w (w1\<lparr>kds_sockets := kds_sockets w1 @ [\<lparr>sk_id = i, sk_principal = Some who, sk_rooms = []\<rparr>]\<rparr>)"
| kiosk_passed: "screens_run w w1 \<Longrightarrow> kiosk_authenticate c now hs s = (Some who, s') \<Longrightarrow>
    i \<notin> sk_id ` set (kiosk_sockets w1) \<Longrightarrow>
    screens_run w (w1\<lparr>kiosk_sockets := kiosk_sockets w1 @ [\<lparr>sk_id = i, sk_principal = Some who, sk_rooms = []\<rparr>]\<rparr>)"
| board_opened: "screens_run w w1 \<Longrightarrow>
    screens_run w (w1\<lparr>board_sockets := board_sockets w1 @ [\<lparr>sk_id = i, sk_principal = None, sk_rooms = []\<rparr>]\<rparr>)"
| kds_filed: "screens_run w w1 \<Longrightarrow> screens_run w (kds_handleConnection i w1)"
| kiosk_filed: "screens_run w w1 \<Longrightarrow> screens_run w (kiosk_handleConnection i w1)"
| gone: "screens_run w w1 \<Longrightarrow>
    screens_run w (w1\<lparr>kds_sockets := filter P (kds_sockets w1), kiosk_sockets := filter Q (kiosk_sockets w1),
      board_sockets := filter R (board_sockets w1)\<rparr>)"
| cut: "screens_run w w1 \<Longrightarrow> screens_run w (on_message raw w1)"
| pushed: "screens_run w w1 \<Longrightarrow> screens_run w (w1\<lparr>kds_pushes := a, kiosk_pushes := b, board_pushes := p\<rparr>)"

section \<open>Lemmas\<close>

subsection \<open>Publishing only sends\<close>

lemma kds_broadcast_sockets [simp]:
  "kds_sockets (kds_broadcast e t w) = kds_sockets w" "kiosk_sockets (kds_broadcast e t w) = kiosk_sockets w"
  "board_sockets (kds_broadcast e t w) = board_sockets w" "kiosk_pushes (kds_broadcast e t w) = kiosk_pushes w"
  "board_pushes (kds_broadcast e t w) = board_pushes w"
  by (simp_all add: kds_broadcast_def)

lemma emitToDevice_sockets [simp]:
  "kds_sockets (emitToDevice i e t w) = kds_sockets w" "kiosk_sockets (emitToDevice i e t w) = kiosk_sockets w"
  "board_sockets (emitToDevice i e t w) = board_sockets w" "kds_pushes (emitToDevice i e t w) = kds_pushes w"
  "board_pushes (emitToDevice i e t w) = board_pushes w"
  by (simp_all add: emitToDevice_def)

lemma publish_one_sockets [simp]:
  "kds_sockets (publish_one d ev w) = kds_sockets w" "kiosk_sockets (publish_one d ev w) = kiosk_sockets w"
  "board_sockets (publish_one d ev w) = board_sockets w" "board_pushes (publish_one d ev w) = board_pushes w"
  by (auto simp: publish_one_def Let_def split: option.splits)

lemma publish_each_sockets [simp]:
  "kds_sockets (snd (publish_each reads k evs w)) = kds_sockets w"
  "kiosk_sockets (snd (publish_each reads k evs w)) = kiosk_sockets w"
  "board_sockets (snd (publish_each reads k evs w)) = board_sockets w"
  "board_pushes (snd (publish_each reads k evs w)) = board_pushes w"
  by (induction reads k evs w rule: publish_each.induct) (simp_all split: option.splits)

subsection \<open>Every socket knows who it is, and its rooms are its own\<close>

fun is_staff :: "session \<Rightarrow> bool" where
  "is_staff (StaffSession _ _ _) = True"
| "is_staff (DeviceSession _) = False"

definition socket_ok :: "(session \<Rightarrow> bool) \<Rightarrow> (session \<Rightarrow> string list) \<Rightarrow> socket \<Rightarrow> bool" where
  "socket_ok kind rooms_of sk \<longleftrightarrow>
     (\<exists>who. sk_principal sk = Some who \<and> kind who \<and> (sk_rooms sk = [] \<or> set (sk_rooms sk) = set (rooms_of who)))"

definition screens_ok :: "screens \<Rightarrow> bool" where
  "screens_ok w \<longleftrightarrow> (\<forall>sk \<in> set (kds_sockets w). socket_ok is_staff kds_rooms sk) \<and>
     (\<forall>sk \<in> set (kiosk_sockets w). socket_ok (\<lambda>who. \<not> is_staff who) kiosk_rooms sk)"

lemma filed_ok:
  assumes "\<forall>sk \<in> set sks. socket_ok kind rooms_of sk"
  shows "\<forall>sk \<in> set (filed rooms_of i sks). socket_ok kind rooms_of sk"
  using assms by (fastforce simp: filed_def map_filter_def socket_ok_def split: if_splits)

lemma kds_authenticate_Some:
  "kds_authenticate c reachable now hs revocations = Some who \<Longrightarrow>
    is_staff who \<and> isRevoked reachable now (ss_userId who) (ss_tokenId who) revocations = Inr False"
  by (auto simp: kds_authenticate_def access_verify_def split: option.splits sum.splits if_splits jwt_failure.splits)

lemma kiosk_authenticate_Some: "kiosk_authenticate c now hs s = (Some who, s') \<Longrightarrow> \<not> is_staff who"
  by (auto simp: kiosk_authenticate_def resolve_device_def split: option.splits sum.splits prod.splits if_splits)

lemma onRevocation_subset:
  "set (kds_sockets (kiosk_onRevocation v (kds_onRevocation v w))) \<subseteq> set (kds_sockets w)"
  "set (kiosk_sockets (kiosk_onRevocation v (kds_onRevocation v w))) \<subseteq> set (kiosk_sockets w)"
  by (cases v; auto simp: disconnect_room_def)+

lemma on_message_ok: "screens_ok w \<Longrightarrow> screens_ok (on_message raw w)"
  using onRevocation_subset by (fastforce simp: on_message_def screens_ok_def split: option.splits)

lemma passed_ok: "kind who \<Longrightarrow> socket_ok kind rooms_of \<lparr>sk_id = i, sk_principal = Some who, sk_rooms = []\<rparr>"
  by (simp add: socket_ok_def)

lemma run_ok: "screens_run w w' \<Longrightarrow> screens_ok w \<Longrightarrow> screens_ok w'"
proof (induction rule: screens_run.induct)
  case (kds_passed w w1 c reachable now hs revocations who i)
  have "is_staff who" using kds_authenticate_Some [OF kds_passed.hyps(2)] by blast
  then have "socket_ok is_staff kds_rooms \<lparr>sk_id = i, sk_principal = Some who, sk_rooms = []\<rparr>" by (rule passed_ok)
  then show ?case using kds_passed.IH [OF kds_passed.prems] by (simp add: screens_ok_def)
next
  case (kiosk_passed w w1 c now hs s who s' i)
  have "\<not> is_staff who" by (rule kiosk_authenticate_Some [OF kiosk_passed.hyps(2)])
  then have "socket_ok (\<lambda>who. \<not> is_staff who) kiosk_rooms \<lparr>sk_id = i, sk_principal = Some who, sk_rooms = []\<rparr>" by (rule passed_ok)
  then show ?case using kiosk_passed.IH [OF kiosk_passed.prems] by (simp add: screens_ok_def)
next
  case (kds_filed w w1 i)
  then have "screens_ok w1" by blast
  then show ?case using filed_ok [of "kds_sockets w1" is_staff kds_rooms i] unfolding screens_ok_def kds_handleConnection_def by simp
next
  case (kiosk_filed w w1 i)
  then have "screens_ok w1" by blast
  then show ?case using filed_ok [of "kiosk_sockets w1" "\<lambda>who. \<not> is_staff who" kiosk_rooms i]
    unfolding screens_ok_def kiosk_handleConnection_def by simp
next
  case (cut w w1 raw)
  then show ?case using on_message_ok by blast
next
  case (board_opened w w1 i)
  then have "screens_ok w1" by blast
  then show ?case by (simp add: screens_ok_def)
next
  case (gone w w1 P Q R)
  then have "screens_ok w1" by blast
  then show ?case by (simp add: screens_ok_def)
next
  case (pushed w w1 a b p)
  then have "screens_ok w1" by blast
  then show ?case by (simp add: screens_ok_def)
qed

lemma rooms_apart [simp]:
  "userRoom a \<noteq> tokenRoom b" "tokenRoom b \<noteq> userRoom a" "userRoom a = userRoom b \<longleftrightarrow> a = b" "tokenRoom a = tokenRoom b \<longleftrightarrow> a = b"
  "deviceRoom a = deviceRoom b \<longleftrightarrow> a = b"
  by (simp_all add: userRoom_def tokenRoom_def deviceRoom_def)

subsection \<open>What a revocation cuts\<close>

fun names :: "revocation \<Rightarrow> session \<Rightarrow> bool" where
  "names (RevokeUser i) (StaffSession u _ _) \<longleftrightarrow> u = i"
| "names (RevokeToken i) (StaffSession _ _ j) \<longleftrightarrow> j = i"
| "names (RevokeDevice i) (DeviceSession d) \<longleftrightarrow> d = i"
| "names _ _ \<longleftrightarrow> False"

definition cut_by :: "revocation \<Rightarrow> socket \<Rightarrow> bool" where
  "cut_by v sk \<longleftrightarrow> sk_rooms sk \<noteq> [] \<and> (\<exists>who. sk_principal sk = Some who \<and> names v who)"

lemma in_room_iff:
  assumes "socket_ok kind rooms_of sk"
  shows "List.member (sk_rooms sk) room \<longleftrightarrow> sk_rooms sk \<noteq> [] \<and> (\<exists>who. sk_principal sk = Some who \<and> room \<in> set (rooms_of who))"
proof -
  obtain who where who: "sk_principal sk = Some who" "sk_rooms sk = [] \<or> set (sk_rooms sk) = set (rooms_of who)"
    using assms unfolding socket_ok_def by blast
  show ?thesis
  proof (cases "sk_rooms sk = []")
    case False
    with who(2) have "room \<in> set (sk_rooms sk) \<longleftrightarrow> room \<in> set (rooms_of who)" by simp
    with False who(1) show ?thesis by simp
  qed simp
qed

lemma ok_principal: "socket_ok kind rooms_of sk \<Longrightarrow> \<exists>who. sk_principal sk = Some who \<and> kind who"
  by (auto simp: socket_ok_def)

lemma kds_cut:
  assumes "\<forall>sk \<in> set (kds_sockets w). socket_ok is_staff kds_rooms sk"
  shows "kds_sockets (kds_onRevocation v w) = filter (\<lambda>sk. \<not> cut_by v sk) (kds_sockets w)"
proof -
  have staff: "\<exists>u r j. sk_principal sk = Some (StaffSession u r j)" if "sk \<in> set (kds_sockets w)" for sk
    using ok_principal [OF bspec [OF assms that]] is_staff.elims(2) by blast
  have "List.member (sk_rooms sk) (userRoom i) \<longleftrightarrow> cut_by (RevokeUser i) sk"
    "List.member (sk_rooms sk) (tokenRoom i) \<longleftrightarrow> cut_by (RevokeToken i) sk" "\<not> cut_by (RevokeDevice i) sk"
    if sk: "sk \<in> set (kds_sockets w)" for sk i
  proof -
    obtain u r j where p: "sk_principal sk = Some (StaffSession u r j)" using staff [OF sk] by blast
    have ok: "socket_ok is_staff kds_rooms sk" using assms sk by blast
    show "List.member (sk_rooms sk) (userRoom i) \<longleftrightarrow> cut_by (RevokeUser i) sk"
      unfolding in_room_iff [OF ok] by (auto simp: p cut_by_def kds_rooms_def)
    show "List.member (sk_rooms sk) (tokenRoom i) \<longleftrightarrow> cut_by (RevokeToken i) sk"
      unfolding in_room_iff [OF ok] by (auto simp: p cut_by_def kds_rooms_def)
    show "\<not> cut_by (RevokeDevice i) sk" by (simp add: p cut_by_def)
  qed
  then show ?thesis by (cases v) (auto simp: disconnect_room_def intro!: filter_cong filter_True [symmetric])
qed

lemma kiosk_cut:
  assumes "\<forall>sk \<in> set (kiosk_sockets w). socket_ok (\<lambda>who. \<not> is_staff who) kiosk_rooms sk"
  shows "kiosk_sockets (kiosk_onRevocation v w) = filter (\<lambda>sk. \<not> cut_by v sk) (kiosk_sockets w)"
proof -
  have device: "\<exists>i. sk_principal sk = Some (DeviceSession i)" if "sk \<in> set (kiosk_sockets w)" for sk
    using ok_principal [OF bspec [OF assms that]] is_staff.elims(3) by blast
  have "List.member (sk_rooms sk) (deviceRoom i) \<longleftrightarrow> cut_by (RevokeDevice i) sk" "\<not> cut_by (RevokeUser i) sk" "\<not> cut_by (RevokeToken i) sk"
    if sk: "sk \<in> set (kiosk_sockets w)" for sk i
  proof -
    obtain j where p: "sk_principal sk = Some (DeviceSession j)" using device [OF sk] by blast
    have ok: "socket_ok (\<lambda>who. \<not> is_staff who) kiosk_rooms sk" using assms sk by blast
    show "List.member (sk_rooms sk) (deviceRoom i) \<longleftrightarrow> cut_by (RevokeDevice i) sk"
      unfolding in_room_iff [OF ok] by (auto simp: p cut_by_def kiosk_rooms_def)
    show "\<not> cut_by (RevokeUser i) sk" "\<not> cut_by (RevokeToken i) sk" by (simp_all add: p cut_by_def)
  qed
  then show ?thesis by (cases v) (auto simp: disconnect_room_def intro!: filter_cong filter_True [symmetric])
qed

lemma onRevocation_other [simp]:
  "kiosk_sockets (kds_onRevocation v w) = kiosk_sockets w" "kds_sockets (kiosk_onRevocation v w) = kds_sockets w"
  by (cases v; simp)+

lemma on_message_cut:
  assumes "screens_ok w" "parseRevocation raw = Some v"
  shows "kds_sockets (on_message raw w) = filter (\<lambda>sk. \<not> cut_by v sk) (kds_sockets w)"
    and "kiosk_sockets (on_message raw w) = filter (\<lambda>sk. \<not> cut_by v sk) (kiosk_sockets w)"
  using assms kds_cut [of w v] kiosk_cut [of "kds_onRevocation v w" v] by (simp_all add: on_message_def screens_ok_def)

lemma parse_revocation_message:
  "snd (revocation_field v) \<noteq> [] \<Longrightarrow> parseRevocation (revocation_message v) = Some v"
  using json_parse_printed [of "[revocation_field v]"]
  by (cases v) (auto simp: parseRevocation_def revocation_message_def member_text_def neq_Nil_conv)

text \<open>A revocation that was carried out is on the channel, and in the denylist until it runs out.\<close>

lemma announce_True:
  assumes "announce link ttl now k v s = (True, s')"
  shows "channel s' \<noteq> [] \<and> last (channel s') = revocation_message v \<and> keyspace s' k = Some \<lparr>re_count = 1, re_expireAt = Some (now + ttl * 1000)\<rparr>"
proof -
  have once: "channel y \<noteq> [] \<and> last (channel y) = revocation_message v \<and> keyspace y k = Some \<lparr>re_count = 1, re_expireAt = Some (now + ttl * 1000)\<rparr>"
    if "announce_once link ttl now k v i x = (True, y)" for i x y
    using that by (auto simp: announce_once_def publish_revocation_def redis_set_ex_def Let_def split: if_splits)
  have "channel y \<noteq> [] \<and> last (channel y) = revocation_message v \<and> keyspace y k = Some \<lparr>re_count = 1, re_expireAt = Some (now + ttl * 1000)\<rparr>"
    if "withRetry n (announce_once link ttl now k v) i x = (True, y)" for n i x y
    using that
  proof (induction n arbitrary: i x)
    case (Suc n)
    then show ?case using once by (auto split: prod.splits bool.splits)
  qed (auto dest: once)
  then show ?thesis using assms by (simp add: announce_def)
qed

lemma denied_handshake:
  assumes "revocations k = Some \<lparr>re_count = 1, re_expireAt = Some t\<rparr>" "now < t"
    and "kds_authenticate c reachable now hs revocations = Some who"
  shows "k \<noteq> userKey (ss_userId who)" "k \<noteq> tokenKey (ss_tokenId who)"
  using kds_authenticate_Some [OF assms(3)] assms(1,2) by (auto simp: isRevoked_def redis_live_def split: if_splits)

subsection \<open>Whose order an event is about\<close>

text \<open>The transactions that emit events, with the tables before and after and the events.\<close>

inductive emitting :: "('p, 'b) db \<Rightarrow> ('p, 'b) db \<Rightarrow> domain_event list \<Rightarrow> bool" where
  served: "status_transition_work now who i target d = Inr (x, d', evs) \<Longrightarrow> emitting d d' evs"
| cancelled: "cancel_work now who i reason source live d = Inr (x, d', evs) \<Longrightarrow> emitting d d' evs"
| captured: "mark_paid_work now e i j rail d = Inr (x, d', evs) \<Longrightarrow> emitting d d' evs"
| declined: "mark_payment_work now e i status d = Inr (x, d', evs) \<Longrightarrow> emitting d d' evs"
| cash_taken: "cash_work now newId userId order tendered k d = Inr (x, d', evs) \<Longrightarrow> emitting d d' evs"
| refunded: "refund_work now newId userId payment order input d = Inr (x, d', evs) \<Longrightarrow> emitting d d' evs"

definition rightly_addressed :: "('p, 'b) db \<Rightarrow> domain_event \<Rightarrow> bool" where
  "rightly_addressed d ev \<longleftrightarrow> (\<exists>r \<in> set (orders d). ord_id r = event_orderId ev \<and> ord_kioskDeviceId r = event_deviceId ev)"

lemma transition_addressed:
  assumes "transitionOrder now q d = Inr (u, d')" "distinct (map ord_id (orders d))"
  shows "\<exists>r \<in> set (orders d'). ord_id r = tr_orderId q \<and> ord_kioskDeviceId r = ord_kioskDeviceId u"
proof -
  obtain r where r: "row_by ord_id (tr_orderId q) (orders d) = Some r" "ord_status r = tr_from q" "u = moved_order q r"
    and d': "d' = moved_tables now q d"
    using assms by (auto simp: transitionOrder_Inr)
  note r' = row_by_SomeD [OF r(1)]
  then have "moved_order q r \<in> set (orders d')"
    unfolding d' moved_tables_def using r(2) by (auto simp: append_history_def sql_update_def image_iff intro!: bexI [of _ r])
  moreover have "ord_id (moved_order q r) = tr_orderId q" using r' by (simp add: moved_order_def)
  ultimately show ?thesis unfolding r(3) by blast
qed

lemma markProcessed_orders [simp]: "orders (snd (markProcessed now e i d)) = orders d"
  by (simp add: markProcessed_def split: prod.splits)

lemma emitting_addressed:
  assumes "emitting d d' evs" "distinct (map ord_id (orders d))"
  shows "\<forall>ev \<in> set evs. rightly_addressed d' ev"
  using assms
proof (induction rule: emitting.induct)
  case (served now who i target d x d' evs)
  then show ?case
    by (fastforce simp: status_transition_work_def sum_bind_iffs rightly_addressed_def dest: transition_addressed split: option.splits if_splits)
next
  case (cancelled now who i reason source live d x d' evs)
  let ?q = "\<lparr>tr_orderId = i, tr_from = source, tr_to = CANCELLED, tr_actorType = fst (actorOf who),
    tr_actorId = Some (snd (actorOf who)), tr_reason = reason\<rparr>"
  obtain u d1 where t: "transitionOrder now ?q d = Inr (u, d1)" and evs: "evs = [order_updated i (ord_kioskDeviceId u)]"
    and d': "d' = snd (case live of None \<Rightarrow> (False, d1) | Some p \<Rightarrow> cancel_payment (pay_id p) d1)"
    using cancelled.hyps by (cases live) (auto simp: cancel_work_def sum_bind_iffs case_prod_unfold Let_def)
  have "orders d' = orders d1" by (simp add: d' cancel_payment_def split: option.splits prod.splits)
  with transition_addressed [OF t cancelled.prems] show ?case by (simp add: evs rightly_addressed_def)
next
  case (captured now e i j rail d x d' evs)
  then show ?case
    by (fastforce simp: mark_paid_work_def sum_bind_iffs rightly_addressed_def Let_def case_prod_unfold dest: transition_addressed)
next
  case (declined now e i status d x d' evs)
  then show ?case
    by (auto simp: mark_payment_work_def rightly_addressed_def Let_def case_prod_unfold dest!: row_by_SomeD split: list.splits if_splits option.splits)
next
  case (cash_taken now newId userId order tendered k d x d' evs)
  then obtain i d1 u where "insertPayment (cash_row now newId order tendered k) d = Inr (i, d1)"
    and t: "transitionOrder now \<lparr>tr_orderId = ord_id order, tr_from = PENDING_PAYMENT, tr_to = PAID, tr_actorType = USER,
      tr_actorId = Some userId, tr_reason = None\<rparr> d1 = Inr (u, d')" and evs: "evs = [order_paid (ord_id order) (ord_kioskDeviceId u)]"
    by (auto simp: cash_work_def sum_bind_iffs)
  then have "orders d1 = orders d" using insertPayment_Inr(2) by fastforce
  with transition_addressed [OF t] cash_taken.prems show ?case by (simp add: evs rightly_addressed_def)
next
  case (refunded now newId userId payment order input d x d' evs)
  then show ?case
    by (fastforce simp: refund_work_def sum_bind_iffs rightly_addressed_def Let_def insert_refund_row_def dest: transition_addressed
        split: if_splits option.splits)
qed

subsection \<open>Who is sent what\<close>

definition sent :: "string \<Rightarrow> kds_ticket \<Rightarrow> socket \<Rightarrow> push" where
  "sent event ticket sk = \<lparr>pu_to = sk, pu_event = event, pu_payload = TicketPayload ticket\<rparr>"

lemma publish_one_kiosk:
  "kiosk_pushes (publish_one d ev w) = kiosk_pushes w @
    (case (event_deviceId ev, ticketFor (event_orderId ev) d) of
       (Some i, Some t) \<Rightarrow> if List.member KIOSK_EVENTS (event_kind ev)
         then map (sent (event_kind ev) t) (filter (\<lambda>sk. List.member (sk_rooms sk) (deviceRoom i)) (kiosk_sockets w)) else []
     | _ \<Rightarrow> [])"
  by (auto simp: publish_one_def forKiosk_def emitToDevice_def sent_def Let_def split: option.splits)

lemma publish_one_kds:
  "kds_pushes (publish_one d ev w) = kds_pushes w @
    (case ticketFor (event_orderId ev) d of
       Some t \<Rightarrow> if List.member KDS_EVENTS (event_kind ev) then map (sent (event_kind ev) t) (kds_sockets w) else []
     | None \<Rightarrow> [])"
  by (auto simp: publish_one_def forKds_def kds_broadcast_def emitToDevice_def sent_def Let_def split: option.splits)

definition own_order :: "(nat \<Rightarrow> ('p, 'b) db option) \<Rightarrow> push \<Rightarrow> bool" where
  "own_order reads p \<longleftrightarrow> (\<exists>i k d r. sk_principal (pu_to p) = Some (DeviceSession i) \<and> reads k = Some d \<and> r \<in> set (orders d) \<and>
     ord_kioskDeviceId r = Some i \<and> pu_payload p = TicketPayload (to_ticket d r))"

definition staff_ticket :: "(nat \<Rightarrow> ('p, 'b) db option) \<Rightarrow> push \<Rightarrow> bool" where
  "staff_ticket reads p \<longleftrightarrow> (\<exists>u role j k d r. sk_principal (pu_to p) = Some (StaffSession u role j) \<and> reads k = Some d \<and>
     r \<in> set (orders d) \<and> pu_payload p = TicketPayload (to_ticket d r))"

lemma ticketFor_Some: "ticketFor i d = Some t \<Longrightarrow> \<exists>r \<in> set (orders d). ord_id r = i \<and> t = to_ticket d r"
  using row_by_SomeD [of ord_id i "orders d"] by (auto simp: ticketFor_def)

lemma device_in_room:
  assumes "screens_ok w" "sk \<in> set (kiosk_sockets w)" "List.member (sk_rooms sk) (deviceRoom i)"
  shows "sk_principal sk = Some (DeviceSession i)"
proof -
  have ok: "socket_ok (\<lambda>who. \<not> is_staff who) kiosk_rooms sk" using assms(1,2) unfolding screens_ok_def by blast
  obtain j where j: "sk_principal sk = Some (DeviceSession j)" using ok_principal [OF ok] is_staff.elims(3) by blast
  with in_room_iff [OF ok] assms(3) show ?thesis by (simp add: kiosk_rooms_def)
qed

lemma publish_one_own:
  assumes "screens_ok w" "reads k = Some d" "rightly_addressed d ev" "distinct (map ord_id (orders d))"
  shows "\<exists>new. kiosk_pushes (publish_one d ev w) = kiosk_pushes w @ new \<and> (\<forall>p \<in> set new. own_order reads p)"
proof (cases "\<exists>i t. event_deviceId ev = Some i \<and> ticketFor (event_orderId ev) d = Some t \<and> List.member KIOSK_EVENTS (event_kind ev)")
  case True
  then obtain i t where i: "event_deviceId ev = Some i" "ticketFor (event_orderId ev) d = Some t" "List.member KIOSK_EVENTS (event_kind ev)"
    by blast
  obtain r where r: "r \<in> set (orders d)" "ord_id r = event_orderId ev" "ord_kioskDeviceId r = Some i"
    using assms(3) i(1) by (auto simp: rightly_addressed_def)
  have t: "t = to_ticket d r" using i(2) row_by_mem [OF assms(4) r(1)] by (simp add: ticketFor_def r(2))
  have "own_order reads (sent e t sk)" if "sk \<in> set (kiosk_sockets w)" "List.member (sk_rooms sk) (deviceRoom i)" for e sk
    using device_in_room [OF assms(1) that] assms(2) r t unfolding own_order_def sent_def by auto
  then show ?thesis by (auto simp: publish_one_kiosk i)
next
  case False
  then show ?thesis by (auto simp: publish_one_kiosk split: option.splits)
qed

lemma screens_ok_publish_one [simp]: "screens_ok (publish_one d ev w) = screens_ok w"
  by (simp add: screens_ok_def)

lemma publish_one_staff:
  assumes "screens_ok w" "reads k = Some d"
  shows "\<exists>new. kds_pushes (publish_one d ev w) = kds_pushes w @ new \<and> (\<forall>p \<in> set new. staff_ticket reads p)"
proof -
  have "staff_ticket reads (sent e t sk)" if "sk \<in> set (kds_sockets w)" "ticketFor (event_orderId ev) d = Some t" for e t sk
  proof -
    have ok: "socket_ok is_staff kds_rooms sk" using assms(1) that(1) unfolding screens_ok_def by blast
    obtain u role j where "sk_principal sk = Some (StaffSession u role j)" using ok_principal [OF ok] is_staff.elims(2) by blast
    with ticketFor_Some [OF that(2)] assms(2) show ?thesis unfolding staff_ticket_def sent_def by auto
  qed
  then show ?thesis by (auto simp: publish_one_kds split: option.splits)
qed

text \<open>What one event adds to a list of pushes, the batch adds.\<close>

lemma publish_each_adds:
  assumes one: "\<And>k d ev w. ev \<in> set evs \<Longrightarrow> screens_ok w \<Longrightarrow> reads k = Some d \<Longrightarrow>
      \<exists>new. pushes (publish_one d ev w) = pushes w @ new \<and> (\<forall>p \<in> set new. P p)"
    and "screens_ok w"
  shows "\<exists>new. pushes (snd (publish_each reads k evs w)) = pushes w @ new \<and> (\<forall>p \<in> set new. P p)"
  using assms
proof (induction evs arbitrary: k w)
  case (Cons ev evs)
  have IH: "\<exists>new. pushes (snd (publish_each reads j evs x)) = pushes x @ new \<and> (\<forall>p \<in> set new. P p)" if "screens_ok x" for j x
    by (rule Cons.IH [OF _ that]) (rule Cons.prems(1), simp_all)
  show ?case
  proof (cases "(\<not> forKds ev \<and> \<not> forKiosk ev) \<or> reads k = None")
    case True
    with IH [OF Cons.prems(2)] show ?thesis by auto
  next
    case False
    then obtain d where d: "reads k = Some d" and wanted: "\<not> (\<not> forKds ev \<and> \<not> forKiosk ev)" by auto
    obtain new where "pushes (publish_one d ev w) = pushes w @ new" "\<forall>p \<in> set new. P p"
      using Cons.prems(1) [OF _ Cons.prems(2) d, of ev] by auto
    moreover obtain new' where "pushes (snd (publish_each reads (Suc k) evs (publish_one d ev w))) = pushes (publish_one d ev w) @ new'"
      "\<forall>p \<in> set new'. P p"
      using IH [of "publish_one d ev w" "Suc k"] Cons.prems(2) by auto
    ultimately have "pushes (snd (publish_each reads k (ev # evs) w)) = pushes w @ (new @ new') \<and> (\<forall>p \<in> set (new @ new'). P p)"
      using d wanted by (simp del: disj_not1 disj_not2) blast
    then show ?thesis by blast
  qed
qed simp

lemma publish_events_pushes:
  "kds_pushes (snd (publish_events reads evs w)) = kds_pushes (snd (publish_each reads 0 evs w))"
  "kiosk_pushes (snd (publish_events reads evs w)) = kiosk_pushes (snd (publish_each reads 0 evs w))"
  by (auto simp: publish_events_def board_broadcast_def split: prod.splits option.splits)

lemma board_entries:
  "e \<in> set (board_snapshot d) \<Longrightarrow>
    \<exists>r \<in> set (orders d). ord_number r = Some (be_orderNumber e) \<and> be_status e = ord_status r \<and> ord_status r \<in> {IN_PREPARATION, READY}"
  by (auto simp: board_snapshot_def oldest_first_def BOARD_STATUSES_def dest!: in_set_takeD)

lemma grown_addressed: "rightly_addressed d ev \<Longrightarrow> grows d d' \<Longrightarrow> rightly_addressed d' ev"
  unfolding rightly_addressed_def grows_def order_kept_def by metis

definition board_only :: "(nat \<Rightarrow> ('p, 'b) db option) \<Rightarrow> push \<Rightarrow> bool" where
  "board_only reads p \<longleftrightarrow> (\<exists>k d entries. reads k = Some d \<and> pu_payload p = BoardPayload entries \<and>
     (\<forall>e \<in> set entries. \<exists>r \<in> set (orders d). ord_number r = Some (be_orderNumber e) \<and> be_status e = ord_status r \<and>
        ord_status r \<in> {IN_PREPARATION, READY}))"

lemma publish_events_board:
  "\<exists>new. board_pushes (snd (publish_events reads evs w)) = board_pushes w @ new \<and> (\<forall>p \<in> set new. board_only reads p)"
proof -
  have "board_only reads \<lparr>pu_to = sk, pu_event = e, pu_payload = BoardPayload (board_snapshot d)\<rparr>" if "reads k = Some d" for sk e k d
    using that board_entries [of _ d] unfolding board_only_def by auto
  note new = this
  obtain b w1 where run: "publish_each reads 0 evs w = (b, w1)" by (cases "publish_each reads 0 evs w")
  have kept: "board_pushes w1 = board_pushes w" using publish_each_sockets(4) [of reads 0 evs w] by (simp add: run)
  show ?thesis
  proof (cases "b \<and> list_ex (\<lambda>ev. List.member BOARD_EVENTS (event_kind ev)) evs \<and> reads (length evs) \<noteq> None")
    case True
    then obtain d where d: "reads (length evs) = Some d" by auto
    with True have "board_pushes (snd (publish_events reads evs w)) = board_pushes w @
        map (\<lambda>sk. \<lparr>pu_to = sk, pu_event = ''board.updated'', pu_payload = BoardPayload (board_snapshot d)\<rparr>) (board_sockets w1)"
      by (simp add: publish_events_def run board_broadcast_def kept)
    then show ?thesis using new [OF d] by auto
  next
    case False
    then have "board_pushes (snd (publish_events reads evs w)) = board_pushes w"
      by (auto simp: publish_events_def run kept split: option.splits)
    then show ?thesis by simp
  qed
qed

lemma empty_ok: "kds_sockets w = [] \<Longrightarrow> kiosk_sockets w = [] \<Longrightarrow> screens_ok w"
  by (simp add: screens_ok_def)

subsubsection \<open>A tablet and a staff screen connected to one instance\<close>

definition dark :: screens where
  "dark = \<lparr>kds_sockets = [], kiosk_sockets = [], board_sockets = [], kds_pushes = [], kiosk_pushes = [], board_pushes = []\<rparr>"

definition window_tablet :: device_row where
  "window_tablet = \<lparr>kd_id = ''k1'', kd_name = ''Window'', kd_tokenHash = Some ''tok'', kd_pairingCodeHash = None,
     kd_pairingExpiresAt = None, kd_status = DEV_ACTIVE, kd_lastSeenAt = None, kd_registeredBy = Some ''u1'', kd_createdAt = 0\<rparr>"

definition lit :: screens where
  "lit = dark\<lparr>kds_sockets := [\<lparr>sk_id = 2, sk_principal = Some (StaffSession ''u1'' MANAGER ''j1''), sk_rooms = [userRoom ''u1'', tokenRoom ''j1'']\<rparr>],
     kiosk_sockets := [\<lparr>sk_id = 1, sk_principal = Some (DeviceSession ''k1''), sk_rooms = [deviceRoom ''k1'']\<rparr>]\<rparr>"

lemma lit_run: "screens_run dark lit"
proof -
  let ?tok = "\<lparr>hs_authToken = Some (JStr ''tok''), hs_authorization = None\<rparr>"
  have tablet: "kiosk_authenticate plain_crypto 0 ?tok (back_office\<lparr>devices := [window_tablet]\<rparr>) =
      (Some (DeviceSession ''k1''), touchLastSeen 0 window_tablet (back_office\<lparr>devices := [window_tablet]\<rparr>))"
    by (simp add: kiosk_authenticate_def bearerFrom_def resolve_device_def sql_find_def window_tablet_def plain_crypto_def)
  have staff: "kds_authenticate signing_crypto True 0 ?tok (\<lambda>_. None) = Some (StaffSession ''u1'' MANAGER ''j1'')"
    by code_simp
  have "screens_run dark (kds_handleConnection 2 (kiosk_handleConnection 1 (dark\<lparr>
      kiosk_sockets := [\<lparr>sk_id = 1, sk_principal = Some (DeviceSession ''k1''), sk_rooms = []\<rparr>],
      kds_sockets := [\<lparr>sk_id = 2, sk_principal = Some (StaffSession ''u1'' MANAGER ''j1''), sk_rooms = []\<rparr>]\<rparr>)))"
    using screens_run.kds_passed [OF screens_run.kiosk_passed [OF screens_run.start [of dark] tablet, where i = 1] staff, where i = 2]
    by (intro screens_run.kds_filed screens_run.kiosk_filed) (simp_all add: dark_def)
  then show ?thesis
    by (simp add: lit_def dark_def kds_handleConnection_def kiosk_handleConnection_def filed_def map_filter_def kds_rooms_def kiosk_rooms_def)
qed

section \<open>Properties\<close>

text \<open>
  C30. A tablet is told about its own orders only. Whatever sockets an instance has come to hold and
  whatever transaction of the system the events come from, each push of the batch to a kiosk socket
  carries a ticket read back after the commit, of an order placed on the very device the socket
  authenticated as; the staff feed goes to sockets with a staff session only; and what the public
  board is sent is a list of numbers and states of orders that are being made or are ready.
\<close>

theorem tablets_hear_only_their_orders:
  assumes "screens_run w0 w" "kds_sockets w0 = []" "kiosk_sockets w0 = []"
    and "emitting d d' evs" "ledger d"
    and "\<And>k d1. reads k = Some d1 \<Longrightarrow> ledger d1 \<and> grows d' d1"
  shows "(\<exists>new. kiosk_pushes (snd (publish_events reads evs w)) = kiosk_pushes w @ new \<and> (\<forall>p \<in> set new. own_order reads p)) \<and>
    (\<exists>new. kds_pushes (snd (publish_events reads evs w)) = kds_pushes w @ new \<and> (\<forall>p \<in> set new. staff_ticket reads p)) \<and>
    (\<exists>new. board_pushes (snd (publish_events reads evs w)) = board_pushes w @ new \<and> (\<forall>p \<in> set new. board_only reads p))"
proof (intro conjI)
  have ok: "screens_ok w" using run_ok [OF assms(1)] empty_ok [OF assms(2,3)] by blast
  have addressed: "rightly_addressed d1 ev" if "ev \<in> set evs" "reads k = Some d1" for ev k d1
    using emitting_addressed [OF assms(4) ledger_ids [OF assms(5)]] that assms(6) [OF that(2)] grown_addressed by blast
  show "\<exists>new. kiosk_pushes (snd (publish_events reads evs w)) = kiosk_pushes w @ new \<and> (\<forall>p \<in> set new. own_order reads p)"
    unfolding publish_events_pushes
    by (rule publish_each_adds [OF publish_one_own ok]) (use addressed assms(6) ledger_ids in blast)+
  show "\<exists>new. kds_pushes (snd (publish_events reads evs w)) = kds_pushes w @ new \<and> (\<forall>p \<in> set new. staff_ticket reads p)"
    unfolding publish_events_pushes by (rule publish_each_adds [OF publish_one_staff ok])
  show "\<exists>new. board_pushes (snd (publish_events reads evs w)) = board_pushes w @ new \<and> (\<forall>p \<in> set new. board_only reads p)"
    by (rule publish_events_board)
qed

definition card_taken :: "json tables" where
  "card_taken = (case mark_paid_work morning ''e1'' ''p1'' ''o1'' (Some CARD) (tables awaiting_card) of
     Inr (_, d', _) \<Rightarrow> d' | Inl _ \<Rightarrow> tables awaiting_card)"

lemma card_taken_work:
  "mark_paid_work morning ''e1'' ''p1'' ''o1'' (Some CARD) (tables awaiting_card) =
     Inr ((), card_taken, [order_paid ''o1'' (Some ''k1''), payment_succeeded ''o1'' (Some ''k1'') ''p1''])"
  and card_taken_orders: "orders card_taken = [latte_order PAID None]"
  by (simp_all add: card_taken_def mark_paid_work_def awaiting_card_tables ordered_tables transitionOrder_def sql_update_def
      moved_order_def latte_order_def append_history_def case_prod_unfold Let_def)

theorem tablets_hear_only_their_orders_witness:
  "\<exists>p. kiosk_pushes (snd (publish_events (\<lambda>_. Some card_taken)
      [order_paid ''o1'' (Some ''k1''), payment_succeeded ''o1'' (Some ''k1'') ''p1''] lit)) = [p] \<and> own_order (\<lambda>_. Some card_taken) p"
proof -
  have awaiting: "ledger (tables awaiting_card)"
    using evolves_reaches [OF awaiting_card_evolves] blank_ledger [OF shop_blank] lg.reaches_ok by blast
  moreover have "card_payment PAY_PENDING None \<in> set (payments (tables awaiting_card))" by (simp add: awaiting_card_tables)
  ultimately have "ledger card_taken"
    using mark_paid_reaches [of morning "''e1''" "card_payment PAY_PENDING None" "''o1''" "Some CARD" "tables awaiting_card" "()" card_taken]
      card_taken_work lg.reaches_ok [of "tables awaiting_card" card_taken]
    by (simp add: card_payment_def)
  then have "\<exists>new. kiosk_pushes (snd (publish_events (\<lambda>_. Some card_taken)
      [order_paid ''o1'' (Some ''k1''), payment_succeeded ''o1'' (Some ''k1'') ''p1''] lit)) = kiosk_pushes lit @ new \<and>
      (\<forall>p \<in> set new. own_order (\<lambda>_. Some card_taken) p)"
    by (intro conjunct1 [OF tablets_hear_only_their_orders [OF lit_run _ _ emitting.captured [OF card_taken_work] awaiting]]) (auto simp: dark_def)
  moreover have "length (kiosk_pushes (snd (publish_events (\<lambda>_. Some card_taken)
      [order_paid ''o1'' (Some ''k1''), payment_succeeded ''o1'' (Some ''k1'') ''p1''] lit))) = 1" "kiosk_pushes lit = []"
    by (simp_all add: publish_events_pushes forKds_def forKiosk_def KDS_EVENTS_def KIOSK_EVENTS_def publish_one_kiosk ticketFor_def
        row_by_def sql_find_def card_taken_orders latte_order_def lit_def dark_def)
  ultimately show ?thesis by (auto simp: length_Suc_conv)
qed

subsection \<open>The kill channel\<close>

fun carry_out :: "(nat \<Rightarrow> nat) \<Rightarrow> int \<Rightarrow> int \<Rightarrow> revocation \<Rightarrow> id_world \<Rightarrow> bool \<times> id_world" where
  "carry_out link ttl now (RevokeUser userId) = revokeUser link ttl now userId"
| "carry_out link ttl now (RevokeToken jti) = revokeToken link ttl now jti"
| "carry_out link ttl now (RevokeDevice deviceId) = revokeDevice link deviceId"

lemma retried_last:
  "withRetry n (\<lambda>i s. if link i = 0 then (False, s) else (True, publish_revocation v s)) i s = (True, s') \<Longrightarrow>
    last (channel s') = revocation_message v"
  by (induction n arbitrary: i s) (auto simp: publish_revocation_def split: if_splits prod.splits bool.splits)

lemma carried_out_last: "carry_out link ttl now v s = (True, s') \<Longrightarrow> last (channel s') = revocation_message v"
  using announce_True retried_last by (cases v) (fastforce simp: revokeUser_def revokeToken_def revokeDevice_def)+

lemma carried_out_denies:
  assumes "carry_out link ttl now v s = (True, s')" "at < now + ttl * 1000"
    and "kds_authenticate c reachable at hs (keyspace s') = Some who"
  shows "\<not> names v who"
proof (cases v)
  case (RevokeUser i)
  with announce_True assms(1) have "keyspace s' (userKey i) = Some \<lparr>re_count = 1, re_expireAt = Some (now + ttl * 1000)\<rparr>"
    by (fastforce simp: revokeUser_def)
  from denied_handshake(1) [OF this assms(2,3)] RevokeUser show ?thesis by (cases who) auto
next
  case (RevokeToken i)
  with announce_True assms(1) have "keyspace s' (tokenKey i) = Some \<lparr>re_count = 1, re_expireAt = Some (now + ttl * 1000)\<rparr>"
    by (fastforce simp: revokeToken_def)
  from denied_handshake(2) [OF this assms(2,3)] RevokeToken show ?thesis by (cases who) auto
next
  case (RevokeDevice i)
  then show ?thesis using kds_authenticate_Some [OF assms(3)] by (cases who) auto
qed

text \<open>
  C31. A revocation that Redis took ends the sessions it names. The message it leaves on the channel
  cuts, on an instance in any reachable state, the sockets filed under that user, that token or that
  tablet and no others; and a staff handshake checked against the denylist it leaves, while the entry
  lives, is never that of the revoked user or token.
\<close>

theorem revocation_cuts_sessions:
  assumes "screens_run w0 w" "kds_sockets w0 = []" "kiosk_sockets w0 = []"
    and "snd (revocation_field v) \<noteq> []" "carry_out link ttl now v s = (True, s')"
  shows "kds_sockets (on_message (last (channel s')) w) = filter (\<lambda>sk. \<not> cut_by v sk) (kds_sockets w) \<and>
    kiosk_sockets (on_message (last (channel s')) w) = filter (\<lambda>sk. \<not> cut_by v sk) (kiosk_sockets w) \<and>
    (\<forall>at c reachable hs who. at < now + ttl * 1000 \<longrightarrow> kds_authenticate c reachable at hs (keyspace s') = Some who \<longrightarrow> \<not> names v who)"
proof -
  have ok: "screens_ok w" using run_ok [OF assms(1)] empty_ok [OF assms(2,3)] by blast
  have "parseRevocation (last (channel s')) = Some v"
    unfolding carried_out_last [OF assms(5)] by (rule parse_revocation_message [OF assms(4)])
  from on_message_cut [OF ok this] carried_out_denies [OF assms(5)] show ?thesis by blast
qed

theorem revocation_cuts_sessions_witness:
  "kds_sockets (on_message (last (channel (snd (revokeUser (\<lambda>_. 2) 900 0 ''u1'' back_office)))) lit) = [] \<and>
   kiosk_sockets (on_message (last (channel (snd (revokeUser (\<lambda>_. 2) 900 0 ''u1'' back_office)))) lit) = kiosk_sockets lit"
proof -
  have "fst (revokeUser (\<lambda>_. 2) 900 0 ''u1'' back_office)" by code_simp
  then have run: "carry_out (\<lambda>_. 2) 900 0 (RevokeUser ''u1'') back_office = (True, snd (revokeUser (\<lambda>_. 2) 900 0 ''u1'' back_office))"
    by (metis carry_out.simps(1) prod.collapse)
  show ?thesis
    using revocation_cuts_sessions [OF lit_run _ _ _ run] by (simp add: dark_def lit_def cut_by_def)
qed

text \<open>
  Only a filed socket is found by its room. One that passed the denylist before the revocation and is
  filed after the message has gone by is not cut, and nothing looks at its token again.
\<close>

lemma late_filing_survives:
  assumes "screens_ok w" "i \<noteq> []" "\<lparr>sk_id = n, sk_principal = Some (StaffSession i role j), sk_rooms = []\<rparr> \<in> set (kds_sockets w)"
  shows "\<lparr>sk_id = n, sk_principal = Some (StaffSession i role j), sk_rooms = [userRoom i, tokenRoom j]\<rparr> \<in>
    set (kds_sockets (kds_handleConnection n (on_message (revocation_message (RevokeUser i)) w)))"
proof -
  let ?sk = "\<lparr>sk_id = n, sk_principal = Some (StaffSession i role j), sk_rooms = []\<rparr> :: socket"
  have "parseRevocation (revocation_message (RevokeUser i)) = Some (RevokeUser i)"
    using assms(2) by (intro parse_revocation_message) simp
  with on_message_cut(1) [OF assms(1)] assms(3) have "?sk \<in> set (kds_sockets (on_message (revocation_message (RevokeUser i)) w))"
    by (simp add: cut_by_def)
  then show ?thesis
    by (force simp: kds_handleConnection_def filed_def map_filter_def kds_rooms_def image_iff)
qed

end
