(* ===== verification/Health.thy ===== *)
theory Health
  imports OrderPricing RequestHash
begin

text \<open>
  What the operator is told: the description of a thrown value (\<open>common/errors/describe-error.ts\<close>),
  the two probes (\<open>health/health.service.ts\<close>, \<open>health.controller.ts\<close>, \<open>shutdown-drain.ts\<close>) and the
  throttled log lines of an outage (\<open>common/logging/log-throttle.ts\<close>, \<open>redis/redis.diagnostics.ts\<close>).

  A thrown value may be an object that points to others through \<open>cause\<close> and \<open>errors\<close>, also back to
  itself: the objects are a list, a value refers to one by its index.
\<close>

section \<open>Definitions\<close>

subsection \<open>\<open>describe-error.ts\<close>\<close>

datatype js_value = Nullish | Primitive | Function string | Object nat

record js_object =
  js_cause :: js_value
  js_errors :: "js_value list option"
  js_message :: "string option"
  js_name :: "string option"

type_synonym heap = "js_object list"

text \<open>The object a value refers to when \<open>detailOf\<close> looks into it: one that has not been seen.\<close>

fun unseen :: "heap \<Rightarrow> nat list \<Rightarrow> js_value \<Rightarrow> nat option" where
  "unseen h seen (Object i) = (if i < length h \<and> \<not> List.member seen i then Some i else None)"
| "unseen h seen _ = None"

text \<open>
  The recursion follows the objects, which may be cyclic; \<open>fuel\<close> bounds how many it enters one inside
  the other, and \<open>None\<close> is running out of it. The result carries the set of objects seen.
\<close>

fun detailOf :: "nat \<Rightarrow> heap \<Rightarrow> js_value \<Rightarrow> nat list \<Rightarrow> (string \<times> nat list) option"
  and details :: "nat \<Rightarrow> heap \<Rightarrow> js_value list \<Rightarrow> nat list \<Rightarrow> (string list \<times> nat list) option" where
  "detailOf fuel h v seen =
     (case unseen h seen v of
        None \<Rightarrow> Some ([], seen)
      | Some i \<Rightarrow>
          (case fuel of
             0 \<Rightarrow> None
           | Suc n \<Rightarrow>
               let err = h ! i; message = (case js_message err of Some m \<Rightarrow> m | None \<Rightarrow> [])
               in (case detailOf n h (js_cause err) (i # seen) of
                     None \<Rightarrow> None
                   | Some (fromCause, seen1) \<Rightarrow>
                       if fromCause \<noteq> [] then Some (fromCause, seen1)
                       else (case js_errors err of
                               None \<Rightarrow> Some (message, seen1)
                             | Some es \<Rightarrow>
                                 (case details n h es seen1 of
                                    None \<Rightarrow> None
                                  | Some (texts, seen2) \<Rightarrow>
                                      let nested = js_set (filter (\<lambda>t. t \<noteq> []) texts)
                                      in Some (if nested \<noteq> [] then join ''; '' nested else message, seen2))))))"
| "details fuel h [] seen = Some ([], seen)"
| "details fuel h (e # es) seen =
     (case detailOf fuel h e seen of
        None \<Rightarrow> None
      | Some (t, seen1) \<Rightarrow>
          (case details fuel h es seen1 of None \<Rightarrow> None | Some (ts, seen2) \<Rightarrow> Some (t # ts, seen2)))"

fun name_of :: "heap \<Rightarrow> js_value \<Rightarrow> string option" where
  "name_of h (Object i) = (if i < length h then js_name (h ! i) else None)"
| "name_of h (Function n) = Some n"
| "name_of h _ = None"

definition fallbackName :: "heap \<Rightarrow> js_value \<Rightarrow> string" where
  "fallbackName h v = (case name_of h v of Some (c # cs) \<Rightarrow> c # cs | _ \<Rightarrow> ''unknown error'')"

text \<open>No more objects can be entered than there are: the fuel is their number.\<close>

definition describeError :: "heap \<Rightarrow> js_value \<Rightarrow> string option" where
  "describeError h v =
     map_option (\<lambda>(t, _). if t \<noteq> [] then t else fallbackName h v) (detailOf (length h) h v [])"

subsection \<open>The probes\<close>

text \<open>What becomes of a probe: it answers, it is rejected, or it has not settled when the timer fires.\<close>

datatype 'a settled = Answered 'a | Rejected js_value | TimedOut

datatype dependency_check = Up | Down string

record readiness_result =
  rr_ok :: bool
  rr_db :: dependency_check
  rr_redis :: dependency_check

definition CHECK_TIMEOUT_MS :: nat where "CHECK_TIMEOUT_MS = 2000"

definition timeout_error :: "string \<Rightarrow> js_object" where
  "timeout_error label =
     \<lparr>js_cause = Nullish, js_errors = None,
      js_message = Some (label @ '' check timed out after '' @ string_of_nat CHECK_TIMEOUT_MS @ ''ms''), js_name = Some ''Error''\<rparr>"

definition withTimeout :: "'a settled \<Rightarrow> string \<Rightarrow> heap \<Rightarrow> (js_value + 'a) \<times> heap" where
  "withTimeout p label h =
     (case p of Answered a \<Rightarrow> (Inr a, h) | Rejected v \<Rightarrow> (Inl v, h) | TimedOut \<Rightarrow> (Inl (Object (length h)), h @ [timeout_error label]))"

definition checkDb :: "heap \<Rightarrow> unit settled \<Rightarrow> dependency_check" where
  "checkDb h p =
     (case withTimeout p ''db'' h of (Inr _, _) \<Rightarrow> Up | (Inl err, h') \<Rightarrow> Down (the (describeError h' err)))"

definition checkRedis :: "heap \<Rightarrow> string settled \<Rightarrow> dependency_check" where
  "checkRedis h p =
     (case withTimeout p ''redis'' h of
        (Inr pong, _) \<Rightarrow> if pong = ''PONG'' then Up else Down ''unexpected ping reply''
      | (Inl err, h') \<Rightarrow> Down (the (describeError h' err)))"

definition checkReadiness :: "heap \<Rightarrow> unit settled \<Rightarrow> string settled \<Rightarrow> readiness_result" where
  "checkReadiness h p q =
     (let db = checkDb h p; redis = checkRedis h q in \<lparr>rr_ok = (db = Up \<and> redis = Up), rr_db = db, rr_redis = redis\<rparr>)"

record readiness_answer =
  ra_http :: nat
  ra_status :: string
  ra_checks :: "readiness_result option"

definition liveness :: string where "liveness = ''ok''"

definition readiness :: "bool \<Rightarrow> heap \<Rightarrow> unit settled \<Rightarrow> string settled \<Rightarrow> readiness_answer" where
  "readiness draining h p q =
     (if draining then \<lparr>ra_http = 503, ra_status = ''draining'', ra_checks = None\<rparr>
      else let result = checkReadiness h p q
           in \<lparr>ra_http = (if rr_ok result then 200 else 503), ra_status = (if rr_ok result then ''ok'' else ''unavailable''),
               ra_checks = Some result\<rparr>)"

text \<open>Draining: the flag goes up, and the hook returns after that many milliseconds.\<close>

definition beforeApplicationShutdown :: "nat \<Rightarrow> bool \<Rightarrow> bool \<times> nat" where
  "beforeApplicationShutdown drainSeconds draining = (True, drainSeconds * 1000)"

subsection \<open>Log lines that are counted instead of written\<close>

record log_throttle =
  lt_lastLoggedAt :: "int option"
  lt_suppressed :: nat

definition new_throttle :: log_throttle where
  "new_throttle = \<lparr>lt_lastLoggedAt = None, lt_suppressed = 0\<rparr>"

definition claim :: "int \<Rightarrow> int \<Rightarrow> log_throttle \<Rightarrow> string option \<times> log_throttle" where
  "claim intervalMs now t =
     (if (case lt_lastLoggedAt t of None \<Rightarrow> False | Some at \<Rightarrow> now - at < intervalMs)
      then (None, t\<lparr>lt_suppressed := lt_suppressed t + 1\<rparr>)
      else (Some (if lt_suppressed t > 0 then '' (suppressed since the last log: '' @ string_of_nat (lt_suppressed t) @ '')'' else []),
            t\<lparr>lt_lastLoggedAt := Some now, lt_suppressed := 0\<rparr>))"

text \<open>The lines \<open>attachRedisDiagnostics\<close> writes, by what they report.\<close>

datatype outage_line = Opened string | StillDown string nat | Recovered int nat

record diagnostics =
  dg_outageStartedAt :: "int option"
  dg_lastLoggedAt :: int
  dg_errorsInOutage :: nat
  dg_suppressedSinceLastLog :: nat
  dg_lines :: "(int \<times> outage_line) list"

definition REDIS_ERROR_LOG_INTERVAL_MS :: int where "REDIS_ERROR_LOG_INTERVAL_MS = 30000"

definition no_outage :: diagnostics where
  "no_outage = \<lparr>dg_outageStartedAt = None, dg_lastLoggedAt = 0, dg_errorsInOutage = 0, dg_suppressedSinceLastLog = 0, dg_lines = []\<rparr>"

definition on_error :: "int \<Rightarrow> string \<Rightarrow> diagnostics \<Rightarrow> diagnostics" where
  "on_error now described g =
     (let g1 = g\<lparr>dg_errorsInOutage := dg_errorsInOutage g + 1\<rparr>
      in if dg_outageStartedAt g1 = None
         then g1\<lparr>dg_outageStartedAt := Some now, dg_lastLoggedAt := now, dg_lines := dg_lines g1 @ [(now, Opened described)]\<rparr>
         else if now - dg_lastLoggedAt g1 < REDIS_ERROR_LOG_INTERVAL_MS
         then g1\<lparr>dg_suppressedSinceLastLog := dg_suppressedSinceLastLog g1 + 1\<rparr>
         else g1\<lparr>dg_lines := dg_lines g1 @ [(now, StillDown described (dg_suppressedSinceLastLog g1))],
                 dg_lastLoggedAt := now, dg_suppressedSinceLastLog := 0\<rparr>)"

text \<open>\<open>Math.round\<close> of a number of seconds.\<close>

definition on_ready :: "int \<Rightarrow> diagnostics \<Rightarrow> diagnostics" where
  "on_ready now g =
     (case dg_outageStartedAt g of
        None \<Rightarrow> g
      | Some started \<Rightarrow>
          g\<lparr>dg_lines := dg_lines g @ [(now, Recovered ((now - started + 500) div 1000) (dg_errorsInOutage g))],
            dg_outageStartedAt := None, dg_errorsInOutage := 0, dg_suppressedSinceLastLog := 0\<rparr>)"

section \<open>Lemmas\<close>

abbreviation left :: "heap \<Rightarrow> nat list \<Rightarrow> nat" where
  "left h seen \<equiv> card ({..<length h} - set seen)"

lemma unseen_Some: "unseen h seen v = Some i \<longleftrightarrow> v = Object i \<and> i < length h \<and> i \<notin> set seen"
  by (cases v) auto

lemma left_entered: "i < length h \<Longrightarrow> i \<notin> set seen \<Longrightarrow> Suc (left h (i # seen)) = left h seen"
proof -
  assume "i < length h" "i \<notin> set seen"
  then have "{..<length h} - set seen = insert i ({..<length h} - set (i # seen))" by auto
  then show ?thesis by (metis Diff_iff card_insert_disjoint finite_Diff finite_lessThan list.set_intros(1))
qed

lemma left_mono: "set seen \<subseteq> set seen' \<Longrightarrow> left h seen' \<le> left h seen"
  by (intro card_mono) auto

text \<open>With fuel for the objects not seen yet, the search returns, and it forgets none it has seen.\<close>

lemma detailOf_returns:
  "left h seen \<le> fuel \<Longrightarrow> \<exists>t seen'. detailOf fuel h v seen = Some (t, seen') \<and> set seen \<subseteq> set seen'"
  "left h seen \<le> fuel \<Longrightarrow> \<exists>ts seen'. details fuel h vs seen = Some (ts, seen') \<and> set seen \<subseteq> set seen'"
proof (induction fuel arbitrary: v vs seen)
  case 0
  {
    case 1
    then show ?case using left_entered [of _ h seen] by (auto simp: unseen_Some split: option.splits)
  next
    case 2
    then have "unseen h seen v = None" for v using left_entered [of _ h seen] unseen_Some [of h seen v] by (cases "unseen h seen v") auto
    then show ?case by (induction vs) auto
  }
next
  case (Suc n)
  have one: "\<exists>t seen'. detailOf (Suc n) h v seen = Some (t, seen') \<and> set seen \<subseteq> set seen'" if fuel: "left h seen \<le> Suc n" for v seen
  proof (cases "unseen h seen v")
    case (Some i)
    then have "left h (i # seen) \<le> n" using fuel left_entered [of i h seen] by (simp add: unseen_Some)
    then obtain t seen1 where cause: "detailOf n h (js_cause (h ! i)) (i # seen) = Some (t, seen1)" "set (i # seen) \<subseteq> set seen1"
      and "left h (i # seen) \<le> n" using Suc.IH(1) by blast
    then have "left h seen1 \<le> n" using left_mono le_trans by blast
    from Suc.IH(2) [OF this] obtain ts seen2 where "details n h (case js_errors (h ! i) of Some es \<Rightarrow> es | None \<Rightarrow> []) seen1 = Some (ts, seen2)"
      "set seen1 \<subseteq> set seen2" by blast
    with cause Some show ?thesis by (auto simp: Let_def split: option.splits)
  qed simp
  {
    case 1
    then show ?case by (rule one)
  next
    case 2
    then show ?case
    proof (induction vs arbitrary: seen)
      case (Cons v vs)
      obtain t seen1 where v: "detailOf (Suc n) h v seen = Some (t, seen1)" "set seen \<subseteq> set seen1" using one [OF Cons.prems] by blast
      then have "left h seen1 \<le> Suc n" using left_mono Cons.prems le_trans by blast
      from Cons.IH [OF this] v show ?case by (auto simp del: detailOf.simps)
    qed simp
  }
qed

lemma describeError_named: "\<exists>t. describeError h v = Some t \<and> t \<noteq> []"
proof -
  obtain t seen where "detailOf (length h) h v [] = Some (t, seen)" using detailOf_returns(1) [of h "[]" "length h" v] by auto
  moreover have "fallbackName h v \<noteq> []" by (simp add: fallbackName_def split: option.splits list.splits)
  ultimately show ?thesis by (simp add: describeError_def)
qed

text \<open>An error that only has a message is described by it.\<close>

lemma describeError_plain:
  assumes "i < length h" "js_cause (h ! i) = Nullish" "js_errors (h ! i) = None" "js_message (h ! i) = Some m" "m \<noteq> []"
  shows "describeError h (Object i) = Some m"
  using assms by (cases "length h") (auto simp: describeError_def Let_def)

text \<open>A cause that says something is quoted instead of its wrapper.\<close>

lemma describeError_cause:
  assumes "i < length h" "js_cause (h ! i) = Object j" "j < length h" "i \<noteq> j" "js_cause (h ! j) = Nullish"
    and "js_errors (h ! j) = None" "js_message (h ! j) = Some m" "m \<noteq> []"
  shows "describeError h (Object i) = Some m"
proof -
  obtain n where "length h = Suc (Suc n)"
    using assms(1,3,4) by (metis Suc_less_eq less_antisym less_nat_zero_code linorder_neqE_nat old.nat.exhaust)
  then show ?thesis using assms by (simp add: describeError_def Let_def)
qed

lemma the_described [simp]: "the (describeError h v) \<noteq> []"
  using describeError_named [of h v] by auto

lemma checkDb_cases:
  "checkDb h p = Up \<longleftrightarrow> (\<exists>u. p = Answered u)" "checkDb h p = Up \<or> (\<exists>t. checkDb h p = Down t \<and> t \<noteq> [])"
  by (auto simp: checkDb_def withTimeout_def split: settled.splits)

lemma checkRedis_cases:
  "checkRedis h q = Up \<longleftrightarrow> q = Answered ''PONG''" "checkRedis h q = Up \<or> (\<exists>t. checkRedis h q = Down t \<and> t \<noteq> [])"
  by (auto simp: checkRedis_def withTimeout_def split: settled.splits)

lemma timed_out_named: "checkDb h TimedOut = Down ''db check timed out after 2000ms''"
proof -
  have "string_of_nat 2000 = ''2000''" by code_simp
  then show ?thesis using describeError_plain [of "length h" "h @ [timeout_error ''db'']" "''db check timed out after 2000ms''"]
    by (simp add: checkDb_def withTimeout_def timeout_error_def CHECK_TIMEOUT_MS_def)
qed

subsection \<open>Every error of an outage is accounted for\<close>

datatype redis_event = ErrorAt int string | ReadyAt int

fun diagnose :: "redis_event \<Rightarrow> diagnostics \<Rightarrow> diagnostics" where
  "diagnose (ErrorAt now described) = on_error now described"
| "diagnose (ReadyAt now) = on_ready now"

text \<open>How many errors of the outage that is open the lines tell of.\<close>

fun told :: "nat \<Rightarrow> int \<times> outage_line \<Rightarrow> nat" where
  "told n (_, Opened _) = 1"
| "told n (_, StillDown _ k) = n + k + 1"
| "told n (_, Recovered _ _) = 0"

definition accounts :: "diagnostics \<Rightarrow> bool" where
  "accounts g \<longleftrightarrow> dg_errorsInOutage g = foldl told 0 (dg_lines g) + dg_suppressedSinceLastLog g \<and>
     (dg_outageStartedAt g = None \<longleftrightarrow> dg_errorsInOutage g = 0)"

lemma diagnose_accounts: "accounts g \<Longrightarrow> accounts (diagnose e g)"
  by (cases e) (auto simp: accounts_def on_error_def on_ready_def Let_def split: option.splits)

lemma outage_is_accounted: "accounts (fold diagnose es no_outage)"
proof -
  have "accounts g \<Longrightarrow> accounts (fold diagnose es g)" for g by (induction es arbitrary: g) (simp_all add: diagnose_accounts)
  then show ?thesis by (simp add: accounts_def no_outage_def)
qed

text \<open>The line that closes an outage counts the errors since it opened, written or not.\<close>

fun errors_since :: "nat \<Rightarrow> redis_event list \<Rightarrow> nat" where
  "errors_since n [] = n"
| "errors_since n (ErrorAt _ _ # es) = errors_since (Suc n) es"
| "errors_since n (ReadyAt _ # es) = errors_since 0 es"

lemma counted: "accounts g \<Longrightarrow> dg_errorsInOutage (fold diagnose es g) = errors_since (dg_errorsInOutage g) es"
proof (induction es arbitrary: g)
  case (Cons e es)
  have "dg_errorsInOutage (diagnose e g) = (case e of ErrorAt _ _ \<Rightarrow> Suc (dg_errorsInOutage g) | ReadyAt _ \<Rightarrow> 0)"
    using Cons.prems by (cases e) (auto simp: accounts_def on_error_def on_ready_def Let_def split: option.splits)
  with Cons.IH [OF diagnose_accounts [OF Cons.prems, of e]] show ?case by (cases e) simp_all
qed simp

lemma claim_counts:
  assumes "claim intervalMs now t = (r, t')"
  shows "r = None \<Longrightarrow> lt_suppressed t' = Suc (lt_suppressed t) \<and> lt_lastLoggedAt t' = lt_lastLoggedAt t"
    and "r = Some suffix \<Longrightarrow> lt_suppressed t' = 0 \<and> lt_lastLoggedAt t' = Some now \<and>
      (\<forall>at. lt_lastLoggedAt t = Some at \<longrightarrow> intervalMs \<le> now - at)"
  using assms by (auto simp: claim_def split: if_splits option.splits)

section \<open>Properties\<close>

text \<open>
  C38. The readiness probe answers 200 exactly when the process is not stopping, the database answered and
  Redis said PONG, and 503 otherwise; a stopping process answers 503 whatever the dependencies say. The
  check of a dependency that is down says why: the search for a description ends on every thrown value,
  however its causes and nested errors point to each other, and never comes back empty.
\<close>

theorem readiness_says_why:
  "ra_http (readiness draining h p q) = (if \<not> draining \<and> (\<exists>u. p = Answered u) \<and> q = Answered ''PONG'' then 200 else 503) \<and>
   ra_http (readiness (fst (beforeApplicationShutdown drainSeconds draining)) h p q) = 503 \<and>
   (checkDb h p = Up \<or> (\<exists>t. checkDb h p = Down t \<and> t \<noteq> [])) \<and>
   (checkRedis h q = Up \<or> (\<exists>t. checkRedis h q = Down t \<and> t \<noteq> [])) \<and>
   (\<exists>t. describeError h v = Some t \<and> t \<noteq> [])"
proof (intro conjI)
  show "ra_http (readiness draining h p q) = (if \<not> draining \<and> (\<exists>u. p = Answered u) \<and> q = Answered ''PONG'' then 200 else 503)"
    "ra_http (readiness (fst (beforeApplicationShutdown drainSeconds draining)) h p q) = 503"
    by (simp_all add: readiness_def checkReadiness_def beforeApplicationShutdown_def checkDb_cases(1) checkRedis_cases(1) Let_def)
qed (rule checkDb_cases checkRedis_cases describeError_named)+

text \<open>An error that is its own cause, and one wrapped by the driver with an empty message.\<close>

lemma cyclic_error_described:
  "describeError [\<lparr>js_cause = Object 0, js_errors = None, js_message = Some ''loop'', js_name = Some ''Error''\<rparr>] (Object 0) = Some ''loop''"
  "describeError [\<lparr>js_cause = Object 1, js_errors = None, js_message = Some ''Failed query: select 1'', js_name = Some ''Error''\<rparr>,
     \<lparr>js_cause = Nullish, js_errors = Some [Object 2, Object 3], js_message = Some [], js_name = Some ''AggregateError''\<rparr>,
     \<lparr>js_cause = Nullish, js_errors = None, js_message = Some ''refused'', js_name = Some ''Error''\<rparr>,
     \<lparr>js_cause = Nullish, js_errors = None, js_message = Some ''refused'', js_name = Some ''Error''\<rparr>] (Object 0) = Some ''refused''"
  by code_simp+

end
