(* ===== verification/Requests.thy ===== *)
theory Requests
  imports Catalog Query Payments Identity "HOL-Library.Monad_Syntax"
begin

text \<open>
  The request bodies: the schemas of \<open>orders/orders.dto.ts\<close>, \<open>payments/create/create-payment.dto.ts\<close>,
  \<open>payments/refunds/create-refund.dto.ts\<close>, \<open>catalog/*/*.dto.ts\<close> and \<open>identity/*/*.dto.ts\<close>. A schema takes
  the JSON value of the body and gives the input of the service, or \<open>None\<close> for a request that is
  answered with 422.

  What the schema library decides is an argument: which texts are a UUID, an email address or a
  URL, which JSON number is a safe integer and which, and the length of a text in its code units.
  The other combinators are those its documentation describes.
\<close>

section \<open>Definitions\<close>

subsection \<open>The combinators the schemas are written with\<close>

record schema_library =
  lib_int :: "string \<Rightarrow> int option"
  lib_uuid :: "string \<Rightarrow> bool"
  lib_email :: "string \<Rightarrow> bool"
  lib_url :: "string \<Rightarrow> bool"
  lib_length :: "string \<Rightarrow> nat"

definition z_refine :: "('a \<Rightarrow> bool) \<Rightarrow> 'a \<Rightarrow> 'a option" where
  "z_refine ok x = (if ok x then Some x else None)"

fun z_string :: "parsed \<Rightarrow> string option" where
  "z_string (PStr s) = Some s"
| "z_string _ = None"

fun z_boolean :: "parsed \<Rightarrow> bool option" where
  "z_boolean (PBool b) = Some b"
| "z_boolean _ = None"

fun z_int :: "schema_library \<Rightarrow> (int \<Rightarrow> bool) \<Rightarrow> parsed \<Rightarrow> int option" where
  "z_int lib ok (PNum t) = Option.bind (lib_int lib t) (z_refine ok)"
| "z_int lib ok _ = None"

definition z_length :: "schema_library \<Rightarrow> nat \<Rightarrow> nat \<Rightarrow> string \<Rightarrow> string option" where
  "z_length lib lo hi = z_refine (\<lambda>s. lo \<le> lib_length lib s \<and> lib_length lib s \<le> hi)"

definition z_trimmed :: "schema_library \<Rightarrow> nat \<Rightarrow> nat \<Rightarrow> parsed \<Rightarrow> string option" where
  "z_trimmed lib lo hi v = Option.bind (z_string v) (\<lambda>s. z_length lib lo hi (js_trim s))"

definition z_uuid :: "schema_library \<Rightarrow> parsed \<Rightarrow> string option" where
  "z_uuid lib v = Option.bind (z_string v) (z_refine (lib_uuid lib))"

definition z_enum :: "(string \<Rightarrow> 'a option) \<Rightarrow> parsed \<Rightarrow> 'a option" where
  "z_enum named v = Option.bind (z_string v) named"

fun z_all :: "(parsed \<Rightarrow> 'a option) \<Rightarrow> parsed list \<Rightarrow> 'a list option" where
  "z_all f [] = Some []"
| "z_all f (v # vs) = do { x \<leftarrow> f v; xs \<leftarrow> z_all f vs; Some (x # xs) }"

fun z_array :: "(parsed \<Rightarrow> 'a option) \<Rightarrow> nat \<Rightarrow> nat \<Rightarrow> parsed \<Rightarrow> 'a list option" where
  "z_array f lo hi (PArr vs) = Option.bind (z_all f vs) (z_refine (\<lambda>xs. lo \<le> length xs \<and> length xs \<le> hi))"
| "z_array f lo hi _ = None"

fun z_nullable :: "(parsed \<Rightarrow> 'a option) \<Rightarrow> parsed \<Rightarrow> 'a option option" where
  "z_nullable f PNull = Some None"
| "z_nullable f v = map_option Some (f v)"

definition z_required :: "(parsed \<Rightarrow> 'a option) \<Rightarrow> parsed option \<Rightarrow> 'a option" where
  "z_required f v = Option.bind v f"

fun z_optional :: "(parsed \<Rightarrow> 'a option) \<Rightarrow> parsed option \<Rightarrow> 'a option option" where
  "z_optional f None = Some None"
| "z_optional f (Some v) = map_option Some (f v)"

text \<open>\<open>JSON.parse\<close> keeps the last of two members with one name; a strict object refuses any other name.\<close>

fun z_strictObject :: "string list \<Rightarrow> parsed \<Rightarrow> (string \<Rightarrow> parsed option) option" where
  "z_strictObject names (PObj es) = (if list_all (\<lambda>(k, _). List.member names k) es then Some (map_of (rev es)) else None)"
| "z_strictObject names _ = None"

text \<open>A partial object has to carry at least one of its fields.\<close>

definition z_patch :: "string list \<Rightarrow> parsed \<Rightarrow> (string \<Rightarrow> parsed option) option" where
  "z_patch names v = Option.bind (z_strictObject names v) (z_refine (\<lambda>m. list_ex (\<lambda>k. m k \<noteq> None) names))"

definition idParam :: "schema_library \<Rightarrow> parsed \<Rightarrow> string option" where
  "idParam lib v = do { m \<leftarrow> z_strictObject [''id''] v; z_required (z_uuid lib) (m ''id'') }"

subsection \<open>\<open>orders.dto.ts\<close>\<close>

definition MAX_ITEMS_PER_ORDER :: nat where "MAX_ITEMS_PER_ORDER = 30"
definition MAX_QUANTITY_PER_ITEM :: int where "MAX_QUANTITY_PER_ITEM = 50"
definition MAX_OPTIONS_PER_ITEM :: nat where "MAX_OPTIONS_PER_ITEM = 15"
definition MAX_NOTES_LENGTH :: nat where "MAX_NOTES_LENGTH = 140"
definition MAX_CUSTOMER_NAME_LENGTH :: nat where "MAX_CUSTOMER_NAME_LENGTH = 40"
definition MAX_EXPECTED_TOTAL_MINOR :: int where "MAX_EXPECTED_TOTAL_MINOR = 10000000"

definition OrderItemSchema :: "schema_library \<Rightarrow> parsed \<Rightarrow> requested_item option" where
  "OrderItemSchema lib v = do {
     m \<leftarrow> z_strictObject [''menuItemId'', ''quantity'', ''optionIds'', ''notes''] v;
     menuItemId \<leftarrow> z_required (z_uuid lib) (m ''menuItemId'');
     quantity \<leftarrow> z_required (z_int lib (\<lambda>n. 1 \<le> n \<and> n \<le> MAX_QUANTITY_PER_ITEM)) (m ''quantity'');
     optionIds \<leftarrow> z_optional (z_array (z_uuid lib) 0 MAX_OPTIONS_PER_ITEM) (m ''optionIds'');
     notes \<leftarrow> z_optional (z_nullable (z_trimmed lib 0 MAX_NOTES_LENGTH)) (m ''notes'');
     Some \<lparr>rq_menuItemId = menuItemId, rq_quantity = quantity,
           rq_optionIds = (case optionIds of None \<Rightarrow> [] | Some ids \<Rightarrow> ids), rq_notes = notes\<rparr> }"

definition CreateOrderSchema :: "schema_library \<Rightarrow> parsed \<Rightarrow> create_order_input option" where
  "CreateOrderSchema lib v = do {
     m \<leftarrow> z_strictObject [''channel'', ''items'', ''customerName'', ''expectedTotalMinor'', ''draft''] v;
     channel \<leftarrow> z_required (z_enum channel_named) (m ''channel'');
     items \<leftarrow> z_required (z_array (OrderItemSchema lib) 1 MAX_ITEMS_PER_ORDER) (m ''items'');
     customerName \<leftarrow> z_optional (z_nullable (z_trimmed lib 1 MAX_CUSTOMER_NAME_LENGTH)) (m ''customerName'');
     expected \<leftarrow> z_optional (z_int lib (\<lambda>n. 0 \<le> n \<and> n \<le> MAX_EXPECTED_TOTAL_MINOR)) (m ''expectedTotalMinor'');
     draft \<leftarrow> z_optional z_boolean (m ''draft'');
     Some \<lparr>in_channel = channel, in_items = items, in_customerName = customerName,
           in_expectedTotalMinor = expected, in_draft = draft\<rparr> }"

definition TransitionOrderSchema :: "parsed \<Rightarrow> order_status option" where
  "TransitionOrderSchema v = do { m \<leftarrow> z_strictObject [''to''] v; z_required (z_enum status_named) (m ''to'') }"

definition CancelOrderSchema :: "schema_library \<Rightarrow> parsed \<Rightarrow> string option option option" where
  "CancelOrderSchema lib v = do { m \<leftarrow> z_strictObject [''reason''] v; z_optional (z_nullable (z_trimmed lib 1 200)) (m ''reason'') }"

subsection \<open>\<open>create-payment.dto.ts\<close>, \<open>create-refund.dto.ts\<close>\<close>

definition CreatePaymentSchema :: "schema_library \<Rightarrow> parsed \<Rightarrow> create_payment_input option" where
  "CreatePaymentSchema lib v = do {
     m \<leftarrow> z_strictObject [''method'', ''cashTenderedMinor''] v;
     rail \<leftarrow> z_required (z_enum method_named) (m ''method'');
     tendered \<leftarrow> z_optional (z_int lib (\<lambda>n. 0 < n)) (m ''cashTenderedMinor'');
     body \<leftarrow> z_refine (\<lambda>b. cp_method b \<noteq> CASH \<or> cp_cashTenderedMinor b \<noteq> None) \<lparr>cp_method = rail, cp_cashTenderedMinor = tendered\<rparr>;
     z_refine (\<lambda>b. cp_method b = CASH \<or> cp_cashTenderedMinor b = None) body }"

definition CreateRefundSchema :: "schema_library \<Rightarrow> parsed \<Rightarrow> create_refund_input option" where
  "CreateRefundSchema lib v = do {
     m \<leftarrow> z_strictObject [''amountMinor'', ''reason''] v;
     amount \<leftarrow> z_required (z_int lib (\<lambda>n. 0 < n)) (m ''amountMinor'');
     reason \<leftarrow> z_required (z_trimmed lib 1 200) (m ''reason'');
     Some \<lparr>ri_amountMinor = amount, ri_reason = reason\<rparr> }"

subsection \<open>\<open>categories.dto.ts\<close>, \<open>items.dto.ts\<close>, \<open>item-option-groups.dto.ts\<close>\<close>

definition MAX_SORT_ORDER :: int where "MAX_SORT_ORDER = 10000"
definition MAX_BASE_PRICE_MINOR :: int where "MAX_BASE_PRICE_MINOR = 1000000"
definition MAX_DESCRIPTION_LENGTH :: nat where "MAX_DESCRIPTION_LENGTH = 500"
definition MAX_IMAGE_URL_LENGTH :: nat where "MAX_IMAGE_URL_LENGTH = 2048"
definition MAX_GROUPS_PER_ITEM :: nat where "MAX_GROUPS_PER_ITEM = 20"

definition sortOrderField :: "schema_library \<Rightarrow> parsed \<Rightarrow> int option" where
  "sortOrderField lib = z_int lib (\<lambda>n. 0 \<le> n \<and> n \<le> MAX_SORT_ORDER)"

definition CreateCategorySchema :: "schema_library \<Rightarrow> parsed \<Rightarrow> (string \<times> category_input) option" where
  "CreateCategorySchema lib v = do {
     m \<leftarrow> z_strictObject [''name'', ''sortOrder'', ''isActive''] v;
     name \<leftarrow> z_required (z_trimmed lib 1 60) (m ''name'');
     sortOrder \<leftarrow> z_optional (sortOrderField lib) (m ''sortOrder'');
     isActive \<leftarrow> z_optional z_boolean (m ''isActive'');
     Some (name, \<lparr>cc_name = Some name, cc_sortOrder = sortOrder, cc_isActive = isActive\<rparr>) }"

definition UpdateCategorySchema :: "schema_library \<Rightarrow> parsed \<Rightarrow> category_input option" where
  "UpdateCategorySchema lib v = do {
     m \<leftarrow> z_patch [''name'', ''sortOrder'', ''isActive''] v;
     name \<leftarrow> z_optional (z_trimmed lib 1 60) (m ''name'');
     sortOrder \<leftarrow> z_optional (sortOrderField lib) (m ''sortOrder'');
     isActive \<leftarrow> z_optional z_boolean (m ''isActive'');
     Some \<lparr>cc_name = name, cc_sortOrder = sortOrder, cc_isActive = isActive\<rparr> }"

definition basePriceField :: "schema_library \<Rightarrow> parsed \<Rightarrow> int option" where
  "basePriceField lib = z_int lib (\<lambda>n. 0 \<le> n \<and> n \<le> MAX_BASE_PRICE_MINOR)"

definition descriptionField :: "schema_library \<Rightarrow> parsed \<Rightarrow> string option" where
  "descriptionField lib = z_trimmed lib 0 MAX_DESCRIPTION_LENGTH"

definition imageUrlField :: "schema_library \<Rightarrow> parsed \<Rightarrow> string option" where
  "imageUrlField lib v = do {
     s \<leftarrow> z_trimmed lib 0 MAX_IMAGE_URL_LENGTH v;
     u \<leftarrow> z_refine (lib_url lib) s;
     z_refine (\<lambda>u. take 8 u = ''https://'') u }"

text \<open>A field left out and one that is null both store null on creation.\<close>

definition CreateItemSchema :: "schema_library \<Rightarrow> parsed \<Rightarrow> create_item_input option" where
  "CreateItemSchema lib v = do {
     m \<leftarrow> z_strictObject [''categoryId'', ''name'', ''description'', ''basePriceMinor'', ''imageUrl'', ''sortOrder'', ''isAvailable''] v;
     categoryId \<leftarrow> z_required (z_uuid lib) (m ''categoryId'');
     name \<leftarrow> z_required (z_trimmed lib 1 120) (m ''name'');
     description \<leftarrow> z_optional (z_nullable (descriptionField lib)) (m ''description'');
     basePriceMinor \<leftarrow> z_required (basePriceField lib) (m ''basePriceMinor'');
     imageUrl \<leftarrow> z_optional (z_nullable (imageUrlField lib)) (m ''imageUrl'');
     sortOrder \<leftarrow> z_optional (sortOrderField lib) (m ''sortOrder'');
     isAvailable \<leftarrow> z_optional z_boolean (m ''isAvailable'');
     Some \<lparr>cit_categoryId = categoryId, cit_name = name, cit_description = or_null description,
           cit_basePriceMinor = basePriceMinor, cit_imageUrl = or_null imageUrl, cit_sortOrder = sortOrder,
           cit_isAvailable = isAvailable\<rparr> }"

definition UpdateItemSchema :: "schema_library \<Rightarrow> parsed \<Rightarrow> update_item_input option" where
  "UpdateItemSchema lib v = do {
     m \<leftarrow> z_patch [''categoryId'', ''name'', ''description'', ''basePriceMinor'', ''imageUrl'', ''sortOrder''] v;
     categoryId \<leftarrow> z_optional (z_uuid lib) (m ''categoryId'');
     name \<leftarrow> z_optional (z_trimmed lib 1 120) (m ''name'');
     description \<leftarrow> z_optional (z_nullable (descriptionField lib)) (m ''description'');
     basePriceMinor \<leftarrow> z_optional (basePriceField lib) (m ''basePriceMinor'');
     imageUrl \<leftarrow> z_optional (z_nullable (imageUrlField lib)) (m ''imageUrl'');
     sortOrder \<leftarrow> z_optional (sortOrderField lib) (m ''sortOrder'');
     Some \<lparr>uit_categoryId = categoryId, uit_name = name, uit_description = description,
           uit_basePriceMinor = basePriceMinor, uit_imageUrl = imageUrl, uit_sortOrder = sortOrder\<rparr> }"

definition SetItemAvailabilitySchema :: "parsed \<Rightarrow> bool option" where
  "SetItemAvailabilitySchema v = do { m \<leftarrow> z_strictObject [''isAvailable''] v; z_required z_boolean (m ''isAvailable'') }"

definition SetItemOptionGroupsSchema :: "schema_library \<Rightarrow> parsed \<Rightarrow> string list option" where
  "SetItemOptionGroupsSchema lib v = do {
     m \<leftarrow> z_strictObject [''optionGroupIds''] v;
     ids \<leftarrow> z_required (z_array (z_uuid lib) 0 MAX_GROUPS_PER_ITEM) (m ''optionGroupIds'');
     z_refine (\<lambda>ids. length (js_set ids) = length ids) ids }"

subsection \<open>\<open>option-groups.dto.ts\<close>\<close>

definition MAX_SELECT :: int where "MAX_SELECT = 50"
definition MAX_PRICE_DELTA_MINOR :: int where "MAX_PRICE_DELTA_MINOR = 100000"
definition DEFAULT_MIN_SELECT :: int where "DEFAULT_MIN_SELECT = 0"
definition DEFAULT_MAX_SELECT :: int where "DEFAULT_MAX_SELECT = 1"

definition selectField :: "schema_library \<Rightarrow> parsed \<Rightarrow> int option" where
  "selectField lib = z_int lib (\<lambda>n. 0 \<le> n \<and> n \<le> MAX_SELECT)"

definition priceDeltaField :: "schema_library \<Rightarrow> parsed \<Rightarrow> int option" where
  "priceDeltaField lib = z_int lib (\<lambda>n. - MAX_PRICE_DELTA_MINOR \<le> n \<and> n \<le> MAX_PRICE_DELTA_MINOR)"

definition CreateOptionGroupSchema :: "schema_library \<Rightarrow> parsed \<Rightarrow> (string \<times> option_group_input) option" where
  "CreateOptionGroupSchema lib v = do {
     m \<leftarrow> z_strictObject [''name'', ''minSelect'', ''maxSelect''] v;
     name \<leftarrow> z_required (z_trimmed lib 1 60) (m ''name'');
     minSelect \<leftarrow> z_optional (selectField lib) (m ''minSelect'');
     maxSelect \<leftarrow> z_optional (selectField lib) (m ''maxSelect'');
     body \<leftarrow> z_refine (\<lambda>b. given (ogi_minSelect b) DEFAULT_MIN_SELECT \<le> given (ogi_maxSelect b) DEFAULT_MAX_SELECT)
       \<lparr>ogi_name = Some name, ogi_minSelect = minSelect, ogi_maxSelect = maxSelect\<rparr>;
     Some (name, body) }"

definition UpdateOptionGroupSchema :: "schema_library \<Rightarrow> parsed \<Rightarrow> option_group_input option" where
  "UpdateOptionGroupSchema lib v = do {
     m \<leftarrow> z_patch [''name'', ''minSelect'', ''maxSelect''] v;
     name \<leftarrow> z_optional (z_trimmed lib 1 60) (m ''name'');
     minSelect \<leftarrow> z_optional (selectField lib) (m ''minSelect'');
     maxSelect \<leftarrow> z_optional (selectField lib) (m ''maxSelect'');
     z_refine (\<lambda>b. case (ogi_minSelect b, ogi_maxSelect b) of (Some lo, Some hi) \<Rightarrow> lo \<le> hi | _ \<Rightarrow> True)
       \<lparr>ogi_name = name, ogi_minSelect = minSelect, ogi_maxSelect = maxSelect\<rparr> }"

definition CreateOptionSchema :: "schema_library \<Rightarrow> parsed \<Rightarrow> (string \<times> option_input) option" where
  "CreateOptionSchema lib v = do {
     m \<leftarrow> z_strictObject [''name'', ''priceDeltaMinor'', ''isDefault'', ''isAvailable''] v;
     name \<leftarrow> z_required (z_trimmed lib 1 60) (m ''name'');
     priceDeltaMinor \<leftarrow> z_optional (priceDeltaField lib) (m ''priceDeltaMinor'');
     isDefault \<leftarrow> z_optional z_boolean (m ''isDefault'');
     isAvailable \<leftarrow> z_optional z_boolean (m ''isAvailable'');
     Some (name, \<lparr>opi_name = Some name, opi_priceDeltaMinor = priceDeltaMinor, opi_isDefault = isDefault, opi_isAvailable = isAvailable\<rparr>) }"

definition UpdateOptionSchema :: "schema_library \<Rightarrow> parsed \<Rightarrow> option_input option" where
  "UpdateOptionSchema lib v = do {
     m \<leftarrow> z_patch [''name'', ''priceDeltaMinor'', ''isDefault''] v;
     name \<leftarrow> z_optional (z_trimmed lib 1 60) (m ''name'');
     priceDeltaMinor \<leftarrow> z_optional (priceDeltaField lib) (m ''priceDeltaMinor'');
     isDefault \<leftarrow> z_optional z_boolean (m ''isDefault'');
     Some \<lparr>opi_name = name, opi_priceDeltaMinor = priceDeltaMinor, opi_isDefault = isDefault, opi_isAvailable = None\<rparr> }"

definition SetOptionAvailabilitySchema :: "parsed \<Rightarrow> bool option" where
  "SetOptionAvailabilitySchema v = do { m \<leftarrow> z_strictObject [''isAvailable''] v; z_required z_boolean (m ''isAvailable'') }"

subsection \<open>\<open>users.dto.ts\<close>, \<open>auth.dto.ts\<close>, \<open>devices.dto.ts\<close>\<close>

definition MIN_PASSWORD_LENGTH :: nat where "MIN_PASSWORD_LENGTH = 10"
definition MAX_PASSWORD_LENGTH :: nat where "MAX_PASSWORD_LENGTH = 200"
definition MAX_EMAIL_LENGTH :: nat where "MAX_EMAIL_LENGTH = 254"

definition emailField :: "schema_library \<Rightarrow> parsed \<Rightarrow> string option" where
  "emailField lib v = Option.bind (z_trimmed lib 0 MAX_EMAIL_LENGTH v) (z_refine (lib_email lib))"

definition CreateUserSchema :: "schema_library \<Rightarrow> parsed \<Rightarrow> create_user_input option" where
  "CreateUserSchema lib v = do {
     m \<leftarrow> z_strictObject [''email'', ''displayName'', ''role'', ''password''] v;
     email \<leftarrow> z_required (emailField lib) (m ''email'');
     displayName \<leftarrow> z_required (z_trimmed lib 1 80) (m ''displayName'');
     role \<leftarrow> z_required (z_enum isUserRole) (m ''role'');
     password \<leftarrow> z_required (\<lambda>p. Option.bind (z_string p) (z_length lib MIN_PASSWORD_LENGTH MAX_PASSWORD_LENGTH)) (m ''password'');
     Some \<lparr>cu_email = email, cu_displayName = displayName, cu_role = role, cu_password = password\<rparr> }"

definition UpdateUserSchema :: "schema_library \<Rightarrow> parsed \<Rightarrow> update_user_input option" where
  "UpdateUserSchema lib v = do {
     m \<leftarrow> z_patch [''displayName'', ''role'', ''isActive''] v;
     displayName \<leftarrow> z_optional (z_trimmed lib 1 80) (m ''displayName'');
     role \<leftarrow> z_optional (z_enum isUserRole) (m ''role'');
     isActive \<leftarrow> z_optional z_boolean (m ''isActive'');
     Some \<lparr>uu_displayName = displayName, uu_role = role, uu_isActive = isActive\<rparr> }"

definition LoginSchema :: "schema_library \<Rightarrow> parsed \<Rightarrow> (string \<times> string) option" where
  "LoginSchema lib v = do {
     m \<leftarrow> z_strictObject [''email'', ''password''] v;
     email \<leftarrow> z_required (emailField lib) (m ''email'');
     password \<leftarrow> z_required (\<lambda>p. Option.bind (z_string p) (z_length lib 1 MAX_PASSWORD_LENGTH)) (m ''password'');
     Some (email, password) }"

definition RefreshSchema :: "schema_library \<Rightarrow> parsed \<Rightarrow> string option" where
  "RefreshSchema lib v = do {
     m \<leftarrow> z_strictObject [''refreshToken''] v;
     z_required (\<lambda>p. Option.bind (z_string p) (z_length lib 1 512)) (m ''refreshToken'') }"

definition CreateDeviceSchema :: "schema_library \<Rightarrow> parsed \<Rightarrow> string option" where
  "CreateDeviceSchema lib v = do { m \<leftarrow> z_strictObject [''name''] v; z_required (z_trimmed lib 1 60) (m ''name'') }"

text \<open>The alphabet is ASCII, so a text over it has as many code units as characters.\<close>

definition ActivateDeviceSchema :: "schema_library \<Rightarrow> parsed \<Rightarrow> string option" where
  "ActivateDeviceSchema lib v = do {
     m \<leftarrow> z_strictObject [''pairingCode''] v;
     code \<leftarrow> z_required z_string (m ''pairingCode'');
     z_refine (\<lambda>s. lib_length lib s = PAIRING_CODE_LENGTH \<and> s \<noteq> [] \<and> list_all (List.member PAIRING_CODE_ALPHABET) s)
       (toUpperCase (js_trim code)) }"

definition UpdateDeviceSchema :: "schema_library \<Rightarrow> parsed \<Rightarrow> update_device_input option" where
  "UpdateDeviceSchema lib v = do {
     m \<leftarrow> z_patch [''name'', ''status''] v;
     name \<leftarrow> z_optional (z_trimmed lib 1 60) (m ''name'');
     status \<leftarrow> z_optional (z_enum (map_of [(''ACTIVE'', False), (''PAUSED'', True)])) (m ''status'');
     Some \<lparr>ud_name = name, ud_paused = status\<rparr> }"

section \<open>The back office behind its schemas\<close>

inductive screened_edit :: "schema_library \<Rightarrow> ('p, 'b) db \<Rightarrow> ('p, 'b) db \<Rightarrow> bool" for lib where
  category_created: "CreateCategorySchema lib v = Some (name, ci) \<Longrightarrow> create_category newId name ci d = (cr, d') \<Longrightarrow> screened_edit lib d d'"
| category_updated: "UpdateCategorySchema lib v = Some ci \<Longrightarrow> update_category i ci d = (cr, d') \<Longrightarrow> screened_edit lib d d'"
| item_created: "CreateItemSchema lib v = Some ii \<Longrightarrow> create_item newId ii d = (ir, d') \<Longrightarrow> screened_edit lib d d'"
| item_updated: "UpdateItemSchema lib v = Some iu \<Longrightarrow> update_item i iu d = (ir, d') \<Longrightarrow> screened_edit lib d d'"
| photo_replaced: "update_item i iu d = (ir, d') \<Longrightarrow> uit_basePriceMinor iu = None \<Longrightarrow> screened_edit lib d d'"
| item_switched: "SetItemAvailabilitySchema v = Some b \<Longrightarrow> setAvailability i b d = (ir, d') \<Longrightarrow> screened_edit lib d d'"
| groups_attached: "SetItemOptionGroupsSchema lib v = Some gs \<Longrightarrow> setForItem i gs d = (ar, d') \<Longrightarrow> screened_edit lib d d'"
| group_created: "CreateOptionGroupSchema lib v = Some (name, gi) \<Longrightarrow> createGroup newId name gi d = (gr, d') \<Longrightarrow> screened_edit lib d d'"
| group_updated: "UpdateOptionGroupSchema lib v = Some gi \<Longrightarrow> updateGroup i gi d = (gr, d') \<Longrightarrow> screened_edit lib d d'"
| option_created: "CreateOptionSchema lib v = Some (name, oi) \<Longrightarrow> createOption newId i name oi d = (opr, d') \<Longrightarrow> screened_edit lib d d'"
| option_updated: "UpdateOptionSchema lib v = Some oi \<Longrightarrow> updateOption i oi d = (opr, d') \<Longrightarrow> screened_edit lib d d'"
| option_switched: "SetOptionAvailabilitySchema v = Some b \<Longrightarrow> setOptionAvailability i b d = (opr, d') \<Longrightarrow> screened_edit lib d d'"

definition menu_bounded :: "('p, 'b) db \<Rightarrow> bool" where
  "menu_bounded d \<longleftrightarrow> (\<forall>r \<in> set (menuItems d). 0 \<le> mi_basePriceMinor r \<and> mi_basePriceMinor r \<le> MAX_BASE_PRICE_MINOR) \<and>
     (\<forall>r \<in> set (options d). \<bar>opt_priceDeltaMinor r\<bar> \<le> MAX_PRICE_DELTA_MINOR)"

section \<open>Lemmas\<close>

subsection \<open>What an accepted field satisfies\<close>

lemma z_refine_Some [simp]: "z_refine ok x = Some y \<longleftrightarrow> ok x \<and> y = x"
  by (auto simp: z_refine_def)

lemma z_int_Some: "z_int lib ok v = Some n \<Longrightarrow> ok n"
  by (cases v) (auto simp: bind_eq_Some_conv)

lemma z_required_Some: "z_required f m = Some x \<longleftrightarrow> (\<exists>v. m = Some v \<and> f v = Some x)"
  by (cases m) (auto simp: z_required_def)

lemma z_optional_Some: "z_optional f m = Some (Some x) \<longleftrightarrow> (\<exists>v. m = Some v \<and> f v = Some x)"
  by (cases m) auto

lemma z_all_Some: "z_all f vs = Some xs \<Longrightarrow> \<forall>x \<in> set xs. \<exists>v. f v = Some x"
  by (induction vs arbitrary: xs) (auto simp: bind_eq_Some_conv)

lemma z_array_Some: "z_array f lo hi v = Some xs \<Longrightarrow> lo \<le> length xs \<and> length xs \<le> hi \<and> (\<forall>x \<in> set xs. \<exists>v. f v = Some x)"
  by (cases v) (auto simp: bind_eq_Some_conv dest!: z_all_Some)

lemmas schema_Some = bind_eq_Some_conv z_required_Some

lemma OrderItemSchema_Some:
  assumes "OrderItemSchema lib v = Some r"
  shows "1 \<le> rq_quantity r \<and> rq_quantity r \<le> 50 \<and> length (rq_optionIds r) \<le> 15"
  using assms
  by (auto simp: OrderItemSchema_def schema_Some MAX_QUANTITY_PER_ITEM_def MAX_OPTIONS_PER_ITEM_def z_optional_Some
      split: option.splits dest!: z_int_Some z_array_Some)

lemma CreateOrderSchema_Some:
  assumes "CreateOrderSchema lib v = Some input"
  shows "1 \<le> length (in_items input) \<and> length (in_items input) \<le> 30 \<and>
    (\<forall>r \<in> set (in_items input). 1 \<le> rq_quantity r \<and> rq_quantity r \<le> 50 \<and> length (rq_optionIds r) \<le> 15)"
proof -
  obtain m where "z_array (OrderItemSchema lib) 1 MAX_ITEMS_PER_ORDER m = Some (in_items input)"
    using assms by (auto simp: CreateOrderSchema_def schema_Some)
  from z_array_Some [OF this] show ?thesis using OrderItemSchema_Some unfolding MAX_ITEMS_PER_ORDER_def by blast
qed

lemma CreateItemSchema_price: "CreateItemSchema lib v = Some ii \<Longrightarrow> 0 \<le> cit_basePriceMinor ii \<and> cit_basePriceMinor ii \<le> MAX_BASE_PRICE_MINOR"
  by (auto simp: CreateItemSchema_def schema_Some basePriceField_def dest!: z_int_Some)

lemma UpdateItemSchema_price:
  "UpdateItemSchema lib v = Some iu \<Longrightarrow> uit_basePriceMinor iu = Some n \<Longrightarrow> 0 \<le> n \<and> n \<le> MAX_BASE_PRICE_MINOR"
  by (auto simp: UpdateItemSchema_def schema_Some basePriceField_def z_optional_Some dest!: z_int_Some)

lemma CreateOptionSchema_delta:
  "CreateOptionSchema lib v = Some (name, oi) \<Longrightarrow> opi_priceDeltaMinor oi = Some n \<Longrightarrow> \<bar>n\<bar> \<le> MAX_PRICE_DELTA_MINOR"
  by (auto simp: CreateOptionSchema_def schema_Some priceDeltaField_def z_optional_Some dest!: z_int_Some)

lemma UpdateOptionSchema_delta:
  "UpdateOptionSchema lib v = Some oi \<Longrightarrow> opi_priceDeltaMinor oi = Some n \<Longrightarrow> \<bar>n\<bar> \<le> MAX_PRICE_DELTA_MINOR"
  by (auto simp: UpdateOptionSchema_def schema_Some priceDeltaField_def z_optional_Some dest!: z_int_Some)

subsection \<open>A screened menu stays within its bounds\<close>

lemma screened_step: "screened_edit lib d d' \<Longrightarrow> catalog_step d d'"
  by (induction rule: screened_edit.induct) (blast intro: catalog_step.intros)+

lemma given_within: "P old \<Longrightarrow> (\<And>n. ch = Some n \<Longrightarrow> P n) \<Longrightarrow> P (given ch old)"
  by (cases ch) (simp_all add: given_def)

lemma update_item_menu:
  assumes "update_item i iu d = (r, d')" "menu_bounded d"
    and "\<And>n. uit_basePriceMinor iu = Some n \<Longrightarrow> 0 \<le> n \<and> n \<le> MAX_BASE_PRICE_MINOR"
  shows "menu_bounded d'"
proof -
  have "0 \<le> mi_basePriceMinor (changed_item iu x) \<and> mi_basePriceMinor (changed_item iu x) \<le> MAX_BASE_PRICE_MINOR"
    if "x \<in> set (menuItems d)" for x
    using given_within [of "\<lambda>n. 0 \<le> n \<and> n \<le> MAX_BASE_PRICE_MINOR" "mi_basePriceMinor x" "uit_basePriceMinor iu"] assms(2,3) that
    by (simp add: changed_item_def menu_bounded_def)
  then show ?thesis using assms(1,2)
    by (auto simp: update_item_def menu_bounded_def sql_update_def split: list.splits option.splits app_error.splits)
qed

lemma updateOption_menu:
  assumes "updateOption i oi d = (r, d')" "menu_bounded d"
    and "\<And>n. opi_priceDeltaMinor oi = Some n \<Longrightarrow> \<bar>n\<bar> \<le> MAX_PRICE_DELTA_MINOR"
  shows "menu_bounded d'"
proof -
  have "\<bar>opt_priceDeltaMinor (changed_option oi x)\<bar> \<le> MAX_PRICE_DELTA_MINOR" if "x \<in> set (options d)" for x
    using given_within [of "\<lambda>n. \<bar>n\<bar> \<le> MAX_PRICE_DELTA_MINOR" "opt_priceDeltaMinor x" "opi_priceDeltaMinor oi"] assms(2,3) that
    by (simp add: changed_option_def menu_bounded_def)
  then show ?thesis using assms(1,2)
    by (auto simp: updateOption_def menu_bounded_def sql_update_def split: list.splits option.splits if_splits)
qed

lemma create_item_menu:
  assumes "create_item newId ii d = (r, d')" "menu_bounded d" "0 \<le> cit_basePriceMinor ii \<and> cit_basePriceMinor ii \<le> MAX_BASE_PRICE_MINOR"
  shows "menu_bounded d'"
  using assms by (auto simp: create_item_def new_item_def menu_bounded_def sql_insert_def Let_def split: option.splits app_error.splits if_splits)

lemma createOption_menu:
  assumes "createOption newId i name oi d = (r, d')" "menu_bounded d"
    and "\<And>n. opi_priceDeltaMinor oi = Some n \<Longrightarrow> \<bar>n\<bar> \<le> MAX_PRICE_DELTA_MINOR"
  shows "menu_bounded d'"
proof -
  have "\<bar>given (opi_priceDeltaMinor oi) 0\<bar> \<le> MAX_PRICE_DELTA_MINOR"
    by (rule given_within) (use assms(3) in \<open>simp_all add: MAX_PRICE_DELTA_MINOR_def\<close>)
  then show ?thesis using assms(1,2)
    by (auto simp: createOption_def menu_bounded_def sql_insert_def Let_def split: option.splits if_splits)
qed

lemma screened_menu: "screened_edit lib d d' \<Longrightarrow> menu_bounded d \<Longrightarrow> menu_bounded d'"
proof (induction rule: screened_edit.induct)
  case (item_created v ii newId d ir d')
  then show ?case using create_item_menu CreateItemSchema_price by blast
next
  case (item_updated v iu i d ir d')
  then show ?case using update_item_menu UpdateItemSchema_price by blast
next
  case (photo_replaced i iu d ir d')
  then show ?case using update_item_menu by fastforce
next
  case (option_created v name oi newId i d opr d')
  then show ?case using createOption_menu CreateOptionSchema_delta by blast
next
  case (option_updated v oi i d opr d')
  then show ?case using updateOption_menu UpdateOptionSchema_delta by blast
qed (auto simp: menu_bounded_def create_category_def update_category_def setAvailability_def setForItem_def createGroup_def updateGroup_def
    setOptionAvailability_def sql_update_def Let_def split: list.splits option.splits if_splits)

lemma screened_run:
  assumes "(screened_edit lib)\<^sup>*\<^sup>* d0 d" "catalog_ok d0" "menu_bounded d0"
  shows "catalog_ok d" "menu_bounded d"
proof -
  show "menu_bounded d" using assms(1,3) by (induction rule: rtranclp_induct) (auto intro: screened_menu)
  have "catalog_run d0 d" using assms(1) by (induction rule: rtranclp_induct) (auto intro: rtranclp.rtrancl_into_rtrancl screened_step)
  then show "catalog_ok d" using catalog_run_ok assms(2) by blast
qed

subsection \<open>What a screened basket can come to\<close>

lemma catalog_bounded:
  assumes "menu_bounded d" "readCatalog ids d i = Some item"
  shows "0 \<le> ci_basePriceMinor item \<and> ci_basePriceMinor item \<le> MAX_BASE_PRICE_MINOR"
    and "\<forall>opt \<in> set (item_options item). \<bar>co_priceDeltaMinor opt\<bar> \<le> MAX_PRICE_DELTA_MINOR"
proof -
  obtain r where r: "r \<in> set (menuItems d)" "item = catalog_item_of d r" using assms(2) by (rule readCatalog_Some)
  show "0 \<le> ci_basePriceMinor item \<and> ci_basePriceMinor item \<le> MAX_BASE_PRICE_MINOR"
    using assms(1) r by (simp add: menu_bounded_def catalog_item_of_def)
  show "\<forall>opt \<in> set (item_options item). \<bar>co_priceDeltaMinor opt\<bar> \<le> MAX_PRICE_DELTA_MINOR"
    using assms(1) by (auto simp: r(2) catalog_item_of_def item_options_def item_groups_def map_filter_def catalog_group_of_def
        group_options_def menu_bounded_def)
qed

lemma sum_list_bounded:
  fixes f :: "'a \<Rightarrow> int"
  assumes "\<And>x. x \<in> set xs \<Longrightarrow> f x \<le> b"
  shows "sum_list (map f xs) \<le> int (length xs) * b"
  using assms by (induction xs) (force simp: algebra_simps)+

lemma option_delta_bounded:
  assumes "\<forall>opt \<in> set (item_options item). \<bar>co_priceDeltaMinor opt\<bar> \<le> MAX_PRICE_DELTA_MINOR"
  shows "option_delta item i \<le> MAX_PRICE_DELTA_MINOR"
proof (cases "option_named item i")
  case (Some opt)
  then have "opt \<in> set (item_options item)" by (auto simp: option_named_def find_Some_iff)
  with assms Some show ?thesis by (fastforce simp: option_delta_def)
qed (simp add: option_delta_def MAX_PRICE_DELTA_MINOR_def)

lemma unit_price_bounded:
  assumes "menu_bounded d" "readCatalog ids d i = Some item"
  shows "unit_price_spec item os \<le> 1000000 + int (length os) * 100000"
proof -
  have "sum_list (map (option_delta item) os) \<le> int (length os) * MAX_PRICE_DELTA_MINOR"
    by (rule sum_list_bounded) (rule option_delta_bounded [OF catalog_bounded(2) [OF assms]])
  then show ?thesis
    using catalog_bounded(1) [OF assms] by (simp add: unit_price_spec_def MAX_PRICE_DELTA_MINOR_def MAX_BASE_PRICE_MINOR_def)
qed

lemma priced_is_spec:
  assumes "priceOrder rqs c vat = Inr p" "wf_catalog c"
  shows "p = order_spec c rqs vat" "\<forall>r \<in> set rqs. \<exists>item. c (rq_menuItemId r) = Some item"
proof -
  have "well_shaped c rqs \<and> (\<forall>r \<in> set rqs. sellable c r)"
    using assms(1) priceOrder_cases(1,2) [OF assms(2), of rqs vat] by fastforce
  then show "p = order_spec c rqs vat" "\<forall>r \<in> set rqs. \<exists>item. c (rq_menuItemId r) = Some item"
    using assms(1) priceOrder_cases(3) [OF assms(2), of rqs vat] by (auto simp: sellable_def split: option.splits)
qed

text \<open>One line of a basket whose lines have at most \<open>k\<close> options.\<close>

lemma line_bounded:
  assumes "menu_bounded d" "readCatalog ids d (rq_menuItemId r) = Some item"
    and "1 \<le> rq_quantity r" "rq_quantity r \<le> 50" "int (length (rq_optionIds r)) \<le> k"
  shows "0 \<le> unit_price_spec item (rq_optionIds r) \<and> unit_price_spec item (rq_optionIds r) \<le> 1000000 + k * 100000 \<and>
    0 \<le> unit_price_spec item (rq_optionIds r) * rq_quantity r \<and>
    unit_price_spec item (rq_optionIds r) * rq_quantity r \<le> (1000000 + k * 100000) * 50"
proof -
  have u: "unit_price_spec item (rq_optionIds r) \<le> 1000000 + k * 100000"
    using unit_price_bounded [OF assms(1,2), of "rq_optionIds r"] assms(5) by linarith
  moreover have "unit_price_spec item (rq_optionIds r) * rq_quantity r \<le> (1000000 + k * 100000) * 50"
    using u assms(3,4,5) unit_price_nonneg [of item "rq_optionIds r"] by (intro mult_mono) auto
  ultimately show ?thesis using unit_price_nonneg assms(3) by simp
qed

definition money_fits :: "int \<Rightarrow> int \<Rightarrow> priced_order \<Rightarrow> bool" where
  "money_fits k vat p \<longleftrightarrow>
     (\<forall>l \<in> set (pr_lines p). 0 \<le> pl_unitPriceMinorSnapshot l \<and> pl_unitPriceMinorSnapshot l \<le> 1000000 + k * 100000 \<and>
        0 \<le> pl_lineTotalMinor l \<and> pl_lineTotalMinor l \<le> 50 * (1000000 + k * 100000)) \<and>
     0 \<le> pr_totalMinor p \<and> pr_totalMinor p \<le> 1500 * (1000000 + k * 100000) \<and> pr_subtotalMinor p = pr_totalMinor p \<and>
     0 \<le> pr_vatMinor p \<and> pr_vatMinor p \<le> pr_totalMinor p \<and>
     2 * \<bar>pr_vatMinor p * (10000 + vat) - pr_totalMinor p * vat\<bar> \<le> 10000 + vat"

lemma basket_fits:
  assumes "menu_bounded d" "wf_catalog (readCatalog ids d)" "priceOrder rqs (readCatalog ids d) vat = Inr p" "0 \<le> vat"
    and "length rqs \<le> 30" "\<forall>r \<in> set rqs. 1 \<le> rq_quantity r \<and> rq_quantity r \<le> 50 \<and> int (length (rq_optionIds r)) \<le> k" "0 \<le> k"
  shows "money_fits k vat p"
proof -
  note spec = priced_is_spec [OF assms(3,2)]
  have line: "0 \<le> pl_unitPriceMinorSnapshot l \<and> pl_unitPriceMinorSnapshot l \<le> 1000000 + k * 100000 \<and>
      0 \<le> pl_lineTotalMinor l \<and> pl_lineTotalMinor l \<le> (1000000 + k * 100000) * 50" if l_in: "l \<in> set (pr_lines p)" for l
  proof -
    obtain r where mem: "r \<in> set rqs" and l: "l = priced_line_spec (the (readCatalog ids d (rq_menuItemId r))) r"
      using l_in by (auto simp: spec(1) order_spec_def spec_lines_def Let_def)
    obtain item where item: "readCatalog ids d (rq_menuItemId r) = Some item" using spec(2) mem by blast
    note r = mem item l [unfolded item option.sel]
    then show ?thesis using line_bounded [OF assms(1) r(2), of k] assms(6) by (simp add: priced_line_spec_def)
  qed
  have total: "pr_totalMinor p = sum_list (map pl_lineTotalMinor (pr_lines p))" "pr_subtotalMinor p = pr_totalMinor p"
    "pr_vatMinor p = extractVat (pr_totalMinor p) vat" "length (pr_lines p) = length rqs"
    by (simp_all add: spec(1) order_spec_def Let_def spec_lines_def)
  have "pr_totalMinor p \<le> int (length rqs) * ((1000000 + k * 100000) * 50)"
    using sum_list_bounded [of "pr_lines p" pl_lineTotalMinor] line total(1,4) by metis
  also have "\<dots> \<le> 30 * ((1000000 + k * 100000) * 50)" using assms(5,7) by (intro mult_right_mono) auto
  finally have hi: "pr_totalMinor p \<le> 1500 * (1000000 + k * 100000)" by simp
  have lo: "0 \<le> pr_totalMinor p" unfolding total(1) by (rule sum_list_nonneg) (use line in auto)
  show ?thesis unfolding money_fits_def using line hi lo total(2) extractVat_bounds [OF lo assms(4)] total(3) by (auto simp: algebra_simps)
qed

section \<open>Properties\<close>

text \<open>
  C10. The bounds at the edge add up. Prices that got onto the menu through the back office's schemas and
  a basket the order schema accepted make an order of one to thirty lines; its unit prices, line
  totals and total are not negative and stay under the product of the limits, the VAT is the nearest
  minor unit to its share and within the total; no line can overflow its 32-bit columns, and the
  order cannot either when no line takes more than four options.
\<close>

theorem accepted_orders_are_bounded:
  assumes "(screened_edit lib)\<^sup>*\<^sup>* d0 d" "catalog_ok d0" "menu_bounded d0"
    and "CreateOrderSchema lib v = Some input" "0 \<le> vat"
    and "priceOrder (in_items input) (readCatalog (map rq_menuItemId (in_items input)) d) vat = Inr p"
  shows "1 \<le> length (in_items input) \<and> length (in_items input) \<le> 30 \<and> money_fits 15 vat p \<and>
    (\<forall>l \<in> set (pr_lines p). int4_ok (pl_unitPriceMinorSnapshot l) \<and> int4_ok (pl_lineTotalMinor l)) \<and>
    ((\<forall>r \<in> set (in_items input). length (rq_optionIds r) \<le> 4) \<longrightarrow> int4_ok (pr_totalMinor p) \<and> int4_ok (pr_vatMinor p))"
proof -
  note run = screened_run [OF assms(1,2,3)]
  note shape = CreateOrderSchema_Some [OF assms(4)]
  have fits: "money_fits k vat p" if "\<forall>r \<in> set (in_items input). int (length (rq_optionIds r)) \<le> k" "0 \<le> k" for k
    by (rule basket_fits [OF run(2) catalog_wf [OF run(1)] assms(6,5)]) (use shape that in auto)
  have 15: "money_fits 15 vat p" by (rule fits) (use shape in auto)
  moreover have "int4_ok (pr_totalMinor p) \<and> int4_ok (pr_vatMinor p)" if "\<forall>r \<in> set (in_items input). length (rq_optionIds r) \<le> 4"
    using fits [of 4] that by (auto simp: money_fits_def int4_ok_def)
  moreover have "int4_ok (pl_unitPriceMinorSnapshot l) \<and> int4_ok (pl_lineTotalMinor l)" if "l \<in> set (pr_lines p)" for l
    using 15 that by (fastforce simp: money_fits_def int4_ok_def)
  ultimately show ?thesis using shape by blast
qed

subsection \<open>A counter order, and the basket that does not fit\<close>

definition plain_library :: schema_library where
  "plain_library = \<lparr>lib_int = (\<lambda>t. if t = [] then None else map_option int (digits_value 0 t)),
     lib_uuid = (\<lambda>_. True), lib_email = (\<lambda>_. True), lib_url = (\<lambda>_. True), lib_length = length\<rparr>"

definition dear_options :: "option_row list" where
  "dear_options = map (\<lambda>i. \<lparr>opt_id = CHR ''x'' # string_of_nat i, opt_groupId = ''extras'', opt_name = ''Extra'',
     opt_priceDeltaMinor = 100000, opt_isDefault = False, opt_isAvailable = True\<rparr>) [0..<15]"

definition dear_menu :: "(unit, unit) db" where
  "dear_menu = \<lparr>categories = [\<lparr>cat_id = ''gifts'', cat_name = ''Gifts'', cat_sortOrder = 0, cat_isActive = True\<rparr>],
     menuItems = [\<lparr>mi_id = ''hamper'', mi_categoryId = ''gifts'', mi_name = ''Hamper'', mi_description = None,
       mi_basePriceMinor = 1000000, mi_imageUrl = None, mi_isAvailable = True, mi_sortOrder = 0\<rparr>],
     optionGroups = [\<lparr>og_id = ''extras'', og_name = ''Extras'', og_minSelect = 0, og_maxSelect = 50\<rparr>],
     options = dear_options,
     menuItemOptionGroups = [\<lparr>lnk_menuItemId = ''hamper'', lnk_optionGroupId = ''extras'', lnk_sortOrder = 0\<rparr>],
     kioskDevices = [], orders = [], orderItems = [], orderItemOptions = [], orderStatusHistory = [],
     orderNumberCounters = [], payments = [], refunds = [], paymentEvents = [], idempotencyKeys = []\<rparr>"

definition basket_of :: "nat \<Rightarrow> nat \<Rightarrow> parsed" where
  "basket_of lines extras = PObj [(''channel'', PStr ''COUNTER''), (''items'', PArr (replicate lines (PObj
     [(''menuItemId'', PStr ''hamper''), (''quantity'', PNum ''50''),
      (''optionIds'', PArr (map (\<lambda>i. PStr (CHR ''x'' # string_of_nat i)) [0..<extras]))])))]"

definition hampers :: "nat \<Rightarrow> requested_item" where
  "hampers extras = \<lparr>rq_menuItemId = ''hamper'', rq_quantity = 50, rq_optionIds = map (\<lambda>i. CHR ''x'' # string_of_nat i) [0..<extras], rq_notes = None\<rparr>"

lemma z_all_replicate: "f v = Some x \<Longrightarrow> z_all f (replicate n v) = Some (replicate n x)"
  by (induction n) simp_all

lemma z_all_map: "(\<And>x. f (g x) = Some (h x)) \<Longrightarrow> z_all f (map g xs) = Some (map h xs)"
  by (induction xs) simp_all

lemma basket_accepted:
  assumes "1 \<le> n" "n \<le> 30" "extras \<le> 15"
  shows "CreateOrderSchema plain_library (basket_of n extras) =
    Some \<lparr>in_channel = COUNTER, in_items = replicate n (hampers extras), in_customerName = None, in_expectedTotalMinor = None, in_draft = None\<rparr>"
proof -
  have "lib_int plain_library ''50'' = Some 50" by code_simp
  moreover have "z_all (z_uuid plain_library) (map (\<lambda>i. PStr (CHR ''x'' # string_of_nat i)) [0..<extras]) =
      Some (map (\<lambda>i. CHR ''x'' # string_of_nat i) [0..<extras])"
    by (rule z_all_map) (simp add: z_uuid_def plain_library_def)
  ultimately have "OrderItemSchema plain_library (PObj [(''menuItemId'', PStr ''hamper''), (''quantity'', PNum ''50''),
      (''optionIds'', PArr (map (\<lambda>i. PStr (CHR ''x'' # string_of_nat i)) [0..<extras]))]) = Some (hampers extras)"
    using assms(3) by (simp add: OrderItemSchema_def z_required_def z_refine_def z_uuid_def MAX_QUANTITY_PER_ITEM_def MAX_OPTIONS_PER_ITEM_def
        hampers_def) (simp add: plain_library_def)
  from z_all_replicate [where f = "OrderItemSchema plain_library", OF this, of n] show ?thesis
    using assms(1,2) by (simp add: CreateOrderSchema_def basket_of_def z_required_def z_refine_def z_enum_def channel_named_def MAX_ITEMS_PER_ORDER_def)
qed

lemma dear_catalog: "0 < n \<Longrightarrow> readCatalog (map rq_menuItemId (replicate n (hampers extras))) dear_menu = readCatalog [''hamper''] dear_menu"
  by (simp add: readCatalog_def dear_menu_def hampers_def)

lemma dear_menu_ok: "catalog_ok dear_menu" "menu_bounded dear_menu"
  by code_simp+

definition dear_item :: catalog_item where
  "dear_item = the (readCatalog [''hamper''] dear_menu ''hamper'')"

lemma dear_item: "readCatalog [''hamper''] dear_menu ''hamper'' = Some dear_item"
proof -
  have "readCatalog [''hamper''] dear_menu ''hamper'' \<noteq> None" by code_simp
  then show ?thesis by (simp add: dear_item_def)
qed

lemma dear_line:
  "selection_ok dear_item (rq_optionIds (hampers 15))" "line_sellable dear_item (rq_optionIds (hampers 15))"
  "selection_ok dear_item (rq_optionIds (hampers 0))" "line_sellable dear_item (rq_optionIds (hampers 0))"
  "unit_price_spec dear_item (rq_optionIds (hampers 15)) = 2500000"
  by code_simp+

lemma dear_priced:
  assumes "0 < n" "selection_ok dear_item (rq_optionIds (hampers k))" "line_sellable dear_item (rq_optionIds (hampers k))"
  shows "priceOrder (replicate n (hampers k)) (readCatalog (map rq_menuItemId (replicate n (hampers k))) dear_menu) vat =
    Inr (order_spec (readCatalog [''hamper''] dear_menu) (replicate n (hampers k)) vat)"
proof -
  have i: "rq_menuItemId (hampers k) = ''hamper''" by (simp add: hampers_def)
  show ?thesis unfolding dear_catalog [OF assms(1)]
    by (rule priceOrder_cases(3) [OF catalog_wf [OF dear_menu_ok(1)]]) (use assms in \<open>auto simp: well_shaped_def sellable_def i dear_item\<close>)
qed

theorem accepted_orders_are_bounded_witness:
  "\<exists>p. priceOrder (replicate 2 (hampers 0)) (readCatalog (map rq_menuItemId (replicate 2 (hampers 0))) dear_menu) 700 = Inr p \<and>
     money_fits 15 700 p \<and> int4_ok (pr_totalMinor p)"
proof -
  have p: "priceOrder (replicate 2 (hampers 0)) (readCatalog (map rq_menuItemId (replicate 2 (hampers 0))) dear_menu) 700 =
      Inr (order_spec (readCatalog [''hamper''] dear_menu) (replicate 2 (hampers 0)) 700)"
    by (rule dear_priced) (simp_all add: dear_line)
  have "CreateOrderSchema plain_library (basket_of 2 0) = Some \<lparr>in_channel = COUNTER, in_items = replicate 2 (hampers 0),
      in_customerName = None, in_expectedTotalMinor = None, in_draft = None\<rparr>" by (rule basket_accepted) simp_all
  from accepted_orders_are_bounded [OF rtranclp.rtrancl_refl dear_menu_ok this, of 700] p show ?thesis by (simp add: hampers_def)
qed

text \<open>
  The limits do not keep the total within its column: thirty lines of fifty items with fifteen dear
  options each are accepted and priced, and refused by the database as a number out of range.
\<close>

lemma full_basket_overflows:
  "\<exists>input p. CreateOrderSchema plain_library (basket_of 30 15) = Some input \<and>
     priceOrder (in_items input) (readCatalog (map rq_menuItemId (in_items input)) dear_menu) 700 = Inr p \<and>
     pr_totalMinor p = 3750000000 \<and> \<not> int4_ok (pr_totalMinor p)"
proof -
  let ?p = "order_spec (readCatalog [''hamper''] dear_menu) (replicate 30 (hampers 15)) 700"
  have "priceOrder (replicate 30 (hampers 15)) (readCatalog (map rq_menuItemId (replicate 30 (hampers 15))) dear_menu) 700 = Inr ?p"
    by (rule dear_priced) (simp_all add: dear_line)
  moreover have "pr_totalMinor ?p = 3750000000"
    using dear_line(5) dear_item
    by (simp add: order_spec_def spec_lines_def Let_def priced_line_spec_def sum_list_replicate hampers_def)
  ultimately show ?thesis using basket_accepted [of 30 15] by (simp add: int4_ok_def)
qed

text \<open>A tender has no upper limit: one beyond the column passes the schema and the sufficiency check.\<close>

lemma huge_tender_accepted:
  "CreatePaymentSchema plain_library (PObj [(''method'', PStr ''CASH''), (''cashTenderedMinor'', PNum ''3000000000'')]) =
     Some \<lparr>cp_method = CASH, cp_cashTenderedMinor = Some 3000000000\<rparr>" "\<not> int4_ok 3000000000"
proof -
  have "lib_int plain_library ''3000000000'' = Some 3000000000" by (simp add: plain_library_def digit_value_def)
  then show "CreatePaymentSchema plain_library (PObj [(''method'', PStr ''CASH''), (''cashTenderedMinor'', PNum ''3000000000'')]) =
     Some \<lparr>cp_method = CASH, cp_cashTenderedMinor = Some 3000000000\<rparr>"
    by (simp add: CreatePaymentSchema_def z_required_def z_refine_def z_enum_def method_named_def)
qed (simp add: int4_ok_def)

end
