(* ===== verification/Spec2Isabelle.thy ===== *)
theory Spec2Isabelle
  imports Guarantees Reports Access MenuCache Retention Envelope Images Environment Realtime Health Requests
begin

text \<open>
  The CafePOS back end: a NestJS service over PostgreSQL and Redis that takes orders from kiosks and
  counters, charges them through a payment gateway or in cash, drives kitchen and pickup screens, and
  closes the books of the day. Paths below are relative to \<open>src/src/\<close>.

  \<^bold>\<open>Parts and theories.\<close>

  \<^item> \<open>Prelude\<close>: failing code as \<open>'e + 'a\<close> with \<open>sum_bind\<close>; tables as row lists with \<open>sql_find\<close>,
    \<open>sql_update\<close>, \<open>sql_insert\<close>; the locale \<open>keyed_table\<close> for a table with a key, interpreted for the
    tables of \<open>Schema\<close> and \<open>Identity\<close>; number printing and rounding; the collection \<open>table_simps\<close>.
  \<^item> \<open>AppErrors\<close>, \<open>Envelope\<close>: the exception classes of all modules as one datatype, what each puts into
    the answer, and the filter every thrown value passes (\<open>common/filters/all-exceptions.filter.ts\<close>).
  \<^item> \<open>Schema\<close>: the tables of \<open>database/schema/\<close> as records of typed columns; inserts refuse what the
    constraints, unique indexes and integer widths refuse.
  \<^item> \<open>OrderState\<close>, \<open>OrderNumber\<close>, \<open>OrderPricing\<close>, \<open>BusinessDay\<close>: the transition table and the guarded
    update with its audit row, the queue number counter, pricing, the business day and opening hours.
  \<^item> \<open>RequestHash\<close>, \<open>Codec\<close>, \<open>Idempotency\<close>: the fingerprint of a request, base64url and JSON, and the key
    store; the locale \<open>idempotency_store\<close> is its contract, interpreted on the three operations.
  \<^item> \<open>AfterCommit\<close>, \<open>OrderViews\<close>, \<open>Responses\<close>, \<open>Orders\<close>, \<open>OrderExit\<close>, \<open>Gateway\<close>, \<open>Payments\<close>, \<open>Webhooks\<close>: the
    handlers of the order and payment paths: creation, checkout, cancellation, the expiry sweep, the
    provider port and its Stripe adapter, cash and card payments, refunds, reconciliation, the
    webhook inbox with its decision table and its sweep.
  \<^item> \<open>Ledger\<close>, \<open>System\<close>, \<open>Sample\<close>, \<open>Guarantees\<close>: the abstract specification of the tables, the proof that
    all handlers refine it, a concrete morning for the witnesses, and what single handlers promise.
  \<^item> \<open>Query\<close>, \<open>Rollup\<close>, \<open>Reports\<close>: listing orders with cursors, the nightly rollup, the reports.
  \<^item> \<open>RateLimit\<close>, \<open>Identity\<close>, \<open>Sessions\<close>, \<open>Access\<close>: lockout and throttling over Redis, staff sessions,
    accounts, tablets and the revocation channel, their runs, and the guards with the decorators of
    every route.
  \<^item> \<open>Catalog\<close>, \<open>MenuCache\<close>, \<open>Images\<close>: editing the menu, the versioned cache in front of it, item photos
    and the bucket they are stored in.
  \<^item> \<open>Requests\<close>: the schemas of the request bodies, from JSON to the inputs of the services.
  \<^item> \<open>Retention\<close>: the housekeeping jobs, four interpretations of the locale \<open>drained_table\<close>.
  \<^item> \<open>Realtime\<close>: the kitchen and board snapshots, the three socket namespaces, the publisher of
    committed events and the kill channel.
  \<^item> \<open>Environment\<close>, \<open>Health\<close>: validation of the environment at boot; the probes, the drain, the
    description of a thrown value and the throttled log lines of an outage.

  \<^bold>\<open>State and operations.\<close> The state of the order and payment paths is a \<open>world\<close>: the tables, the
  events announced so far and the counters. A service method is a function from its arguments and
  the state to its result, an error of the datatype \<open>app_error\<close> or a value, and the new state. Definitions keep the names
  of the code; where two services use one name it carries the component (\<open>create_payment\<close>,
  \<open>update_user\<close>). A database transaction is a function on the tables that runs alone: the code asks for
  row locks or guarded updates where it relies on that, and a failing one leaves the tables as they
  were. Between transactions, and across calls of the gateway, a handler takes a function that says
  what the rest of the system commits meanwhile (\<open>gaps\<close>); \<open>evolves\<close> in \<open>System\<close> closes these under all
  handlers: in every gap of every handler any number of other requests may run, with gaps of their
  own. \<open>catalog_run\<close>, \<open>menu_run\<close>, \<open>photo_run\<close> and \<open>screens_run\<close> do the same for their parts. The properties
  of sessions and tablets depend on requests that overlap, so \<open>Sessions\<close> goes by single statements:
  \<open>identity_run\<close> is the closure of the step relation \<open>id_step\<close>, whose state holds the requests in flight.
  Where the code is only correct when nothing gets in between, the property says so and a lemma next to
  it shows the interleaving that fails.

  \<^bold>\<open>What is proved.\<close>

  \<^item> Here: all interleavings of the money handlers refine the abstract \<open>commit\<close> relation and keep the
    \<open>ledger\<close> invariant; from it, that an order is served exactly when paid once and in full, refunds
    stay within the capture, one payment is live at a time, paid stays paid, the audit trail is a
    path of the machine, queue numbers have no gaps, totals are the sums of their lines.
  \<^item> \<open>OrderPricing\<close>, \<open>RequestHash\<close>, \<open>OrderState\<close>, \<open>BusinessDay\<close>: equality of the code with short reference
    definitions, acyclicity of the machine; \<open>Requests\<close>: the limits of the schemas bound the money computed.
  \<^item> \<open>Guarantees\<close>: retries replay, redelivery changes nothing, events do what the decision table says,
    an order whose live intent the gateway does not give up is not dropped, the sweep empties its
    queue, devices read their own orders.
  \<^item> \<open>Query\<close>, \<open>Rollup\<close>, \<open>Reports\<close>: pages tile the list where a cursor names its row's place, and fail to
    elsewhere; cursors round-trip; the figures of a day agree with the orders; the nightly run closes
    every open day; a report shows each day as of now or as of the night that finalized it.
  \<^item> \<open>RateLimit\<close>, \<open>Sessions\<close>, \<open>Access\<close>, \<open>Realtime\<close>: guessing is bounded, a refresh token works once, an
    administrator remains, device credentials die with their device (both as long as the one
    request that could undo it is not in flight), the decorators implement the
    permission matrix, a tablet hears about its own orders only, a revocation cuts what it names.
  \<^item> \<open>Catalog\<close>, \<open>MenuCache\<close>, \<open>Images\<close>, \<open>Retention\<close>: customers pay what the menu shows, an acknowledged edit is
    never followed by the old menu, stored pictures were rendered here, data goes when its window ends.
  \<^item> \<open>Envelope\<close>, \<open>Environment\<close>, \<open>Health\<close>: one answer for every failure, with the fields of its class, a configuration
    the parts can work with, a probe that says why.

  \<^bold>\<open>Parameters.\<close> Code that is not part of the repository is an argument: the time zone offset at an
  instant, the digests, the password hash and the token library, the payment SDK, the publisher of events,
  the row order a query plan yields and the collation, which Redis commands of an attempt get through,
  the throttler library, calendar intervals, the image library, the formats and lengths of the schema library, number coercion and
  the zone list of the platform, fresh identifiers and the clock. Where a property needs something of
  them it is a hypothesis of it, and its witness instantiates them.

  \<^bold>\<open>Bounds and fuel.\<close> Money and counts are \<open>int\<close>; the inserts check the 32-bit width of the columns.
  JSON parsing recurses on the rest of the text, proved to get shorter. Sweeps recurse over the rows they picked up, batches over a
  backlog that shrinks, retries over their fixed number of attempts; describing a thrown value has
  as fuel the number of objects there are, which \<open>detailOf_returns\<close> proves to be enough.

  \<^bold>\<open>Not modelled.\<close> Metrics, tracing and error reporting (registration of instruments with client
  libraries; the counters a property is about are part of the state), the socket library's adapter
  and the module wiring (no logic of their own), the issue lists of refused bodies, the bucket policy text, log lines other than those of \<open>Health\<close>, the
  seed script and the load test (development data and a traffic generator).
\<close>

section \<open>Lemmas\<close>

lemma ledgerD:
  "ledger d \<Longrightarrow> keys_ok d" "ledger d \<Longrightarrow> payments_ok d" "ledger d \<Longrightarrow> settled_ok d" "ledger d \<Longrightarrow> one_live d"
  "ledger d \<Longrightarrow> refunds_ok d" "ledger d \<Longrightarrow> trails_ok d" "ledger d \<Longrightarrow> numbers_ok d"
  "ledger d \<Longrightarrow> expiry_ok d" "ledger d \<Longrightarrow> lines_ok d"
  by (simp_all add: ledger_def)

lemma paid_payment:
  assumes "ledger d" "r \<in> set (orders d)"
  shows "was_paid (ord_status r) \<longleftrightarrow> (\<exists>!p. p \<in> set (payments d) \<and> settles p r)"
  using ledgerD(3) [OF assms(1)] assms(2) unfolding settled_ok_def by blast

lemma paid_amount:
  assumes "ledger d" "r \<in> set (orders d)" "p \<in> set (payments d)" "pay_orderId p = ord_id r"
  shows "pay_amountMinor p = ord_totalMinor r \<and> pay_currency p = ord_currency r"
proof -
  obtain r' where r': "r' \<in> set (orders d)" "ord_id r' = pay_orderId p"
    "pay_amountMinor p = ord_totalMinor r'" "pay_currency p = ord_currency r'"
    using ledgerD(2) [OF assms(1)] assms(3) unfolding payments_ok_def by blast
  moreover have "r' = r"
    using same_key [of ord_id "orders d" r' r] ledgerD(1) [OF assms(1)] r' assms(2,4)
    by (simp add: keys_ok_def)
  ultimately show ?thesis by simp
qed

section \<open>Properties of the system\<close>

text \<open>
  C1. Refinement: whatever the handlers do, with any interleaving of other runs in the gaps where
  they hold no transaction, they do as a sequence of the changes the abstract specification
  \<open>commit\<close> allows, and the ledger invariant between the order and payment tables holds after
  every run.
\<close>

theorem system_refines_ledger:
  assumes "evolves w w'" "ledger (tables w)"
  shows "commit\<^sup>*\<^sup>* (tables w) (tables w') \<and> ledger (tables w')"
  using evolves_commits [OF assms] by simp

theorem system_refines_ledger_witness:
  "commit\<^sup>*\<^sup>* (tables shop) (tables fully_refunded) \<and> ledger (tables fully_refunded)"
  by (rule system_refines_ledger [OF fully_refunded_evolves blank_ledger [OF shop_blank]])

text \<open>
  C2. Nothing is served unpaid and nobody pays twice: after any run from a blank shop an order is
  paid, in preparation, ready, completed or refunded exactly when one payment for it has succeeded,
  there is exactly one, and it is for the order's total in the order's currency.
\<close>

theorem paid_iff_one_capture:
  assumes "blank w" "evolves w w'" "r \<in> set (orders (tables w'))"
  shows "(ord_status r \<in> {PAID, IN_PREPARATION, READY, COMPLETED, REFUNDED} \<longleftrightarrow>
      (\<exists>!p. p \<in> set (payments (tables w')) \<and> pay_orderId p = ord_id r \<and> pay_status p = PAY_SUCCEEDED)) \<and>
    (\<forall>p \<in> set (payments (tables w')). pay_orderId p = ord_id r \<longrightarrow>
      pay_amountMinor p = ord_totalMinor r \<and> pay_currency p = ord_currency r)"
  using paid_payment [OF from_blank(2) [OF assms(2,1)] assms(3)]
    paid_amount [OF from_blank(2) [OF assms(2,1)] assms(3)]
  by (simp add: was_paid_def settles_def)

theorem paid_iff_one_capture_witness:
  "latte_order PAID None \<in> set (orders (tables paid_up)) \<and>
   (\<exists>!p. p \<in> set (payments (tables paid_up)) \<and> pay_orderId p = ''o1'' \<and> pay_status p = PAY_SUCCEEDED)"
proof -
  have "latte_order PAID None \<in> set (orders (tables paid_up))" by (simp add: paid_up_tables)
  then show ?thesis
    using paid_iff_one_capture [OF shop_blank paid_up_evolves, of "latte_order PAID None"]
    by (simp add: latte_order_def)
qed

text \<open>
  C3. What is given back never exceeds what was captured: every refund row is of a positive amount
  and names a succeeded payment of the ledger; the refunds of a payment sum to at most its amount,
  and to exactly its amount precisely when the order is \<open>REFUNDED\<close>.
\<close>

theorem refunds_within_capture:
  assumes "blank w" "evolves w w'"
  shows "(\<forall>x \<in> set (refunds (tables w')). 0 < ref_amountMinor x \<and>
      (\<exists>p \<in> set (payments (tables w')). pay_id p = ref_paymentId x \<and> pay_status p = PAY_SUCCEEDED)) \<and>
    (\<forall>p \<in> set (payments (tables w')).
      0 \<le> refunded (pay_id p) (tables w') \<and> refunded (pay_id p) (tables w') \<le> pay_amountMinor p \<and>
      (0 < refunded (pay_id p) (tables w') \<longrightarrow> pay_status p = PAY_SUCCEEDED) \<and>
      (\<forall>r \<in> set (orders (tables w')). pay_status p = PAY_SUCCEEDED \<longrightarrow> pay_orderId p = ord_id r \<longrightarrow>
        (refunded (pay_id p) (tables w') = pay_amountMinor p \<longleftrightarrow> ord_status r = REFUNDED)))"
proof -
  let ?d = "tables w'"
  have L: "ledger ?d" by (rule from_blank(2) [OF assms(2,1)])
  have pos: "0 < ref_amountMinor x \<and> (\<exists>p \<in> set (payments ?d). pay_id p = ref_paymentId x \<and> pay_status p = PAY_SUCCEEDED)"
    if "x \<in> set (refunds ?d)" for x
    using ledgerD(5) [OF L] that by (simp add: refunds_ok_def)
  have "0 \<le> refunded i ?d" for i
    unfolding refunded_def by (rule sum_list_nonneg) (auto dest: pos)
  moreover have "pay_status p = PAY_SUCCEEDED" if p: "p \<in> set (payments ?d)" "0 < refunded (pay_id p) ?d" for p
  proof -
    have "filter (\<lambda>x. ref_paymentId x = pay_id p) (refunds ?d) \<noteq> []"
      using p(2) unfolding refunded_def by (metis less_irrefl list.simps(8) sum_list.Nil)
    then obtain x where x: "x \<in> set (refunds ?d)" "ref_paymentId x = pay_id p"
      by (auto simp: filter_empty_conv)
    obtain p' where "p' \<in> set (payments ?d)" "pay_id p' = pay_id p" "pay_status p' = PAY_SUCCEEDED"
      using pos [OF x(1)] x(2) by auto
    then show ?thesis
      using same_key [of pay_id "payments ?d" p' p] ledgerD(1) [OF L] p(1) by (simp add: keys_ok_def)
  qed
  ultimately show ?thesis
    using ledgerD(5) [OF L] pos by (simp add: refunds_ok_def settles_def)
qed

theorem refunds_within_capture_witness:
  "cash_payment \<in> set (payments (tables fully_refunded)) \<and>
   refunded ''p1'' (tables fully_refunded) \<le> 22000 \<and> refunded ''p1'' (tables fully_refunded) = 22000 \<and>
   refunds (tables fully_refunded) \<noteq> [] \<and>
   list_all (\<lambda>x. 0 < ref_amountMinor x) (refunds (tables fully_refunded))"
proof -
  have "cash_payment \<in> set (payments (tables fully_refunded))"
    by (simp add: fully_refunded_tables paid_up_tables)
  moreover have "refunded ''p1'' (tables fully_refunded) = 22000"
    by (simp add: refunded_def fully_refunded_tables half_back_def)
  moreover have "refunds (tables fully_refunded) \<noteq> []"
    by (simp add: fully_refunded_tables)
  ultimately show ?thesis
    using refunds_within_capture [OF shop_blank fully_refunded_evolves]
    by (auto simp: cash_payment_def list_all_iff)
qed

text \<open>
  C4. At most one payment of an order is live at any time, however many tablets ask to pay.
\<close>

theorem one_live_payment:
  assumes "blank w" "evolves w w'"
    and "p \<in> set (payments (tables w'))" "p' \<in> set (payments (tables w'))" "pay_orderId p = pay_orderId p'"
    and "live_status (pay_status p)" "live_status (pay_status p')"
  shows "p = p'"
  using ledgerD(4) [OF from_blank(2) [OF assms(2,1)]] assms(3-) by (simp add: one_live_def)

theorem one_live_payment_witness:
  "\<exists>p. p \<in> set (payments (tables awaiting_card)) \<and> live_status (pay_status p) \<and>
     (\<forall>p' \<in> set (payments (tables awaiting_card)). pay_orderId p' = pay_orderId p \<longrightarrow>
        live_status (pay_status p') \<longrightarrow> p = p')"
proof -
  have "card_payment PAY_PENDING None \<in> set (payments (tables awaiting_card))"
    "live_status (pay_status (card_payment PAY_PENDING None))"
    by (simp_all add: awaiting_card_tables card_payment_def)
  then show ?thesis using one_live_payment [OF shop_blank awaiting_card_evolves] by metis
qed

text \<open>
  C6. The audit trail accounts for every status: the history of an order begins with its creation
  as a draft or awaiting payment, every later entry is a legal transition from where the previous
  one ended, and the last ends in the status the order has.
\<close>

theorem audit_trail_tells_status:
  assumes "blank w" "evolves w w'" "r \<in> set (orders (tables w'))"
  shows "tells None (filter (\<lambda>h. osh_orderId h = ord_id r) (orderStatusHistory (tables w'))) (ord_status r)"
  using ledgerD(6) [OF from_blank(2) [OF assms(2,1)]] assms(3) by (simp add: trails_ok_def trail_def)

theorem audit_trail_tells_status_witness:
  "latte_order REFUNDED None \<in> set (orders (tables fully_refunded)) \<and>
   tells None (orderStatusHistory (tables fully_refunded)) REFUNDED"
proof -
  have o: "latte_order REFUNDED None \<in> set (orders (tables fully_refunded))"
    by (simp add: fully_refunded_tables)
  have "filter (\<lambda>h. osh_orderId h = ''o1'') (orderStatusHistory (tables fully_refunded)) =
      orderStatusHistory (tables fully_refunded)"
    by (simp add: fully_refunded_tables paid_up_tables moved_def)
  then show ?thesis
    using audit_trail_tells_status [OF shop_blank fully_refunded_evolves o] o by (simp add: latte_order_def)
qed

text \<open>
  C7. Queue numbers: on every business day the numbers given out are exactly \<open>A-001\<close> up to the
  day's counter, no two orders of a day share one, and an order without one is a draft or a
  cancelled draft.
\<close>

theorem queue_numbers_gapless:
  assumes "blank w" "evolves w w'"
  shows "{n. \<exists>r \<in> set (orders (tables w')). ord_businessDay r = day \<and> ord_number r = Some n} =
      formatOrderNumber ` {1..last_number day (tables w')} \<and>
    (\<forall>r \<in> set (orders (tables w')). \<forall>r' \<in> set (orders (tables w')).
      ord_number r \<noteq> None \<longrightarrow> ord_number r = ord_number r' \<longrightarrow> ord_businessDay r = ord_businessDay r' \<longrightarrow> r = r') \<and>
    (\<forall>r \<in> set (orders (tables w')). ord_number r = None \<longrightarrow> ord_status r \<in> {DRAFT, CANCELLED})"
  using ledgerD(7) [OF from_blank(2) [OF assms(2,1)]] unfolding numbers_ok_def by blast

theorem queue_numbers_gapless_witness:
  "{n. \<exists>r \<in> set (orders (tables ordered)). ord_businessDay r = ''2024-03-01'' \<and> ord_number r = Some n} =
     formatOrderNumber ` {1..last_number ''2024-03-01'' (tables ordered)} \<and>
   last_number ''2024-03-01'' (tables ordered) = 1"
  using queue_numbers_gapless [OF shop_blank ordered_evolves]
  by (simp add: last_number_def ordered_tables row_by_def sql_find_def)

text \<open>
  C8. An order's total is what its lines say: the sum of the line totals, each a unit price of at
  least zero times the quantity; an order has at least one line, and every line has its order.
\<close>

theorem totals_are_line_sums:
  assumes "blank w" "evolves w w'" "r \<in> set (orders (tables w'))"
  shows "lines_of (ord_id r) (tables w') \<noteq> [] \<and> 0 \<le> ord_totalMinor r \<and>
    ord_totalMinor r = sum_list (map oi_lineTotalMinor (lines_of (ord_id r) (tables w'))) \<and>
    ord_subtotalMinor r = ord_totalMinor r \<and>
    (\<forall>l \<in> set (lines_of (ord_id r) (tables w')). 0 \<le> oi_unitPriceMinorSnapshot l \<and>
      oi_lineTotalMinor l = oi_unitPriceMinorSnapshot l * oi_quantity l)"
  using ledgerD(9) [OF from_blank(2) [OF assms(2,1)]] assms(3) unfolding lines_ok_def lines_of_def
  by (metis (mono_tags, lifting) filter_is_subset subsetD)

theorem totals_are_line_sums_witness:
  "latte_order PAID None \<in> set (orders (tables paid_up)) \<and>
   22000 = sum_list (map oi_lineTotalMinor (lines_of ''o1'' (tables paid_up)))"
proof -
  have "latte_order PAID None \<in> set (orders (tables paid_up))" by (simp add: paid_up_tables)
  then show ?thesis
    using totals_are_line_sums [OF shop_blank paid_up_evolves, of "latte_order PAID None"]
    by (simp add: latte_order_def)
qed

text \<open>
  C5. Money stays taken: from any state on, an order that was paid stays in a paid status, keeps
  its total, currency, business day and queue number, and a succeeded payment stays succeeded, for
  the same order and amount, whatever events, expiries and cancellations follow.
\<close>

theorem paid_stays_paid:
  assumes "blank w" "evolves w w1" "evolves w1 w2"
  shows "(\<forall>r \<in> set (orders (tables w1)). \<exists>r' \<in> set (orders (tables w2)). ord_id r' = ord_id r \<and>
      ord_totalMinor r' = ord_totalMinor r \<and> ord_currency r' = ord_currency r \<and>
      ord_businessDay r' = ord_businessDay r \<and> (ord_number r \<noteq> None \<longrightarrow> ord_number r' = ord_number r) \<and>
      (was_paid (ord_status r) \<longrightarrow> was_paid (ord_status r'))) \<and>
    (\<forall>p \<in> set (payments (tables w1)). \<exists>p' \<in> set (payments (tables w2)). pay_id p' = pay_id p \<and>
      pay_orderId p' = pay_orderId p \<and> pay_amountMinor p' = pay_amountMinor p \<and>
      (pay_status p = PAY_SUCCEEDED \<longrightarrow> pay_status p' = PAY_SUCCEEDED))"
proof -
  have "grows (tables w1) (tables w2)"
    by (rule evolves_commits(3) [OF assms(3) from_blank(2) [OF assms(2,1)]])
  then show ?thesis unfolding grows_def order_kept_def payment_kept_def by meson
qed

theorem paid_stays_paid_witness:
  "latte_order PAID None \<in> set (orders (tables paid_up)) \<and>
   (\<exists>r' \<in> set (orders (tables part_refunded)). ord_id r' = ''o1'' \<and> was_paid (ord_status r'))"
proof -
  have "evolves paid_up part_refunded"
    unfolding part_refunded_def by (rule evolves.refunding [OF evolves.idle]) (simp add: evolves.idle)
  from paid_stays_paid [OF shop_blank paid_up_evolves this]
  have *: "\<forall>r \<in> set (orders (tables paid_up)). \<exists>r' \<in> set (orders (tables part_refunded)). ord_id r' = ord_id r \<and>
      (was_paid (ord_status r) \<longrightarrow> was_paid (ord_status r'))" by blast
  have o: "latte_order PAID None \<in> set (orders (tables paid_up))" by (simp add: paid_up_tables)
  with * show ?thesis by (fastforce simp: latte_order_def)
qed

end
